(* ===== verification/Types.thy ===== *)
theory Types
  imports Prelude
begin

text \<open>
  The data types of \<open>common/src/types/mod.rs\<close>, \<open>common/src/apptainer.rs\<close>,
  \<open>common/src/usage.rs\<close> and \<open>common/src/message.rs\<close>: jobs, steps, workers' resources, reservations,
  accounting records, container manifests and the messages the controller sends. Every struct is
  a record with the source's fields in the source's order, with a two or three letter prefix.
  \<open>f32\<close> and \<open>f64\<close> fields are reals; rounding is written out where the code computes with them.
  A \<open>BTreeMap\<close> is an association list too, in key order.

  The operations on these types are in the theories of the components that use them.
\<close>

section \<open>Jobs and steps\<close>

datatype job_status = Pending | Running | Completed i32 | Failed string | Killed

datatype step_status = StepPending | StepRunning | StepCompleted i32 | StepFailed string | StepKilled

datatype qos_level = Background | Preemptible | Production | Interactive

text \<open>The derived \<open>Ord\<close> of \<open>QosLevel\<close> is the order of declaration.\<close>

fun qos_rank :: "qos_level \<Rightarrow> nat" where
  "qos_rank Background = 0"
| "qos_rank Preemptible = 1"
| "qos_rank Production = 2"
| "qos_rank Interactive = 3"

instantiation qos_level :: linorder
begin

definition less_eq_qos_level :: "qos_level \<Rightarrow> qos_level \<Rightarrow> bool" where
  "less_eq_qos_level a b = (qos_rank a \<le> qos_rank b)"

definition less_qos_level :: "qos_level \<Rightarrow> qos_level \<Rightarrow> bool" where
  "less_qos_level a b = (qos_rank a < qos_rank b)"

instance
proof
  fix a b c :: qos_level
  show "(a < b) = (a \<le> b \<and> \<not> b \<le> a)" "a \<le> a" "a \<le> b \<or> b \<le> a"
    by (auto simp: less_eq_qos_level_def less_qos_level_def)
  show "a \<le> b \<Longrightarrow> b \<le> c \<Longrightarrow> a \<le> c" by (simp add: less_eq_qos_level_def)
  show "a \<le> b \<Longrightarrow> b \<le> a \<Longrightarrow> a = b" by (cases a; cases b) (simp_all add: less_eq_qos_level_def)
qed

end

datatype dependency_condition = AfterOk | AfterNotOk | AfterAny

datatype log_type = Stdout | Stderr

record file_handle =
  fh_file_id :: string
  fh_original_name :: string
  fh_is_executable :: bool
  fh_is_archive :: bool

record mpi_stats =
  ms_send_calls :: u32
  ms_send_bytes :: u64
  ms_send_time_secs :: real

record dependency_spec =
  ds_parent_id :: u64
  ds_condition :: dependency_condition

record job_output_artifact =
  oa_path :: string
  oa_output_type :: string
  oa_file_id :: "string option"
  oa_size :: "u64 option"
  oa_updated_at :: "u64 option"

record worker_log_files =
  wl_stdout_file_id :: "string option"
  wl_stderr_file_id :: "string option"

record reservation =
  rv_id :: string
  rv_nodes :: "string list"
  rv_start_time :: u64
  rv_end_time :: u64
  rv_owner :: string

record resources =
  rs_cpu_cores :: usize
  rs_total_memory :: u64
  rs_free_memory :: u64
  rs_cpu_usage :: real
  rs_cpu_model :: string
  rs_arch :: string
  rs_os_name :: string
  rs_os_version :: string
  rs_kernel_version :: string
  rs_host_name :: string
  rs_load_avg :: "real list"
  rs_disk_total :: u64
  rs_disk_free :: u64
  rs_uptime :: u64
  rs_boot_time :: u64
  rs_process_count :: u32
  rs_swap_total :: u64
  rs_swap_free :: u64
  rs_version :: string
  rs_gres :: "(string, u64) hmap"
  rs_cgroup_enabled :: bool

record job_stats =
  jst_job_id :: u64
  jst_cpu_usage_percent :: real
  jst_memory_usage_bytes :: u64
  jst_is_idle :: bool
  jst_idle_duration :: u64
  jst_cgroup_active :: bool

section \<open>Container manifests\<close>

record solver_identity =
  sid_vendor :: string
  sid_product :: string
  sid_version :: string
  sid_capabilities :: "string list"

record execution =
  ex_entrypoint :: string
  ex_launch_wrapper :: "string option"
  ex_command_template :: string
  ex_environment_vars :: "(string, string) hmap"

record input_mapping =
  im_role :: string
  im_match_pattern :: string
  im_required :: bool

record output_collection =
  oc_path :: string
  oc_output_type :: string

record file_handling =
  fhd_working_dir :: string
  fhd_input_mapping :: "input_mapping list"
  fhd_output_collection :: "output_collection list"

record parameter_mapping =
  pm_options :: "string list option"
  pm_default :: "string option"
  pm_flag :: "string option"
  pm_param_type :: "string option"

record solver_manifest =
  sm_manifest_version :: string
  sm_solver_identity :: solver_identity
  sm_execution :: execution
  sm_file_handling :: file_handling
  sm_parameter_mapping :: "(string, parameter_mapping) hmap"
  sm_vnc_enabled :: bool

record container_asset =
  ca_id :: string
  ca_name :: string
  ca_image_uri :: string
  ca_manifest :: solver_manifest

section \<open>Job, step and accounting records\<close>

record step_info =
  si_step_id :: u32
  si_parent_job_id :: u64
  si_binary :: string
  si_args :: "string list"
  si_status :: step_status
  si_req_nodes :: usize
  si_req_cores :: u32
  si_ntasks :: u32
  si_assigned_workers :: "string list"
  si_is_idle :: bool
  si_idle_duration :: u64
  si_inputs :: "file_handle list"
  si_env_vars :: "(string \<times> string) list"

record job_info =
  ji_id :: u64
  ji_job_name :: "string option"
  ji_job_comment :: "string option"
  ji_binary :: string
  ji_args :: "string list"
  ji_status :: job_status
  ji_req_nodes :: usize
  ji_req_cores :: u32
  ji_req_memory :: u64
  ji_assigned_workers :: "string list"
  ji_walltime :: u64
  ji_start_time :: "u64 option"
  ji_priority :: u32
  ji_user_id :: string
  ji_working_directory :: string
  ji_queued_time :: u64
  ji_current_cpu_usage :: real
  ji_current_memory_usage :: u64
  ji_is_idle :: bool
  ji_idle_duration :: u64
  ji_end_time :: "u64 option"
  ji_env_vars :: "(string \<times> string) list"
  ji_reason :: "string option"
  ji_array_id :: "u64 option"
  ji_array_task_id :: "u32 option"
  ji_inputs :: "file_handle list"
  ji_cgroup_active :: bool
  ji_gres_req :: "(string, u64) hmap"
  ji_allocated_cores :: "(string, usize list) hmap"
  ji_allocated_gres :: "(string, (string, u32 list) hmap) hmap"
  ji_mpi_stats :: "mpi_stats option"
  ji_secret :: string
  ji_stdout_file_id :: "string option"
  ji_stderr_file_id :: "string option"
  ji_workdir_file_id :: "string option"
  ji_worker_log_files :: "(string, worker_log_files) hmap"
  ji_output_artifacts :: "job_output_artifact list"
  ji_wait_for_licenses :: bool
  ji_estimated_walltime :: "u64 option"
  ji_priority_offset :: "i32 option"
  ji_dependencies :: "u64 list option"
  ji_dependency_specs :: "string list option"
  ji_qos :: qos_level
  ji_container_asset :: "container_asset option"
  ji_vnc_enabled :: bool
  ji_inherit_host_env :: bool
  ji_env_allowlist :: "string list option"
  ji_job_profile :: "string option"
  ji_interactive_port :: "u16 option"

record job_usage =
  ju_job_id :: u64
  ju_job_name :: "string option"
  ju_job_comment :: "string option"
  ju_command_line :: string
  ju_user_id :: string
  ju_submission_time :: u64
  ju_start_time :: "u64 option"
  ju_end_time :: "u64 option"
  ju_exit_code :: "i32 option"
  ju_status :: job_status
  ju_cpu_time_ms :: u64
  ju_max_memory_bytes :: u64
  ju_req_nodes :: usize
  ju_req_cores :: u32
  ju_req_memory :: u64
  ju_array_id :: "u64 option"
  ju_array_task_id :: "u32 option"
  ju_assigned_workers :: "string list"
  ju_gres_req :: "(string, u64) hmap"
  ju_cgroup_active :: bool
  ju_secret :: string
  ju_stdout_file_id :: "string option"
  ju_stderr_file_id :: "string option"
  ju_workdir_file_id :: "string option"
  ju_worker_log_files :: "(string, worker_log_files) hmap"
  ju_output_artifacts :: "job_output_artifact list"
  ju_wait_for_licenses :: bool
  ju_estimated_walltime :: "u64 option"
  ju_priority_offset :: "i32 option"
  ju_dependencies :: "u64 list option"
  ju_dependency_specs :: "string list option"
  ju_qos :: qos_level
  ju_container_asset :: "container_asset option"

section \<open>Messages to workers\<close>

record run_job_msg =
  rj_job_id :: u64
  rj_binary :: string
  rj_args :: "string list"
  rj_node_list :: "string list"
  rj_assigned_cores :: "usize list option"
  rj_req_memory :: u64
  rj_working_directory :: string
  rj_user_id :: string
  rj_walltime :: u64
  rj_submission_time :: u64
  rj_array_id :: "u64 option"
  rj_array_task_id :: "u32 option"
  rj_inputs :: "file_handle list"
  rj_allocated_gres :: "(string, u32 list) hmap"
  rj_gres_req :: "(string, u64) hmap"
  rj_secret :: string
  rj_controller_url :: string
  rj_env_vars :: "(string \<times> string) list"
  rj_wait_for_licenses :: bool
  rj_estimated_walltime :: "u64 option"
  rj_priority_offset :: "i32 option"
  rj_dependencies :: "u64 list option"
  rj_dependency_specs :: "string list option"
  rj_qos :: qos_level
  rj_container_asset :: "container_asset option"
  rj_vnc_enabled :: bool
  rj_inherit_host_env :: bool
  rj_env_allowlist :: "string list option"
  rj_job_profile :: "string option"

record run_step_msg =
  rst_parent_job_id :: u64
  rst_step_id :: u32
  rst_binary :: string
  rst_args :: "string list"
  rst_node_list :: "string list"
  rst_assigned_cores :: "usize list option"
  rst_working_directory :: string
  rst_user_id :: string
  rst_assigned_ranks :: "u32 list"
  rst_total_ranks :: u32
  rst_inputs :: "file_handle list"
  rst_allocated_gres :: "(string, u32 list) hmap"
  rst_gres_req :: "(string, u64) hmap"
  rst_secret :: string
  rst_controller_url :: string
  rst_env_vars :: "(string \<times> string) list"

text \<open>
  The variants of \<open>Message\<close> that the modelled handlers send to workers; the replies to a client are
  in \<open>ClientHandler\<close>.
\<close>

datatype message =
    RunJob run_job_msg
  | TerminateJob u64
  | PreemptJob u64
  | RunStep run_step_msg
  | StepPMIGetResponse u64 u32 u32 u64 string "string option"
  | StepPMIBarrierRelease u64 u32
  | SetPulseInterval real

end
