(* ===== verification/ControllerState.thy ===== *)
theory ControllerState
  imports Types
begin

text \<open>
  The controller's in-memory state (\<open>controller/src/state.rs\<close>): worker handles with their
  core and GRES pools, the global state behind the mutex, message routing to workers
  (\<open>send_to_worker\<close>, \<open>get_worker_sender\<close>), and the accounting conversions of
  \<open>controller/src/persistence.rs\<close>.

  A channel sender is a channel number. What the controller hands to a channel is appended to
  \<open>gs_outbox\<close> (a channel that is full is served later by a spawned task, so the message is sent in
  both cases); the numbers of the channels whose receiver is gone are in \<open>gs_closed\<close>. The MPI host
  files the scheduler writes are kept per job in \<open>gs_hostfiles\<close>, the state file in \<open>gs_disk\<close>. The permit of
  \<open>scheduler_notify\<close> (a \<open>tokio::sync::Notify\<close>) is one bit.
\<close>

section \<open>State\<close>

type_synonym chan = nat

datatype worker_routing = Direct chan | Gateway string

datatype socket_addr = V4 string u16 | V6 string u16

fun ip_to_string :: "socket_addr \<Rightarrow> string" where
  "ip_to_string (V4 ip p) = ip"
| "ip_to_string (V6 ip p) = ip"

fun addr_to_string :: "socket_addr \<Rightarrow> string" where
  "addr_to_string (V4 ip p) = ip @ '':'' @ show_u64 p"
| "addr_to_string (V6 ip p) = ''['' @ ip @ '']:'' @ show_u64 p"

record worker_handle =
  wh_addr :: socket_addr
  wh_hostname :: string
  wh_resources :: resources
  wh_routing :: worker_routing
  wh_assigned_jobs :: "u64 list"
  wh_allocated_memory :: u64
  wh_connection_id :: u64
  wh_available_core_ids :: "usize list"
  wh_job_core_assignments :: "(u64, usize list) hmap"
  wh_available_gres_ids :: "(string, u32 list) hmap"
  wh_job_gres_assignments :: "(u64, (string, u32 list) hmap) hmap"
  wh_connected :: bool
  wh_last_seen :: u64
  wh_cgroup_enabled :: bool
  wh_draining :: bool
  wh_current_pulse_interval :: real
  wh_features :: u64

datatype controller_role = Leader | Follower

record usage_tracker =
  ut_usage :: "(string, real) hmap"
  ut_last_decay :: u64

record multinode_job_tracking =
  mt_dispatched_workers :: "(u64, string list) hmap"
  mt_worker_log_files :: "(u64, (string, string option \<times> string option) hmap) hmap"
  mt_done_workers :: "(u64, string list) hmap"

record persisted_state =
  pe_jobs :: "(u64, job_info) hmap"
  pe_queue :: "u64 list"
  pe_next_job_id :: u64
  pe_usage_tracker :: usage_tracker
  pe_steps :: "(u64 \<times> u32, step_info) hmap"
  pe_next_step_id :: u32
  pe_reservations :: "(string, reservation) hmap"

datatype envelope =
    Plain message
  | StateSync persisted_state
  | ForwardToWorker string message
  | RegisterWorker string string resources u64 string
  | DeregisterWorker string

record global_state =
  gs_workers :: "(string, worker_handle) hmap"
  gs_jobs :: "(u64, job_info) hmap"
  gs_queue :: "u64 list"
  gs_next_job_id :: u64
  gs_usage_tracker :: usage_tracker
  gs_log_requests :: "(u64, chan) hmap"
  gs_component_log_requests :: "(u64, chan) hmap"
  gs_scheduler_notify :: bool
  gs_steps :: "(u64 \<times> u32, step_info) hmap"
  gs_next_step_id :: u32
  gs_role :: controller_role
  gs_leader_addr :: "string option"
  gs_leader_id :: "string option"
  gs_peers :: "(string, chan) hmap"
  gs_job_output_buffers :: "(u64, string) hmap"
  gs_multinode_job_tracking :: multinode_job_tracking
  gs_api_port :: u16
  gs_step_waiters :: "(u64 \<times> u32, chan list) hmap"
  gs_step_output_waiters :: "(u64 \<times> u32, chan list) hmap"
  gs_next_request_id :: u64
  gs_reservations :: "(string, reservation) hmap"
  gs_outbox :: "(chan \<times> envelope) list"
  gs_closed :: "chan list"
  gs_hostfiles :: "(u64, string) hmap"
  gs_disk :: "persisted_state option"

text \<open>
  What the handlers read from their surroundings. \<open>ev_now\<close> is the clock of one handler run (the
  seconds since the epoch; a handler that reads it several times sees the same second). \<open>ev_rnd\<close> is
  the rounding of \<open>f64\<close> operations, \<open>ev_rnd32\<close> that of \<open>f32\<close>, and \<open>ev_powf\<close> is \<open>f64::powf\<close>. \<open>ev_key_order\<close> and
  \<open>ev_id_order\<close> are the iteration orders of the local hash tables a pass builds.
\<close>

record env =
  ev_now :: u64
  ev_starvation_threshold :: "string option"
  ev_boost_rate :: "real option"
  ev_rnd :: "real \<Rightarrow> real"
  ev_rnd32 :: "real \<Rightarrow> real"
  ev_powf :: "real \<Rightarrow> real \<Rightarrow> real"
  ev_idle_timeout :: "string option"
  ev_key_order :: "(string \<times> string) list \<Rightarrow> (string \<times> string) list"
  ev_id_order :: "u64 list \<Rightarrow> u64 list"

section \<open>Routing messages to workers\<close>

definition post :: "chan \<Rightarrow> envelope \<Rightarrow> global_state \<Rightarrow> global_state" where
  "post c e s = s\<lparr>gs_outbox := gs_outbox s @ [(c, e)]\<rparr>"

definition send_to_worker :: "global_state \<Rightarrow> string \<Rightarrow> message \<Rightarrow> global_state \<times> (string + unit)" where
  "send_to_worker s worker_id msg =
     (let not_found = (s, Inl (''Worker '' @ worker_id @ '' not found or routing path unavailable'')) in
      case hm_get (gs_workers s) worker_id of
        None \<Rightarrow> not_found
      | Some worker \<Rightarrow>
          (case wh_routing worker of
             Direct tx \<Rightarrow>
               (if tx \<in> set (gs_closed s) then (s, Inl ''Worker channel closed'')
                else (post tx (Plain msg) s, Inr ()))
           | Gateway peer_id \<Rightarrow>
               (case hm_get (gs_peers s) peer_id of
                  None \<Rightarrow> not_found
                | Some tx \<Rightarrow>
                    (if tx \<in> set (gs_closed s) then (s, Inl ''Peer channel closed'')
                     else (post tx (ForwardToWorker worker_id msg) s, Inr ())))))"

text \<open>\<open>let _ = send_to_worker(..)\<close>: the handlers ignore the error.\<close>

definition send_ignore :: "global_state \<Rightarrow> string \<Rightarrow> message \<Rightarrow> global_state" where
  "send_ignore s worker_id msg = fst (send_to_worker s worker_id msg)"

datatype worker_sender = SDirect chan | SGateway string chan

definition normalize_component_id :: "string \<Rightarrow> string \<Rightarrow> string" where
  "normalize_component_id local_hostname component_id =
     (if component_id = ''controller'' then ''controller''
      else if starts_with local_hostname ''veloce-'' \<and> \<not> starts_with component_id ''veloce-''
        then ''veloce-'' @ component_id
      else if \<not> starts_with local_hostname ''veloce-'' \<and> starts_with component_id ''veloce-''
        then drop (length ''veloce-'') component_id
      else component_id)"

definition sender_of :: "global_state \<Rightarrow> string \<Rightarrow> worker_handle \<Rightarrow> worker_sender option" where
  "sender_of s wid worker =
     (case wh_routing worker of
        Direct tx \<Rightarrow> Some (SDirect tx)
      | Gateway peer_id \<Rightarrow> map_option (SGateway wid) (hm_get (gs_peers s) peer_id))"

definition get_worker_sender :: "string \<Rightarrow> global_state \<Rightarrow> string \<Rightarrow> worker_sender option" where
  "get_worker_sender local_hostname s worker_id =
     (case hm_get (gs_workers s) worker_id of
        Some worker \<Rightarrow> sender_of s worker_id worker
      | None \<Rightarrow>
          (let normalized = normalize_component_id local_hostname worker_id in
           case find (\<lambda>(i, w). i = worker_id \<or> wh_hostname w = worker_id
                        \<or> i = normalized \<or> wh_hostname w = normalized) (gs_workers s) of
             Some (i, worker) \<Rightarrow> sender_of s i worker
           | None \<Rightarrow> None))"

definition get_leader_peer_tx :: "global_state \<Rightarrow> chan option" where
  "get_leader_peer_tx s =
     (case gs_leader_id s of
        Some leader_id \<Rightarrow> hm_get (gs_peers s) leader_id
      | None \<Rightarrow> (if length (gs_peers s) = 1 then Some (hd (hm_values (gs_peers s))) else None))"

definition notify_one :: "global_state \<Rightarrow> global_state" where
  "notify_one s = s\<lparr>gs_scheduler_notify := True\<rparr>"

section \<open>Accounting records\<close>

definition job_to_usage :: "job_info \<Rightarrow> job_usage" where
  "job_to_usage job = \<lparr>
     ju_job_id = ji_id job,
     ju_job_name = ji_job_name job,
     ju_job_comment = ji_job_comment job,
     ju_command_line = ji_binary job @ '' '' @ join '' '' (ji_args job),
     ju_user_id = ji_user_id job,
     ju_submission_time = ji_queued_time job,
     ju_start_time = ji_start_time job,
     ju_end_time = ji_end_time job,
     ju_exit_code = (case ji_status job of Completed code \<Rightarrow> Some code | _ \<Rightarrow> None),
     ju_status = ji_status job,
     ju_cpu_time_ms = 0,
     ju_max_memory_bytes = 0,
     ju_req_nodes = ji_req_nodes job,
     ju_req_cores = ji_req_cores job,
     ju_req_memory = ji_req_memory job,
     ju_array_id = ji_array_id job,
     ju_array_task_id = ji_array_task_id job,
     ju_assigned_workers = ji_assigned_workers job,
     ju_gres_req = ji_gres_req job,
     ju_cgroup_active = ji_cgroup_active job,
     ju_secret = ji_secret job,
     ju_stdout_file_id = ji_stdout_file_id job,
     ju_stderr_file_id = ji_stderr_file_id job,
     ju_workdir_file_id = ji_workdir_file_id job,
     ju_worker_log_files = ji_worker_log_files job,
     ju_output_artifacts = ji_output_artifacts job,
     ju_wait_for_licenses = ji_wait_for_licenses job,
     ju_estimated_walltime = ji_estimated_walltime job,
     ju_priority_offset = ji_priority_offset job,
     ju_dependencies = ji_dependencies job,
     ju_dependency_specs = ji_dependency_specs job,
     ju_qos = ji_qos job,
     ju_container_asset = ji_container_asset job\<rparr>"

text \<open>\<open>a.or(b)\<close> of an option.\<close>

definition opt_or :: "'a option \<Rightarrow> 'a option \<Rightarrow> 'a option" where
  "opt_or a b = (case a of None \<Rightarrow> b | Some _ \<Rightarrow> a)"

definition merge_usage_report_with_job :: "job_usage \<Rightarrow> job_info \<Rightarrow> job_usage" where
  "merge_usage_report_with_job usage job =
     (let m = job_to_usage job in
      m\<lparr>ju_status := ju_status usage,
        ju_exit_code := ju_exit_code usage,
        ju_end_time := opt_or (ju_end_time usage) (ji_end_time job),
        ju_cpu_time_ms := ju_cpu_time_ms usage,
        ju_max_memory_bytes := ju_max_memory_bytes usage,
        ju_cgroup_active := ju_cgroup_active usage,
        ju_stdout_file_id := opt_or (ju_stdout_file_id usage) (ji_stdout_file_id job),
        ju_stderr_file_id := opt_or (ju_stderr_file_id usage) (ji_stderr_file_id job),
        ju_workdir_file_id := opt_or (ju_workdir_file_id usage) (ji_workdir_file_id job),
        ju_worker_log_files :=
          (if ju_worker_log_files usage \<noteq> [] then ju_worker_log_files usage
           else if ji_worker_log_files job \<noteq> [] then ji_worker_log_files job
           else ju_worker_log_files m),
        ju_output_artifacts :=
          (if ju_output_artifacts usage \<noteq> [] then ju_output_artifacts usage
           else ju_output_artifacts m),
        ju_assigned_workers :=
          (if ju_assigned_workers m = [] then ju_assigned_workers usage
           else ju_assigned_workers m)\<rparr>)"

section \<open>Rebuilding a worker's pools from the job table\<close>

record rebuilt_worker_allocations =
  ra_assigned_jobs :: "u64 list"
  ra_allocated_memory :: u64
  ra_available_core_ids :: "usize list"
  ra_job_core_assignments :: "(u64, usize list) hmap"
  ra_available_gres_ids :: "(string, u32 list) hmap"
  ra_job_gres_assignments :: "(u64, (string, u32 list) hmap) hmap"

text \<open>\<open>(0..count as u32).collect()\<close> for a \<open>u64\<close> count: the cast keeps the low 32 bits.\<close>

definition gres_count :: "u64 \<Rightarrow> nat" where
  "gres_count c = unat (ucast c :: u32)"

definition full_gres_ids :: "(string, u64) hmap \<Rightarrow> (string, u32 list) hmap" where
  "full_gres_ids gres = map (\<lambda>(name, count). (name, map of_nat [0..<gres_count count])) gres"

definition runs_on :: "string \<Rightarrow> job_info \<Rightarrow> bool" where
  "runs_on worker_id job = (ji_status job = Running \<and> worker_id \<in> set (ji_assigned_workers job))"

definition drop_ids :: "'a list \<Rightarrow> 'a list \<Rightarrow> 'a list" where
  "drop_ids ids available = filter (\<lambda>i. i \<notin> set ids) available"

definition rebuild_cores :: "string \<Rightarrow> job_info \<Rightarrow> rebuilt_worker_allocations \<Rightarrow> rebuilt_worker_allocations" where
  "rebuild_cores worker_id job r =
     (case hm_get (ji_allocated_cores job) worker_id of
        None \<Rightarrow> r
      | Some cores \<Rightarrow>
          r\<lparr>ra_job_core_assignments := hm_insert (ji_id job) cores (ra_job_core_assignments r),
            ra_available_core_ids := drop_ids cores (ra_available_core_ids r)\<rparr>)"

definition rebuild_gres :: "string \<Rightarrow> job_info \<Rightarrow> rebuilt_worker_allocations \<Rightarrow> rebuilt_worker_allocations" where
  "rebuild_gres worker_id job r =
     (case hm_get (ji_allocated_gres job) worker_id of
        None \<Rightarrow> r
      | Some gres \<Rightarrow>
          r\<lparr>ra_job_gres_assignments := hm_insert (ji_id job) gres (ra_job_gres_assignments r),
            ra_available_gres_ids :=
              fold (\<lambda>(name, ids) m. hm_modify name (drop_ids ids) m) gres (ra_available_gres_ids r)\<rparr>)"

definition rebuild_job :: "string \<Rightarrow> job_info \<Rightarrow> rebuilt_worker_allocations \<Rightarrow> rebuilt_worker_allocations" where
  "rebuild_job worker_id job r =
     (if runs_on worker_id job
      then rebuild_gres worker_id job (rebuild_cores worker_id job
             (r\<lparr>ra_assigned_jobs := hs_insert (ji_id job) (ra_assigned_jobs r),
                ra_allocated_memory := ra_allocated_memory r + ji_req_memory job\<rparr>))
      else r)"

definition rebuild_worker_allocations ::
    "string \<Rightarrow> resources \<Rightarrow> (u64, job_info) hmap \<Rightarrow> rebuilt_worker_allocations" where
  "rebuild_worker_allocations worker_id res jobs =
     fold (rebuild_job worker_id) (hm_values jobs)
       \<lparr>ra_assigned_jobs = [], ra_allocated_memory = 0,
        ra_available_core_ids = [0..<rs_cpu_cores res],
        ra_job_core_assignments = [],
        ra_available_gres_ids = full_gres_ids (rs_gres res),
        ra_job_gres_assignments = []\<rparr>"

section \<open>Facts about routing\<close>

lemma send_to_worker_outbox_only:
  "\<exists>e. fst (send_to_worker s w m) = s\<lparr>gs_outbox := gs_outbox s @ e\<rparr>"
  by (auto simp: send_to_worker_def post_def Let_def split: option.splits worker_routing.splits
      intro: exI [of _ "[]"])

lemma send_ignore_fields [simp]:
  "gs_workers (send_ignore s w m) = gs_workers s"
  "gs_jobs (send_ignore s w m) = gs_jobs s"
  "gs_queue (send_ignore s w m) = gs_queue s"
  "gs_next_job_id (send_ignore s w m) = gs_next_job_id s"
  "gs_usage_tracker (send_ignore s w m) = gs_usage_tracker s"
  "gs_steps (send_ignore s w m) = gs_steps s"
  "gs_next_step_id (send_ignore s w m) = gs_next_step_id s"
  "gs_role (send_ignore s w m) = gs_role s"
  "gs_peers (send_ignore s w m) = gs_peers s"
  "gs_multinode_job_tracking (send_ignore s w m) = gs_multinode_job_tracking s"
  "gs_api_port (send_ignore s w m) = gs_api_port s"
  "gs_reservations (send_ignore s w m) = gs_reservations s"
  "gs_closed (send_ignore s w m) = gs_closed s"
  "gs_scheduler_notify (send_ignore s w m) = gs_scheduler_notify s"
  using send_to_worker_outbox_only [of s w m] by (auto simp: send_ignore_def)

lemma send_ignore_outbox: "\<exists>e. gs_outbox (send_ignore s w m) = gs_outbox s @ e"
  using send_to_worker_outbox_only [of s w m] by (auto simp: send_ignore_def)

lemma drop_ids_set [simp]: "set (drop_ids ids av) = set av - set ids"
  by (auto simp: drop_ids_def)

lemma drop_ids_distinct [simp]: "distinct av \<Longrightarrow> distinct (drop_ids ids av)"
  by (simp add: drop_ids_def)

lemma opt_or_simps [simp]: "opt_or None b = b" "opt_or (Some a) b = Some a"
  by (simp_all add: opt_or_def)

end
