(* ===== verification/WorkerPool.thy ===== *)
theory WorkerPool
  imports ControllerState
begin

text \<open>
  The core and GRES pools of one worker: the release loop body of \<open>release_job_resources_internal\<close>
  (\<open>controller/src/scheduler/finalize.rs\<close>) and the allocation loop body of \<open>schedule_jobs\<close>
  (\<open>controller/src/scheduler/mod.rs\<close>), with the invariant that no id is held twice and none is lost.

  \<open>Vec::drain(0..n)\<close> panics when \<open>n\<close> exceeds the length; a panic is a value of \<open>panic\<close>.
\<close>

section \<open>Operations on one worker\<close>

definition drain_front :: "usize \<Rightarrow> 'a list \<Rightarrow> panic + ('a list \<times> 'a list)" where
  "drain_front n xs = (if n \<le> length xs then Inr (take n xs, drop n xs) else Inl DrainOutOfRange)"

definition give_back :: "('a \<Rightarrow> bool) \<Rightarrow> 'a::linorder list \<Rightarrow> 'a list \<Rightarrow> 'a list" where
  "give_back ok ids available =
     sort (fold (\<lambda>i av. if ok i \<and> i \<notin> set av then av @ [i] else av) ids available)"

definition release_cores :: "u64 \<Rightarrow> string \<Rightarrow> job_info \<Rightarrow> worker_handle \<Rightarrow> worker_handle" where
  "release_cores job_id worker_id job w =
     (let released = (case hm_get (wh_job_core_assignments w) job_id of
                        Some cores \<Rightarrow> cores
                      | None \<Rightarrow> (case hm_get (ji_allocated_cores job) worker_id of
                                  Some cores \<Rightarrow> cores | None \<Rightarrow> []))
      in w\<lparr>wh_job_core_assignments := hm_remove job_id (wh_job_core_assignments w),
           wh_available_core_ids :=
             give_back (\<lambda>c. c < rs_cpu_cores (wh_resources w)) released (wh_available_core_ids w)\<rparr>)"

definition gres_limit :: "worker_handle \<Rightarrow> string \<Rightarrow> nat" where
  "gres_limit w name = (case hm_get (rs_gres (wh_resources w)) name of None \<Rightarrow> 0 | Some c \<Rightarrow> gres_count c)"

definition release_gres :: "u64 \<Rightarrow> string \<Rightarrow> job_info \<Rightarrow> worker_handle \<Rightarrow> worker_handle" where
  "release_gres job_id worker_id job w =
     (let released = opt_or (hm_get (wh_job_gres_assignments w) job_id)
                            (hm_get (ji_allocated_gres job) worker_id);
          w' = w\<lparr>wh_job_gres_assignments := hm_remove job_id (wh_job_gres_assignments w)\<rparr>
      in case released of
           None \<Rightarrow> w'
         | Some job_gres \<Rightarrow>
             w'\<lparr>wh_available_gres_ids :=
                  fold (\<lambda>(name, ids). hm_entry name [] (give_back (\<lambda>i. unat i < gres_limit w name) ids))
                    job_gres (wh_available_gres_ids w)\<rparr>)"

definition reset_if_idle :: "worker_handle \<Rightarrow> worker_handle" where
  "reset_if_idle w =
     (if wh_assigned_jobs w = []
      then w\<lparr>wh_available_core_ids := [0..<rs_cpu_cores (wh_resources w)],
             wh_available_gres_ids := full_gres_ids (rs_gres (wh_resources w))\<rparr>
      else w)"

definition release_worker :: "u64 \<Rightarrow> job_info \<Rightarrow> string \<Rightarrow> worker_handle \<Rightarrow> worker_handle" where
  "release_worker job_id job worker_id w =
     (if job_id \<in> set (wh_assigned_jobs w)
      then (let w1 = w\<lparr>wh_assigned_jobs := hs_remove job_id (wh_assigned_jobs w)\<rparr>;
                w2 = release_cores job_id worker_id job w1;
                w3 = w2\<lparr>wh_allocated_memory := sat_sub (wh_allocated_memory w2) (ji_req_memory job)\<rparr>;
                w4 = release_gres job_id worker_id job w3
            in reset_if_idle w4)
      else w)"

fun alloc_gres :: "(string \<times> u64) list \<Rightarrow> (string, u32 list) hmap \<Rightarrow> (string, u32 list) hmap \<Rightarrow>
    panic + ((string, u32 list) hmap \<times> (string, u32 list) hmap)" where
  "alloc_gres [] available acc = Inr (available, acc)"
| "alloc_gres ((name, req_count) # reqs) available acc =
     (case hm_get available name of
        None \<Rightarrow> alloc_gres reqs available acc
      | Some ids \<Rightarrow>
          (case drain_front (unat req_count) ids of
             Inl p \<Rightarrow> Inl p
           | Inr (taken, rest) \<Rightarrow>
               alloc_gres reqs (hm_insert name rest available) (hm_insert name taken acc)))"

definition alloc_worker :: "u64 \<Rightarrow> job_info \<Rightarrow> worker_handle \<Rightarrow>
    panic + (worker_handle \<times> usize list \<times> (string, u32 list) hmap)" where
  "alloc_worker job_id job w =
     (case drain_front (unat (ji_req_cores job)) (wh_available_core_ids w) of
        Inl p \<Rightarrow> Inl p
      | Inr (assigned_cores, rest) \<Rightarrow>
          (case alloc_gres (ji_gres_req job) (wh_available_gres_ids w) [] of
             Inl p \<Rightarrow> Inl p
           | Inr (available_gres, gres) \<Rightarrow>
               Inr (w\<lparr>wh_assigned_jobs := hs_insert job_id (wh_assigned_jobs w),
                      wh_available_core_ids := rest,
                      wh_job_core_assignments := hm_insert job_id assigned_cores (wh_job_core_assignments w),
                      wh_allocated_memory := wh_allocated_memory w + ji_req_memory job,
                      wh_available_gres_ids := available_gres,
                      wh_job_gres_assignments := hm_insert job_id gres (wh_job_gres_assignments w)\<rparr>,
                    assigned_cores, gres)))"

section \<open>Pools\<close>

text \<open>
  A pool of ids: \<open>av\<close> is free, \<open>f j\<close> is what job \<open>j\<close> holds, and \<open>P\<close> is the range of valid ids. Every
  valid id is free or held by exactly one job.
\<close>

definition pool_ok :: "('i \<Rightarrow> bool) \<Rightarrow> 'i list \<Rightarrow> ('j \<Rightarrow> 'i list) \<Rightarrow> bool" where
  "pool_ok P av f = (distinct av \<and> (\<forall>x\<in>set av. P x) \<and>
     (\<forall>j. distinct (f j) \<and> (\<forall>x\<in>set (f j). P x) \<and> set (f j) \<inter> set av = {}) \<and>
     (\<forall>j k. j \<noteq> k \<longrightarrow> set (f j) \<inter> set (f k) = {}) \<and>
     (\<forall>x. P x \<longrightarrow> x \<in> set av \<or> (\<exists>j. x \<in> set (f j))))"

lemma give_back_fold_set:
  "set (fold (\<lambda>i av. if ok i \<and> i \<notin> set av then av @ [i] else av) ids av) = set av \<union> {i \<in> set ids. ok i}"
  by (induction ids arbitrary: av) auto

lemma give_back_fold_distinct:
  "distinct av \<Longrightarrow> distinct (fold (\<lambda>i av. if ok i \<and> i \<notin> set av then av @ [i] else av) ids av)"
  by (induction ids arbitrary: av) auto

lemma set_give_back [simp]: "set (give_back ok ids av) = set av \<union> {i \<in> set ids. ok i}"
  by (simp add: give_back_def give_back_fold_set)

lemma distinct_give_back [simp]: "distinct av \<Longrightarrow> distinct (give_back ok ids av)"
  by (simp add: give_back_def give_back_fold_distinct)

lemma sorted_give_back [simp]: "sorted (give_back ok ids av)"
  by (simp add: give_back_def)

lemma pool_ok_split:
  assumes "pool_ok P (a @ b) f" "f j = []"
  shows "pool_ok P b (f(j := a))"
proof -
  have "x \<in> set b \<or> (\<exists>k. x \<in> set ((f(j := a)) k))" if "P x" for x
  proof -
    from assms that consider "x \<in> set a" | "x \<in> set b" | k where "x \<in> set (f k)" "k \<noteq> j"
      unfolding pool_ok_def by (metis UnE empty_iff list.set(1) set_append)
    then show ?thesis by cases (auto intro: exI [of _ j])
  qed
  with assms show ?thesis unfolding pool_ok_def by auto
qed

lemma pool_ok_alloc: "pool_ok P av f \<Longrightarrow> f j = [] \<Longrightarrow> pool_ok P (drop n av) (f(j := take n av))"
  by (rule pool_ok_split) simp_all

lemma pool_ok_release:
  assumes "pool_ok P av f"
  shows "pool_ok P (give_back P (f j) av) (f(j := []))"
  using assms unfolding pool_ok_def by (auto 0 3)

lemma pool_ok_fresh:
  assumes "distinct av" "\<And>x. P x \<longleftrightarrow> x \<in> set av" "\<And>j. f j = []"
  shows "pool_ok P av f"
  using assms by (auto simp: pool_ok_def)

lemma pool_ok_unchanged: "pool_ok P av f \<Longrightarrow> f j = [] \<Longrightarrow> pool_ok P av (f(j := []))"
  by (metis fun_upd_triv)

lemma pool_ok_card:
  assumes "pool_ok P av f" "distinct js" "distinct av'"
    and "set av \<union> (\<Union>j\<in>set js. set (f j)) \<subseteq> set av'"
  shows "length av + sum_list (map (\<lambda>j. length (f j)) js) \<le> length av'"
proof -
  have "card (set av \<union> (\<Union>j\<in>set js. set (f j))) = card (set av) + card (\<Union>j\<in>set js. set (f j))"
    using assms(1) by (intro card_Un_disjoint) (auto simp: pool_ok_def)
  also have "card (\<Union>j\<in>set js. set (f j)) = (\<Sum>j\<in>set js. card (set (f j)))"
    using assms(1) by (intro card_UN_disjoint) (auto simp: pool_ok_def)
  also have "\<dots> = sum_list (map (\<lambda>j. length (f j)) js)"
    using assms(1,2) by (simp add: sum_list_distinct_conv_sum_set distinct_card pool_ok_def)
  finally have "card (set av \<union> (\<Union>j\<in>set js. set (f j))) = length av + \<dots>"
    using assms(1) by (simp add: distinct_card pool_ok_def)
  moreover have "card (set av \<union> (\<Union>j\<in>set js. set (f j))) \<le> card (set av')"
    using assms(4) by (intro card_mono) auto
  ultimately show ?thesis using assms(3) by (simp add: distinct_card)
qed

lemma pool_ok_same_set:
  "pool_ok P av f \<Longrightarrow> distinct av' \<Longrightarrow> set av' = set av \<Longrightarrow> pool_ok P av' f"
  by (auto simp: pool_ok_def)

section \<open>The worker invariant\<close>

definition cores_of :: "worker_handle \<Rightarrow> u64 \<Rightarrow> usize list" where
  "cores_of w j = (case hm_get (wh_job_core_assignments w) j of None \<Rightarrow> [] | Some c \<Rightarrow> c)"

definition gres_of :: "worker_handle \<Rightarrow> string \<Rightarrow> u64 \<Rightarrow> u32 list" where
  "gres_of w name j = (case hm_get (wh_job_gres_assignments w) j of None \<Rightarrow> []
     | Some m \<Rightarrow> (case hm_get m name of None \<Rightarrow> [] | Some ids \<Rightarrow> ids))"

definition free_gres :: "worker_handle \<Rightarrow> string \<Rightarrow> u32 list" where
  "free_gres w name = (case hm_get (wh_available_gres_ids w) name of None \<Rightarrow> [] | Some ids \<Rightarrow> ids)"

definition cores_ok :: "worker_handle \<Rightarrow> bool" where
  "cores_ok w = pool_ok (\<lambda>c. c < rs_cpu_cores (wh_resources w)) (wh_available_core_ids w) (cores_of w)"

definition gres_ok :: "worker_handle \<Rightarrow> string \<Rightarrow> bool" where
  "gres_ok w name = pool_ok (\<lambda>i. unat i < gres_limit w name) (free_gres w name) (gres_of w name)"

definition tables_ok :: "worker_handle \<Rightarrow> bool" where
  "tables_ok w = (distinct (wh_assigned_jobs w) \<and> hm_wf (rs_gres (wh_resources w)) \<and>
     (\<forall>j c. hm_get (wh_job_core_assignments w) j = Some c \<longrightarrow> j \<in> set (wh_assigned_jobs w)) \<and>
     (\<forall>j m. hm_get (wh_job_gres_assignments w) j = Some m \<longrightarrow> j \<in> set (wh_assigned_jobs w) \<and> hm_wf m))"

definition worker_ok :: "worker_handle \<Rightarrow> bool" where
  "worker_ok w = (tables_ok w \<and> cores_ok w \<and> (\<forall>name. gres_ok w name))"

lemma free_full_gres:
  assumes "hm_wf g"
  shows "hm_get (full_gres_ids g) name = map_option (\<lambda>c. map of_nat [0..<gres_count c]) (hm_get g name)"
  using assms by (induction g) (auto simp: full_gres_ids_def)

lemma gres_range_ids:
  "distinct (map (of_nat :: nat \<Rightarrow> u32) [0..<gres_count c])"
  "i \<in> set (map (of_nat :: nat \<Rightarrow> u32) [0..<gres_count c]) \<longleftrightarrow> unat i < gres_count c"
proof -
  have unat_id: "unat (of_nat n :: u32) = n" if "n < gres_count c" for n
    using unsigned_less [where 'a = nat, of "ucast c :: u32"] that
    by (simp add: gres_count_def unat_of_nat)
  show "distinct (map (of_nat :: nat \<Rightarrow> u32) [0..<gres_count c])"
    unfolding distinct_map using unat_id by (auto intro!: inj_onI dest!: arg_cong [where f = unat])
  have "i = of_nat (unat i)" by simp
  then show "i \<in> set (map (of_nat :: nat \<Rightarrow> u32) [0..<gres_count c]) \<longleftrightarrow> unat i < gres_count c"
    by (auto simp del: of_nat_unat simp: unat_id)
qed

lemma hm_get_fold_entry:
  assumes "hm_wf m"
  shows "hm_get (fold (\<lambda>(k, v). hm_entry k d (g k v)) m a) k =
    (case hm_get m k of None \<Rightarrow> hm_get a k
     | Some v \<Rightarrow> Some (g k v (case hm_get a k of None \<Rightarrow> d | Some x \<Rightarrow> x)))"
  using assms by (induction m arbitrary: a) (auto split: option.splits)

text \<open>Releasing, one table at a time.\<close>

lemma release_cores_pool:
  assumes "cores_ok w" "hm_get (wh_job_core_assignments w) j = None \<Longrightarrow> hm_get (ji_allocated_cores job) wid = None"
  shows "cores_ok (release_cores j wid job w)"
proof -
  let ?w = "release_cores j wid job w"
  have "cores_of ?w = (cores_of w)(j := [])"
    by (auto simp: cores_of_def release_cores_def Let_def)
  moreover have "wh_available_core_ids ?w =
      give_back (\<lambda>c. c < rs_cpu_cores (wh_resources w)) (cores_of w j) (wh_available_core_ids w)"
    using assms(2) by (auto simp: cores_of_def release_cores_def Let_def split: option.splits)
  moreover have "wh_resources ?w = wh_resources w" by (simp add: release_cores_def Let_def)
  ultimately show ?thesis using pool_ok_release [OF assms(1) [unfolded cores_ok_def], of j]
    by (simp add: cores_ok_def)
qed

lemma release_gres_pool:
  assumes "gres_ok w name"
    and "hm_get (wh_job_gres_assignments w) j = None \<Longrightarrow> hm_get (ji_allocated_gres job) wid = None"
    and "\<And>m. hm_get (wh_job_gres_assignments w) j = Some m \<Longrightarrow> hm_wf m"
  shows "gres_ok (release_gres j wid job w) name"
proof -
  let ?w = "release_gres j wid job w"
  let ?P = "\<lambda>i. unat i < gres_limit w name"
  have f: "gres_of ?w name = (gres_of w name)(j := [])"
    by (auto simp: gres_of_def release_gres_def Let_def split: option.splits)
  have lim: "gres_limit ?w name = gres_limit w name"
    by (simp add: gres_limit_def release_gres_def Let_def split: option.split)
  have "free_gres ?w name = give_back ?P (gres_of w name j) (free_gres w name) \<or>
        free_gres ?w name = free_gres w name \<and> gres_of w name j = []"
    using assms(2,3)
    by (auto simp: free_gres_def release_gres_def Let_def gres_of_def hm_get_fold_entry split: option.splits)
  moreover have "pool_ok ?P (give_back ?P (gres_of w name j) (free_gres w name)) ((gres_of w name)(j := []))"
    using pool_ok_release [OF assms(1) [unfolded gres_ok_def], of j] by simp
  moreover have "gres_of w name j = [] \<Longrightarrow> pool_ok ?P (free_gres w name) ((gres_of w name)(j := []))"
    using pool_ok_unchanged [OF assms(1) [unfolded gres_ok_def], of j] by simp
  ultimately show ?thesis unfolding gres_ok_def f lim by (elim disjE) simp_all
qed

lemma reset_if_idle_ok: "worker_ok w \<Longrightarrow> worker_ok (reset_if_idle w)"
proof (cases "wh_assigned_jobs w = []")
  case True
  assume ok: "worker_ok w"
  have none: "cores_of w j = []" "gres_of w name j = []" for j name
    using ok True by (auto simp: worker_ok_def tables_ok_def cores_of_def gres_of_def split: option.splits)
  let ?w = "reset_if_idle w"
  have "tables_ok ?w" using ok True by (simp add: worker_ok_def tables_ok_def reset_if_idle_def)
  moreover have "cores_ok ?w"
    using none True by (auto simp: cores_ok_def reset_if_idle_def cores_of_def intro!: pool_ok_fresh)
  moreover have "gres_ok ?w name" for name
  proof -
    have wf: "hm_wf (rs_gres (wh_resources w))" using ok by (simp add: worker_ok_def tables_ok_def)
    have g: "gres_of ?w name j = []" for j
      using none True by (simp add: gres_of_def reset_if_idle_def)
    show ?thesis
      using True gres_range_ids unfolding gres_ok_def
      by (intro pool_ok_fresh g)
        (auto simp: free_gres_def reset_if_idle_def gres_limit_def free_full_gres [OF wf] split: option.splits)
  qed
  ultimately show ?thesis by (simp add: worker_ok_def)
qed (simp add: reset_if_idle_def)

lemma cores_ok_cong:
  "wh_resources w' = wh_resources w \<Longrightarrow> wh_available_core_ids w' = wh_available_core_ids w \<Longrightarrow>
   wh_job_core_assignments w' = wh_job_core_assignments w \<Longrightarrow> cores_ok w' = cores_ok w"
  by (simp add: cores_ok_def cores_of_def [abs_def])

lemma gres_ok_cong:
  "wh_resources w' = wh_resources w \<Longrightarrow> wh_available_gres_ids w' = wh_available_gres_ids w \<Longrightarrow>
   wh_job_gres_assignments w' = wh_job_gres_assignments w \<Longrightarrow> gres_ok w' name = gres_ok w name"
  by (simp add: gres_ok_def gres_of_def [abs_def] free_gres_def gres_limit_def)

lemma worker_ok_cong:
  assumes "worker_ok w" "wh_resources w' = wh_resources w" "wh_assigned_jobs w' = wh_assigned_jobs w"
    "wh_available_core_ids w' = wh_available_core_ids w"
    "wh_job_core_assignments w' = wh_job_core_assignments w"
    "wh_available_gres_ids w' = wh_available_gres_ids w"
    "wh_job_gres_assignments w' = wh_job_gres_assignments w"
  shows "worker_ok w'"
  using assms cores_ok_cong [of w' w] gres_ok_cong [of w' w] by (simp add: worker_ok_def tables_ok_def)

lemma release_cores_fields [simp]:
  "wh_assigned_jobs (release_cores j wid job w) = wh_assigned_jobs w"
  "wh_resources (release_cores j wid job w) = wh_resources w"
  "wh_connected (release_cores j wid job w) = wh_connected w"
  "wh_draining (release_cores j wid job w) = wh_draining w"
  "wh_hostname (release_cores j wid job w) = wh_hostname w"
  "wh_routing (release_cores j wid job w) = wh_routing w"
  "wh_last_seen (release_cores j wid job w) = wh_last_seen w"
  "wh_allocated_memory (release_cores j wid job w) = wh_allocated_memory w"
  "wh_available_gres_ids (release_cores j wid job w) = wh_available_gres_ids w"
  "wh_job_gres_assignments (release_cores j wid job w) = wh_job_gres_assignments w"
  "wh_job_core_assignments (release_cores j wid job w) = hm_remove j (wh_job_core_assignments w)"
  by (simp_all add: release_cores_def Let_def)

lemma release_gres_fields [simp]:
  "wh_assigned_jobs (release_gres j wid job w) = wh_assigned_jobs w"
  "wh_resources (release_gres j wid job w) = wh_resources w"
  "wh_connected (release_gres j wid job w) = wh_connected w"
  "wh_draining (release_gres j wid job w) = wh_draining w"
  "wh_hostname (release_gres j wid job w) = wh_hostname w"
  "wh_routing (release_gres j wid job w) = wh_routing w"
  "wh_last_seen (release_gres j wid job w) = wh_last_seen w"
  "wh_allocated_memory (release_gres j wid job w) = wh_allocated_memory w"
  "wh_available_core_ids (release_gres j wid job w) = wh_available_core_ids w"
  "wh_job_core_assignments (release_gres j wid job w) = wh_job_core_assignments w"
  "wh_job_gres_assignments (release_gres j wid job w) = hm_remove j (wh_job_gres_assignments w)"
  by (simp_all add: release_gres_def Let_def split: option.split)

lemma reset_if_idle_fields [simp]:
  "wh_assigned_jobs (reset_if_idle w) = wh_assigned_jobs w"
  "wh_resources (reset_if_idle w) = wh_resources w"
  "wh_connected (reset_if_idle w) = wh_connected w"
  "wh_draining (reset_if_idle w) = wh_draining w"
  "wh_hostname (reset_if_idle w) = wh_hostname w"
  "wh_routing (reset_if_idle w) = wh_routing w"
  "wh_last_seen (reset_if_idle w) = wh_last_seen w"
  "wh_allocated_memory (reset_if_idle w) = wh_allocated_memory w"
  "wh_job_core_assignments (reset_if_idle w) = wh_job_core_assignments w"
  "wh_job_gres_assignments (reset_if_idle w) = wh_job_gres_assignments w"
  by (simp_all add: reset_if_idle_def)

theorem release_worker_ok:
  assumes ok: "worker_ok w"
    and fc: "hm_get (wh_job_core_assignments w) j = None \<Longrightarrow> hm_get (ji_allocated_cores job) wid = None"
    and fg: "hm_get (wh_job_gres_assignments w) j = None \<Longrightarrow> hm_get (ji_allocated_gres job) wid = None"
  shows "worker_ok (release_worker j job wid w)"
proof (cases "j \<in> set (wh_assigned_jobs w)")
  case True
  define w1 where "w1 = w\<lparr>wh_assigned_jobs := hs_remove j (wh_assigned_jobs w)\<rparr>"
  define w2 where "w2 = release_cores j wid job w1"
  define w3 where "w3 = w2\<lparr>wh_allocated_memory := sat_sub (wh_allocated_memory w2) (ji_req_memory job)\<rparr>"
  define w4 where "w4 = release_gres j wid job w3"
  have w3: "wh_job_core_assignments w1 = wh_job_core_assignments w"
    "wh_job_gres_assignments w3 = wh_job_gres_assignments w" by (simp_all add: w3_def w2_def w1_def)
  have "cores_ok w1" using ok cores_ok_cong [of w1 w] by (simp add: worker_ok_def w1_def)
  then have "cores_ok w2" unfolding w2_def by (rule release_cores_pool) (simp add: w3 fc)
  then have c4: "cores_ok w4"
    using cores_ok_cong [of w3 w2] cores_ok_cong [of w4 w3] by (simp add: w4_def w3_def)
  have "gres_ok w3 name" for name
    using ok gres_ok_cong [of w3 w] by (simp add: worker_ok_def w3_def w2_def w1_def)
  then have g4: "gres_ok w4 name" for name
    unfolding w4_def
    using ok by (intro release_gres_pool) (auto simp: w3 fg worker_ok_def tables_ok_def)
  have t4: "tables_ok w4"
    using ok by (auto simp: w4_def w3_def w2_def w1_def worker_ok_def tables_ok_def split: if_splits)
  have "worker_ok (reset_if_idle w4)" using c4 g4 t4 by (intro reset_if_idle_ok) (simp add: worker_ok_def)
  then show ?thesis using True by (simp add: release_worker_def Let_def w1_def w2_def w3_def w4_def)
qed (simp add: release_worker_def ok)

lemma release_worker_fields [simp]:
  "wh_assigned_jobs (release_worker j job wid w) = hs_remove j (wh_assigned_jobs w)"
  "wh_resources (release_worker j job wid w) = wh_resources w"
  "wh_connected (release_worker j job wid w) = wh_connected w"
  "wh_draining (release_worker j job wid w) = wh_draining w"
  "wh_hostname (release_worker j job wid w) = wh_hostname w"
  "wh_routing (release_worker j job wid w) = wh_routing w"
  "wh_last_seen (release_worker j job wid w) = wh_last_seen w"
  by (simp_all add: release_worker_def Let_def)

lemma release_worker_assignments:
  assumes "worker_ok w"
  shows "hm_get (wh_job_core_assignments (release_worker j job wid w)) k =
      (if k = j then None else hm_get (wh_job_core_assignments w) k)"
    "hm_get (wh_job_gres_assignments (release_worker j job wid w)) k =
      (if k = j then None else hm_get (wh_job_gres_assignments w) k)"
proof -
  have "j \<notin> set (wh_assigned_jobs w) \<Longrightarrow> hm_get (wh_job_core_assignments w) j = None \<and>
      hm_get (wh_job_gres_assignments w) j = None"
    using assms unfolding worker_ok_def tables_ok_def by (metis not_Some_eq)
  then show "hm_get (wh_job_core_assignments (release_worker j job wid w)) k =
      (if k = j then None else hm_get (wh_job_core_assignments w) k)"
    "hm_get (wh_job_gres_assignments (release_worker j job wid w)) k =
      (if k = j then None else hm_get (wh_job_gres_assignments w) k)"
    by (auto simp: release_worker_def Let_def)
qed

text \<open>Allocation.\<close>

lemma alloc_gres_result:
  assumes "alloc_gres reqs av acc = Inr (av', acc')" "hm_wf reqs"
  shows "hm_get av' name = (case (hm_get reqs name, hm_get av name) of
      (Some n, Some ids) \<Rightarrow> Some (drop (unat n) ids) | _ \<Rightarrow> hm_get av name)"
    "hm_get acc' name = (case (hm_get reqs name, hm_get av name) of
      (Some n, Some ids) \<Rightarrow> Some (take (unat n) ids) | _ \<Rightarrow> hm_get acc name)"
  using assms
  by (induction reqs av acc rule: alloc_gres.induct)
    (auto simp: drain_front_def split: option.splits sum.splits if_splits)

lemma alloc_gres_wf: "alloc_gres reqs av acc = Inr (av', acc') \<Longrightarrow> hm_wf acc \<Longrightarrow> hm_wf acc'"
  by (induction reqs av acc rule: alloc_gres.induct)
    (auto simp: drain_front_def split: option.splits sum.splits if_splits)

lemma alloc_gres_no_panic:
  assumes "\<forall>name n ids. hm_get reqs name = Some n \<longrightarrow> hm_get av name = Some ids \<longrightarrow> unat n \<le> length ids"
    and "hm_wf reqs"
  shows "\<exists>r. alloc_gres reqs av acc = Inr r"
  using assms
proof (induction reqs av acc rule: alloc_gres.induct)
  case (2 name n reqs av acc)
  have new: "hm_get reqs name = None" and wf: "hm_wf reqs" using 2(4) by auto
  have rest: "unat n' \<le> length ids" if "hm_get reqs name' = Some n'" "hm_get av name' = Some ids"
    for name' n' ids
  proof -
    have "hm_get ((name, n) # reqs) name' = Some n'" using that(1) new by auto
    with 2(3) that(2) show ?thesis by blast
  qed
  show ?case
  proof (cases "hm_get av name")
    case None
    then have "\<exists>r. alloc_gres reqs av acc = Inr r" using rest wf by (intro 2(1)) blast+
    with None show ?thesis by simp
  next
    case (Some ids)
    have "hm_get ((name, n) # reqs) name = Some n" by simp
    with 2(3) Some have le: "unat n \<le> length ids" by blast
    have "\<exists>r. alloc_gres reqs (hm_insert name (drop (unat n) ids) av) (hm_insert name (take (unat n) ids) acc) = Inr r"
      by (rule 2(2) [OF Some, of "(take (unat n) ids, drop (unat n) ids)"])
        (use rest wf le new in \<open>auto simp: drain_front_def\<close>)
    with Some le show ?thesis by (simp add: drain_front_def)
  qed
qed simp

theorem alloc_worker_ok:
  assumes ok: "worker_ok w" and j: "j \<notin> set (wh_assigned_jobs w)"
    and wf: "hm_wf (ji_gres_req job)"
    and r: "alloc_worker j job w = Inr (w', cores, gres)"
  shows "worker_ok w'"
proof -
  obtain rest av where
    c: "drain_front (unat (ji_req_cores job)) (wh_available_core_ids w) = Inr (cores, rest)" and
    g: "alloc_gres (ji_gres_req job) (wh_available_gres_ids w) [] = Inr (av, gres)" and
    w': "w' = w\<lparr>wh_assigned_jobs := hs_insert j (wh_assigned_jobs w), wh_available_core_ids := rest,
           wh_job_core_assignments := hm_insert j cores (wh_job_core_assignments w),
           wh_allocated_memory := wh_allocated_memory w + ji_req_memory job,
           wh_available_gres_ids := av,
           wh_job_gres_assignments := hm_insert j gres (wh_job_gres_assignments w)\<rparr>"
    using r by (auto simp: alloc_worker_def split: sum.splits)
  have none: "cores_of w j = []" "gres_of w name j = []" for name
    using ok j by (auto simp: worker_ok_def tables_ok_def cores_of_def gres_of_def split: option.splits)
  have "tables_ok w'"
    using ok alloc_gres_wf [OF g] by (auto simp: w' worker_ok_def tables_ok_def)
  moreover have "cores_ok w'"
  proof -
    have "cores_of w' = (cores_of w)(j := cores)" by (auto simp: w' cores_of_def)
    with c none pool_ok_alloc [of _ "wh_available_core_ids w" "cores_of w" j "unat (ji_req_cores job)"] ok
    show ?thesis by (simp add: worker_ok_def cores_ok_def w' drain_front_def split: if_splits)
  qed
  moreover have "gres_ok w' name" for name
  proof -
    let ?n = "case hm_get (ji_gres_req job) name of None \<Rightarrow> 0 | Some n \<Rightarrow> unat n"
    note res = alloc_gres_result [OF g wf, of name]
    have "gres_of w' name = (gres_of w name)(j := take ?n (free_gres w name))"
      using res(2) none by (auto simp: w' gres_of_def free_gres_def split: option.splits)
    moreover have "free_gres w' name = drop ?n (free_gres w name)"
      using res(1) by (auto simp: w' free_gres_def split: option.splits)
    moreover have "gres_limit w' name = gres_limit w name" by (simp add: w' gres_limit_def)
    ultimately show ?thesis
      using pool_ok_alloc [of _ "free_gres w name" "gres_of w name" j ?n] none ok
      by (simp add: worker_ok_def gres_ok_def)
  qed
  ultimately show ?thesis by (simp add: worker_ok_def)
qed

text \<open>An allocation succeeds exactly when the free ids suffice.\<close>

definition fits :: "job_info \<Rightarrow> worker_handle \<Rightarrow> bool" where
  "fits job w = (unat (ji_req_cores job) \<le> length (wh_available_core_ids w) \<and>
     (\<forall>(name, n)\<in>set (ji_gres_req job). unat n \<le> length (free_gres w name)))"

lemma alloc_worker_no_panic:
  assumes "fits job w" "hm_wf (ji_gres_req job)"
  shows "\<exists>r. alloc_worker j job w = Inr r"
proof -
  have "unat n \<le> length ids" if "hm_get (ji_gres_req job) name = Some n"
      "hm_get (wh_available_gres_ids w) name = Some ids" for name n ids
    using assms(1) hm_get_SomeD [OF that(1)] that(2) by (auto simp: fits_def free_gres_def dest!: bspec)
  then have "\<exists>r. alloc_gres (ji_gres_req job) (wh_available_gres_ids w) [] = Inr r"
    by (intro alloc_gres_no_panic [OF _ assms(2)]) blast
  with assms(1) show ?thesis by (auto simp: alloc_worker_def drain_front_def fits_def)
qed

lemma alloc_worker_fields:
  assumes "alloc_worker j job w = Inr (w', cores, gres)"
  shows "set (wh_assigned_jobs w') = insert j (set (wh_assigned_jobs w))"
    "wh_resources w' = wh_resources w" "wh_connected w' = wh_connected w"
    "wh_draining w' = wh_draining w" "wh_hostname w' = wh_hostname w" "wh_routing w' = wh_routing w"
    "hm_get (wh_job_core_assignments w') k =
       (if k = j then Some cores else hm_get (wh_job_core_assignments w) k)"
    "hm_get (wh_job_gres_assignments w') k =
       (if k = j then Some gres else hm_get (wh_job_gres_assignments w) k)"
    "length cores = unat (ji_req_cores job)"
    "wh_allocated_memory w' = wh_allocated_memory w + ji_req_memory job"
  using assms by (auto simp: alloc_worker_def drain_front_def split: sum.splits if_splits)

end
