(* ===== verification/Usage.thy ===== *)
theory Usage
  imports ControllerState
begin

text \<open>
  Fair-share accounting (\<open>common/src/usage.rs\<close>, \<open>UsageTracker\<close>) and the bounded buffer of
  \<open>common/src/ring_buffer.rs\<close>. Floating-point operations apply the rounding \<open>ev_rnd\<close> of the
  environment to the exact result.
\<close>

section \<open>Usage tracker\<close>

definition accrue :: "env \<Rightarrow> string \<Rightarrow> real \<Rightarrow> usage_tracker \<Rightarrow> usage_tracker" where
  "accrue ev user cost t = t\<lparr>ut_usage := hm_entry user 0 (\<lambda>e. ev_rnd ev (e + cost)) (ut_usage t)\<rparr>"

definition get_usage :: "usage_tracker \<Rightarrow> string \<Rightarrow> real" where
  "get_usage t user = (case hm_get (ut_usage t) user of None \<Rightarrow> 0 | Some u \<Rightarrow> u)"

definition decay_factor :: "env \<Rightarrow> u64 \<Rightarrow> real" where
  "decay_factor ev elapsed = ev_powf ev (ev_rnd ev (9 / 10))
     (ev_rnd ev (ev_rnd ev (real (unat elapsed)) / 60))"

definition apply_decay :: "env \<Rightarrow> usage_tracker \<Rightarrow> usage_tracker" where
  "apply_decay ev t =
     (let elapsed = sat_sub (ev_now ev) (ut_last_decay t) in
      if elapsed > 60 then
        (let actual_factor = decay_factor ev elapsed in
         \<lparr>ut_usage = map (\<lambda>(u, x). (u, ev_rnd ev (x * actual_factor))) (ut_usage t),
          ut_last_decay = ev_now ev\<rparr>)
      else t)"

text \<open>
  What the code relies on from IEEE arithmetic: rounding is monotone and keeps zero, and a power of
  \<open>0.9\<close> with a non-negative exponent lies between zero and one.
\<close>

definition float_ok :: "env \<Rightarrow> bool" where
  "float_ok ev = (mono (ev_rnd ev) \<and> ev_rnd ev 0 = 0 \<and> (\<forall>x. ev_rnd ev (ev_rnd ev x) = ev_rnd ev x) \<and>
     (\<forall>e\<ge>0. 0 \<le> ev_powf ev (ev_rnd ev (9 / 10)) e \<and> ev_powf ev (ev_rnd ev (9 / 10)) e \<le> 1))"

definition usage_ok :: "env \<Rightarrow> usage_tracker \<Rightarrow> bool" where
  "usage_ok ev t = (hm_wf (ut_usage t) \<and>
     (\<forall>u x. hm_get (ut_usage t) u = Some x \<longrightarrow> 0 \<le> x \<and> ev_rnd ev x = x))"

lemma float_ok_nonneg: "float_ok ev \<Longrightarrow> 0 \<le> x \<Longrightarrow> 0 \<le> ev_rnd ev x"
  by (metis float_ok_def monoD)

lemma decay_factor_bounds:
  assumes "float_ok ev"
  shows "0 \<le> decay_factor ev e" "decay_factor ev e \<le> 1"
proof -
  have "0 \<le> ev_rnd ev (real (unat e))" by (rule float_ok_nonneg [OF assms]) (rule of_nat_0_le_iff)
  then have "0 \<le> ev_rnd ev (ev_rnd ev (real (unat e)) / 60)" by (intro float_ok_nonneg [OF assms]) simp
  then show "0 \<le> decay_factor ev e" "decay_factor ev e \<le> 1"
    using assms unfolding decay_factor_def float_ok_def by blast+
qed

lemma hm_get_map_values: "hm_get (map (\<lambda>(k, v). (k, f v)) m) k = map_option f (hm_get m k)"
  by (induction m) auto

lemma hm_wf_map_values: "hm_wf (map (\<lambda>(k, v). (k, f v)) m) = hm_wf m"
  by (induction m) (auto simp: hm_get_map_values)

lemma get_usage_accrue:
  "get_usage (accrue ev u c t) v = (if v = u then ev_rnd ev (get_usage t u + c) else get_usage t v)"
  by (simp add: get_usage_def accrue_def split: option.split)

lemma usage_ok_accrue: "float_ok ev \<Longrightarrow> usage_ok ev t \<Longrightarrow> 0 \<le> c \<Longrightarrow> usage_ok ev (accrue ev u c t)"
  by (auto simp: usage_ok_def accrue_def float_ok_def intro!: float_ok_nonneg split: option.splits)

lemma get_usage_decay:
  assumes "float_ok ev" "usage_ok ev t"
  shows "0 \<le> get_usage (apply_decay ev t) u" "get_usage (apply_decay ev t) u \<le> get_usage t u"
proof -
  let ?e = "sat_sub (ev_now ev) (ut_last_decay t)"
  define f where "f = decay_factor ev ?e"
  have f: "0 \<le> f" "f \<le> 1" by (simp_all add: f_def decay_factor_bounds [OF assms(1)])
  have decay: "0 \<le> ev_rnd ev (x * f) \<and> ev_rnd ev (x * f) \<le> x"
    if "hm_get (ut_usage t) u = Some x" for x
  proof -
    have x: "0 \<le> x" "ev_rnd ev x = x" using assms(2) that by (auto simp: usage_ok_def)
    have "x * f \<le> x" using x f by (simp add: mult_left_le)
    then have "ev_rnd ev (x * f) \<le> ev_rnd ev x" using assms(1) by (auto simp: float_ok_def mono_def)
    with x f show ?thesis using float_ok_nonneg [OF assms(1)] by simp
  qed
  have "get_usage (apply_decay ev t) u = (case hm_get (ut_usage t) u of None \<Rightarrow> 0
     | Some x \<Rightarrow> if ?e > 60 then ev_rnd ev (x * f) else x)"
    by (simp add: get_usage_def apply_decay_def Let_def hm_get_map_values f_def split: option.split)
  moreover have "hm_get (ut_usage t) u = Some x \<Longrightarrow> 0 \<le> x" for x
    using assms(2) by (auto simp: usage_ok_def)
  ultimately show "0 \<le> get_usage (apply_decay ev t) u" "get_usage (apply_decay ev t) u \<le> get_usage t u"
    using decay by (auto simp: get_usage_def split: option.splits)
qed

lemma usage_ok_decay: "float_ok ev \<Longrightarrow> usage_ok ev t \<Longrightarrow> usage_ok ev (apply_decay ev t)"
  by (auto simp: usage_ok_def apply_decay_def Let_def hm_get_map_values hm_wf_map_values float_ok_def
      intro!: float_ok_nonneg mult_nonneg_nonneg decay_factor_bounds)

section \<open>Ring buffer\<close>

record 'a ring_buffer =
  rb_buffer :: "'a list"
  rb_capacity :: usize

definition rb_new :: "usize \<Rightarrow> 'a ring_buffer" where
  "rb_new c = \<lparr>rb_buffer = [], rb_capacity = c\<rparr>"

definition rb_push :: "'a \<Rightarrow> 'a ring_buffer \<Rightarrow> 'a ring_buffer" where
  "rb_push item b =
     (let buf = (if length (rb_buffer b) \<ge> rb_capacity b then tl (rb_buffer b) else rb_buffer b)
      in b\<lparr>rb_buffer := buf @ [item]\<rparr>)"

definition rb_pop_all :: "'a ring_buffer \<Rightarrow> 'a list \<times> 'a ring_buffer" where
  "rb_pop_all b = (rb_buffer b, b\<lparr>rb_buffer := []\<rparr>)"

definition rb_is_empty :: "'a ring_buffer \<Rightarrow> bool" where
  "rb_is_empty b = (rb_buffer b = [])"

definition rb_len :: "'a ring_buffer \<Rightarrow> usize" where
  "rb_len b = length (rb_buffer b)"

definition last_n :: "nat \<Rightarrow> 'a list \<Rightarrow> 'a list" where
  "last_n n xs = drop (length xs - n) xs"

lemma rb_capacity_push [simp]: "rb_capacity (rb_push x b) = rb_capacity b"
  by (simp add: rb_push_def Let_def)

lemma rb_push_last_n:
  "0 < rb_capacity b \<Longrightarrow> rb_buffer b = last_n (rb_capacity b) h \<Longrightarrow>
   rb_buffer (rb_push x b) = last_n (rb_capacity b) (h @ [x])"
  by (auto simp: rb_push_def Let_def last_n_def drop_Suc [symmetric] tl_drop Suc_diff_le not_le)

lemma rb_push_all_last_n:
  assumes "0 < c"
  shows "rb_buffer (fold rb_push xs (rb_new c)) = last_n c xs"
proof -
  have "rb_capacity b = c \<Longrightarrow> rb_buffer b = last_n c h \<Longrightarrow>
    rb_buffer (fold rb_push xs b) = last_n c (h @ xs)" for b :: "'a ring_buffer" and h
  proof (induction xs arbitrary: b h)
    case (Cons x xs)
    then show ?case using assms rb_push_last_n [of b h x] by simp
  qed simp
  from this [of "rb_new c" "[]"] show ?thesis by (simp add: rb_new_def last_n_def)
qed

end
