(* ===== verification/Finalize.thy ===== *)
theory Finalize
  imports WorkerPool Usage
begin

text \<open>
  Ending jobs (\<open>controller/src/scheduler/finalize.rs\<close>): releasing a job's resources on all its
  workers, \<open>finalize_job\<close>, \<open>preempt_job\<close>, \<open>check_timeouts\<close> and \<open>prune_jobs\<close>; the reaping of jobs a
  worker no longer reports (\<open>reconcile_missing_worker_jobs\<close>) and the copy of the state that the API
  reads (\<open>sync_active_state_to_dashmaps\<close>), both in \<open>controller/src/state.rs\<close>.

  \<open>controller_ctx\<close> is the part of \<open>ControllerContext\<close> these operations touch. The accounting store
  is the list of records handed to it; of the node metrics only the set of node ids matters here;
  \<open>cx_submissions\<close> is the content of the submission channel.
  The lemmas show that every operation keeps \<open>alloc_inv\<close>: on every worker each core and each GRES id
  is free or held by exactly one job, and the jobs a worker lists are running there.
\<close>

section \<open>Release, finalize, preempt\<close>

definition release_job_resources_internal :: "u64 \<Rightarrow> global_state \<Rightarrow> global_state" where
  "release_job_resources_internal job_id s =
     (case hm_get (gs_jobs s) job_id of
        None \<Rightarrow> s
      | Some job \<Rightarrow>
          s\<lparr>gs_workers := fold (\<lambda>worker_id. hm_modify worker_id (release_worker job_id job worker_id))
                           (ji_assigned_workers job) (gs_workers s)\<rparr>)"

definition job_cost :: "env \<Rightarrow> job_info \<Rightarrow> u64 \<Rightarrow> real" where
  "job_cost ev job start_time =
     (let elapsed = sat_sub (ev_now ev) start_time;
          cores_used = ev_rnd ev (ev_rnd ev (real (ji_req_nodes job)) * ev_rnd ev (real (unat (ji_req_cores job))))
      in ev_rnd ev (ev_rnd ev (real (unat elapsed)) * cores_used))"

definition accrue_job_usage :: "env \<Rightarrow> u64 \<Rightarrow> global_state \<Rightarrow> global_state" where
  "accrue_job_usage ev job_id s =
     (case hm_get (gs_jobs s) job_id of
        None \<Rightarrow> s
      | Some job \<Rightarrow>
          (if ji_status job = Running
           then (case ji_start_time job of
                   None \<Rightarrow> s
                 | Some start_time \<Rightarrow>
                     s\<lparr>gs_usage_tracker :=
                         accrue ev (ji_user_id job) (job_cost ev job start_time) (gs_usage_tracker s)\<rparr>)
           else s))"

definition finalized :: "env \<Rightarrow> job_status \<Rightarrow> job_info \<Rightarrow> job_info" where
  "finalized ev new_status job =
     job\<lparr>ji_status := new_status, ji_current_cpu_usage := 0, ji_current_memory_usage := 0,
         ji_end_time := Some (ev_now ev), ji_reason := None\<rparr>"

definition finalize_job :: "env \<Rightarrow> u64 \<Rightarrow> job_status \<Rightarrow> global_state \<Rightarrow> global_state \<times> string list" where
  "finalize_job ev job_id new_status s =
     (let files_to_delete = (case hm_get (gs_jobs s) job_id of
                               None \<Rightarrow> [] | Some job \<Rightarrow> map fh_file_id (ji_inputs job));
          s1 = accrue_job_usage ev job_id s;
          s2 = release_job_resources_internal job_id s1;
          s3 = s2\<lparr>gs_jobs := hm_modify job_id (finalized ev new_status) (gs_jobs s2)\<rparr>
      in (s3, files_to_delete))"

definition preempted :: "job_info \<Rightarrow> job_info" where
  "preempted job =
     job\<lparr>ji_status := Pending, ji_start_time := None, ji_assigned_workers := [],
         ji_allocated_cores := [], ji_allocated_gres := [], ji_current_cpu_usage := 0,
         ji_current_memory_usage := 0, ji_reason := Some ''Preempted by higher priority job''\<rparr>"

definition preempt_job :: "u64 \<Rightarrow> global_state \<Rightarrow> global_state" where
  "preempt_job job_id s =
     (case hm_get (gs_jobs s) job_id of
        None \<Rightarrow> s
      | Some job \<Rightarrow>
          (if ji_status job = Running then
             (let s1 = (case ji_assigned_workers job of
                          [] \<Rightarrow> s | worker_id # _ \<Rightarrow> send_ignore s worker_id (PreemptJob job_id));
                  s2 = release_job_resources_internal job_id s1;
                  s3 = s2\<lparr>gs_jobs := hm_modify job_id preempted (gs_jobs s2)\<rparr>
              in if job_id \<in> set (gs_queue s3) then s3 else s3\<lparr>gs_queue := gs_queue s3 @ [job_id]\<rparr>)
           else s))"

section \<open>The copy for the API\<close>

record worker_sync_state =
  ws_draining :: bool
  ws_connected :: bool
  ws_available_cores :: usize
  ws_allocated_memory :: u64
  ws_assigned_jobs :: "u64 list"

record controller_ctx =
  cx_state :: global_state
  cx_missing_jobs :: "(u64, u64) hmap"
  cx_failed_jobs :: u64
  cx_completed_jobs :: u64
  cx_accounting :: "job_usage list"
  cx_metrics_nodes :: "string list"
  cx_active_jobs :: "(u64, job_info) hmap"
  cx_worker_resources :: "(string, resources \<times> worker_sync_state) hmap"
  cx_job_worker_stats :: "(u64, (string, real \<times> u64 \<times> bool) hmap) hmap"
  cx_global_idle_start :: "(u64, u64) hmap"
  cx_events :: "string list"
  cx_job_metrics_history :: "(u64, job_stats list) hmap"
  cx_pmi_kvs :: "(u64 \<times> u32, (string, string) hmap) hmap"
  cx_pmi_barriers :: "(u64 \<times> u32, u32 list) hmap"
  cx_deleted_files :: "string list"
  cx_step_results :: "(chan \<times> i32) list"
  cx_next_job_id :: u64
  cx_submission_open :: bool
  cx_submissions :: "job_info list"
  cx_last_heartbeat :: u64

definition resources_metadata_eq :: "resources \<Rightarrow> resources \<Rightarrow> bool" where
  "resources_metadata_eq a b =
     (rs_cpu_cores a = rs_cpu_cores b \<and> rs_total_memory a = rs_total_memory b \<and>
      rs_cpu_model a = rs_cpu_model b \<and> rs_arch a = rs_arch b \<and> rs_os_name a = rs_os_name b \<and>
      rs_os_version a = rs_os_version b \<and> rs_kernel_version a = rs_kernel_version b \<and>
      rs_host_name a = rs_host_name b \<and> rs_disk_total a = rs_disk_total b \<and>
      rs_boot_time a = rs_boot_time b \<and> rs_swap_total a = rs_swap_total b \<and>
      rs_version a = rs_version b \<and> rs_gres a = rs_gres b \<and>
      rs_cgroup_enabled a = rs_cgroup_enabled b)"

definition sync_state_eq :: "worker_sync_state \<Rightarrow> worker_sync_state \<Rightarrow> bool" where
  "sync_state_eq a b =
     (ws_draining a = ws_draining b \<and> ws_connected a = ws_connected b \<and>
      ws_available_cores a = ws_available_cores b \<and> ws_allocated_memory a = ws_allocated_memory b \<and>
      set (ws_assigned_jobs a) = set (ws_assigned_jobs b))"

definition fresh_sync_state :: "worker_handle \<Rightarrow> worker_sync_state" where
  "fresh_sync_state w = \<lparr>ws_draining = wh_draining w, ws_connected = wh_connected w,
     ws_available_cores = length (wh_available_core_ids w),
     ws_allocated_memory = wh_allocated_memory w, ws_assigned_jobs = wh_assigned_jobs w\<rparr>"

definition sync_worker :: "string \<times> worker_handle \<Rightarrow>
    (string, resources \<times> worker_sync_state) hmap \<times> bool \<Rightarrow>
    (string, resources \<times> worker_sync_state) hmap \<times> bool" where
  "sync_worker = (\<lambda>(wid, w) (m, changed).
     (let up_to_date = (case hm_get m wid of
            None \<Rightarrow> False
          | Some (old_res, old_sync) \<Rightarrow>
              resources_metadata_eq old_res (wh_resources w) \<and> sync_state_eq old_sync (fresh_sync_state w))
      in if up_to_date then (m, changed)
         else (hm_insert wid (wh_resources w, fresh_sync_state w) m, True)))"

definition sync_job :: "u64 \<times> job_info \<Rightarrow> (u64, job_info) hmap \<times> bool \<Rightarrow> (u64, job_info) hmap \<times> bool" where
  "sync_job = (\<lambda>(job_id, job) (m, changed).
     (if hm_get m job_id = Some job then (m, changed) else (hm_insert job_id job m, True)))"

definition sync_active_state_to_dashmaps :: "controller_ctx \<Rightarrow> controller_ctx" where
  "sync_active_state_to_dashmaps ctx =
     (let s = cx_state ctx;
          wr = hm_retain (\<lambda>i _. hm_contains (gs_workers s) i) (cx_worker_resources ctx);
          (wr', workers_changed) = fold sync_worker (gs_workers s)
             (wr, length wr \<noteq> length (cx_worker_resources ctx));
          aj = hm_retain (\<lambda>i _. hm_contains (gs_jobs s) i) (cx_active_jobs ctx);
          (aj', jobs_changed) = fold sync_job (gs_jobs s) (aj, length aj \<noteq> length (cx_active_jobs ctx))
      in ctx\<lparr>cx_worker_resources := wr',
             cx_active_jobs := aj',
             cx_job_worker_stats := hm_retain (\<lambda>i _. hm_contains (gs_jobs s) i) (cx_job_worker_stats ctx),
             cx_global_idle_start := hm_retain (\<lambda>i _. hm_contains (gs_jobs s) i) (cx_global_idle_start ctx),
             cx_events := cx_events ctx @ (if workers_changed then [''nodes_updated''] else [])
                @ (if jobs_changed then [''jobs_updated''] else [])\<rparr>)"

section \<open>Timeouts, pruning, reaping\<close>

definition timed_out :: "env \<Rightarrow> job_info \<Rightarrow> bool" where
  "timed_out ev job = (ji_status job = Running \<and> ji_walltime job > 0 \<and>
     (case ji_start_time job of None \<Rightarrow> False
      | Some start \<Rightarrow> sat_sub (ev_now ev) start > ji_walltime job))"

text \<open>The tail both loops of \<open>check_timeouts\<close> share: finalize, take the job out, count and account.\<close>

definition fail_and_remove :: "env \<Rightarrow> string \<Rightarrow> u64 \<Rightarrow> controller_ctx \<Rightarrow> controller_ctx" where
  "fail_and_remove ev err job_id ctx =
     (let s = fst (finalize_job ev job_id (Failed err) (cx_state ctx));
          job_clone = hm_get (gs_jobs s) job_id
      in ctx\<lparr>cx_missing_jobs := hm_remove job_id (cx_missing_jobs ctx),
             cx_state := s\<lparr>gs_jobs := hm_remove job_id (gs_jobs s)\<rparr>,
             cx_failed_jobs := cx_failed_jobs ctx + 1,
             cx_accounting := cx_accounting ctx @
               (case job_clone of None \<Rightarrow> [] | Some job \<Rightarrow> [job_to_usage job])\<rparr>)"

definition terminate_timed_out :: "env \<Rightarrow> u64 \<Rightarrow> controller_ctx \<Rightarrow> controller_ctx" where
  "terminate_timed_out ev job_id ctx =
     (let s = cx_state ctx;
          head_worker_id = (case hm_get (gs_jobs s) job_id of
             None \<Rightarrow> None | Some job \<Rightarrow> (case ji_assigned_workers job of [] \<Rightarrow> None | w # _ \<Rightarrow> Some w));
          s1 = (case head_worker_id of None \<Rightarrow> s | Some w \<Rightarrow> send_ignore s w (TerminateJob job_id))
      in fail_and_remove ev ''Timeout'' job_id (ctx\<lparr>cx_state := s1\<rparr>))"

definition WORKER_TIMEOUT :: u64 where
  "WORKER_TIMEOUT = 60"

definition worker_dead :: "env \<Rightarrow> worker_handle \<Rightarrow> bool" where
  "worker_dead ev w = (\<not> wh_connected w \<and> sat_sub (ev_now ev) (wh_last_seen w) > WORKER_TIMEOUT)"

definition fail_job_of_dead_worker :: "env \<Rightarrow> u64 \<Rightarrow> controller_ctx \<Rightarrow> controller_ctx" where
  "fail_job_of_dead_worker ev job_id ctx =
     (let s = cx_state ctx;
          s1 = s\<lparr>gs_jobs := hm_modify job_id
                  (\<lambda>j. j\<lparr>ji_current_cpu_usage := 0, ji_current_memory_usage := 0\<rparr>) (gs_jobs s)\<rparr>
      in fail_and_remove ev ''Worker timeout'' job_id (ctx\<lparr>cx_state := s1\<rparr>))"

definition remove_dead_worker :: "env \<Rightarrow> string \<Rightarrow> controller_ctx \<Rightarrow> controller_ctx" where
  "remove_dead_worker ev worker_id ctx =
     (let s = cx_state ctx;
          jobs_to_fail = (case hm_get (gs_workers s) worker_id of
             None \<Rightarrow> [] | Some worker \<Rightarrow> wh_assigned_jobs worker);
          ctx1 = ctx\<lparr>cx_state := s\<lparr>gs_workers := hm_remove worker_id (gs_workers s)\<rparr>,
                     cx_metrics_nodes := hs_remove worker_id (cx_metrics_nodes ctx)\<rparr>
      in fold (fail_job_of_dead_worker ev) jobs_to_fail ctx1)"

definition check_timeouts :: "env \<Rightarrow> controller_ctx \<Rightarrow> controller_ctx" where
  "check_timeouts ev ctx =
     (if gs_role (cx_state ctx) \<noteq> Leader then ctx
      else
        (let timed_out_jobs = map fst (filter (\<lambda>(i, job). timed_out ev job) (gs_jobs (cx_state ctx)));
             ctx1 = fold (terminate_timed_out ev) timed_out_jobs ctx;
             dead_workers = map fst (filter (\<lambda>(i, w). worker_dead ev w) (gs_workers (cx_state ctx1)));
             ctx2 = fold (remove_dead_worker ev) dead_workers ctx1
         in if timed_out_jobs \<noteq> [] \<or> dead_workers \<noteq> []
            then (let ctx3 = sync_active_state_to_dashmaps ctx2
                  in ctx3\<lparr>cx_state := notify_one (cx_state ctx3)\<rparr>)
            else ctx2))"

definition prunable :: "env \<Rightarrow> u64 \<Rightarrow> job_info \<Rightarrow> bool" where
  "prunable ev retention_seconds job =
     (case ji_status job of
        Pending \<Rightarrow> False
      | Running \<Rightarrow> False
      | _ \<Rightarrow> (case ji_end_time job of
                Some end_time \<Rightarrow> sat_sub (ev_now ev) end_time > retention_seconds
              | None \<Rightarrow> sat_sub (ev_now ev) (ji_queued_time job) > retention_seconds + 86400))"

definition prune_jobs :: "env \<Rightarrow> u64 \<Rightarrow> controller_ctx \<Rightarrow> controller_ctx" where
  "prune_jobs ev retention_seconds ctx =
     (if gs_role (cx_state ctx) \<noteq> Leader then ctx
      else
        (let s = cx_state ctx;
             to_remove = map fst (filter (\<lambda>(i, job). prunable ev retention_seconds job) (gs_jobs s))
         in ctx\<lparr>cx_state := s\<lparr>gs_jobs := fold hm_remove to_remove (gs_jobs s)\<rparr>\<rparr>))"

text \<open>
  The scan of \<open>reconcile_missing_worker_jobs\<close>: one pass over the job table that threads the table of
  first-missing times and collects the jobs to reap.
\<close>

definition reconcile_scan :: "string \<Rightarrow> u64 list \<Rightarrow> u64 \<Rightarrow> u64 \<times> job_info \<Rightarrow>
    (u64, u64) hmap \<times> u64 list \<Rightarrow> (u64, u64) hmap \<times> u64 list" where
  "reconcile_scan worker_id active_job_ids now = (\<lambda>(job_id, job) (missing, reap).
     (if runs_on worker_id job then
        (if job_id \<notin> set active_job_ids then
           (let is_after_spawn = (case ji_start_time job of
                   None \<Rightarrow> True | Some start \<Rightarrow> sat_sub now start > 5)
            in if is_after_spawn then
                 (let missing' = hm_entry job_id now (\<lambda>t. t) missing;
                      first_seen_missing = (case hm_get missing' job_id of None \<Rightarrow> now | Some t \<Rightarrow> t)
                  in (missing', if sat_sub now first_seen_missing > 10 then reap @ [job_id] else reap))
               else (missing, reap))
         else (hm_remove job_id missing, reap))
      else (missing, reap)))"

definition reconcile_missing_worker_jobs ::
    "env \<Rightarrow> string \<Rightarrow> u64 list \<Rightarrow> u64 \<Rightarrow> (u64, u64) hmap \<times> global_state \<Rightarrow> (u64, u64) hmap \<times> global_state" where
  "reconcile_missing_worker_jobs ev worker_id active_job_ids now = (\<lambda>(missing, s).
     (let (missing', jobs_to_reap) = fold (reconcile_scan worker_id active_job_ids now) (gs_jobs s) (missing, [])
      in fold (\<lambda>job_id (m, s). (hm_remove job_id m,
             fst (finalize_job ev job_id (Failed ''Process exited or failed to start'') s)))
           jobs_to_reap (missing', s)))"

section \<open>The allocation invariant\<close>

text \<open>
  A worker and the job table agree: a job the worker lists, when it is still in the table, runs, has
  this worker among its workers, and its own record of cores does not exceed the worker's.
\<close>

definition link_ok :: "(u64, job_info) hmap \<Rightarrow> string \<Rightarrow> worker_handle \<Rightarrow> bool" where
  "link_ok jobs wid w = (\<forall>j\<in>set (wh_assigned_jobs w). \<forall>job. hm_get jobs j = Some job \<longrightarrow>
     ji_status job = Running \<and> wid \<in> set (ji_assigned_workers job) \<and>
     (hm_get (wh_job_core_assignments w) j = None \<longrightarrow> hm_get (ji_allocated_cores job) wid = None) \<and>
     (hm_get (wh_job_gres_assignments w) j = None \<longrightarrow> hm_get (ji_allocated_gres job) wid = None))"

definition alloc_inv :: "global_state \<Rightarrow> bool" where
  "alloc_inv s = (hm_wf (gs_workers s) \<and> hm_wf (gs_jobs s) \<and>
     (\<forall>wid w. hm_get (gs_workers s) wid = Some w \<longrightarrow> worker_ok w \<and> link_ok (gs_jobs s) wid w))"

definition unlisted :: "u64 \<Rightarrow> global_state \<Rightarrow> bool" where
  "unlisted j s = (\<forall>wid w. hm_get (gs_workers s) wid = Some w \<longrightarrow> j \<notin> set (wh_assigned_jobs w))"

lemma alloc_inv_cong:
  "gs_workers s' = gs_workers s \<Longrightarrow> gs_jobs s' = gs_jobs s \<Longrightarrow> alloc_inv s' = alloc_inv s"
  by (simp add: alloc_inv_def)

lemma alloc_invD:
  assumes "alloc_inv s" "hm_get (gs_workers s) wid = Some w"
  shows "worker_ok w" "link_ok (gs_jobs s) wid w"
  using assms by (auto simp: alloc_inv_def)

lemma release_worker_idem [simp]:
  "release_worker j job wid (release_worker j job wid w) = release_worker j job wid w"
  by (subst release_worker_def) simp

lemma hm_get_fold_modify_idem:
  assumes "\<And>k v. f k (f k v) = f k v"
  shows "hm_get (fold (\<lambda>k. hm_modify k (f k)) ks m) k =
    (if k \<in> set ks then map_option (f k) (hm_get m k) else hm_get m k)"
  using assms by (induction ks arbitrary: m) (auto simp: option.map_comp o_def)

lemma hm_wf_fold_modify [simp]: "hm_wf m \<Longrightarrow> hm_wf (fold (\<lambda>k. hm_modify k (f k)) ks m)"
  by (induction ks arbitrary: m) auto

lemma release_get_worker:
  "hm_get (gs_workers (release_job_resources_internal j s)) wid =
    (case hm_get (gs_jobs s) j of
       None \<Rightarrow> hm_get (gs_workers s) wid
     | Some job \<Rightarrow> (if wid \<in> set (ji_assigned_workers job)
         then map_option (release_worker j job wid) (hm_get (gs_workers s) wid)
         else hm_get (gs_workers s) wid))"
  by (simp add: release_job_resources_internal_def hm_get_fold_modify_idem split: option.split)

lemma release_fields [simp]:
  "gs_jobs (release_job_resources_internal j s) = gs_jobs s"
  "gs_queue (release_job_resources_internal j s) = gs_queue s"
  "gs_role (release_job_resources_internal j s) = gs_role s"
  "gs_usage_tracker (release_job_resources_internal j s) = gs_usage_tracker s"
  "gs_reservations (release_job_resources_internal j s) = gs_reservations s"
  "gs_api_port (release_job_resources_internal j s) = gs_api_port s"
  "gs_steps (release_job_resources_internal j s) = gs_steps s"
  "gs_outbox (release_job_resources_internal j s) = gs_outbox s"
  by (simp_all add: release_job_resources_internal_def split: option.split)

lemma release_unlisted:
  assumes "alloc_inv s" "hm_get (gs_jobs s) j = Some job"
  shows "unlisted j (release_job_resources_internal j s)"
  using assms by (fastforce simp: unlisted_def release_get_worker alloc_inv_def link_ok_def split: if_splits)

lemma release_worker_link:
  assumes "worker_ok w" "link_ok jobs wid w"
  shows "link_ok jobs wid (release_worker j job wid w)"
  using assms by (auto simp: link_ok_def release_worker_assignments)

lemma release_listed_ok:
  assumes "alloc_inv s" "hm_get (gs_workers s) wid = Some w" "hm_get (gs_jobs s) j = Some job"
  shows "worker_ok (release_worker j job wid w)"
proof (cases "j \<in> set (wh_assigned_jobs w)")
  case True
  with assms have "link_ok (gs_jobs s) wid w" "worker_ok w" by (auto dest: alloc_invD)
  with True assms(3) show ?thesis by (intro release_worker_ok) (auto simp: link_ok_def)
next
  case False
  then show ?thesis using assms by (simp add: release_worker_def alloc_invD)
qed

lemma release_alloc_inv:
  assumes "alloc_inv s"
  shows "alloc_inv (release_job_resources_internal j s)"
proof -
  have "hm_wf (gs_workers (release_job_resources_internal j s))"
    using assms by (simp add: alloc_inv_def release_job_resources_internal_def split: option.split)
  moreover have "worker_ok w \<and> link_ok (gs_jobs s) wid w"
    if new: "hm_get (gs_workers (release_job_resources_internal j s)) wid = Some w" for wid w
  proof -
    from new consider "hm_get (gs_workers s) wid = Some w"
      | w0 job where "hm_get (gs_workers s) wid = Some w0" "hm_get (gs_jobs s) j = Some job"
          "w = release_worker j job wid w0"
      by (auto simp: release_get_worker split: option.splits if_splits)
    then show ?thesis
      by cases (auto simp: alloc_invD [OF assms] release_listed_ok [OF assms] release_worker_link)
  qed
  ultimately show ?thesis using assms by (simp add: alloc_inv_def)
qed

text \<open>
  The invariant survives every change of the job table in which each job a worker lists was there
  before with the same status, workers and allocation.
\<close>

definition same_allocation :: "job_info \<Rightarrow> job_info \<Rightarrow> bool" where
  "same_allocation a b = (ji_status a = ji_status b \<and> ji_assigned_workers a = ji_assigned_workers b \<and>
     ji_allocated_cores a = ji_allocated_cores b \<and> ji_allocated_gres a = ji_allocated_gres b)"

lemma same_allocation_refl [simp]: "same_allocation a a"
  by (simp add: same_allocation_def)

lemma link_ok_mono:
  assumes "link_ok jobs wid w"
    and "\<And>k job. k \<in> set (wh_assigned_jobs w) \<Longrightarrow> hm_get jobs' k = Some job \<Longrightarrow>
      \<exists>job0. hm_get jobs k = Some job0 \<and> same_allocation job job0"
  shows "link_ok jobs' wid w"
  unfolding link_ok_def
proof (intro ballI allI impI)
  fix k job assume k: "k \<in> set (wh_assigned_jobs w)" "hm_get jobs' k = Some job"
  from assms(2) [OF this] obtain job0 where "hm_get jobs k = Some job0" "same_allocation job job0" by blast
  with assms(1) k(1) show "ji_status job = Running \<and> wid \<in> set (ji_assigned_workers job) \<and>
     (hm_get (wh_job_core_assignments w) k = None \<longrightarrow> hm_get (ji_allocated_cores job) wid = None) \<and>
     (hm_get (wh_job_gres_assignments w) k = None \<longrightarrow> hm_get (ji_allocated_gres job) wid = None)"
    by (auto simp: link_ok_def same_allocation_def)
qed

lemma alloc_inv_jobs:
  assumes "alloc_inv s" "hm_wf jobs'"
    and "\<And>wid w k job. hm_get (gs_workers s) wid = Some w \<Longrightarrow> k \<in> set (wh_assigned_jobs w) \<Longrightarrow>
      hm_get jobs' k = Some job \<Longrightarrow> \<exists>job0. hm_get (gs_jobs s) k = Some job0 \<and> same_allocation job job0"
  shows "alloc_inv (s\<lparr>gs_jobs := jobs'\<rparr>)"
proof -
  have "link_ok jobs' wid w" if "hm_get (gs_workers s) wid = Some w" for wid w
    by (rule link_ok_mono [OF alloc_invD(2) [OF assms(1) that]]) (rule assms(3) [OF that])
  then show ?thesis using assms(1,2) by (simp add: alloc_inv_def)
qed

lemma alloc_inv_job_change:
  assumes "alloc_inv s" "unlisted j s" "hm_wf jobs'"
    and "\<And>k. k \<noteq> j \<Longrightarrow> hm_get jobs' k = hm_get (gs_jobs s) k"
  shows "alloc_inv (s\<lparr>gs_jobs := jobs'\<rparr>)"
proof (rule alloc_inv_jobs [OF assms(1,3)])
  fix wid w k job
  assume "hm_get (gs_workers s) wid = Some w" "k \<in> set (wh_assigned_jobs w)" "hm_get jobs' k = Some job"
  moreover from this(1,2) assms(2) have "k \<noteq> j" unfolding unlisted_def by blast
  ultimately show "\<exists>job0. hm_get (gs_jobs s) k = Some job0 \<and> same_allocation job job0"
    using assms(4) [of k] by simp
qed

lemma alloc_inv_shrink_jobs:
  assumes "alloc_inv s" "hm_wf jobs'"
    and "\<And>k job. hm_get jobs' k = Some job \<Longrightarrow> hm_get (gs_jobs s) k = Some job"
  shows "alloc_inv (s\<lparr>gs_jobs := jobs'\<rparr>)"
  by (rule alloc_inv_jobs [OF assms(1,2)]) (blast intro: assms(3) same_allocation_refl)

lemma alloc_inv_modify_job:
  assumes "alloc_inv s" "\<And>job. same_allocation (f job) job"
  shows "alloc_inv (s\<lparr>gs_jobs := hm_modify j f (gs_jobs s)\<rparr>)"
proof (rule alloc_inv_jobs [OF assms(1)])
  show "hm_wf (hm_modify j f (gs_jobs s))" using assms(1) by (simp add: alloc_inv_def)
next
  fix wid w k job
  assume "hm_get (hm_modify j f (gs_jobs s)) k = Some job"
  then show "\<exists>job0. hm_get (gs_jobs s) k = Some job0 \<and> same_allocation job job0"
    using assms(2) by (auto split: if_splits)
qed

lemma finalize_alloc_inv:
  assumes "alloc_inv s"
  shows "alloc_inv (fst (finalize_job ev j st s))"
proof -
  let ?s1 = "accrue_job_usage ev j s"
  let ?s2 = "release_job_resources_internal j ?s1"
  have 1: "alloc_inv ?s1" "gs_jobs ?s1 = gs_jobs s"
    using assms by (auto simp: accrue_job_usage_def alloc_inv_def split: option.split)
  have 2: "alloc_inv ?s2" by (rule release_alloc_inv [OF 1(1)])
  show ?thesis
  proof (cases "hm_get (gs_jobs s) j")
    case None
    then show ?thesis using 2 1(2) by (simp add: finalize_job_def Let_def hm_modify_def alloc_inv_def)
  next
    case (Some job)
    then have "unlisted j ?s2" using 1 release_unlisted by auto
    then have "alloc_inv (?s2\<lparr>gs_jobs := hm_modify j (finalized ev st) (gs_jobs ?s2)\<rparr>)"
      using 2 by (intro alloc_inv_job_change [OF 2]) (auto simp: alloc_inv_def)
    then show ?thesis by (simp add: finalize_job_def Let_def)
  qed
qed

lemma preempt_alloc_inv:
  assumes "alloc_inv s"
  shows "alloc_inv (preempt_job j s)"
proof (cases "\<exists>job. hm_get (gs_jobs s) j = Some job \<and> ji_status job = Running")
  case True
  then obtain job where job: "hm_get (gs_jobs s) j = Some job" "ji_status job = Running" by blast
  define s1 where "s1 = (case ji_assigned_workers job of [] \<Rightarrow> s | w # _ \<Rightarrow> send_ignore s w (PreemptJob j))"
  have 1: "alloc_inv s1" "gs_jobs s1 = gs_jobs s"
    using assms by (auto simp: s1_def alloc_inv_def split: list.split)
  let ?s2 = "release_job_resources_internal j s1"
  have 2: "alloc_inv ?s2" by (rule release_alloc_inv [OF 1(1)])
  have "unlisted j ?s2" using 1 job release_unlisted by auto
  then have "alloc_inv (?s2\<lparr>gs_jobs := hm_modify j preempted (gs_jobs ?s2)\<rparr>)"
    using 2 by (intro alloc_inv_job_change [OF 2]) (auto simp: alloc_inv_def)
  then show ?thesis using job by (simp add: preempt_job_def Let_def s1_def alloc_inv_def)
qed (auto simp: preempt_job_def assms split: option.split)

lemma fail_and_remove_alloc_inv:
  assumes "alloc_inv (cx_state ctx)"
  shows "alloc_inv (cx_state (fail_and_remove ev err j ctx))"
proof -
  have "alloc_inv (fst (finalize_job ev j (Failed err) (cx_state ctx)))"
    by (rule finalize_alloc_inv [OF assms])
  then show ?thesis unfolding fail_and_remove_def Let_def
    by (simp, intro alloc_inv_shrink_jobs) (auto simp: alloc_inv_def split: if_splits)
qed

lemma fold_inv: "P a \<Longrightarrow> (\<And>x a. x \<in> set xs \<Longrightarrow> P a \<Longrightarrow> P (f x a)) \<Longrightarrow> P (fold f xs a)"
  by (induction xs arbitrary: a) auto

lemma terminate_alloc_inv:
  "alloc_inv (cx_state ctx) \<Longrightarrow> alloc_inv (cx_state (terminate_timed_out ev j ctx))"
  unfolding terminate_timed_out_def Let_def
  by (intro fail_and_remove_alloc_inv) (auto simp: alloc_inv_def split: option.splits list.splits)

lemma fail_job_alloc_inv:
  "alloc_inv (cx_state ctx) \<Longrightarrow> alloc_inv (cx_state (fail_job_of_dead_worker ev j ctx))"
  unfolding fail_job_of_dead_worker_def Let_def
  by (intro fail_and_remove_alloc_inv) (simp add: alloc_inv_modify_job same_allocation_def)

lemma remove_dead_worker_alloc_inv:
  "alloc_inv (cx_state ctx) \<Longrightarrow> alloc_inv (cx_state (remove_dead_worker ev wid ctx))"
  unfolding remove_dead_worker_def Let_def
  by (rule fold_inv [where P = "\<lambda>c. alloc_inv (cx_state c)"], simp add: alloc_inv_def)
    (rule fail_job_alloc_inv)

lemma sync_state [simp]: "cx_state (sync_active_state_to_dashmaps ctx) = cx_state ctx"
  by (simp add: sync_active_state_to_dashmaps_def Let_def split_def)

lemma alloc_inv_notify [simp]: "alloc_inv (notify_one s) = alloc_inv s"
  by (simp add: notify_one_def alloc_inv_def)

lemma check_timeouts_alloc_inv:
  assumes "alloc_inv (cx_state ctx)"
  shows "alloc_inv (cx_state (check_timeouts ev ctx))"
proof -
  have t: "alloc_inv (cx_state (fold (terminate_timed_out ev) js c))"
    if "alloc_inv (cx_state c)" for js c
    using that by (rule fold_inv [where P = "\<lambda>c. alloc_inv (cx_state c)"]) (rule terminate_alloc_inv)
  have d: "alloc_inv (cx_state (fold (remove_dead_worker ev) ws c))"
    if "alloc_inv (cx_state c)" for ws c
    using that by (rule fold_inv [where P = "\<lambda>c. alloc_inv (cx_state c)"]) (rule remove_dead_worker_alloc_inv)
  show ?thesis unfolding check_timeouts_def Let_def using d [OF t [OF assms]] assms by simp
qed

lemma prune_alloc_inv:
  assumes "alloc_inv (cx_state ctx)"
  shows "alloc_inv (cx_state (prune_jobs ev r ctx))"
proof -
  have "alloc_inv (cx_state ctx\<lparr>gs_jobs := fold hm_remove ks (gs_jobs (cx_state ctx))\<rparr>)" for ks
    using assms by (intro alloc_inv_shrink_jobs)
      (auto simp: alloc_inv_def hmap.wf_fold_del hmap.get_fold_del split: if_splits)
  then show ?thesis using assms by (simp add: prune_jobs_def Let_def)
qed

lemma reconcile_alloc_inv:
  "alloc_inv s \<Longrightarrow> alloc_inv (snd (reconcile_missing_worker_jobs ev wid act now (m, s)))"
  unfolding reconcile_missing_worker_jobs_def Let_def split_def
  by (rule fold_inv [where P = "\<lambda>p. alloc_inv (snd p)"]) (auto simp: finalize_alloc_inv split_def)

end
