(* ===== verification/JobLogs.thy ===== *)
theory JobLogs
  imports ControllerState
begin

text \<open>
  Tracking of multi-node jobs and their log files (\<open>controller/src/job_logs.rs\<close>). The file service is
  code outside the repository's crates' core: \<open>download\<close> and \<open>upload\<close> are parameters that answer with
  the bytes of a file id, and with the id given to uploaded bytes, or with \<open>None\<close> on failure.
\<close>

section \<open>Tracking\<close>

definition record_dispatched_workers :: "u64 \<Rightarrow> string list \<Rightarrow> global_state \<Rightarrow> global_state" where
  "record_dispatched_workers job_id workers s =
     (let t = gs_multinode_job_tracking s
      in s\<lparr>gs_multinode_job_tracking :=
             t\<lparr>mt_dispatched_workers := hm_insert job_id workers (mt_dispatched_workers t)\<rparr>\<rparr>)"

definition record_worker_log_files ::
    "u64 \<Rightarrow> string \<Rightarrow> string option \<Rightarrow> string option \<Rightarrow> multinode_job_tracking \<Rightarrow> multinode_job_tracking" where
  "record_worker_log_files job_id worker_id stdout_file_id stderr_file_id t =
     t\<lparr>mt_worker_log_files :=
         hm_entry job_id [] (hm_insert worker_id (stdout_file_id, stderr_file_id)) (mt_worker_log_files t)\<rparr>"

definition tracking_to_worker_log_files ::
    "(string, string option \<times> string option) hmap \<Rightarrow> (string, worker_log_files) hmap" where
  "tracking_to_worker_log_files log_files =
     map (\<lambda>(worker_id, (out, err)).
       (worker_id, \<lparr>wl_stdout_file_id = out, wl_stderr_file_id = err\<rparr>)) log_files"

definition merge_worker_log_file_maps ::
    "(string, worker_log_files) hmap \<Rightarrow> (string, worker_log_files) hmap \<Rightarrow> (string, worker_log_files) hmap" where
  "merge_worker_log_file_maps base extra =
     fold (\<lambda>(worker_id, files) m.
       (case hm_get m worker_id of
          Some existing \<Rightarrow>
            hm_insert worker_id
              \<lparr>wl_stdout_file_id = (if wl_stdout_file_id files \<noteq> None then wl_stdout_file_id files
                                    else wl_stdout_file_id existing),
               wl_stderr_file_id = (if wl_stderr_file_id files \<noteq> None then wl_stderr_file_id files
                                    else wl_stderr_file_id existing)\<rparr> m
        | None \<Rightarrow> hm_insert worker_id files m)) extra base"

definition expected_done_workers :: "multinode_job_tracking \<Rightarrow> u64 \<Rightarrow> job_info \<Rightarrow> usize" where
  "expected_done_workers t job_id job =
     (case hm_get (mt_dispatched_workers t) job_id of
        Some workers \<Rightarrow> length workers
      | None \<Rightarrow> max (length (ji_assigned_workers job)) 1)"

definition mark_worker_done :: "u64 \<Rightarrow> string \<Rightarrow> multinode_job_tracking \<Rightarrow> multinode_job_tracking \<times> usize" where
  "mark_worker_done job_id worker_id t =
     (let t' = t\<lparr>mt_done_workers := hm_entry job_id [] (hs_insert worker_id) (mt_done_workers t)\<rparr>
      in (t', case hm_get (mt_done_workers t') job_id of None \<Rightarrow> 0 | Some d \<Rightarrow> length d))"

definition cleanup_job_tracking :: "u64 \<Rightarrow> multinode_job_tracking \<Rightarrow> multinode_job_tracking" where
  "cleanup_job_tracking job_id t =
     t\<lparr>mt_dispatched_workers := hm_remove job_id (mt_dispatched_workers t),
       mt_worker_log_files := hm_remove job_id (mt_worker_log_files t),
       mt_done_workers := hm_remove job_id (mt_done_workers t)\<rparr>"

definition worker_order_for_logs :: "job_info \<Rightarrow> multinode_job_tracking \<Rightarrow> string list" where
  "worker_order_for_logs job t =
     (case hm_get (mt_dispatched_workers t) (ji_id job) of
        Some dispatched \<Rightarrow> (if dispatched \<noteq> [] then dispatched else ji_assigned_workers job)
      | None \<Rightarrow> ji_assigned_workers job)"

section \<open>Resolving a log file\<close>

definition job_level_log :: "job_usage \<Rightarrow> log_type \<Rightarrow> string option" where
  "job_level_log usage lt = (case lt of Stdout \<Rightarrow> ju_stdout_file_id usage | Stderr \<Rightarrow> ju_stderr_file_id usage)"

definition resolve_history_log_file_id ::
    "job_usage \<Rightarrow> log_type \<Rightarrow> usize option \<Rightarrow> string + string option" where
  "resolve_history_log_file_id usage lt rank =
     (case rank of
        None \<Rightarrow> Inr (job_level_log usage lt)
      | Some r \<Rightarrow>
          (if r \<ge> length (ju_assigned_workers usage)
           then Inl (''Invalid rank '' @ show_nat r @ '' for job '' @ show_u64 (ju_job_id usage))
           else
             (let worker_id = ju_assigned_workers usage ! r;
                  files = hm_get (ju_worker_log_files usage) worker_id;
                  file_id = (case lt of
                     Stdout \<Rightarrow> Option.bind files wl_stdout_file_id
                   | Stderr \<Rightarrow> Option.bind files wl_stderr_file_id)
              in if file_id \<noteq> None then Inr file_id
                 else if r = 0 then Inr (job_level_log usage lt)
                 else Inl (''No per-worker log file for rank '' @ show_nat r @ '' on job '' @
                        show_u64 (ju_job_id usage) @ '' (worker '' @ worker_id @ '')''))))"

section \<open>Merging logs\<close>

definition pick_log :: "log_type \<Rightarrow> string option \<times> string option \<Rightarrow> string option" where
  "pick_log lt p = (case lt of Stdout \<Rightarrow> fst p | Stderr \<Rightarrow> snd p)"

definition rank_header :: "nat \<Rightarrow> string \<Rightarrow> string" where
  "rank_header rank worker_id = ''=== rank '' @ show_nat rank @ '' ('' @ worker_id @ '') ===\<newline>''"

fun merge_from :: "(string \<Rightarrow> string option) \<Rightarrow> bool \<Rightarrow> (string, string option \<times> string option) hmap \<Rightarrow>
    log_type \<Rightarrow> nat \<Rightarrow> string list \<Rightarrow> string" where
  "merge_from download multinode log_files lt rank [] = []"
| "merge_from download multinode log_files lt rank (worker_id # ws) =
     (case Option.bind (Option.bind (hm_get log_files worker_id) (pick_log lt)) download of
        None \<Rightarrow> []
      | Some bytes \<Rightarrow>
          (if multinode then rank_header rank worker_id else []) @ bytes @
          (if ends_with bytes ''\<newline>'' then [] else ''\<newline>''))
     @ merge_from download multinode log_files lt (Suc rank) ws"

definition merge_worker_log_bytes :: "(string \<Rightarrow> string option) \<Rightarrow> string list \<Rightarrow>
    (string, string option \<times> string option) hmap \<Rightarrow> log_type \<Rightarrow> string" where
  "merge_worker_log_bytes download worker_order log_files lt =
     merge_from download (length worker_order > 1) log_files lt 0 worker_order"

definition upload_merged_log :: "(string \<Rightarrow> string option) \<Rightarrow> string \<Rightarrow> string option" where
  "upload_merged_log upload bytes = (if bytes = [] then None else upload bytes)"

definition merge_and_upload_job_logs :: "(string \<Rightarrow> string option) \<Rightarrow> (string \<Rightarrow> string option) \<Rightarrow>
    string list \<Rightarrow> (string, string option \<times> string option) hmap \<Rightarrow> string option \<times> string option" where
  "merge_and_upload_job_logs download upload worker_order log_files =
     (if length worker_order \<le> 1
      then (case worker_order of
              [] \<Rightarrow> (None, None)
            | worker_id # _ \<Rightarrow> (case hm_get log_files worker_id of None \<Rightarrow> (None, None) | Some p \<Rightarrow> p))
      else (upload_merged_log upload (merge_worker_log_bytes download worker_order log_files Stdout),
            upload_merged_log upload (merge_worker_log_bytes download worker_order log_files Stderr)))"

text \<open>
  \<open>&text[a..b]\<close> on a \<open>str\<close> panics unless both ends are character boundaries. \<open>lossy\<close> stands for
  \<open>String::from_utf8_lossy\<close>, which is the identity on valid UTF-8.
\<close>

definition slice_text :: "string \<Rightarrow> usize \<Rightarrow> usize option \<Rightarrow> panic + string" where
  "slice_text text offset len =
     (if offset < length text then
        (let stop = (case len of Some l \<Rightarrow> min (offset + l) (length text) | None \<Rightarrow> length text)
         in if is_char_boundary text offset \<and> is_char_boundary text stop
            then Inr (take (stop - offset) (drop offset text)) else Inl NotCharBoundary)
      else Inr [])"

definition fetch_multinode_log_text :: "(string \<Rightarrow> string) \<Rightarrow> (string \<Rightarrow> string option) \<Rightarrow> job_info \<Rightarrow>
    multinode_job_tracking \<Rightarrow> log_type \<Rightarrow> usize \<Rightarrow> usize option \<Rightarrow> panic + string option" where
  "fetch_multinode_log_text lossy download job t lt offset len =
     (let worker_order = worker_order_for_logs job t in
      if length worker_order \<le> 1 then Inr None
      else (case hm_get (mt_worker_log_files t) (ji_id job) of
              None \<Rightarrow> Inr None
            | Some log_files \<Rightarrow>
                (if log_files = [] then Inr None
                 else (let bytes = merge_worker_log_bytes download worker_order log_files lt in
                       if bytes = [] then Inr None
                       else (case slice_text (lossy bytes) offset len of
                               Inl p \<Rightarrow> Inl p | Inr t \<Rightarrow> Inr (Some t))))))"

section \<open>Properties\<close>

text \<open>
  The union of two per-worker maps: no worker is lost and a file id known to either side survives,
  with the new report winning.
\<close>

lemma merge_worker_log_get:
  assumes "hm_wf extra"
  shows "hm_get (merge_worker_log_file_maps base extra) w =
    (case (hm_get base w, hm_get extra w) of
       (b, None) \<Rightarrow> b
     | (None, Some e) \<Rightarrow> Some e
     | (Some b, Some e) \<Rightarrow> Some \<lparr>wl_stdout_file_id = opt_or (wl_stdout_file_id e) (wl_stdout_file_id b),
                               wl_stderr_file_id = opt_or (wl_stderr_file_id e) (wl_stderr_file_id b)\<rparr>)"
  using assms unfolding merge_worker_log_file_maps_def
proof (induction extra arbitrary: base)
  case (Cons p extra)
  obtain k f where p: "p = (k, f)" by (cases p)
  with Cons.prems have k: "hm_get extra k = None" and wf: "hm_wf extra" by auto
  show ?case
    by (simp only: p fold.simps o_apply split) (auto simp: Cons.IH [OF wf] k opt_or_def split: option.splits)
qed (simp split: option.splits)

lemma mark_worker_done_count:
  "snd (mark_worker_done j w t) =
     length (hs_insert w (case hm_get (mt_done_workers t) j of None \<Rightarrow> [] | Some d \<Rightarrow> d))"
  by (simp add: mark_worker_done_def Let_def split: option.split)

lemma merge_from_single:
  "download f = Some bytes \<Longrightarrow> hm_get log_files w = Some (Some f, e) \<Longrightarrow>
   merge_from download False log_files Stdout r [w] = bytes @ (if ends_with bytes ''\<newline>'' then [] else ''\<newline>'')"
  by (simp add: pick_log_def)

lemma slice_text_all: "slice_text t 0 None = Inr t"
  by (simp add: slice_text_def Let_def is_char_boundary_def)

lemma slice_text_ascii:
  assumes "\<forall>c\<in>set t. \<not> utf8_continuation c"
  shows "slice_text t off len = Inr (case len of None \<Rightarrow> drop off t | Some l \<Rightarrow> take l (drop off t))"
proof -
  have b: "i \<le> length t \<Longrightarrow> is_char_boundary t i" for i
    using assms by (auto simp: is_char_boundary_def)
  show ?thesis
    by (auto simp: slice_text_def Let_def b min_def split: option.split)
qed

end
