(* ===== verification/WorkerHandler.thy ===== *)
theory WorkerHandler
  imports Finalize JobLogs
begin

text \<open>
  The controller's side of a worker connection (\<open>controller/src/handlers/worker.rs\<close>): registration with
  the pools rebuilt from the job table, heartbeats, disconnection, and the messages about jobs, steps,
  the PMI key-value space and usage reports.

  \<open>services\<close> bundles the code outside the repository that the handlers call: the file service, the
  \<open>regex\<close> crate's captures of the MPI profiler lines in a buffer, and the parser of decimal numbers. A worker message handler runs under the state
  lock; \<open>JobDone\<close> releases the lock while it uploads merged logs, so it is split at that point into
  \<open>job_done_mark\<close> and \<open>job_done_finish\<close>.
\<close>

section \<open>Registration and disconnection\<close>

record services =
  sv_download :: "string \<Rightarrow> string option"
  sv_upload :: "string \<Rightarrow> string option"
  sv_captures :: "string \<Rightarrow> (string \<times> string \<times> string) list"
  sv_parse_f64 :: "string \<Rightarrow> real option"

definition registered_handle :: "env \<Rightarrow> string \<Rightarrow> socket_addr \<Rightarrow> string \<Rightarrow> resources \<Rightarrow> u64 \<Rightarrow> chan \<Rightarrow> u64 \<Rightarrow>
    real \<Rightarrow> (u64, job_info) hmap \<Rightarrow> worker_handle" where
  "registered_handle ev worker_id addr hostname res features tx connection_id pulse jobs =
     (let r = rebuild_worker_allocations worker_id res jobs in
      \<lparr>wh_addr = addr, wh_hostname = hostname, wh_resources = res, wh_routing = Direct tx,
       wh_assigned_jobs = ra_assigned_jobs r, wh_allocated_memory = ra_allocated_memory r,
       wh_connection_id = connection_id, wh_available_core_ids = ra_available_core_ids r,
       wh_job_core_assignments = ra_job_core_assignments r,
       wh_available_gres_ids = ra_available_gres_ids r,
       wh_job_gres_assignments = ra_job_gres_assignments r,
       wh_connected = True, wh_last_seen = ev_now ev, wh_cgroup_enabled = rs_cgroup_enabled res,
       wh_draining = False, wh_current_pulse_interval = pulse, wh_features = features\<rparr>)"

definition tell_peers :: "envelope \<Rightarrow> global_state \<Rightarrow> global_state" where
  "tell_peers e s =
     (case get_leader_peer_tx s of
        Some tx \<Rightarrow> (if tx \<in> set (gs_closed s) then s else post tx e s)
      | None \<Rightarrow> fold (\<lambda>tx s. if tx \<in> set (gs_closed s) then s else post tx e s) (hm_values (gs_peers s)) s)"

definition register_worker :: "env \<Rightarrow> string \<Rightarrow> socket_addr \<Rightarrow> string \<Rightarrow> resources \<Rightarrow> u64 \<Rightarrow> chan \<Rightarrow> u64 \<Rightarrow>
    controller_ctx \<Rightarrow> controller_ctx" where
  "register_worker ev worker_id addr hostname res features tx connection_id ctx =
     (let s = cx_state ctx;
          pulse = (case hm_get (gs_workers s) worker_id of
                     Some w \<Rightarrow> wh_current_pulse_interval w | None \<Rightarrow> 2);
          w = registered_handle ev worker_id addr hostname res features tx connection_id pulse (gs_jobs s);
          s1 = s\<lparr>gs_workers := hm_insert worker_id w (gs_workers s)\<rparr>;
          s2 = (if gs_role s1 = Follower
                then tell_peers (RegisterWorker worker_id hostname res features (ip_to_string addr)) s1
                else s1);
          ctx1 = sync_active_state_to_dashmaps (ctx\<lparr>cx_state := s2\<rparr>)
      in ctx1\<lparr>cx_state := notify_one (cx_state ctx1)\<rparr>)"

definition disconnect_worker :: "env \<Rightarrow> string \<Rightarrow> u64 \<Rightarrow> controller_ctx \<Rightarrow> controller_ctx" where
  "disconnect_worker ev worker_id connection_id ctx =
     (let s = cx_state ctx;
          should_mark_disconnected = (case hm_get (gs_workers s) worker_id of
             Some handle \<Rightarrow> wh_connection_id handle = connection_id | None \<Rightarrow> False);
          s2 = (if should_mark_disconnected
                then (let s1 = s\<lparr>gs_workers := hm_modify worker_id
                            (\<lambda>w. w\<lparr>wh_connected := False, wh_last_seen := ev_now ev\<rparr>) (gs_workers s)\<rparr>
                      in if gs_role s1 = Follower then tell_peers (DeregisterWorker worker_id) s1 else s1)
                else s)
      in sync_active_state_to_dashmaps (ctx\<lparr>cx_state := s2\<rparr>))"

section \<open>Heartbeats\<close>

definition idle_timeout :: "env \<Rightarrow> u64" where
  "idle_timeout ev = (case Option.bind (ev_idle_timeout ev) parse_u64 of None \<Rightarrow> 600 | Some t \<Rightarrow> t)"

definition push_history :: "job_stats \<Rightarrow> controller_ctx \<Rightarrow> controller_ctx" where
  "push_history stats ctx = ctx\<lparr>cx_job_metrics_history :=
     hm_entry (jst_job_id stats) [] (\<lambda>q. (if length q \<ge> 300 then tl q else q) @ [stats]) (cx_job_metrics_history ctx)\<rparr>"

definition record_worker_stats :: "string \<Rightarrow> job_stats \<Rightarrow> controller_ctx \<Rightarrow> controller_ctx" where
  "record_worker_stats worker_id stats ctx = ctx\<lparr>cx_job_worker_stats :=
     hm_entry (jst_job_id stats) []
       (hm_insert worker_id (jst_cpu_usage_percent stats, jst_memory_usage_bytes stats, jst_is_idle stats))
       (cx_job_worker_stats ctx)\<rparr>"

text \<open>Total CPU, total memory, whether all reported workers are idle, and the number of reports.\<close>

fun aggregate_stats :: "env \<Rightarrow> (string, real \<times> u64 \<times> bool) hmap \<Rightarrow> string list \<Rightarrow> real \<times> u64 \<times> bool \<times> nat \<Rightarrow>
    real \<times> u64 \<times> bool \<times> nat" where
  "aggregate_stats ev m [] acc = acc"
| "aggregate_stats ev m (w # ws) (cpu, mem, idle, n) =
     aggregate_stats ev m ws
       (case hm_get m w of
          Some (w_cpu, w_mem, w_idle) \<Rightarrow> (ev_rnd32 ev (cpu + w_cpu), mem + w_mem, idle \<and> w_idle, n + 1)
        | None \<Rightarrow> (cpu, mem, False, n))"

definition update_job_stats :: "env \<Rightarrow> (string, real \<times> u64 \<times> bool) hmap option \<Rightarrow> (u64, u64) hmap \<Rightarrow> job_stats \<Rightarrow>
    job_info \<Rightarrow> job_info \<times> (u64, u64) hmap" where
  "update_job_stats ev stats_map idle_start stats job =
     (let (cpu, mem, all_idle, reports) =
            (case stats_map of Some m \<Rightarrow> aggregate_stats ev m (ji_assigned_workers job) (0, 0, True, 0)
                             | None \<Rightarrow> (0, 0, False, 0));
          globally_idle = (all_idle \<and> reports = length (ji_assigned_workers job));
          j1 = job\<lparr>ji_current_cpu_usage := cpu, ji_current_memory_usage := mem,
                   ji_cgroup_active := jst_cgroup_active stats\<rparr>;
          (j2, idle2) =
            (if globally_idle then
               (if \<not> ji_is_idle j1
                then (j1\<lparr>ji_is_idle := True, ji_idle_duration := 0\<rparr>, hm_insert (ji_id job) (ev_now ev) idle_start)
                else (case hm_get idle_start (ji_id job) of
                        Some st \<Rightarrow> (j1\<lparr>ji_idle_duration := sat_sub (ev_now ev) st\<rparr>, idle_start)
                      | None \<Rightarrow> (j1, idle_start)))
             else (j1\<lparr>ji_is_idle := False, ji_idle_duration := 0\<rparr>, hm_remove (ji_id job) idle_start))
      in (if ji_is_idle j2 \<and> ji_idle_duration j2 \<ge> idle_timeout ev \<and> ji_qos j2 > Preemptible
          then j2\<lparr>ji_qos := Preemptible\<rparr> else j2, idle2))"

definition heartbeat_stats :: "env \<Rightarrow> string \<Rightarrow> job_stats \<Rightarrow> controller_ctx \<Rightarrow> controller_ctx" where
  "heartbeat_stats ev worker_id stats ctx =
     (let ctx1 = record_worker_stats worker_id stats (push_history stats ctx);
          s = cx_state ctx1
      in case hm_get (gs_jobs s) (jst_job_id stats) of
           None \<Rightarrow> ctx1
         | Some job \<Rightarrow>
             (let (job', idle') = update_job_stats ev (hm_get (cx_job_worker_stats ctx1) (jst_job_id stats))
                     (cx_global_idle_start ctx1) stats job
              in ctx1\<lparr>cx_state := s\<lparr>gs_jobs := hm_insert (jst_job_id stats) job' (gs_jobs s)\<rparr>,
                      cx_global_idle_start := idle'\<rparr>))"

definition heartbeat :: "env \<Rightarrow> string \<Rightarrow> u64 \<Rightarrow> resources \<Rightarrow> job_stats list \<Rightarrow> controller_ctx \<Rightarrow> controller_ctx" where
  "heartbeat ev worker_id connection_id res stats ctx =
     (case hm_get (gs_workers (cx_state ctx)) worker_id of
        None \<Rightarrow> ctx
      | Some worker \<Rightarrow>
          (if wh_connection_id worker = connection_id then
             (let s = cx_state ctx;
                  s1 = s\<lparr>gs_workers := hm_insert worker_id
                          (worker\<lparr>wh_resources := res, wh_last_seen := ev_now ev\<rparr>) (gs_workers s)\<rparr>;
                  (missing, s2) = reconcile_missing_worker_jobs ev worker_id
                    (remdups (map jst_job_id stats)) (ev_now ev) (cx_missing_jobs ctx, s1);
                  ctx2 = fold (heartbeat_stats ev worker_id) stats (ctx\<lparr>cx_state := s2, cx_missing_jobs := missing\<rparr>)
              in ctx2\<lparr>cx_state := notify_one (cx_state ctx2)\<rparr>)
           else ctx))"

section \<open>Messages about jobs\<close>

definition worker_draining :: "string \<Rightarrow> controller_ctx \<Rightarrow> controller_ctx" where
  "worker_draining worker_id ctx = (let s = cx_state ctx in
     ctx\<lparr>cx_state := s\<lparr>gs_workers := hm_modify worker_id (\<lambda>w. w\<lparr>wh_draining := True\<rparr>) (gs_workers s)\<rparr>\<rparr>)"

definition job_started :: "u64 \<Rightarrow> controller_ctx \<Rightarrow> controller_ctx" where
  "job_started job_id ctx =
     (let s = cx_state ctx;
          cgroup_active = (case hm_get (gs_jobs s) job_id of
             None \<Rightarrow> False
           | Some job \<Rightarrow> (case ji_assigned_workers job of
                 [] \<Rightarrow> False
               | w # _ \<Rightarrow> (case hm_get (gs_workers s) w of None \<Rightarrow> False | Some h \<Rightarrow> wh_cgroup_enabled h)))
      in ctx\<lparr>cx_state := notify_one (s\<lparr>gs_jobs := hm_modify job_id
            (\<lambda>j. j\<lparr>ji_status := Running, ji_cgroup_active := cgroup_active\<rparr>) (gs_jobs s)\<rparr>)\<rparr>)"

definition job_interactive_port :: "u64 \<Rightarrow> u16 \<Rightarrow> controller_ctx \<Rightarrow> controller_ctx" where
  "job_interactive_port job_id port ctx = (let s = cx_state ctx in
     ctx\<lparr>cx_state := s\<lparr>gs_jobs := hm_modify job_id (\<lambda>j. j\<lparr>ji_interactive_port := Some port\<rparr>) (gs_jobs s)\<rparr>\<rparr>)"

text \<open>\<open>buffer.drain(..n)\<close> on a \<open>String\<close> panics unless \<open>n\<close> is a character boundary.\<close>

definition OUTPUT_BUFFER_LIMIT :: nat where
  "OUTPUT_BUFFER_LIMIT = 10240"

definition append_output :: "string \<Rightarrow> string \<Rightarrow> panic + string" where
  "append_output s buffer =
     (let b = buffer @ s in
      if length b > OUTPUT_BUFFER_LIMIT
      then (let drain_point = length b - OUTPUT_BUFFER_LIMIT
            in if is_char_boundary b drain_point then Inr (drop drain_point b) else Inl NotCharBoundary)
      else Inr b)"

definition job_output :: "u64 \<Rightarrow> string \<Rightarrow> controller_ctx \<Rightarrow> panic + controller_ctx" where
  "job_output job_id data ctx =
     (if utf8_valid data then
        (let s = cx_state ctx;
             buffer = (case hm_get (gs_job_output_buffers s) job_id of None \<Rightarrow> [] | Some b \<Rightarrow> b)
         in case append_output data buffer of
              Inl p \<Rightarrow> Inl p
            | Inr b \<Rightarrow> Inr (ctx\<lparr>cx_state := s\<lparr>gs_job_output_buffers :=
                         hm_insert job_id b (gs_job_output_buffers s)\<rparr>\<rparr>))
      else Inr ctx)"

definition is_referenced :: "global_state \<Rightarrow> string \<Rightarrow> bool" where
  "is_referenced s f_id = list_ex (\<lambda>j. (ji_status j = Pending \<or> ji_status j = Running) \<and>
     list_ex (\<lambda>input. fh_file_id input = f_id) (ji_inputs j)) (hm_values (gs_jobs s))"

definition delete_unreferenced :: "string list \<Rightarrow> controller_ctx \<Rightarrow> controller_ctx" where
  "delete_unreferenced files ctx =
     ctx\<lparr>cx_deleted_files := cx_deleted_files ctx @ filter (\<lambda>f. \<not> is_referenced (cx_state ctx) f) files\<rparr>"

definition record_usage :: "job_info option \<Rightarrow> controller_ctx \<Rightarrow> controller_ctx" where
  "record_usage job ctx = ctx\<lparr>cx_accounting := cx_accounting ctx @
     (case job of None \<Rightarrow> [] | Some j \<Rightarrow> [job_to_usage j])\<rparr>"

definition job_done_mark :: "string \<Rightarrow> u64 \<Rightarrow> controller_ctx \<Rightarrow> controller_ctx \<times> bool" where
  "job_done_mark worker_id job_id ctx =
     (let s = cx_state ctx;
          (tracking, done_count) = mark_worker_done job_id worker_id (gs_multinode_job_tracking s);
          ctx1 = ctx\<lparr>cx_missing_jobs := hm_remove job_id (cx_missing_jobs ctx),
                     cx_state := s\<lparr>gs_multinode_job_tracking := tracking\<rparr>\<rparr>
      in (ctx1, case hm_get (gs_jobs s) job_id of
            None \<Rightarrow> False
          | Some job \<Rightarrow> ji_status job = Running \<and> done_count \<ge> expected_done_workers tracking job_id job))"

definition store_log_ids :: "string option \<Rightarrow> string option \<Rightarrow> (string, string option \<times> string option) hmap option \<Rightarrow>
    job_info \<Rightarrow> job_info" where
  "store_log_ids out err fresh job =
     (let j1 = (case out of Some i \<Rightarrow> job\<lparr>ji_stdout_file_id := Some i\<rparr> | None \<Rightarrow> job);
          j2 = (case err of Some i \<Rightarrow> j1\<lparr>ji_stderr_file_id := Some i\<rparr> | None \<Rightarrow> j1)
      in (case fresh of Some f \<Rightarrow> j2\<lparr>ji_worker_log_files := tracking_to_worker_log_files f\<rparr> | None \<Rightarrow> j2))"

text \<open>Call counts and bytes are summed with wrap-around at their widths; the time is the maximum.\<close>

definition add_capture :: "services \<Rightarrow> string \<times> string \<times> string \<Rightarrow> mpi_stats \<Rightarrow> mpi_stats" where
  "add_capture sv cap st = (case cap of (calls, bytes, time) \<Rightarrow>
     \<lparr>ms_send_calls = (case parse_u32 calls of Some c \<Rightarrow> ms_send_calls st + c | None \<Rightarrow> ms_send_calls st),
      ms_send_bytes = (case parse_u64 bytes of Some b \<Rightarrow> ms_send_bytes st + b | None \<Rightarrow> ms_send_bytes st),
      ms_send_time_secs = (case sv_parse_f64 sv time of
         Some t \<Rightarrow> if t > ms_send_time_secs st then t else ms_send_time_secs st
       | None \<Rightarrow> ms_send_time_secs st)\<rparr>)"

definition mpi_profile :: "services \<Rightarrow> string \<Rightarrow> mpi_stats option" where
  "mpi_profile sv buffer =
     (case sv_captures sv buffer of
        [] \<Rightarrow> None
      | caps \<Rightarrow> Some (fold (add_capture sv) caps \<lparr>ms_send_calls = 0, ms_send_bytes = 0, ms_send_time_secs = 0\<rparr>))"

definition take_profile :: "services \<Rightarrow> u64 \<Rightarrow> global_state \<Rightarrow> global_state" where
  "take_profile sv job_id s =
     (case hm_get (gs_job_output_buffers s) job_id of
        None \<Rightarrow> s
      | Some buffer \<Rightarrow>
          (let s1 = s\<lparr>gs_job_output_buffers := hm_remove job_id (gs_job_output_buffers s)\<rparr>
           in case mpi_profile sv buffer of
                None \<Rightarrow> s1
              | Some stats \<Rightarrow> s1\<lparr>gs_jobs := hm_modify job_id (\<lambda>j. j\<lparr>ji_mpi_stats := Some stats\<rparr>) (gs_jobs s1)\<rparr>))"

text \<open>The end of a job that the three terminal messages share.\<close>

definition finish_job :: "env \<Rightarrow> u64 \<Rightarrow> job_status \<Rightarrow> bool \<Rightarrow> controller_ctx \<Rightarrow> controller_ctx" where
  "finish_job ev job_id st cleanup ctx =
     (let (s1, files) = finalize_job ev job_id st (cx_state ctx);
          job_clone = hm_get (gs_jobs s1) job_id;
          s2 = s1\<lparr>gs_jobs := hm_remove job_id (gs_jobs s1)\<rparr>;
          s3 = (if cleanup then s2\<lparr>gs_multinode_job_tracking :=
                  cleanup_job_tracking job_id (gs_multinode_job_tracking s2)\<rparr> else s2);
          ctx1 = ctx\<lparr>cx_state := s3,
                     cx_completed_jobs := cx_completed_jobs ctx + (case st of Completed _ \<Rightarrow> 1 | _ \<Rightarrow> 0),
                     cx_failed_jobs := cx_failed_jobs ctx + (case st of Completed _ \<Rightarrow> 0 | _ \<Rightarrow> 1)\<rparr>;
          ctx2 = sync_active_state_to_dashmaps ctx1;
          ctx3 = ctx2\<lparr>cx_state := notify_one (cx_state ctx2)\<rparr>
      in record_usage job_clone (delete_unreferenced files ctx3))"

definition job_done_finish :: "env \<Rightarrow> services \<Rightarrow> u64 \<Rightarrow> i32 \<Rightarrow> string option \<times> string option \<Rightarrow>
    (string, string option \<times> string option) hmap \<Rightarrow> controller_ctx \<Rightarrow> controller_ctx" where
  "job_done_finish ev sv job_id exit_code ids log_files ctx =
     (let s1 = take_profile sv job_id (cx_state ctx);
          tracked = hm_get (mt_worker_log_files (gs_multinode_job_tracking s1)) job_id;
          fresh = (case tracked of
              Some m \<Rightarrow> (if m \<noteq> [] then Some m else if log_files = [] then None else Some log_files)
            | None \<Rightarrow> if log_files = [] then None else Some log_files);
          s2 = s1\<lparr>gs_jobs := hm_modify job_id (store_log_ids (fst ids) (snd ids) fresh) (gs_jobs s1)\<rparr>
      in finish_job ev job_id (Completed exit_code) True (ctx\<lparr>cx_state := s2\<rparr>))"

definition job_done :: "env \<Rightarrow> services \<Rightarrow> string \<Rightarrow> u64 \<Rightarrow> i32 \<Rightarrow> controller_ctx \<Rightarrow> controller_ctx" where
  "job_done ev sv worker_id job_id exit_code ctx =
     (let (ctx1, should_finalize) = job_done_mark worker_id job_id ctx in
      if \<not> should_finalize then ctx1
      else (case hm_get (gs_jobs (cx_state ctx1)) job_id of
              None \<Rightarrow> ctx1
            | Some job \<Rightarrow>
                (let tracking = gs_multinode_job_tracking (cx_state ctx1);
                     log_files = (case hm_get (mt_worker_log_files tracking) job_id of None \<Rightarrow> [] | Some m \<Rightarrow> m);
                     ids = merge_and_upload_job_logs (sv_download sv) (sv_upload sv)
                             (worker_order_for_logs job tracking) log_files
                 in job_done_finish ev sv job_id exit_code ids log_files ctx1)))"

definition job_error :: "env \<Rightarrow> u64 \<Rightarrow> string \<Rightarrow> controller_ctx \<Rightarrow> controller_ctx" where
  "job_error ev job_id error ctx =
     (let s = cx_state ctx;
          s1 = (case hm_get (mt_worker_log_files (gs_multinode_job_tracking s)) job_id of
                  None \<Rightarrow> s
                | Some log_files \<Rightarrow>
                    (if log_files \<noteq> [] then s\<lparr>gs_jobs := hm_modify job_id
                        (\<lambda>j. j\<lparr>ji_worker_log_files := tracking_to_worker_log_files log_files\<rparr>) (gs_jobs s)\<rparr>
                     else s))
      in finish_job ev job_id (Failed error) True
           (ctx\<lparr>cx_missing_jobs := hm_remove job_id (cx_missing_jobs ctx), cx_state := s1\<rparr>))"

definition job_killed :: "env \<Rightarrow> u64 \<Rightarrow> controller_ctx \<Rightarrow> controller_ctx" where
  "job_killed ev job_id ctx =
     finish_job ev job_id Killed False (ctx\<lparr>cx_missing_jobs := hm_remove job_id (cx_missing_jobs ctx)\<rparr>)"

section \<open>Messages about steps\<close>

definition set_step_status :: "u64 \<Rightarrow> u32 \<Rightarrow> step_status \<Rightarrow> global_state \<Rightarrow> global_state" where
  "set_step_status parent_job_id step_id st s =
     s\<lparr>gs_steps := hm_modify (parent_job_id, step_id) (\<lambda>x. x\<lparr>si_status := st\<rparr>) (gs_steps s)\<rparr>"

definition step_started :: "u64 \<Rightarrow> u32 \<Rightarrow> controller_ctx \<Rightarrow> controller_ctx" where
  "step_started parent_job_id step_id ctx =
     ctx\<lparr>cx_state := set_step_status parent_job_id step_id StepRunning (cx_state ctx)\<rparr>"

definition step_finished :: "u64 \<Rightarrow> u32 \<Rightarrow> step_status \<Rightarrow> i32 \<Rightarrow> controller_ctx \<Rightarrow> controller_ctx" where
  "step_finished parent_job_id step_id st code ctx =
     (let s = set_step_status parent_job_id step_id st (cx_state ctx);
          k = (parent_job_id, step_id);
          waiters = (case hm_get (gs_step_waiters s) k of None \<Rightarrow> [] | Some ws \<Rightarrow> ws)
      in ctx\<lparr>cx_state := s\<lparr>gs_step_waiters := hm_remove k (gs_step_waiters s),
                            gs_step_output_waiters := hm_remove k (gs_step_output_waiters s)\<rparr>,
             cx_step_results := cx_step_results ctx @ map (\<lambda>w. (w, code)) waiters\<rparr>)"

definition step_done :: "u64 \<Rightarrow> u32 \<Rightarrow> i32 \<Rightarrow> controller_ctx \<Rightarrow> controller_ctx" where
  "step_done parent_job_id step_id exit_code =
     step_finished parent_job_id step_id (StepCompleted exit_code) exit_code"

definition step_error :: "u64 \<Rightarrow> u32 \<Rightarrow> string \<Rightarrow> controller_ctx \<Rightarrow> controller_ctx" where
  "step_error parent_job_id step_id error = step_finished parent_job_id step_id (StepFailed error) (- 1)"

section \<open>PMI\<close>

definition pmi_put :: "u64 \<Rightarrow> u32 \<Rightarrow> string \<Rightarrow> string \<Rightarrow> controller_ctx \<Rightarrow> controller_ctx" where
  "pmi_put parent_job_id step_id key val ctx =
     ctx\<lparr>cx_pmi_kvs := hm_entry (parent_job_id, step_id) [] (hm_insert key val) (cx_pmi_kvs ctx)\<rparr>"

definition pmi_lookup :: "controller_ctx \<Rightarrow> u64 \<Rightarrow> u32 \<Rightarrow> string \<Rightarrow> string option" where
  "pmi_lookup ctx parent_job_id step_id key =
     Option.bind (hm_get (cx_pmi_kvs ctx) (parent_job_id, step_id)) (\<lambda>m. hm_get m key)"

definition pmi_get :: "string \<Rightarrow> u64 \<Rightarrow> u32 \<Rightarrow> u32 \<Rightarrow> string \<Rightarrow> u64 \<Rightarrow> controller_ctx \<Rightarrow> controller_ctx" where
  "pmi_get worker_id parent_job_id step_id rank key request_id ctx =
     (let v = pmi_lookup ctx parent_job_id step_id key; s = cx_state ctx in
      if hm_contains (gs_workers s) worker_id
      then ctx\<lparr>cx_state := send_ignore s worker_id
             (StepPMIGetResponse parent_job_id step_id rank request_id key v)\<rparr>
      else ctx)"

definition pmi_barrier_enter :: "u64 \<Rightarrow> u32 \<Rightarrow> u32 \<Rightarrow> controller_ctx \<Rightarrow> controller_ctx" where
  "pmi_barrier_enter parent_job_id step_id rank ctx =
     (let k = (parent_job_id, step_id) in
      case hm_get (gs_steps (cx_state ctx)) k of
        None \<Rightarrow> ctx
      | Some step \<Rightarrow>
          (let barriers = hs_insert rank (case hm_get (cx_pmi_barriers ctx) k of None \<Rightarrow> [] | Some b \<Rightarrow> b)
           in if (of_nat (length barriers) :: u32) = si_ntasks step
              then ctx\<lparr>cx_pmi_barriers := hm_remove k (cx_pmi_barriers ctx),
                       cx_state := fold (\<lambda>w_id s. send_ignore s w_id (StepPMIBarrierRelease parent_job_id step_id))
                          (si_assigned_workers step) (cx_state ctx)\<rparr>
              else ctx\<lparr>cx_pmi_barriers := hm_insert k barriers (cx_pmi_barriers ctx)\<rparr>))"

section \<open>Usage reports\<close>

definition apply_usage_report :: "bool \<Rightarrow> job_usage \<Rightarrow> (string, string option \<times> string option) hmap \<Rightarrow> job_info \<Rightarrow> job_info" where
  "apply_usage_report multinode usage tracked job =
     (let j1 = job\<lparr>ji_cgroup_active := ju_cgroup_active usage\<rparr>;
          j2 = (if multinode then j1
                else j1\<lparr>ji_stdout_file_id := ju_stdout_file_id usage, ji_stderr_file_id := ju_stderr_file_id usage\<rparr>);
          j3 = j2\<lparr>ji_workdir_file_id := ju_workdir_file_id usage, ji_output_artifacts := ju_output_artifacts usage\<rparr>
      in if tracked \<noteq> [] then j3\<lparr>ji_worker_log_files := tracking_to_worker_log_files tracked\<rparr> else j3)"

definition with_tracked_logs :: "(string, string option \<times> string option) hmap \<Rightarrow> job_usage \<Rightarrow> job_usage" where
  "with_tracked_logs tracked u =
     (if tracked \<noteq> [] then u\<lparr>ju_worker_log_files := tracking_to_worker_log_files tracked\<rparr> else u)"

definition report_job_usage :: "string \<Rightarrow> job_usage \<Rightarrow> controller_ctx \<Rightarrow> controller_ctx" where
  "report_job_usage worker_id usage ctx =
     (let s = cx_state ctx;
          tracking = record_worker_log_files (ju_job_id usage) worker_id (ju_stdout_file_id usage)
                       (ju_stderr_file_id usage) (gs_multinode_job_tracking s);
          tracked = (case hm_get (mt_worker_log_files tracking) (ju_job_id usage) of None \<Rightarrow> [] | Some m \<Rightarrow> m);
          s1 = s\<lparr>gs_multinode_job_tracking := tracking\<rparr>
      in case hm_get (gs_jobs s1) (ju_job_id usage) of
           Some job \<Rightarrow>
             (let multinode = expected_done_workers tracking (ju_job_id usage) job > 1;
                  job' = apply_usage_report multinode usage tracked job
              in ctx\<lparr>cx_state := s1\<lparr>gs_jobs := hm_insert (ju_job_id usage) job' (gs_jobs s1)\<rparr>,
                     cx_accounting := cx_accounting ctx @
                       [with_tracked_logs tracked (merge_usage_report_with_job usage job')]\<rparr>)
         | None \<Rightarrow> ctx\<lparr>cx_state := s1, cx_accounting := cx_accounting ctx @ [with_tracked_logs tracked usage]\<rparr>)"

end
