(* ===== verification/Rebuild.thy ===== *)
theory Rebuild
  imports WorkerHandler
begin

text \<open>
  Correctness of \<open>rebuild_worker_allocations\<close> (\<open>controller/src/state.rs\<close>), which the controller runs
  when a worker connects, for example after a failover: if the job records name disjoint ids that the
  worker has, the rebuilt pools satisfy the worker invariant and agree with the records.
\<close>

section \<open>What the job table records for a worker\<close>

definition rec_core_entry :: "string \<Rightarrow> (u64, job_info) hmap \<Rightarrow> u64 \<Rightarrow> usize list option" where
  "rec_core_entry wid jobs j = (case hm_get jobs j of None \<Rightarrow> None
     | Some job \<Rightarrow> if runs_on wid job then hm_get (ji_allocated_cores job) wid else None)"

definition rec_gres_entry :: "string \<Rightarrow> (u64, job_info) hmap \<Rightarrow> u64 \<Rightarrow> (string, u32 list) hmap option" where
  "rec_gres_entry wid jobs j = (case hm_get jobs j of None \<Rightarrow> None
     | Some job \<Rightarrow> if runs_on wid job then hm_get (ji_allocated_gres job) wid else None)"

definition rec_cores :: "string \<Rightarrow> (u64, job_info) hmap \<Rightarrow> u64 \<Rightarrow> usize list" where
  "rec_cores wid jobs j = (case rec_core_entry wid jobs j of None \<Rightarrow> [] | Some c \<Rightarrow> c)"

definition rec_gres :: "string \<Rightarrow> (u64, job_info) hmap \<Rightarrow> string \<Rightarrow> u64 \<Rightarrow> u32 list" where
  "rec_gres wid jobs name j = (case rec_gres_entry wid jobs j of None \<Rightarrow> []
     | Some m \<Rightarrow> (case hm_get m name of None \<Rightarrow> [] | Some ids \<Rightarrow> ids))"

definition disjoint_ids :: "('i \<Rightarrow> bool) \<Rightarrow> ('j \<Rightarrow> 'i list) \<Rightarrow> bool" where
  "disjoint_ids P f = ((\<forall>j. distinct (f j) \<and> (\<forall>x\<in>set (f j). P x)) \<and>
     (\<forall>j k. j \<noteq> k \<longrightarrow> set (f j) \<inter> set (f k) = {}))"

definition res_limit :: "resources \<Rightarrow> string \<Rightarrow> nat" where
  "res_limit res name = (case hm_get (rs_gres res) name of None \<Rightarrow> 0 | Some c \<Rightarrow> gres_count c)"

definition keyed :: "(u64, job_info) hmap \<Rightarrow> bool" where
  "keyed jobs = (hm_wf jobs \<and> (\<forall>(j, job)\<in>set jobs. ji_id job = j))"

definition recorded_ok :: "string \<Rightarrow> resources \<Rightarrow> (u64, job_info) hmap \<Rightarrow> bool" where
  "recorded_ok wid res jobs = (keyed jobs \<and> hm_wf (rs_gres res) \<and>
     (\<forall>j m. rec_gres_entry wid jobs j = Some m \<longrightarrow> hm_wf m) \<and>
     disjoint_ids (\<lambda>c. c < rs_cpu_cores res) (rec_cores wid jobs) \<and>
     (\<forall>name. disjoint_ids (\<lambda>i. unat i < res_limit res name) (rec_gres wid jobs name)))"

lemma pool_ok_complement:
  assumes "disjoint_ids P f" "distinct av" "\<And>x. x \<in> set av \<longleftrightarrow> P x \<and> (\<forall>j. x \<notin> set (f j))"
  shows "pool_ok P av f"
  using assms(1,2) unfolding pool_ok_def disjoint_ids_def by (auto simp: assms(3))

section \<open>The result of the loop\<close>

text \<open>One iteration, table by table.\<close>

lemma rebuild_job_fields:
  "ra_assigned_jobs (rebuild_job wid job r) =
     (if runs_on wid job then hs_insert (ji_id job) (ra_assigned_jobs r) else ra_assigned_jobs r)"
  "ra_job_core_assignments (rebuild_job wid job r) =
     (if runs_on wid job then (case hm_get (ji_allocated_cores job) wid of None \<Rightarrow> ra_job_core_assignments r
        | Some c \<Rightarrow> hm_insert (ji_id job) c (ra_job_core_assignments r)) else ra_job_core_assignments r)"
  "ra_available_core_ids (rebuild_job wid job r) =
     (if runs_on wid job then (case hm_get (ji_allocated_cores job) wid of None \<Rightarrow> ra_available_core_ids r
        | Some c \<Rightarrow> drop_ids c (ra_available_core_ids r)) else ra_available_core_ids r)"
  "ra_job_gres_assignments (rebuild_job wid job r) =
     (if runs_on wid job then (case hm_get (ji_allocated_gres job) wid of None \<Rightarrow> ra_job_gres_assignments r
        | Some g \<Rightarrow> hm_insert (ji_id job) g (ra_job_gres_assignments r)) else ra_job_gres_assignments r)"
  "ra_available_gres_ids (rebuild_job wid job r) =
     (if runs_on wid job then (case hm_get (ji_allocated_gres job) wid of None \<Rightarrow> ra_available_gres_ids r
        | Some g \<Rightarrow> fold (\<lambda>(name, ids). hm_modify name (drop_ids ids)) g (ra_available_gres_ids r))
      else ra_available_gres_ids r)"
  by (auto simp: rebuild_job_def rebuild_cores_def rebuild_gres_def split: option.split)

lemma hm_get_snoc: "hm_wf (jobs @ [(j, job)]) \<Longrightarrow>
    hm_get (jobs @ [(j, job)]) i = (if i = j then Some job else hm_get jobs i)"
  by (induction jobs) (auto simp: hm_wf_def)

lemma hm_wf_snoc: "hm_wf (jobs @ [(j, job)]) \<Longrightarrow> hm_wf jobs \<and> hm_get jobs j = None"
  by (auto simp: hm_wf_def hm_get_None_iff image_iff)

lemma keyed_snoc: "keyed (jobs @ [(j, job)]) \<Longrightarrow> keyed jobs \<and> ji_id job = j \<and> hm_get jobs j = None"
  by (auto simp: keyed_def dest: hm_wf_snoc)

lemma hm_get_fold_modify:
  assumes "hm_wf g"
  shows "hm_get (fold (\<lambda>(name, ids). hm_modify name (h ids)) g m) n =
    (case hm_get g n of None \<Rightarrow> hm_get m n | Some ids \<Rightarrow> map_option (h ids) (hm_get m n))"
  using assms by (induction g arbitrary: m) (auto split: option.splits)

lemma rebuild_tables:
  assumes "keyed jobs"
  shows "set (ra_assigned_jobs (rebuild_worker_allocations wid res jobs)) =
      {j. \<exists>job. hm_get jobs j = Some job \<and> runs_on wid job}"
    "distinct (ra_assigned_jobs (rebuild_worker_allocations wid res jobs))"
    "hm_get (ra_job_core_assignments (rebuild_worker_allocations wid res jobs)) j = rec_core_entry wid jobs j"
    "hm_get (ra_job_gres_assignments (rebuild_worker_allocations wid res jobs)) j = rec_gres_entry wid jobs j"
  using assms
proof (induction jobs arbitrary: j rule: rev_induct)
  case Nil
  {
    case 1 then show ?case by (simp add: rebuild_worker_allocations_def hm_values_def)
  next
    case 2 then show ?case by (simp add: rebuild_worker_allocations_def hm_values_def)
  next
    case 3 then show ?case by (simp add: rebuild_worker_allocations_def hm_values_def rec_core_entry_def)
  next
    case 4 then show ?case by (simp add: rebuild_worker_allocations_def hm_values_def rec_gres_entry_def)
  }
next
  case (snoc p jobs)
  obtain k job where p: "p = (k, job)" by (cases p)
  have step: "rebuild_worker_allocations wid res (jobs @ [p]) = rebuild_job wid job (rebuild_worker_allocations wid res jobs)"
    by (simp add: rebuild_worker_allocations_def hm_values_def p)
  {
    case 1
    then have k: "keyed jobs" "ji_id job = k" "hm_wf (jobs @ [(k, job)])" "hm_get jobs k = None"
      using keyed_snoc [of jobs k job] by (auto simp: p keyed_def)
    show ?case unfolding step rebuild_job_fields using snoc.IH(1) [OF k(1)] k
      by (auto simp: p hm_get_snoc split: if_splits)
  next
    case 2
    then show ?case unfolding step rebuild_job_fields using snoc.IH(2) keyed_snoc [of jobs k job] by (auto simp: p)
  next
    case 3
    then have k: "keyed jobs" "ji_id job = k" "hm_wf (jobs @ [(k, job)])" "hm_get jobs k = None"
      using keyed_snoc [of jobs k job] by (auto simp: p keyed_def)
    show ?case unfolding step rebuild_job_fields using snoc.IH(3) [OF k(1)] k
      by (auto simp: p rec_core_entry_def hm_get_snoc split: option.split)
  next
    case 4
    then have k: "keyed jobs" "ji_id job = k" "hm_wf (jobs @ [(k, job)])" "hm_get jobs k = None"
      using keyed_snoc [of jobs k job] by (auto simp: p keyed_def)
    show ?case unfolding step rebuild_job_fields using snoc.IH(4) [OF k(1)] k
      by (auto simp: p rec_gres_entry_def hm_get_snoc split: option.split)
  }
qed

lemma all_held_upd:
  assumes "f k = []"
  shows "(\<forall>j. c \<notin> set (if j = k then a else f j)) \<longleftrightarrow> c \<notin> set a \<and> (\<forall>j. c \<notin> set (f j))"
proof
  assume h: "\<forall>j. c \<notin> set (if j = k then a else f j)"
  have "c \<notin> set (f j)" for j using spec [OF h, of j] assms by (cases "j = k") simp_all
  with spec [OF h, of k] show "c \<notin> set a \<and> (\<forall>j. c \<notin> set (f j))" by simp
qed simp

lemma rebuild_free_cores:
  assumes "keyed jobs"
  shows "set (ra_available_core_ids (rebuild_worker_allocations wid res jobs)) =
      {c. c < rs_cpu_cores res \<and> (\<forall>j. c \<notin> set (rec_cores wid jobs j))}"
    "distinct (ra_available_core_ids (rebuild_worker_allocations wid res jobs))"
  using assms
proof (induction jobs rule: rev_induct)
  case Nil
  {
    case 1 then show ?case
      by (auto simp: rebuild_worker_allocations_def hm_values_def rec_cores_def rec_core_entry_def)
  next
    case 2 then show ?case by (simp add: rebuild_worker_allocations_def hm_values_def)
  }
next
  case (snoc p jobs)
  obtain k job where p: "p = (k, job)" by (cases p)
  have step: "rebuild_worker_allocations wid res (jobs @ [p]) = rebuild_job wid job (rebuild_worker_allocations wid res jobs)"
    by (simp add: rebuild_worker_allocations_def hm_values_def p)
  {
    case 1
    then have k: "keyed jobs" "hm_wf (jobs @ [(k, job)])" "hm_get jobs k = None"
      using keyed_snoc [of jobs k job] by (auto simp: p keyed_def)
    have rc: "rec_cores wid (jobs @ [p]) j = (if j = k then (if runs_on wid job then
        (case hm_get (ji_allocated_cores job) wid of None \<Rightarrow> [] | Some c \<Rightarrow> c) else []) else rec_cores wid jobs j)" for j
      using k by (simp add: rec_cores_def rec_core_entry_def p hm_get_snoc)
    have old: "rec_cores wid jobs k = []" using k(3) by (simp add: rec_cores_def rec_core_entry_def)
    let ?new = "if runs_on wid job then (case hm_get (ji_allocated_cores job) wid of None \<Rightarrow> [] | Some c \<Rightarrow> c) else []"
    have "set (ra_available_core_ids (rebuild_worker_allocations wid res (jobs @ [p]))) =
        {c. c < rs_cpu_cores res \<and> (\<forall>j. c \<notin> set (rec_cores wid jobs j))} - set ?new"
      unfolding step rebuild_job_fields using snoc.IH(1) [OF k(1)]
      by (cases "hm_get (ji_allocated_cores job) wid"; cases "runs_on wid job") simp_all
    also have "\<dots> = {c. c < rs_cpu_cores res \<and> (\<forall>j. c \<notin> set (rec_cores wid (jobs @ [p]) j))}"
      unfolding rc all_held_upd [of "rec_cores wid jobs" k, OF old] by blast
    finally show ?case .
  next
    case 2
    then show ?case unfolding step rebuild_job_fields using snoc.IH(2) keyed_snoc [of jobs k job]
      by (auto simp: p split: option.split)
  }
qed

lemma rebuild_free_gres:
  assumes "keyed jobs" "hm_wf (rs_gres res)" "\<forall>j m. rec_gres_entry wid jobs j = Some m \<longrightarrow> hm_wf m"
  shows "\<exists>l. hm_get (ra_available_gres_ids (rebuild_worker_allocations wid res jobs)) name =
      map_option (\<lambda>_. l) (hm_get (rs_gres res) name) \<and> distinct l \<and>
      set l = {i. unat i < res_limit res name \<and> (\<forall>j. i \<notin> set (rec_gres wid jobs name j))}"
  using assms(1,3)
proof (induction jobs rule: rev_induct)
  case Nil
  have "\<exists>l. hm_get (full_gres_ids (rs_gres res)) name = map_option (\<lambda>_. l) (hm_get (rs_gres res) name) \<and> distinct l \<and>
      set l = {i. unat i < res_limit res name}"
  proof (cases "hm_get (rs_gres res) name")
    case None
    then show ?thesis by (intro exI [of _ "[]"]) (simp add: free_full_gres [OF assms(2)] res_limit_def)
  next
    case (Some c)
    then show ?thesis
      by (intro exI [of _ "map of_nat [0..<gres_count c]"] conjI)
        (simp add: free_full_gres [OF assms(2)], rule gres_range_ids, auto simp: res_limit_def simp flip: gres_range_ids(2) simp del: set_map)
  qed
  then show ?case by (simp add: rebuild_worker_allocations_def hm_values_def rec_gres_def rec_gres_entry_def)
next
  case (snoc p jobs)
  obtain k job where p: "p = (k, job)" by (cases p)
  have step: "rebuild_worker_allocations wid res (jobs @ [p]) = rebuild_job wid job (rebuild_worker_allocations wid res jobs)"
    by (simp add: rebuild_worker_allocations_def hm_values_def p)
  from snoc.prems have k: "keyed jobs" "hm_wf (jobs @ [(k, job)])" "hm_get jobs k = None"
    using keyed_snoc [of jobs k job] by (auto simp: p keyed_def)
  have entry: "rec_gres_entry wid (jobs @ [p]) j = (if j = k then (if runs_on wid job then
      hm_get (ji_allocated_gres job) wid else None) else rec_gres_entry wid jobs j)" for j
    using k by (simp add: rec_gres_entry_def p hm_get_snoc)
  have old: "rec_gres_entry wid jobs k = None" using k(3) by (simp add: rec_gres_entry_def)
  have "\<forall>j m. rec_gres_entry wid jobs j = Some m \<longrightarrow> hm_wf m"
    using snoc.prems(2) old by (metis entry option.distinct(1))
  from snoc.IH [OF k(1) this] obtain l where
    l: "hm_get (ra_available_gres_ids (rebuild_worker_allocations wid res jobs)) name = map_option (\<lambda>_. l) (hm_get (rs_gres res) name)"
      "distinct l" "set l = {i. unat i < res_limit res name \<and> (\<forall>j. i \<notin> set (rec_gres wid jobs name j))}" by blast
  let ?new = "case rec_gres_entry wid (jobs @ [p]) k of None \<Rightarrow> [] | Some m \<Rightarrow> (case hm_get m name of None \<Rightarrow> [] | Some ids \<Rightarrow> ids)"
  have rg: "rec_gres wid (jobs @ [p]) name j = (if j = k then ?new else rec_gres wid jobs name j)" for j
    by (simp add: rec_gres_def entry)
  have "rec_gres wid jobs name k = []" by (simp add: rec_gres_def old)
  then have set: "set (drop_ids ?new l) = {i. unat i < res_limit res name \<and> (\<forall>j. i \<notin> set (rec_gres wid (jobs @ [p]) name j))}"
    unfolding rg all_held_upd [of "rec_gres wid jobs name" k, OF \<open>rec_gres wid jobs name k = []\<close>] using l(3) by auto
  have "hm_get (ra_available_gres_ids (rebuild_worker_allocations wid res (jobs @ [p]))) name =
      map_option (\<lambda>_. drop_ids ?new l) (hm_get (rs_gres res) name)"
    unfolding step rebuild_job_fields using l(1) spec [OF snoc.prems(2), of k] entry [of k]
    by (auto simp: drop_ids_def hm_get_fold_modify option.map_comp o_def split: option.splits)
  with set l(2) show ?case by (intro exI [of _ "drop_ids ?new l"]) simp
qed

section \<open>The rebuilt worker\<close>

theorem registered_handle_ok:
  assumes "recorded_ok wid res jobs"
  shows "worker_ok (registered_handle ev wid addr hostname res features tx cid pulse jobs)"
    "link_ok jobs wid (registered_handle ev wid addr hostname res features tx cid pulse jobs)"
proof -
  let ?w = "registered_handle ev wid addr hostname res features tx cid pulse jobs"
  let ?r = "rebuild_worker_allocations wid res jobs"
  have k: "keyed jobs" and wf: "hm_wf (rs_gres res)"
    and gm: "\<forall>j m. rec_gres_entry wid jobs j = Some m \<longrightarrow> hm_wf m" using assms by (auto simp: recorded_ok_def)
  note t = rebuild_tables [OF k, of wid res]
  have f: "wh_assigned_jobs ?w = ra_assigned_jobs ?r" "wh_resources ?w = res"
    "wh_job_core_assignments ?w = ra_job_core_assignments ?r" "wh_job_gres_assignments ?w = ra_job_gres_assignments ?r"
    "wh_available_core_ids ?w = ra_available_core_ids ?r" "wh_available_gres_ids ?w = ra_available_gres_ids ?r"
    by (simp_all add: registered_handle_def Let_def)
  have c: "cores_of ?w = rec_cores wid jobs" by (simp add: fun_eq_iff cores_of_def rec_cores_def f t)
  have g: "gres_of ?w n = rec_gres wid jobs n" for n by (simp add: fun_eq_iff gres_of_def rec_gres_def f t)
  have "tables_ok ?w" using t wf gm
    by (auto simp: tables_ok_def f rec_core_entry_def rec_gres_entry_def split: option.splits if_splits)
  moreover have "cores_ok ?w" unfolding cores_ok_def c f
    using assms rebuild_free_cores [OF k, of wid res] by (intro pool_ok_complement) (auto simp: recorded_ok_def)
  moreover have "gres_ok ?w n" for n
  proof -
    from rebuild_free_gres [OF k wf gm, of n] obtain l where
      l: "hm_get (ra_available_gres_ids ?r) n = map_option (\<lambda>_. l) (hm_get (rs_gres res) n)" "distinct l"
        "set l = {i. unat i < res_limit res n \<and> (\<forall>j. i \<notin> set (rec_gres wid jobs n j))}" by blast
    have lim: "gres_limit ?w n = res_limit res n" by (simp add: gres_limit_def res_limit_def f)
    have fr: "distinct (free_gres ?w n)" "set (free_gres ?w n) = {i. unat i < res_limit res n \<and> (\<forall>j. i \<notin> set (rec_gres wid jobs n j))}"
      using l by (auto simp: free_gres_def f res_limit_def split: option.splits)
    show ?thesis unfolding gres_ok_def g lim
      using assms fr by (intro pool_ok_complement) (auto simp: recorded_ok_def)
  qed
  ultimately show "worker_ok ?w" by (simp add: worker_ok_def)
  show "link_ok jobs wid ?w" using t
    by (auto simp: link_ok_def f rec_core_entry_def rec_gres_entry_def runs_on_def)
qed

end
