(* ===== verification/Dependencies.thy ===== *)
theory Dependencies
  imports ControllerState
begin

text \<open>
  Job dependencies: \<open>DependencySpec::parse\<close> (\<open>common/src/types/mod.rs\<close>), the evaluation of a
  job's parents (\<open>are_dependencies_satisfied\<close>) and the cycle check (\<open>has_cycle\<close>), both in
  \<open>controller/src/scheduler/mod.rs\<close>.

  The cycle check is a depth-first search that threads the visited set; the model takes fuel for the
  recursion depth. Lemma \<open>has_cycle_enough_fuel\<close> shows that the number of jobs plus two is always
  enough, and \<open>has_cycle_reachable\<close> that the answer is reachability in the parent graph.
\<close>

section \<open>Dependency specifications\<close>

definition parse_condition :: "string \<Rightarrow> dependency_condition option" where
  "parse_condition c =
     (if to_lowercase c = ''afterok'' then Some AfterOk
      else if to_lowercase c = ''afternotok'' then Some AfterNotOk
      else if to_lowercase c = ''afterany'' then Some AfterAny
      else None)"

definition dependency_spec_parse :: "string \<Rightarrow> string + dependency_spec" where
  "dependency_spec_parse s =
     (let parts = split_on CHR '':'' s in
      if length parts \<noteq> 2
      then Inl (''Invalid dependency spec format '' @ quoted s @ ''. Expected condition:parent_id'')
      else
        (case parse_condition (parts ! 0) of
           None \<Rightarrow> Inl (''Unknown dependency condition '' @ quoted (parts ! 0))
         | Some cond \<Rightarrow>
             (case parse_u64 (parts ! 1) of
                None \<Rightarrow> Inl (''Invalid parent job ID '' @ quoted (parts ! 1))
              | Some parent_id \<Rightarrow> Inr \<lparr>ds_parent_id = parent_id, ds_condition = cond\<rparr>)))"

section \<open>The cycle check\<close>

definition spec_parent :: "string \<Rightarrow> u64 option" where
  "spec_parent s = (case dependency_spec_parse s of Inl _ \<Rightarrow> None | Inr d \<Rightarrow> Some (ds_parent_id d))"

text \<open>
  The ids the two loops of \<open>has_cycle\<close> visit, in their order: the raw dependencies, then the parents
  of the specifications that parse.
\<close>

definition job_parents :: "job_info \<Rightarrow> u64 list" where
  "job_parents job =
     (case ji_dependencies job of None \<Rightarrow> [] | Some deps \<Rightarrow> deps) @
     (case ji_dependency_specs job of None \<Rightarrow> [] | Some specs \<Rightarrow> List.map_filter spec_parent specs)"

fun has_cycle :: "nat \<Rightarrow> u64 \<Rightarrow> u64 \<Rightarrow> (u64, job_info) hmap \<Rightarrow> u64 list \<Rightarrow> (bool \<times> u64 list) option"
  and any_has_cycle :: "nat \<Rightarrow> u64 list \<Rightarrow> u64 \<Rightarrow> (u64, job_info) hmap \<Rightarrow> u64 list \<Rightarrow> (bool \<times> u64 list) option"
where
  "has_cycle 0 current_id target_id jobs visited = None"
| "has_cycle (Suc fuel) current_id target_id jobs visited =
     (if current_id = target_id then Some (True, visited)
      else if current_id \<in> set visited then Some (False, visited)
      else (case hm_get jobs current_id of
              None \<Rightarrow> Some (False, hs_insert current_id visited)
            | Some job \<Rightarrow> any_has_cycle fuel (job_parents job) target_id jobs (hs_insert current_id visited)))"
| "any_has_cycle fuel [] target_id jobs visited = Some (False, visited)"
| "any_has_cycle fuel (p # ps) target_id jobs visited =
     (case has_cycle fuel p target_id jobs visited of
        None \<Rightarrow> None
      | Some (True, v) \<Rightarrow> Some (True, v)
      | Some (False, v) \<Rightarrow> any_has_cycle fuel ps target_id jobs v)"

section \<open>Evaluating the dependencies of a job\<close>

definition never_exit :: "u64 \<Rightarrow> i32 \<Rightarrow> string" where
  "never_exit parent_id code = ''DependencyNeverSatisfied: parent job '' @ show_u64 parent_id @
     '' failed with exit code '' @ show_int code"

definition never_error :: "u64 \<Rightarrow> string \<Rightarrow> string" where
  "never_error parent_id err = ''DependencyNeverSatisfied: parent job '' @ show_u64 parent_id @
     '' failed with error: '' @ err"

definition never_cancelled :: "u64 \<Rightarrow> string" where
  "never_cancelled parent_id = ''DependencyNeverSatisfied: parent job '' @ show_u64 parent_id @
     '' was cancelled''"

text \<open>
  The outcome of one parent: \<open>Inr True\<close> lets the loop go on, \<open>Inr False\<close> is the early \<open>Ok(false)\<close>
  and \<open>Inl e\<close> the early \<open>Err(e)\<close>.
\<close>

fun check_after_ok :: "u64 \<Rightarrow> job_status \<Rightarrow> string + bool" where
  "check_after_ok parent_id (Completed code) = (if code \<noteq> 0 then Inl (never_exit parent_id code) else Inr True)"
| "check_after_ok parent_id (Failed err) = Inl (never_error parent_id err)"
| "check_after_ok parent_id Killed = Inl (never_cancelled parent_id)"
| "check_after_ok parent_id _ = Inr False"

fun check_after_not_ok :: "u64 \<Rightarrow> job_status \<Rightarrow> string + bool" where
  "check_after_not_ok parent_id (Completed code) =
     (if code = 0 then Inl (''DependencyNeverSatisfied: parent job '' @ show_u64 parent_id @
          '' completed successfully but expected failure'') else Inr True)"
| "check_after_not_ok parent_id (Failed err) = Inr True"
| "check_after_not_ok parent_id Killed = Inr True"
| "check_after_not_ok parent_id _ = Inr False"

fun check_after_any :: "u64 \<Rightarrow> job_status \<Rightarrow> string + bool" where
  "check_after_any parent_id (Completed code) = Inr True"
| "check_after_any parent_id (Failed err) = Inr True"
| "check_after_any parent_id Killed = Inr True"
| "check_after_any parent_id _ = Inr False"

definition check_raw_dependency ::
    "(u64, job_info) hmap \<Rightarrow> (u64, job_status) hmap \<Rightarrow> u64 \<Rightarrow> string + bool" where
  "check_raw_dependency jobs db_cache parent_id =
     (case hm_get jobs parent_id of
        Some parent \<Rightarrow> check_after_ok parent_id (ji_status parent)
      | None \<Rightarrow>
          (case hm_get db_cache parent_id of
             Some status \<Rightarrow> check_after_ok parent_id status
           | None \<Rightarrow> Inr False))"

definition check_dependency_spec ::
    "(u64, job_info) hmap \<Rightarrow> (u64, job_status) hmap \<Rightarrow> string \<Rightarrow> string + bool" where
  "check_dependency_spec jobs db_cache spec_str =
     (case dependency_spec_parse spec_str of
        Inl e \<Rightarrow> Inl (''Invalid dependency spec '' @ quoted spec_str @ '': '' @ e)
      | Inr spec \<Rightarrow>
          (let parent_status = (case hm_get jobs (ds_parent_id spec) of
                                  Some parent \<Rightarrow> Some (ji_status parent)
                                | None \<Rightarrow> hm_get db_cache (ds_parent_id spec))
           in case parent_status of
                None \<Rightarrow> Inr False
              | Some status \<Rightarrow>
                  (case ds_condition spec of
                     AfterOk \<Rightarrow> check_after_ok (ds_parent_id spec) status
                   | AfterNotOk \<Rightarrow> check_after_not_ok (ds_parent_id spec) status
                   | AfterAny \<Rightarrow> check_after_any (ds_parent_id spec) status)))"

fun check_all :: "('a \<Rightarrow> string + bool) \<Rightarrow> 'a list \<Rightarrow> string + bool" where
  "check_all f [] = Inr True"
| "check_all f (x # xs) = (case f x of Inl e \<Rightarrow> Inl e | Inr False \<Rightarrow> Inr False | Inr True \<Rightarrow> check_all f xs)"

definition are_dependencies_satisfied ::
    "job_info \<Rightarrow> (u64, job_info) hmap \<Rightarrow> (u64, job_status) hmap \<Rightarrow> string + bool" where
  "are_dependencies_satisfied job_info jobs db_cache =
     (case (case ji_dependencies job_info of
              None \<Rightarrow> Inr True
            | Some deps \<Rightarrow> check_all (check_raw_dependency jobs db_cache) deps) of
        Inl e \<Rightarrow> Inl e
      | Inr False \<Rightarrow> Inr False
      | Inr True \<Rightarrow>
          (case ji_dependency_specs job_info of
             None \<Rightarrow> Inr True
           | Some specs \<Rightarrow> check_all (check_dependency_spec jobs db_cache) specs))"

section \<open>Specification of the evaluation\<close>

text \<open>What a parent's status means for a condition, and the status the controller knows of a job.\<close>

fun terminal :: "job_status \<Rightarrow> bool" where
  "terminal Pending = False"
| "terminal Running = False"
| "terminal _ = True"

fun condition_met :: "dependency_condition \<Rightarrow> job_status \<Rightarrow> bool" where
  "condition_met AfterOk st = (st = Completed 0)"
| "condition_met AfterNotOk st = (terminal st \<and> st \<noteq> Completed 0)"
| "condition_met AfterAny st = terminal st"

definition known_status :: "(u64, job_info) hmap \<Rightarrow> (u64, job_status) hmap \<Rightarrow> u64 \<Rightarrow> job_status option" where
  "known_status jobs db_cache p =
     (case hm_get jobs p of Some j \<Rightarrow> Some (ji_status j) | None \<Rightarrow> hm_get db_cache p)"

text \<open>The requirements of a job, as parsed: \<open>None\<close> is a specification that does not parse.\<close>

definition raw_requirement :: "u64 \<Rightarrow> dependency_spec option" where
  "raw_requirement p = Some \<lparr>ds_parent_id = p, ds_condition = AfterOk\<rparr>"

definition spec_requirement :: "string \<Rightarrow> dependency_spec option" where
  "spec_requirement s = (case dependency_spec_parse s of Inl _ \<Rightarrow> None | Inr d \<Rightarrow> Some d)"

definition sources :: "job_info \<Rightarrow> (u64 + string) list" where
  "sources job =
     map Inl (case ji_dependencies job of None \<Rightarrow> [] | Some deps \<Rightarrow> deps) @
     map Inr (case ji_dependency_specs job of None \<Rightarrow> [] | Some specs \<Rightarrow> specs)"

definition requirements :: "job_info \<Rightarrow> dependency_spec option list" where
  "requirements job = map (case_sum raw_requirement spec_requirement) (sources job)"

definition requirement_met ::
    "(u64, job_info) hmap \<Rightarrow> (u64, job_status) hmap \<Rightarrow> dependency_spec option \<Rightarrow> bool" where
  "requirement_met jobs db r =
     (case r of None \<Rightarrow> False
      | Some d \<Rightarrow> (case known_status jobs db (ds_parent_id d) of
                    None \<Rightarrow> False | Some st \<Rightarrow> condition_met (ds_condition d) st))"

definition requirement_failed ::
    "(u64, job_info) hmap \<Rightarrow> (u64, job_status) hmap \<Rightarrow> dependency_spec option \<Rightarrow> bool" where
  "requirement_failed jobs db r =
     (case r of None \<Rightarrow> True
      | Some d \<Rightarrow> (case known_status jobs db (ds_parent_id d) of
                    None \<Rightarrow> False
                  | Some st \<Rightarrow> terminal st \<and> \<not> condition_met (ds_condition d) st))"

text \<open>
  One check implements one requirement: met, failed for good, or still open.
\<close>

definition implements :: "string + bool \<Rightarrow> bool \<Rightarrow> bool \<Rightarrow> bool" where
  "implements r met failed = (case r of Inl _ \<Rightarrow> failed \<and> \<not> met | Inr True \<Rightarrow> met \<and> \<not> failed
     | Inr False \<Rightarrow> \<not> met \<and> \<not> failed)"

lemma check_raw_implements:
  "implements (check_raw_dependency jobs db p)
     (requirement_met jobs db (raw_requirement p)) (requirement_failed jobs db (raw_requirement p))"
  by (cases "known_status jobs db p"; cases "the (known_status jobs db p)")
    (auto simp: implements_def check_raw_dependency_def requirement_met_def requirement_failed_def
      known_status_def raw_requirement_def split: option.splits)

lemma check_spec_implements:
  "implements (check_dependency_spec jobs db s)
     (requirement_met jobs db (spec_requirement s)) (requirement_failed jobs db (spec_requirement s))"
proof (cases "dependency_spec_parse s")
  case (Inl e)
  then show ?thesis
    by (simp add: implements_def check_dependency_spec_def requirement_met_def requirement_failed_def
        spec_requirement_def)
next
  case (Inr d)
  then show ?thesis
    by (cases "known_status jobs db (ds_parent_id d)"; cases "ds_condition d";
        cases "the (known_status jobs db (ds_parent_id d))")
      (auto simp: implements_def check_dependency_spec_def requirement_met_def spec_requirement_def
        requirement_failed_def known_status_def Let_def split: option.splits)
qed

lemma check_source_implements:
  "implements (case_sum (check_raw_dependency jobs db) (check_dependency_spec jobs db) x)
     (requirement_met jobs db (case_sum raw_requirement spec_requirement x))
     (requirement_failed jobs db (case_sum raw_requirement spec_requirement x))"
  by (cases x) (simp_all add: check_raw_implements check_spec_implements)

lemma check_all_True:
  assumes "\<And>x. implements (f x) (met x) (failed x)"
  shows "check_all f xs = Inr True \<longleftrightarrow> (\<forall>x\<in>set xs. met x)"
proof (induction xs)
  case (Cons x xs)
  then show ?case using assms [of x] by (auto simp: implements_def split: sum.splits bool.splits)
qed simp

lemma check_all_Inl:
  assumes "\<And>x. implements (f x) (met x) (failed x)" and "check_all f xs = Inl e"
  shows "\<exists>x\<in>set xs. failed x"
  using assms(2)
proof (induction xs)
  case (Cons x xs)
  then show ?case using assms(1) [of x] by (auto simp: implements_def split: sum.splits bool.splits)
qed simp

lemma check_all_False:
  assumes "\<And>x. implements (f x) (met x) (failed x)" and "check_all f xs = Inr False"
  shows "\<exists>x\<in>set xs. \<not> met x \<and> \<not> failed x"
  using assms(2)
proof (induction xs)
  case (Cons x xs)
  then show ?case using assms(1) [of x] by (auto simp: implements_def split: sum.splits bool.splits)
qed simp

lemma check_all_append:
  "check_all f (xs @ ys) = (case check_all f xs of Inl e \<Rightarrow> Inl e | Inr False \<Rightarrow> Inr False
     | Inr True \<Rightarrow> check_all f ys)"
  by (induction xs) (auto split: sum.splits bool.splits)

lemma check_all_map: "check_all f (map g xs) = check_all (\<lambda>x. f (g x)) xs"
  by (induction xs) (auto split: sum.splits bool.splits)

lemma are_dependencies_satisfied_sources:
  "are_dependencies_satisfied job jobs db =
     check_all (case_sum (check_raw_dependency jobs db) (check_dependency_spec jobs db)) (sources job)"
  by (simp add: are_dependencies_satisfied_def sources_def check_all_append check_all_map
      split: option.splits sum.splits bool.splits)

lemmas check_sources = check_all_True [OF check_source_implements]
  check_all_Inl [OF check_source_implements] check_all_False [OF check_source_implements]

lemma satisfied_iff_all_met:
  "are_dependencies_satisfied job jobs db = Inr True \<longleftrightarrow>
     (\<forall>r\<in>set (requirements job). requirement_met jobs db r)"
  by (simp add: are_dependencies_satisfied_sources requirements_def check_sources(1))

lemma unsatisfied_error_failed:
  "are_dependencies_satisfied job jobs db = Inl e \<Longrightarrow>
     \<exists>r\<in>set (requirements job). requirement_failed jobs db r"
  by (auto simp: are_dependencies_satisfied_sources requirements_def dest: check_sources(2))

lemma unsatisfied_waiting_open:
  "are_dependencies_satisfied job jobs db = Inr False \<Longrightarrow>
     \<exists>r\<in>set (requirements job). \<not> requirement_met jobs db r \<and> \<not> requirement_failed jobs db r"
  by (auto simp: are_dependencies_satisfied_sources requirements_def dest: check_sources(3))

section \<open>Round trip of specifications\<close>

text \<open>The prefix the DAG handlers write, and the other conditions' names.\<close>

fun condition_name :: "dependency_condition \<Rightarrow> string" where
  "condition_name AfterOk = ''AfterOk''"
| "condition_name AfterNotOk = ''AfterNotOk''"
| "condition_name AfterAny = ''AfterAny''"

lemma parse_condition_names:
  "parse_condition ''AfterOk'' = Some AfterOk" "parse_condition ''AfterNotOk'' = Some AfterNotOk"
  "parse_condition ''AfterAny'' = Some AfterAny"
  by code_simp+

lemma parse_condition_name: "parse_condition (condition_name c) = Some c"
  by (cases c) (simp_all add: parse_condition_names)

lemma colon_not_in_show: "CHR '':'' \<notin> set (show_u64 n)"
  by (simp add: show_u64_def digit_not_in_show is_ascii_digit_def)

lemma colon_not_in_name: "CHR '':'' \<notin> set (condition_name c)"
  by (cases c) simp_all

lemma dependency_spec_parse_show:
  "dependency_spec_parse (condition_name c @ '':'' @ show_u64 p) =
     Inr \<lparr>ds_parent_id = p, ds_condition = c\<rparr>"
proof -
  have "split_on CHR '':'' (condition_name c @ '':'' @ show_u64 p) = [condition_name c, show_u64 p]"
    using split_on_append [OF colon_not_in_name [of c], of "show_u64 p"]
    by (simp add: split_on_no_sep colon_not_in_show)
  then show ?thesis by (simp add: dependency_spec_parse_def parse_condition_name)
qed

section \<open>The cycle check decides reachability\<close>

definition parent_edge :: "(u64, job_info) hmap \<Rightarrow> u64 \<Rightarrow> u64 \<Rightarrow> bool" where
  "parent_edge jobs a b = (\<exists>job. hm_get jobs a = Some job \<and> b \<in> set (job_parents job))"

text \<open>
  What a search that answers \<open>False\<close> leaves behind: the visited set grew, does not gain the target,
  and every job it gained has all its parents visited.
\<close>

definition explored :: "(u64, job_info) hmap \<Rightarrow> u64 \<Rightarrow> u64 list \<Rightarrow> u64 list \<Rightarrow> bool" where
  "explored jobs t vis v = (set vis \<subseteq> set v \<and> (t \<in> set v \<longrightarrow> t \<in> set vis) \<and>
     (\<forall>x\<in>set v - set vis. \<forall>y. parent_edge jobs x y \<longrightarrow> y \<in> set v))"

lemma explored_refl: "explored jobs t v v"
  by (simp add: explored_def)

lemma explored_trans: "explored jobs t a b \<Longrightarrow> explored jobs t b c \<Longrightarrow> explored jobs t a c"
  unfolding explored_def by blast

lemma has_cycle_False:
  "has_cycle n c t jobs vis = Some (False, v) \<Longrightarrow> explored jobs t vis v \<and> c \<in> set v \<and> c \<noteq> t"
  "any_has_cycle n ps t jobs vis = Some (False, v) \<Longrightarrow> explored jobs t vis v \<and> set ps \<subseteq> set v"
proof (induction n c t jobs vis and n ps t jobs vis arbitrary: v and v
    rule: has_cycle_any_has_cycle.induct)
  case (2 fuel c t jobs vis)
  show ?case
  proof (cases "c = t \<or> c \<in> set vis \<or> hm_get jobs c = None")
    case True
    then show ?thesis using 2(2)
      by (auto simp: explored_def parent_edge_def split: if_splits option.splits)
  next
    case False
    then obtain job where job: "hm_get jobs c = Some job" by auto
    from False job 2(2) have "any_has_cycle fuel (job_parents job) t jobs (hs_insert c vis) = Some (False, v)"
      by simp
    with 2(1) False job have IH: "explored jobs t (hs_insert c vis) v" "set (job_parents job) \<subseteq> set v"
      by simp_all
    have "parent_edge jobs c y \<Longrightarrow> y \<in> set v" for y
      using IH(2) job by (auto simp: parent_edge_def)
    with IH(1) False show ?thesis unfolding explored_def by auto
  qed
next
  case (4 fuel p ps t jobs vis)
  then obtain v1 where 1: "has_cycle fuel p t jobs vis = Some (False, v1)"
    and 2: "any_has_cycle fuel ps t jobs v1 = Some (False, v)"
    by (auto split: option.splits prod.splits bool.splits)
  have "explored jobs t vis v1 \<and> p \<in> set v1 \<and> p \<noteq> t" by (rule 4(1) [OF 1])
  moreover have "explored jobs t v1 v \<and> set ps \<subseteq> set v" by (rule 4(2) [OF 1 refl _ 2]) simp
  ultimately show ?case
    using explored_trans [of jobs t vis v1 v] by (auto simp: explored_def [of jobs t v1 v])
qed (auto simp: explored_refl)

lemma has_cycle_True:
  "has_cycle n c t jobs vis = Some (True, v) \<Longrightarrow> (parent_edge jobs)\<^sup>*\<^sup>* c t"
  "any_has_cycle n ps t jobs vis = Some (True, v) \<Longrightarrow> \<exists>p\<in>set ps. (parent_edge jobs)\<^sup>*\<^sup>* p t"
proof (induction n c t jobs vis and n ps t jobs vis arbitrary: v and v
    rule: has_cycle_any_has_cycle.induct)
  case (2 fuel c t jobs vis)
  show ?case
  proof (cases "c = t")
    case False
    then obtain job where job: "hm_get jobs c = Some job" "c \<notin> set vis"
      "any_has_cycle fuel (job_parents job) t jobs (hs_insert c vis) = Some (True, v)"
      using 2(2) by (auto split: if_splits option.splits)
    with 2(1) False obtain p where "p \<in> set (job_parents job)" "(parent_edge jobs)\<^sup>*\<^sup>* p t" by auto
    moreover from this(1) job(1) have "parent_edge jobs c p" by (auto simp: parent_edge_def)
    ultimately show ?thesis by (intro converse_rtranclp_into_rtranclp [of _ c p])
  qed simp
next
  case (4 fuel p ps t jobs vis)
  then show ?case by (fastforce split: option.splits prod.splits bool.splits)
qed auto

lemma has_cycle_enough_fuel:
  "card (set (hm_keys jobs) - set vis) + 1 < n \<Longrightarrow> \<exists>b v. has_cycle n c t jobs vis = Some (b, v)"
  "card (set (hm_keys jobs) - set vis) + 1 < n \<Longrightarrow> \<exists>b v. any_has_cycle n ps t jobs vis = Some (b, v)"
proof (induction n c t jobs vis and n ps t jobs vis rule: has_cycle_any_has_cycle.induct)
  case (2 fuel c t jobs vis)
  show ?case
  proof (cases "c = t \<or> c \<in> set vis \<or> hm_get jobs c = None")
    case False
    then obtain job where job: "hm_get jobs c = Some job" by auto
    then have "c \<in> set (hm_keys jobs) - set vis" using False by (auto simp: hm_keys_get)
    then have "card (set (hm_keys jobs) - set (hs_insert c vis)) < card (set (hm_keys jobs) - set vis)"
      by (intro psubset_card_mono) auto
    with 2 False job show ?thesis by auto
  qed auto
next
  case (4 fuel p ps t jobs vis)
  then obtain b v1 where 1: "has_cycle fuel p t jobs vis = Some (b, v1)" by blast
  show ?case
  proof (cases b)
    case False
    with 1 have 1: "has_cycle fuel p t jobs vis = Some (False, v1)" by simp
    have "set vis \<subseteq> set v1" using has_cycle_False(1) [OF 1] by (simp add: explored_def)
    then have "card (set (hm_keys jobs) - set v1) \<le> card (set (hm_keys jobs) - set vis)"
      by (intro card_mono) auto
    with 4 1 show ?thesis by auto
  qed (use 1 in auto)
qed auto

text \<open>The answer from an empty visited set with the fuel that is always enough.\<close>

definition cycle_fuel :: "(u64, job_info) hmap \<Rightarrow> nat" where
  "cycle_fuel jobs = length jobs + 2"

lemma has_cycle_reachable:
  "\<exists>v. has_cycle (cycle_fuel jobs) c t jobs [] = Some ((parent_edge jobs)\<^sup>*\<^sup>* c t, v)"
proof -
  have "card (set (hm_keys jobs)) \<le> length jobs"
    using card_length [of "hm_keys jobs"] by (simp add: hm_keys_def)
  then obtain b v where r: "has_cycle (cycle_fuel jobs) c t jobs [] = Some (b, v)"
    using has_cycle_enough_fuel(1) [of jobs "[]" "cycle_fuel jobs" c t] by (auto simp: cycle_fuel_def)
  have "b = (parent_edge jobs)\<^sup>*\<^sup>* c t"
  proof (cases b)
    case True
    then show ?thesis using has_cycle_True(1) r by auto
  next
    case False
    with r have "has_cycle (cycle_fuel jobs) c t jobs [] = Some (False, v)" by simp
    from has_cycle_False(1) [OF this] have c: "c \<in> set v" and t: "t \<notin> set v"
      and cl: "\<And>x y. x \<in> set v \<Longrightarrow> parent_edge jobs x y \<Longrightarrow> y \<in> set v"
      by (auto simp: explored_def)
    have "(parent_edge jobs)\<^sup>*\<^sup>* c y \<Longrightarrow> y \<in> set v" for y
      by (induction rule: rtranclp_induct) (use c cl in auto)
    with t False show ?thesis by auto
  qed
  with r show ?thesis by auto
qed

end
