(* ===== verification/Scheduler.thy ===== *)
theory Scheduler
  imports Dependencies Finalize JobLogs "HOL-Library.Product_Lexorder"
begin

text \<open>
  The gang scheduler (\<open>controller/src/scheduler/mod.rs\<close>): effective priorities, the projection that
  estimates the earliest start of a blocked job, and one scheduling pass \<open>schedule_jobs\<close> with
  dependency evaluation, backfill, reservations, worker selection, preemption, allocation and
  dispatch. The pass is split into the steps the loop body has; each takes and returns the pass state
  explicitly. A panic of the code (an index out of bounds, a \<open>drain\<close> past the end) is an \<open>Inl\<close>.
\<close>

section \<open>Effective priority\<close>

definition starvation_threshold :: "env \<Rightarrow> u64" where
  "starvation_threshold ev = (case Option.bind (ev_starvation_threshold ev) parse_u64 of None \<Rightarrow> 1800 | Some t \<Rightarrow> t)"

definition boost_rate :: "env \<Rightarrow> real" where
  "boost_rate ev = (case ev_boost_rate ev of None \<Rightarrow> 10 | Some r \<Rightarrow> r)"

definition boosting_bonus :: "env \<Rightarrow> real \<Rightarrow> real" where
  "boosting_bonus ev wait_time =
     (let r = ev_rnd ev; threshold = r (real (unat (starvation_threshold ev))) in
      if wait_time > threshold
      then (let excess_time = r (wait_time - threshold);
                excess_mins = r (excess_time / 60)
            in r (r (excess_mins * excess_mins) * boost_rate ev))
      else 0)"

definition calculate_effective_priority :: "env \<Rightarrow> job_info \<Rightarrow> usage_tracker \<Rightarrow> real" where
  "calculate_effective_priority ev job t =
     (let r = ev_rnd ev;
          base_priority = r (real (unat (ji_priority job)));
          wait_time = r (real (unat (sat_sub (ev_now ev) (ji_queued_time job))));
          aging_bonus = r (wait_time * (1 / 2));
          user_usage = get_usage t (ji_user_id job);
          usage_penalty = r (user_usage * r (1 / 100))
      in r (r (r (base_priority + aging_bonus) + boosting_bonus ev wait_time) - usage_penalty))"

fun qos_boost :: "qos_level \<Rightarrow> real" where
  "qos_boost Interactive = 10000"
| "qos_boost Production = 0"
| "qos_boost Preemptible = - 5000"
| "qos_boost Background = - 10000"

definition job_score :: "env \<Rightarrow> global_state \<Rightarrow> u64 \<Rightarrow> real" where
  "job_score ev s job_id =
     (case hm_get (gs_jobs s) job_id of
        None \<Rightarrow> 0
      | Some job \<Rightarrow> ev_rnd ev (calculate_effective_priority ev job (gs_usage_tracker s) + qos_boost (ji_qos job)))"

text \<open>\<open>sort_by\<close> is stable; the comparator orders by descending score, then ascending id.\<close>

definition sort_pending :: "env \<Rightarrow> global_state \<Rightarrow> u64 list \<Rightarrow> u64 list" where
  "sort_pending ev s pending = sort_key (\<lambda>i. (- job_score ev s i, i)) pending"

section \<open>Reservations\<close>

definition job_walltime_for_reservation :: "job_info \<Rightarrow> u64" where
  "job_walltime_for_reservation job = (if ji_walltime job = 0 then 24 * 3600 else ji_walltime job)"

definition reservation_blocks :: "job_info \<Rightarrow> string \<Rightarrow> u64 \<Rightarrow> reservation \<Rightarrow> bool" where
  "reservation_blocks job wid t res =
     (wid \<in> set (rv_nodes res) \<and>
      ((rv_start_time res \<le> t \<and> t < rv_end_time res \<and> rv_owner res \<noteq> ji_user_id job) \<or>
       (rv_start_time res > t \<and> rv_owner res \<noteq> ji_user_id job \<and>
        t + job_walltime_for_reservation job > rv_start_time res)))"

definition is_reserved :: "global_state \<Rightarrow> job_info \<Rightarrow> string \<Rightarrow> u64 \<Rightarrow> bool" where
  "is_reserved s job wid t = list_ex (reservation_blocks job wid t) (hm_values (gs_reservations s))"

section \<open>Earliest start of a blocked job\<close>

definition expected_duration :: "job_info \<Rightarrow> u64" where
  "expected_duration job = (case ji_estimated_walltime job of Some d \<Rightarrow> d
     | None \<Rightarrow> if ji_walltime job > 0 then ji_walltime job else 3600)"

definition end_time_est :: "u64 \<Rightarrow> job_info \<Rightarrow> u64" where
  "end_time_est now rjob =
     max ((case ji_start_time rjob of None \<Rightarrow> now | Some t \<Rightarrow> t) + expected_duration rjob) (now + 1)"

record projected_worker_resources =
  pw_cores_available :: usize
  pw_memory_available_mb :: u64
  pw_gres_available :: "(string, usize) hmap"

definition total_mb :: "worker_handle \<Rightarrow> u64" where
  "total_mb w = rs_total_memory (wh_resources w) div 1024 div 1024"

definition initial_projection :: "worker_handle \<Rightarrow> projected_worker_resources" where
  "initial_projection w = \<lparr>pw_cores_available = length (wh_available_core_ids w),
     pw_memory_available_mb = sat_sub (total_mb w) (wh_allocated_memory w),
     pw_gres_available = map (\<lambda>(name, ids). (name, length ids)) (wh_available_gres_ids w)\<rparr>"

definition usable :: "worker_handle \<Rightarrow> bool" where
  "usable w = (\<not> wh_draining w \<and> wh_connected w)"

definition cores_freed :: "global_state \<Rightarrow> job_info \<Rightarrow> string \<Rightarrow> usize" where
  "cores_freed s rjob worker_id =
     (case hm_get (gs_workers s) worker_id of
        None \<Rightarrow> unat (ji_req_cores rjob)
      | Some w \<Rightarrow> (case hm_get (wh_job_core_assignments w) (ji_id rjob) of
                    Some c \<Rightarrow> length c | None \<Rightarrow> unat (ji_req_cores rjob)))"

definition gres_freed :: "global_state \<Rightarrow> job_info \<Rightarrow> string \<Rightarrow> string \<Rightarrow> u64 \<Rightarrow> usize" where
  "gres_freed s rjob worker_id name req_count =
     (case hm_get (gs_workers s) worker_id of
        None \<Rightarrow> unat req_count
      | Some w \<Rightarrow> (case Option.bind (hm_get (wh_job_gres_assignments w) (ji_id rjob)) (\<lambda>g. hm_get g name) of
                    Some g \<Rightarrow> length g | None \<Rightarrow> unat req_count))"

definition project_release :: "global_state \<Rightarrow> job_info \<Rightarrow> string \<Rightarrow>
    projected_worker_resources \<Rightarrow> projected_worker_resources" where
  "project_release s rjob worker_id proj =
     \<lparr>pw_cores_available = pw_cores_available proj + cores_freed s rjob worker_id,
      pw_memory_available_mb = pw_memory_available_mb proj + ji_req_memory rjob,
      pw_gres_available = fold (\<lambda>(name, req_count). hm_entry name 0 (\<lambda>e. e + gres_freed s rjob worker_id name req_count))
         (ji_gres_req rjob) (pw_gres_available proj)\<rparr>"

definition project_at :: "global_state \<Rightarrow> u64 \<Rightarrow> job_info list \<Rightarrow> u64 \<Rightarrow> (string, projected_worker_resources) hmap" where
  "project_at s now running t_start =
     fold (\<lambda>rjob m. if end_time_est now rjob \<le> t_start
             then fold (\<lambda>worker_id. hm_modify worker_id (project_release s rjob worker_id)) (ji_assigned_workers rjob) m
             else m)
       running
       (map (\<lambda>(i, w). (i, initial_projection w)) (filter (\<lambda>(i, w). usable w) (gs_workers s)))"

definition projection_fits :: "global_state \<Rightarrow> job_info \<Rightarrow> u64 \<Rightarrow> string \<times> projected_worker_resources \<Rightarrow> bool" where
  "projection_fits s job t_start = (\<lambda>(i, proj).
     \<not> is_reserved s job i t_start \<and>
     \<not> pw_cores_available proj < unat (ji_req_cores job) \<and>
     \<not> pw_memory_available_mb proj < ji_req_memory job \<and>
     list_all (\<lambda>(name, req_count).
       \<not> (case hm_get (pw_gres_available proj) name of None \<Rightarrow> 0 | Some c \<Rightarrow> c) < unat req_count)
       (ji_gres_req job))"

type_synonym cpu_key = "string \<times> string"

definition cpu_key :: "global_state \<Rightarrow> string \<Rightarrow> cpu_key option" where
  "cpu_key s i = map_option (\<lambda>w. (rs_cpu_model (wh_resources w), rs_arch (wh_resources w))) (hm_get (gs_workers s) i)"

text \<open>Grouping candidates by CPU model and architecture, in their order.\<close>

definition group_by :: "('a \<Rightarrow> cpu_key option) \<Rightarrow> 'a list \<Rightarrow> (cpu_key, 'a list) hmap" where
  "group_by key xs = fold (\<lambda>x m. case key x of None \<Rightarrow> m | Some k \<Rightarrow> hm_entry k [] (\<lambda>l. l @ [x]) m) xs []"

definition fits_at :: "global_state \<Rightarrow> job_info \<Rightarrow> u64 \<Rightarrow> job_info list \<Rightarrow> u64 \<Rightarrow> bool" where
  "fits_at s job now running t_start =
     (let candidates = map fst (filter (projection_fits s job t_start) (project_at s now running t_start)) in
      length candidates \<ge> ji_req_nodes job \<and>
      (ji_req_nodes job > 1 \<longrightarrow>
         list_ex (\<lambda>ids. length ids \<ge> ji_req_nodes job) (hm_values (group_by (cpu_key s) candidates))))"

definition calculate_earliest_start_time :: "job_info \<Rightarrow> global_state \<Rightarrow> u64 \<Rightarrow> u64" where
  "calculate_earliest_start_time job s now =
     (let running = filter (\<lambda>j. ji_status j = Running) (hm_values (gs_jobs s));
          candidate_times = remdups_adj (sort (now # map (end_time_est now) running))
      in case find (fits_at s job now running) candidate_times of
           Some t \<Rightarrow> t
         | None \<Rightarrow> now + 365 * 24 * 3600)"

section \<open>Candidate workers\<close>

definition gres_shortages :: "job_info \<Rightarrow> worker_handle \<Rightarrow> string list" where
  "gres_shortages job w = concat (map (\<lambda>(name, req_count).
     let available_count = (case hm_get (wh_available_gres_ids w) name of None \<Rightarrow> 0 | Some ids \<Rightarrow> length ids)
     in if (of_nat available_count :: u64) < req_count then [''GRES''] else []) (ji_gres_req job))"

definition worker_fail_reasons :: "global_state \<Rightarrow> job_info \<Rightarrow> u64 \<Rightarrow> string \<Rightarrow> worker_handle \<Rightarrow> string list" where
  "worker_fail_reasons s job now i w =
     (if is_reserved s job i now then [''Reserved''] else []) @
     (if (of_nat (length (wh_available_core_ids w)) :: u32) < ji_req_cores job then [''CPU''] else []) @
     (if sat_sub (total_mb w) (wh_allocated_memory w) < ji_req_memory job then [''Mem''] else []) @
     gres_shortages job w"

definition available_workers :: "global_state \<Rightarrow> job_info \<Rightarrow> u64 \<Rightarrow> string list" where
  "available_workers s job now =
     sort_key (\<lambda>i. case hm_get (gs_workers s) i of None \<Rightarrow> 0 | Some w \<Rightarrow> - int (length (wh_available_core_ids w)))
       (map fst (filter (\<lambda>(i, w). usable w \<and> worker_fail_reasons s job now i w = []) (gs_workers s)))"

definition fail_reasons :: "global_state \<Rightarrow> job_info \<Rightarrow> u64 \<Rightarrow> string list" where
  "fail_reasons s job now =
     map (\<lambda>(i, w). i @ '': ['' @ join '','' (worker_fail_reasons s job now i w) @ '']'')
       (filter (\<lambda>(i, w). usable w \<and> worker_fail_reasons s job now i w \<noteq> []) (gs_workers s))"

text \<open>The first group, in the iteration order of the table, that is large enough.\<close>

definition best_group :: "env \<Rightarrow> usize \<Rightarrow> ('a \<Rightarrow> cpu_key option) \<Rightarrow> 'a list \<Rightarrow> 'a list option" where
  "best_group ev req_nodes key xs =
     (let groups = group_by key xs;
          lists = map (\<lambda>k. case hm_get groups k of None \<Rightarrow> [] | Some l \<Rightarrow> l) (ev_key_order ev (hm_keys groups))
      in map_option (take req_nodes) (find (\<lambda>ids. length ids \<ge> req_nodes) lists))"

definition select_nodes :: "env \<Rightarrow> usize \<Rightarrow> ('a \<Rightarrow> cpu_key option) \<Rightarrow> 'a list \<Rightarrow> panic + 'a list option" where
  "select_nodes ev req_nodes key xs =
     (if length xs \<ge> req_nodes
      then (if req_nodes > 1 then Inr (best_group ev req_nodes key xs)
            else (case xs of [] \<Rightarrow> Inl IndexOutOfBounds | x # _ \<Rightarrow> Inr (Some [x])))
      else Inr None)"

section \<open>Preemption candidates\<close>

definition preemptible_jobs_on :: "global_state \<Rightarrow> worker_handle \<Rightarrow> u64 list" where
  "preemptible_jobs_on s w = filter (\<lambda>j. case hm_get (gs_jobs s) j of None \<Rightarrow> False
     | Some run_job \<Rightarrow> ji_qos run_job = Preemptible) (wh_assigned_jobs w)"

definition preemptible_cores_count :: "global_state \<Rightarrow> worker_handle \<Rightarrow> usize" where
  "preemptible_cores_count s w = sum_list (map (\<lambda>j. case hm_get (wh_job_core_assignments w) j of
     None \<Rightarrow> 0 | Some c \<Rightarrow> length c) (preemptible_jobs_on s w))"

definition preemptible_mem :: "global_state \<Rightarrow> worker_handle \<Rightarrow> u64" where
  "preemptible_mem s w = sum_list (map (\<lambda>j. case hm_get (gs_jobs s) j of None \<Rightarrow> 0
     | Some run_job \<Rightarrow> ji_req_memory run_job) (preemptible_jobs_on s w))"

definition preemptible_gres :: "global_state \<Rightarrow> worker_handle \<Rightarrow> (string, usize) hmap" where
  "preemptible_gres s w = fold (\<lambda>j m. case hm_get (wh_job_gres_assignments w) j of
     None \<Rightarrow> m
   | Some gres_map \<Rightarrow> fold (\<lambda>(name, ids). hm_entry name 0 (\<lambda>e. e + length ids)) gres_map m)
     (preemptible_jobs_on s w) []"

definition preempt_gres_ok :: "global_state \<Rightarrow> job_info \<Rightarrow> worker_handle \<Rightarrow> bool" where
  "preempt_gres_ok s job w = list_all (\<lambda>(name, req_count).
     let available_count = (case hm_get (wh_available_gres_ids w) name of None \<Rightarrow> 0 | Some ids \<Rightarrow> length ids);
         preempt_count = (case hm_get (preemptible_gres s w) name of None \<Rightarrow> 0 | Some c \<Rightarrow> c)
     in \<not> (available_count + preempt_count < unat req_count)) (ji_gres_req job)"

definition eligible_with_preemption :: "global_state \<Rightarrow> job_info \<Rightarrow> u64 \<Rightarrow> string \<Rightarrow> worker_handle \<Rightarrow> bool" where
  "eligible_with_preemption s job now i w =
     (\<not> is_reserved s job i now \<and>
      length (wh_available_core_ids w) + preemptible_cores_count s w \<ge> unat (ji_req_cores job) \<and>
      sat_sub (total_mb w) (wh_allocated_memory w) + preemptible_mem s w \<ge> ji_req_memory job \<and>
      preempt_gres_ok s job w)"

definition preempt_candidates :: "global_state \<Rightarrow> job_info \<Rightarrow> u64 \<Rightarrow> (string \<times> u64 list) list" where
  "preempt_candidates s job now =
     sort_key (\<lambda>c. length (snd c))
       (map (\<lambda>(i, w). (i, preemptible_jobs_on s w))
         (filter (\<lambda>(i, w). usable w \<and> eligible_with_preemption s job now i w) (gs_workers s)))"

text \<open>
  What the two selection blocks decide: the chosen workers with the jobs to preempt (none in the
  first block), or nothing.
\<close>

definition choose_workers :: "env \<Rightarrow> global_state \<Rightarrow> job_info \<Rightarrow> u64 \<Rightarrow> panic + (string list \<times> u64 list) option" where
  "choose_workers ev s job now =
     (case select_nodes ev (ji_req_nodes job) (cpu_key s) (available_workers s job now) of
        Inl p \<Rightarrow> Inl p
      | Inr (Some ids) \<Rightarrow> Inr (Some (ids, []))
      | Inr None \<Rightarrow>
          (if ji_qos job = Interactive
           then (case select_nodes ev (ji_req_nodes job) (\<lambda>c. cpu_key s (fst c)) (preempt_candidates s job now) of
                   Inl p \<Rightarrow> Inl p
                 | Inr None \<Rightarrow> Inr None
                 | Inr (Some sel) \<Rightarrow>
                     Inr (Some (map fst sel, ev_id_order ev (fold (\<lambda>c acc. fold hs_insert (snd c) acc) sel []))))
           else Inr None))"

section \<open>Allocation and dispatch\<close>

record allocation =
  al_workers :: "(string, worker_handle) hmap"
  al_cores :: "(string, usize list) hmap"
  al_gres :: "(string, (string, u32 list) hmap) hmap"
  al_node_list_ips :: "string list"

fun allocate_on :: "u64 \<Rightarrow> job_info \<Rightarrow> string list \<Rightarrow> allocation \<Rightarrow> panic + allocation" where
  "allocate_on job_id job [] a = Inr a"
| "allocate_on job_id job (i # ids) a =
     (case hm_get (al_workers a) i of
        None \<Rightarrow> allocate_on job_id job ids a
      | Some w \<Rightarrow>
          (case alloc_worker job_id job w of
             Inl p \<Rightarrow> Inl p
           | Inr (w', cores, gres) \<Rightarrow>
               allocate_on job_id job ids
                 \<lparr>al_workers = hm_insert i w' (al_workers a),
                  al_cores = hm_insert i cores (al_cores a),
                  al_gres = hm_insert i gres (al_gres a),
                  al_node_list_ips = al_node_list_ips a @ [addr_to_string (wh_addr w)]\<rparr>))"

definition is_mpi_launcher :: "job_info \<Rightarrow> bool" where
  "is_mpi_launcher job = (ji_binary job = ''mpirun'' \<or> ji_binary job = ''mpiexec'')"

definition hostfile_path :: "u64 \<Rightarrow> string" where
  "hostfile_path job_id = ''/scratch/jobs/'' @ show_u64 job_id @ ''/hostfile''"

definition controller_url :: "global_state \<Rightarrow> string" where
  "controller_url s = ''https://veloce-controller-ha-1:'' @ show_u64 (gs_api_port s)"

definition dispatch_args :: "u64 \<Rightarrow> job_info \<Rightarrow> string list" where
  "dispatch_args job_id job =
     (if ji_req_nodes job > 1 \<and> is_mpi_launcher job
      then [''--mca'', ''plm_rsh_agent'', ''veloce-exec'', ''--hostfile'', hostfile_path job_id,
            ''--mca'', ''btl'', ''tcp,self''] @ ji_args job
      else ji_args job)"

definition dispatch_env :: "global_state \<Rightarrow> u64 \<Rightarrow> job_info \<Rightarrow> (string \<times> string) list" where
  "dispatch_env s job_id job =
     ji_env_vars job @ [(''OMPI_ALLOW_RUN_AS_ROOT'', ''1''), (''OMPI_ALLOW_RUN_AS_ROOT_CONFIRM'', ''1'')] @
     (if ji_req_nodes job > 1
      then [(''OMPI_MCA_plm_rsh_agent'', ''veloce-exec''),
            (''OMPI_MCA_ras_base_nodefile'', hostfile_path job_id),
            (''VELOCE_CONTROLLER_URL'', controller_url s)]
      else [])"

definition hostfile_content :: "global_state \<Rightarrow> u64 \<Rightarrow> job_info \<Rightarrow> string list \<Rightarrow> string" where
  "hostfile_content s job_id job selected_ids =
     concat (map (\<lambda>i. case hm_get (gs_workers s) i of
        None \<Rightarrow> []
      | Some w \<Rightarrow>
          (let slots = (case hm_get (wh_job_core_assignments w) job_id of
               Some c \<Rightarrow> length c | None \<Rightarrow> unat (ji_req_cores job))
           in wh_hostname w @ '' slots='' @ show_nat slots @ ''\<newline>'')) selected_ids)"

definition write_hostfile :: "u64 \<Rightarrow> job_info \<Rightarrow> string list \<Rightarrow> global_state \<Rightarrow> global_state" where
  "write_hostfile job_id job selected_ids s =
     (if ji_req_nodes job > 1
      then s\<lparr>gs_hostfiles := hm_insert job_id (hostfile_content s job_id job selected_ids) (gs_hostfiles s)\<rparr>
      else s)"

definition run_job_message :: "global_state \<Rightarrow> u64 \<Rightarrow> job_info \<Rightarrow> allocation \<Rightarrow> usize \<Rightarrow> nat \<Rightarrow> string \<Rightarrow>
    worker_handle \<Rightarrow> run_job_msg" where
  "run_job_message s job_id job a world i wid worker = \<lparr>
     rj_job_id = job_id,
     rj_binary = ji_binary job,
     rj_args = dispatch_args job_id job,
     rj_node_list = al_node_list_ips a,
     rj_assigned_cores = hm_get (wh_job_core_assignments worker) job_id,
     rj_req_memory = ji_req_memory job,
     rj_working_directory = ji_working_directory job,
     rj_user_id = ji_user_id job,
     rj_walltime = ji_walltime job,
     rj_submission_time = ji_queued_time job,
     rj_array_id = ji_array_id job,
     rj_array_task_id = ji_array_task_id job,
     rj_inputs = ji_inputs job,
     rj_allocated_gres = (case hm_get (al_gres a) wid of None \<Rightarrow> [] | Some g \<Rightarrow> g),
     rj_gres_req = ji_gres_req job,
     rj_secret = ji_secret job,
     rj_controller_url = controller_url s,
     rj_env_vars = dispatch_env s job_id job @
       [(''VELOCE_RANK'', show_nat i), (''VELOCE_SIZE'', show_nat world)],
     rj_wait_for_licenses = ji_wait_for_licenses job,
     rj_estimated_walltime = ji_estimated_walltime job,
     rj_priority_offset = ji_priority_offset job,
     rj_dependencies = ji_dependencies job,
     rj_dependency_specs = ji_dependency_specs job,
     rj_qos = ji_qos job,
     rj_container_asset = ji_container_asset job,
     rj_vnc_enabled = ji_vnc_enabled job,
     rj_inherit_host_env = ji_inherit_host_env job,
     rj_env_allowlist = ji_env_allowlist job,
     rj_job_profile = ji_job_profile job\<rparr>"

definition dispatch_targets :: "job_info \<Rightarrow> string list \<Rightarrow> (nat \<times> string) list" where
  "dispatch_targets job selected_ids =
     filter (\<lambda>(i, _). \<not> (is_mpi_launcher job \<and> i > 0)) (enumerate 0 selected_ids)"

definition dispatch_one :: "u64 \<Rightarrow> job_info \<Rightarrow> allocation \<Rightarrow> usize \<Rightarrow> nat \<times> string \<Rightarrow> global_state \<Rightarrow> global_state" where
  "dispatch_one job_id job a world = (\<lambda>(i, wid) s.
     (case hm_get (gs_workers s) wid of
        None \<Rightarrow> s
      | Some worker \<Rightarrow> send_ignore s wid (RunJob (run_job_message s job_id job a world i wid worker))))"

definition started :: "env \<Rightarrow> string list \<Rightarrow> allocation \<Rightarrow> job_info \<Rightarrow> job_info" where
  "started ev selected_ids a j =
     j\<lparr>ji_status := Running, ji_assigned_workers := selected_ids, ji_allocated_cores := al_cores a,
       ji_allocated_gres := al_gres a, ji_start_time := Some (ev_now ev), ji_reason := None\<rparr>"

definition start_job :: "env \<Rightarrow> u64 \<Rightarrow> job_info \<Rightarrow> string list \<Rightarrow> u64 list \<Rightarrow> global_state \<Rightarrow> panic + global_state" where
  "start_job ev job_id job selected_ids jobs_to_preempt s =
     (let s1 = fold preempt_job jobs_to_preempt s in
      case allocate_on job_id job selected_ids
             \<lparr>al_workers = gs_workers s1, al_cores = [], al_gres = [], al_node_list_ips = []\<rparr> of
        Inl p \<Rightarrow> Inl p
      | Inr a \<Rightarrow>
          (let s2 = write_hostfile job_id job selected_ids (s1\<lparr>gs_workers := al_workers a\<rparr>);
               targets = dispatch_targets job selected_ids;
               s3 = fold (dispatch_one job_id job a (length selected_ids)) targets s2;
               s4 = record_dispatched_workers job_id (map snd targets) s3
           in Inr (s4\<lparr>gs_jobs := hm_modify job_id (started ev selected_ids a) (gs_jobs s4)\<rparr>)))"

section \<open>One scheduling pass\<close>

record pass_state =
  ps_state :: global_state
  ps_still_pending :: "u64 list"
  ps_top_job_earliest_start :: "u64 option"
  ps_top_job_id :: "u64 option"

definition set_reason :: "u64 \<Rightarrow> string option \<Rightarrow> global_state \<Rightarrow> global_state" where
  "set_reason job_id r s = s\<lparr>gs_jobs := hm_modify job_id (\<lambda>j. j\<lparr>ji_reason := r\<rparr>) (gs_jobs s)\<rparr>"

definition keep_pending :: "u64 \<Rightarrow> string \<Rightarrow> pass_state \<Rightarrow> pass_state" where
  "keep_pending job_id r ps =
     ps\<lparr>ps_still_pending := ps_still_pending ps @ [job_id],
        ps_state := set_reason job_id (Some r) (ps_state ps)\<rparr>"

definition clear_waiting_reason :: "u64 \<Rightarrow> global_state \<Rightarrow> global_state" where
  "clear_waiting_reason job_id s = s\<lparr>gs_jobs := hm_modify job_id
     (\<lambda>j. if ji_reason j = Some ''Waiting for dependencies'' then j\<lparr>ji_reason := None\<rparr> else j) (gs_jobs s)\<rparr>"

definition backfill_denied :: "env \<Rightarrow> job_info \<Rightarrow> u64 option \<Rightarrow> bool" where
  "backfill_denied ev job top_start = (case top_start of None \<Rightarrow> False | Some top_est \<Rightarrow> ev_now ev + expected_duration job > top_est)"

definition backfill_message :: "pass_state \<Rightarrow> string" where
  "backfill_message ps = ''Backfill denied: would delay top job '' @ show_u64 (the (ps_top_job_id ps)) @
     '' (earliest start: '' @ show_u64 (the (ps_top_job_earliest_start ps)) @ '')''"

definition waiting_message :: "global_state \<Rightarrow> job_info \<Rightarrow> u64 \<Rightarrow> string" where
  "waiting_message s job now =
     (let avail = available_workers s job now; reasons = fail_reasons s job now in
      if length avail < ji_req_nodes job
      then ''Waiting for resources (CPU/Mem/GRES). Nodes: '' @ show_nat (length avail) @ ''/'' @
             show_nat (ji_req_nodes job) @
           (if reasons \<noteq> [] then ''. Detail: '' @ join ''; '' (take 3 reasons) else [])
      else ''Waiting for '' @ show_nat (ji_req_nodes job) @ '' homogeneous nodes'')"

definition block_job :: "env \<Rightarrow> u64 \<Rightarrow> job_info \<Rightarrow> pass_state \<Rightarrow> pass_state" where
  "block_job ev job_id job ps =
     (let s = ps_state ps; r = waiting_message s job (ev_now ev) in
      case ps_top_job_earliest_start ps of
        Some _ \<Rightarrow> keep_pending job_id r ps
      | None \<Rightarrow>
          (let est = calculate_earliest_start_time job s (ev_now ev)
           in keep_pending job_id (r @ '' (Earliest start: '' @ show_u64 est @ '')'')
                (ps\<lparr>ps_top_job_earliest_start := Some est, ps_top_job_id := Some job_id\<rparr>)))"

definition schedule_ready_job :: "env \<Rightarrow> u64 \<Rightarrow> job_info \<Rightarrow> pass_state \<Rightarrow> panic + pass_state" where
  "schedule_ready_job ev job_id job ps =
     (let ps = ps\<lparr>ps_state := clear_waiting_reason job_id (ps_state ps)\<rparr> in
      if backfill_denied ev job (ps_top_job_earliest_start ps)
      then Inr (keep_pending job_id (backfill_message ps) ps)
      else
        (case choose_workers ev (ps_state ps) job (ev_now ev) of
           Inl p \<Rightarrow> Inl p
         | Inr None \<Rightarrow> Inr (block_job ev job_id job ps)
         | Inr (Some (selected_ids, jobs_to_preempt)) \<Rightarrow>
             (case start_job ev job_id job selected_ids jobs_to_preempt (ps_state ps) of
                Inl p \<Rightarrow> Inl p
              | Inr s \<Rightarrow> Inr (ps\<lparr>ps_state := s\<rparr>))))"

definition schedule_one :: "env \<Rightarrow> (u64, job_status) hmap \<Rightarrow> u64 \<Rightarrow> pass_state \<Rightarrow> panic + pass_state" where
  "schedule_one ev db_cache job_id ps =
     (case hm_get (gs_jobs (ps_state ps)) job_id of
        None \<Rightarrow> Inr ps
      | Some job_info \<Rightarrow>
          (if ji_status job_info \<noteq> Pending then Inr ps
           else (case are_dependencies_satisfied job_info (gs_jobs (ps_state ps)) db_cache of
                   Inr False \<Rightarrow> Inr (keep_pending job_id ''Waiting for dependencies'' ps)
                 | Inl e \<Rightarrow> Inr (keep_pending job_id e ps)
                 | Inr True \<Rightarrow> schedule_ready_job ev job_id job_info ps)))"

fun schedule_loop :: "env \<Rightarrow> (u64, job_status) hmap \<Rightarrow> u64 list \<Rightarrow> pass_state \<Rightarrow> panic + pass_state" where
  "schedule_loop ev db [] ps = Inr ps"
| "schedule_loop ev db (j # js) ps =
     (case schedule_one ev db j ps of Inl p \<Rightarrow> Inl p | Inr ps' \<Rightarrow> schedule_loop ev db js ps')"

definition begin_pass :: "env \<Rightarrow> global_state \<Rightarrow> global_state" where
  "begin_pass ev s =
     s\<lparr>gs_reservations := hm_retain (\<lambda>_ res. rv_end_time res > ev_now ev) (gs_reservations s),
       gs_usage_tracker := apply_decay ev (gs_usage_tracker s),
       gs_queue := []\<rparr>"

definition schedule_jobs :: "env \<Rightarrow> (u64, job_status) hmap \<Rightarrow> global_state \<Rightarrow> panic + global_state" where
  "schedule_jobs ev db_cache s =
     (let s1 = begin_pass ev s;
          pending_jobs = sort_pending ev s1 (gs_queue s)
      in case schedule_loop ev db_cache pending_jobs
               \<lparr>ps_state = s1, ps_still_pending = [], ps_top_job_earliest_start = None, ps_top_job_id = None\<rparr> of
           Inl p \<Rightarrow> Inl p
         | Inr ps \<Rightarrow> Inr ((ps_state ps)\<lparr>gs_queue := ps_still_pending ps\<rparr>))"

end
