(* ===== verification/SchedulerSafety.thy ===== *)
theory SchedulerSafety
  imports Scheduler
begin

text \<open>
  Safety of a scheduling pass: \<open>schedule_jobs\<close> keeps the allocation invariant, so no core and no GRES
  id is ever given to two jobs or lost, and it does not panic when every job asks for at least one
  node. The lemmas follow the pass: preemption frees at least what the eligibility check counted,
  selection picks workers that fit, allocation hands out free ids only, dispatch changes no table.
\<close>

section \<open>What preemption frees\<close>

text \<open>
  \<open>grows js w w'\<close>: on the way from \<open>w\<close> to \<open>w'\<close> the ids of the jobs \<open>js\<close> became free, no free id was
  taken, and the other jobs kept what they had.
\<close>

definition grows :: "u64 set \<Rightarrow> worker_handle \<Rightarrow> worker_handle \<Rightarrow> bool" where
  "grows js w w' =
     (set (wh_available_core_ids w) \<subseteq> set (wh_available_core_ids w') \<and>
      (\<forall>k\<in>js \<inter> set (wh_assigned_jobs w). set (cores_of w k) \<subseteq> set (wh_available_core_ids w')) \<and>
      (\<forall>n. set (free_gres w n) \<subseteq> set (free_gres w' n)) \<and>
      (\<forall>k\<in>js \<inter> set (wh_assigned_jobs w). \<forall>n. set (gres_of w n k) \<subseteq> set (free_gres w' n)) \<and>
      (\<forall>k\<in>set (wh_assigned_jobs w) - js. k \<in> set (wh_assigned_jobs w') \<and>
         cores_of w' k = cores_of w k \<and> (\<forall>n. gres_of w' n k = gres_of w n k)))"

lemma grows_refl: "grows {} w w"
  by (simp add: grows_def)

lemma growsD:
  assumes "grows js w w'"
  shows "set (wh_available_core_ids w) \<subseteq> set (wh_available_core_ids w')"
    "set (free_gres w n) \<subseteq> set (free_gres w' n)"
    "k \<in> js \<Longrightarrow> k \<in> set (wh_assigned_jobs w) \<Longrightarrow> set (cores_of w k) \<subseteq> set (wh_available_core_ids w')"
    "k \<in> js \<Longrightarrow> k \<in> set (wh_assigned_jobs w) \<Longrightarrow> set (gres_of w n k) \<subseteq> set (free_gres w' n)"
    "k \<notin> js \<Longrightarrow> k \<in> set (wh_assigned_jobs w) \<Longrightarrow> k \<in> set (wh_assigned_jobs w')"
    "k \<notin> js \<Longrightarrow> k \<in> set (wh_assigned_jobs w) \<Longrightarrow> cores_of w' k = cores_of w k"
    "k \<notin> js \<Longrightarrow> k \<in> set (wh_assigned_jobs w) \<Longrightarrow> gres_of w' n k = gres_of w n k"
  using assms by (simp_all add: grows_def)

lemma growsI:
  assumes "set (wh_available_core_ids w) \<subseteq> set (wh_available_core_ids w')"
    "\<And>n. set (free_gres w n) \<subseteq> set (free_gres w' n)"
    "\<And>k. k \<in> js \<Longrightarrow> k \<in> set (wh_assigned_jobs w) \<Longrightarrow> set (cores_of w k) \<subseteq> set (wh_available_core_ids w')"
    "\<And>k n. k \<in> js \<Longrightarrow> k \<in> set (wh_assigned_jobs w) \<Longrightarrow> set (gres_of w n k) \<subseteq> set (free_gres w' n)"
    "\<And>k. k \<notin> js \<Longrightarrow> k \<in> set (wh_assigned_jobs w) \<Longrightarrow> k \<in> set (wh_assigned_jobs w')"
    "\<And>k. k \<notin> js \<Longrightarrow> k \<in> set (wh_assigned_jobs w) \<Longrightarrow> cores_of w' k = cores_of w k"
    "\<And>k n. k \<notin> js \<Longrightarrow> k \<in> set (wh_assigned_jobs w) \<Longrightarrow> gres_of w' n k = gres_of w n k"
  shows "grows js w w'"
  using assms by (simp add: grows_def)

lemma grows_trans:
  assumes 1: "grows a w w1" and 2: "grows b w1 w2"
  shows "grows (a \<union> b) w w2"
proof (rule growsI)
  fix k n assume k: "k \<in> set (wh_assigned_jobs w)"
  show "set (cores_of w k) \<subseteq> set (wh_available_core_ids w2)" if "k \<in> a \<union> b"
  proof (cases "k \<in> a")
    case True
    then show ?thesis using growsD(3) [OF 1] growsD(1) [OF 2] k by blast
  next
    case False
    then show ?thesis using that growsD(3) [OF 2, of k] growsD(5,6) [OF 1, of k] k by simp
  qed
  show "set (gres_of w n k) \<subseteq> set (free_gres w2 n)" if "k \<in> a \<union> b"
  proof (cases "k \<in> a")
    case True
    then show ?thesis using growsD(4) [OF 1] growsD(2) [OF 2] k by blast
  next
    case False
    then show ?thesis using that growsD(4) [OF 2, of k n] growsD(5,7) [OF 1, of k] k by simp
  qed
next
  show "set (free_gres w n) \<subseteq> set (free_gres w2 n)" for n
    using growsD(2) [OF 1] growsD(2) [OF 2] by (rule subset_trans)
qed (use growsD [OF 1] growsD [OF 2] in \<open>auto intro: subset_trans\<close>)

lemma pool_ok_freed:
  assumes "pool_ok P av f" "pool_ok P av' f'" "\<And>k. f' k = (if k = j then [] else f k)"
  shows "set av \<subseteq> set av'" "set (f j) \<subseteq> set av'"
proof -
  have "x \<in> set av'" if "x \<in> set av \<or> x \<in> set (f j)" for x
  proof -
    have "P x" using that assms(1) by (auto simp: pool_ok_def)
    then have "x \<in> set av' \<or> (\<exists>k. x \<in> set (f' k))" using assms(2) by (auto simp: pool_ok_def)
    moreover have "x \<notin> set (f' k)" for k
    proof (cases "k = j")
      case False
      then have "set (f k) \<inter> set av = {}" "set (f k) \<inter> set (f j) = {}"
        using assms(1) by (auto simp: pool_ok_def)
      with that False show ?thesis by (auto simp: assms(3))
    qed (simp add: assms(3))
    ultimately show ?thesis by blast
  qed
  then show "set av \<subseteq> set av'" "set (f j) \<subseteq> set av'" by blast+
qed

lemma release_worker_grows:
  assumes ok: "worker_ok w"
    and fc: "hm_get (wh_job_core_assignments w) j = None \<Longrightarrow> hm_get (ji_allocated_cores job) wid = None"
    and fg: "hm_get (wh_job_gres_assignments w) j = None \<Longrightarrow> hm_get (ji_allocated_gres job) wid = None"
  shows "grows {j} w (release_worker j job wid w)"
proof -
  let ?w = "release_worker j job wid w"
  have ok': "worker_ok ?w" by (rule release_worker_ok [OF assms])
  have res: "rs_cpu_cores (wh_resources ?w) = rs_cpu_cores (wh_resources w)" "gres_limit ?w n = gres_limit w n" for n
    by (simp_all add: gres_limit_def)
  have kc: "cores_of ?w k = (if k = j then [] else cores_of w k)" for k
    by (simp add: cores_of_def release_worker_assignments [OF ok])
  have kg: "gres_of ?w n k = (if k = j then [] else gres_of w n k)" for n k
    by (simp add: gres_of_def release_worker_assignments [OF ok])
  have "pool_ok (\<lambda>c. c < rs_cpu_cores (wh_resources w)) (wh_available_core_ids w) (cores_of w)"
    "pool_ok (\<lambda>c. c < rs_cpu_cores (wh_resources w)) (wh_available_core_ids ?w) (cores_of ?w)"
    using ok ok' by (simp_all add: worker_ok_def cores_ok_def)
  note c = pool_ok_freed [OF this kc]
  have "pool_ok (\<lambda>i. unat i < gres_limit w n) (free_gres w n) (gres_of w n)"
    "pool_ok (\<lambda>i. unat i < gres_limit w n) (free_gres ?w n) (gres_of ?w n)" for n
    using ok ok' by (simp_all add: worker_ok_def gres_ok_def res)
  note g = pool_ok_freed [OF this kg]
  show ?thesis by (rule growsI) (use c g kc kg in auto)
qed

lemma preempt_get_job:
  "hm_get (gs_jobs (preempt_job k s)) j =
     (if j = k then map_option (\<lambda>job. if ji_status job = Running then preempted job else job) (hm_get (gs_jobs s) j)
      else hm_get (gs_jobs s) j)"
  by (auto simp: preempt_job_def Let_def split: option.splits list.splits)

lemma preempt_get_worker:
  "hm_get (gs_workers (preempt_job k s)) wid =
     (case hm_get (gs_jobs s) k of
        None \<Rightarrow> hm_get (gs_workers s) wid
      | Some job \<Rightarrow> (if ji_status job = Running \<and> wid \<in> set (ji_assigned_workers job)
          then map_option (release_worker k job wid) (hm_get (gs_workers s) wid)
          else hm_get (gs_workers s) wid))"
  by (auto simp: preempt_job_def Let_def release_get_worker split: option.splits list.splits)

lemma preempt_fields [simp]:
  "gs_reservations (preempt_job k s) = gs_reservations s"
  "gs_usage_tracker (preempt_job k s) = gs_usage_tracker s"
  "gs_role (preempt_job k s) = gs_role s"
  "gs_steps (preempt_job k s) = gs_steps s"
  "gs_api_port (preempt_job k s) = gs_api_port s"
  by (auto simp: preempt_job_def Let_def split: option.splits list.splits)

definition same_node :: "worker_handle \<Rightarrow> worker_handle \<Rightarrow> bool" where
  "same_node w w' = (wh_resources w' = wh_resources w \<and> wh_connected w' = wh_connected w \<and>
     wh_draining w' = wh_draining w \<and> wh_hostname w' = wh_hostname w)"

lemma same_node_refl [simp]: "same_node w w"
  by (simp add: same_node_def)

lemma same_node_trans: "same_node a b \<Longrightarrow> same_node b c \<Longrightarrow> same_node a c"
  by (simp add: same_node_def)

lemma same_node_release [simp]: "same_node w (release_worker k job wid w)"
  by (simp add: same_node_def)

lemma preempt_worker_grows:
  assumes "alloc_inv s" "hm_get (gs_workers s) wid = Some w" "hm_get (gs_jobs s) k = Some job"
  shows "\<exists>w'. hm_get (gs_workers (preempt_job k s)) wid = Some w' \<and> grows {k} w w' \<and> same_node w w'"
proof (cases "k \<in> set (wh_assigned_jobs w)")
  case True
  note ok = alloc_invD [OF assms(1,2)]
  have l: "ji_status job = Running" "wid \<in> set (ji_assigned_workers job)"
    "hm_get (wh_job_core_assignments w) k = None \<Longrightarrow> hm_get (ji_allocated_cores job) wid = None"
    "hm_get (wh_job_gres_assignments w) k = None \<Longrightarrow> hm_get (ji_allocated_gres job) wid = None"
    using ok(2) True assms(3) by (auto simp: link_ok_def)
  then show ?thesis using assms release_worker_grows [OF ok(1) l(3,4)] by (simp add: preempt_get_worker)
next
  case False
  then have "release_worker k job wid w = w" by (simp add: release_worker_def)
  then have "hm_get (gs_workers (preempt_job k s)) wid = Some w"
    using assms by (simp add: preempt_get_worker)
  moreover have "grows {k} w w" using False by (intro growsI) auto
  ultimately show ?thesis by auto
qed

lemma preempt_all_grows:
  assumes "alloc_inv s" "hm_get (gs_workers s) wid = Some w" "\<forall>k\<in>set js. hm_get (gs_jobs s) k \<noteq> None"
  shows "\<exists>w'. hm_get (gs_workers (fold preempt_job js s)) wid = Some w' \<and> grows (set js) w w' \<and> same_node w w'"
  using assms
proof (induction js arbitrary: s w)
  case Nil
  then show ?case by (simp add: grows_refl)
next
  case (Cons k js)
  from Cons.prems obtain job where job: "hm_get (gs_jobs s) k = Some job" by auto
  from preempt_worker_grows [OF Cons.prems(1,2) job] obtain w1
    where w1: "hm_get (gs_workers (preempt_job k s)) wid = Some w1" "grows {k} w w1" "same_node w w1" by blast
  have "\<forall>k'\<in>set js. hm_get (gs_jobs (preempt_job k s)) k' \<noteq> None"
    using Cons.prems(3) by (auto simp: preempt_get_job)
  from Cons.IH [OF preempt_alloc_inv [OF Cons.prems(1)] w1(1) this] obtain w2
    where w2: "hm_get (gs_workers (fold preempt_job js (preempt_job k s))) wid = Some w2"
      "grows (set js) w1 w2" "same_node w1 w2" by blast
  show ?case using w2(1) grows_trans [OF w1(2) w2(2)] same_node_trans [OF w1(3) w2(3)] by auto
qed

lemma preempt_all_alloc_inv: "alloc_inv s \<Longrightarrow> alloc_inv (fold preempt_job js s)"
  by (rule fold_inv) (auto simp: preempt_alloc_inv)

lemma preempt_all_pending_job:
  assumes "hm_get (gs_jobs s) j = Some job" "ji_status job \<noteq> Running"
  shows "hm_get (gs_jobs (fold preempt_job js s)) j = Some job"
  using assms(1) by (rule fold_inv [where P = "\<lambda>s. hm_get (gs_jobs s) j = Some job"])
    (use assms(2) in \<open>auto simp: preempt_get_job\<close>)

lemma pending_unlisted:
  assumes "alloc_inv s" "hm_get (gs_jobs s) j = Some job" "ji_status job \<noteq> Running"
  shows "unlisted j s"
  using assms by (fastforce simp: unlisted_def alloc_inv_def link_ok_def)

section \<open>Selected workers fit\<close>

lemma group_by_get:
  "hm_get (group_by key xs) k = (case filter (\<lambda>x. key x = Some k) xs of [] \<Rightarrow> None | l \<Rightarrow> Some l)"
proof (induction xs rule: rev_induct)
  case (snoc x xs)
  then show ?case
    by (auto simp: group_by_def split: option.splits list.splits)
qed (simp add: group_by_def)

lemma best_group_result:
  assumes "best_group ev n key xs = Some sel"
  shows "length sel = n" "set sel \<subseteq> set xs" "distinct xs \<Longrightarrow> distinct sel"
    "\<exists>k. \<forall>x\<in>set sel. key x = Some k"
proof -
  from assms obtain k where k: "n \<le> length (case hm_get (group_by key xs) k of None \<Rightarrow> [] | Some l \<Rightarrow> l)"
    "sel = take n (case hm_get (group_by key xs) k of None \<Rightarrow> [] | Some l \<Rightarrow> l)"
    by (auto simp: best_group_def Let_def dest!: find_SomeD)
  have "(case hm_get (group_by key xs) k of None \<Rightarrow> [] | Some l \<Rightarrow> l) = filter (\<lambda>x. key x = Some k) xs"
    by (auto simp: group_by_get split: list.split)
  with k have sel: "n \<le> length (filter (\<lambda>x. key x = Some k) xs)" "sel = take n (filter (\<lambda>x. key x = Some k) xs)"
    by simp_all
  then show "length sel = n" "set sel \<subseteq> set xs" "distinct xs \<Longrightarrow> distinct sel"
    by (auto dest: in_set_takeD)
  have "\<forall>x\<in>set sel. key x = Some k" using sel by (auto dest: in_set_takeD)
  then show "\<exists>k. \<forall>x\<in>set sel. key x = Some k" by blast
qed

lemma select_nodes_result:
  assumes "select_nodes ev n key xs = Inr (Some sel)" "0 < n"
  shows "length sel = n" "set sel \<subseteq> set xs" "distinct xs \<Longrightarrow> distinct sel"
    "1 < n \<Longrightarrow> \<exists>k. \<forall>x\<in>set sel. key x = Some k"
  using assms best_group_result [of ev n key xs sel]
  by (auto simp: select_nodes_def split: if_splits list.splits)

lemma select_nodes_no_panic: "0 < n \<Longrightarrow> \<exists>r. select_nodes ev n key xs = Inr r"
  by (auto simp: select_nodes_def split: list.split)

lemma not_less_of_nat: "\<not> (of_nat n :: 'a::len word) < m \<Longrightarrow> unat m \<le> n"
  using unat_of_nat_le [of n, where 'a = 'a] by (simp add: word_less_nat_alt)

lemma no_fail_reasons_fits:
  assumes "worker_fail_reasons s job now i w = []"
  shows "fits job w" "\<not> is_reserved s job i now" "ji_req_memory job \<le> sat_sub (total_mb w) (wh_allocated_memory w)"
proof -
  have a: "\<not> is_reserved s job i now" "\<not> (of_nat (length (wh_available_core_ids w)) :: u32) < ji_req_cores job"
    "\<not> sat_sub (total_mb w) (wh_allocated_memory w) < ji_req_memory job" "gres_shortages job w = []"
    using assms by (auto simp: worker_fail_reasons_def split: if_splits)
  have "unat n \<le> length (free_gres w name)" if "(name, n) \<in> set (ji_gres_req job)" for name n
  proof -
    have "\<not> (of_nat (length (free_gres w name)) :: u64) < n"
      using a(4) that by (auto simp: gres_shortages_def free_gres_def Let_def split: option.splits if_splits)
    then show ?thesis by (rule not_less_of_nat)
  qed
  with a(2) show "fits job w" by (auto simp: fits_def dest: not_less_of_nat)
  show "\<not> is_reserved s job i now" "ji_req_memory job \<le> sat_sub (total_mb w) (wh_allocated_memory w)"
    using a by auto
qed

lemma available_workers_set:
  assumes "hm_wf (gs_workers s)"
  shows "i \<in> set (available_workers s job now) \<longleftrightarrow>
      (\<exists>w. hm_get (gs_workers s) i = Some w \<and> usable w \<and> worker_fail_reasons s job now i w = [])"
    "distinct (available_workers s job now)"
  using assms
  by (auto simp: available_workers_def hm_get_iff image_iff hm_wf_def distinct_map_filter)

lemma preemptible_gres_get:
  assumes "\<And>j m. hm_get (wh_job_gres_assignments w) j = Some m \<Longrightarrow> hm_wf m"
  shows "(case hm_get (preemptible_gres s w) name of None \<Rightarrow> 0 | Some c \<Rightarrow> c) =
    sum_list (map (\<lambda>j. length (gres_of w name j)) (preemptible_jobs_on s w))"
proof -
  let ?step = "\<lambda>j m. case hm_get (wh_job_gres_assignments w) j of None \<Rightarrow> m
     | Some gres_map \<Rightarrow> fold (\<lambda>(name, ids). hm_entry name 0 (\<lambda>e. e + length ids)) gres_map m"
  let ?val = "\<lambda>m. case hm_get m name of None \<Rightarrow> 0 | Some c \<Rightarrow> c"
  have one: "?val (?step j m) = ?val m + length (gres_of w name j)" for j m
  proof (cases "hm_get (wh_job_gres_assignments w) j")
    case (Some g)
    have "hm_get (?step j m) name = (case hm_get g name of None \<Rightarrow> hm_get m name
        | Some ids \<Rightarrow> Some (?val m + length ids))"
      using hm_get_fold_entry [OF assms [OF Some], of 0 "\<lambda>k ids e. e + length ids" m name] Some by simp
    with Some show ?thesis by (simp add: gres_of_def split: option.split)
  qed (simp add: gres_of_def)
  have "?val (fold ?step js m) = ?val m + sum_list (map (\<lambda>j. length (gres_of w name j)) js)" for js m
    by (induction js arbitrary: m) (simp_all add: one)
  from this [of "preemptible_jobs_on s w" "[]"] show ?thesis by (simp add: preemptible_gres_def)
qed

lemma preemptible_cores_sum:
  "preemptible_cores_count s w = sum_list (map (\<lambda>j. length (cores_of w j)) (preemptible_jobs_on s w))"
  unfolding preemptible_cores_count_def by (rule arg_cong [of _ _ sum_list]) (auto simp: cores_of_def split: option.split)

lemma eligible_fits:
  assumes ok: "worker_ok w" "worker_ok w'" and g: "grows (set js) w w'"
    and js: "set (preemptible_jobs_on s w) \<subseteq> set js"
    and el: "eligible_with_preemption s job now i w"
  shows "fits job w'"
proof -
  let ?ps = "preemptible_jobs_on s w"
  have d: "distinct ?ps" "set ?ps \<subseteq> set (wh_assigned_jobs w)"
    using ok(1) by (auto simp: preemptible_jobs_on_def worker_ok_def tables_ok_def)
  have av: "distinct (wh_available_core_ids w')" "distinct (free_gres w' n)" for n
    using ok(2) by (auto simp: worker_ok_def cores_ok_def gres_ok_def pool_ok_def)
  have "length (wh_available_core_ids w) + preemptible_cores_count s w \<le> length (wh_available_core_ids w')"
    unfolding preemptible_cores_sum
    by (rule pool_ok_card [OF _ d(1) av(1)])
      (use ok(1) growsD(1,3) [OF g] js d(2) in \<open>force simp: worker_ok_def cores_ok_def\<close>)+
  moreover have gl: "length (free_gres w n) + sum_list (map (\<lambda>j. length (gres_of w n j)) ?ps) \<le> length (free_gres w' n)" for n
    by (rule pool_ok_card [OF _ d(1) av(2)])
      (use ok(1) growsD(2) [OF g, of n] growsD(4) [OF g, of _ n] js d(2) in \<open>force simp: worker_ok_def gres_ok_def\<close>)+
  moreover have pg: "(case hm_get (preemptible_gres s w) n of None \<Rightarrow> 0 | Some c \<Rightarrow> c) =
      sum_list (map (\<lambda>j. length (gres_of w n j)) ?ps)" for n
    by (rule preemptible_gres_get) (use ok(1) in \<open>auto simp: worker_ok_def tables_ok_def\<close>)
  moreover have fg: "(case hm_get (wh_available_gres_ids w) n of None \<Rightarrow> 0 | Some ids \<Rightarrow> length ids) = length (free_gres w n)" for n
    by (simp add: free_gres_def split: option.split)
  have "unat c \<le> length (free_gres w' n)" if "(n, c) \<in> set (ji_gres_req job)" for n c
    using el that gl [of n] unfolding eligible_with_preemption_def preempt_gres_ok_def list_all_iff Let_def
    by (auto simp: pg fg not_less dest!: bspec)
  then show ?thesis using el calculation(1) by (auto simp: fits_def eligible_with_preemption_def)
qed

lemma preempt_candidates_set:
  assumes "hm_wf (gs_workers s)"
  shows "c \<in> set (preempt_candidates s job now) \<Longrightarrow> \<exists>w. hm_get (gs_workers s) (fst c) = Some w \<and>
      usable w \<and> eligible_with_preemption s job now (fst c) w \<and> snd c = preemptible_jobs_on s w"
    "distinct (map fst (preempt_candidates s job now))"
proof -
  show "c \<in> set (preempt_candidates s job now) \<Longrightarrow> \<exists>w. hm_get (gs_workers s) (fst c) = Some w \<and>
      usable w \<and> eligible_with_preemption s job now (fst c) w \<and> snd c = preemptible_jobs_on s w"
    using assms by (auto simp: preempt_candidates_def hm_get_iff)
  let ?l = "map (\<lambda>(i, w). (i, preemptible_jobs_on s w))
         (filter (\<lambda>(i, w). usable w \<and> eligible_with_preemption s job now i w) (gs_workers s))"
  have "map fst ?l = map fst (filter (\<lambda>(i, w). usable w \<and> eligible_with_preemption s job now i w) (gs_workers s))"
    by (simp add: split_def comp_def)
  moreover have "distinct \<dots>" using assms by (simp add: hm_wf_def distinct_map_filter)
  ultimately have "distinct (map fst ?l)" by (simp only:)
  moreover have m: "mset (map fst (preempt_candidates s job now)) = mset (map fst ?l)"
    unfolding preempt_candidates_def by (simp only: mset_map mset_sort)
  ultimately show "distinct (map fst (preempt_candidates s job now))"
    by (simp only: mset_eq_imp_distinct_iff [OF m])
qed

lemma fold_hs_insert: "set (fold hs_insert xs acc) = set acc \<union> set xs"
  by (induction xs arbitrary: acc) auto

lemma fold_hs_insert_set: "set (fold (\<lambda>c acc. fold hs_insert (snd c) acc) sel acc) = set acc \<union> (\<Union>c\<in>set sel. set (snd c))"
  by (induction sel arbitrary: acc) (auto simp: fold_hs_insert)

text \<open>
  The iteration order of a hash table or set visits every entry.
\<close>

definition orders_ok :: "env \<Rightarrow> bool" where
  "orders_ok ev = (\<forall>xs. set (ev_id_order ev xs) = set xs)"

text \<open>
  The outcome of worker selection for a job that asks for \<open>n > 0\<close> nodes: \<open>n\<close> distinct usable workers,
  none of them reserved for somebody else, all of one CPU type, each of which holds the job once the
  listed preemptible jobs are gone.
\<close>

definition selection_ok :: "global_state \<Rightarrow> job_info \<Rightarrow> u64 \<Rightarrow> string list \<Rightarrow> u64 list \<Rightarrow> bool" where
  "selection_ok s job now ids js = (
     length ids = ji_req_nodes job \<and> distinct ids \<and>
     (\<forall>i\<in>set ids. \<exists>w. hm_get (gs_workers s) i = Some w \<and> usable w \<and> \<not> is_reserved s job i now \<and>
        (fits job w \<or> (eligible_with_preemption s job now i w \<and> set (preemptible_jobs_on s w) \<subseteq> set js))) \<and>
     (\<forall>j\<in>set js. \<exists>run_job. hm_get (gs_jobs s) j = Some run_job \<and> ji_qos run_job = Preemptible) \<and>
     (js \<noteq> [] \<longrightarrow> ji_qos job = Interactive) \<and>
     (1 < ji_req_nodes job \<longrightarrow> (\<exists>k. \<forall>i\<in>set ids. cpu_key s i = Some k)))"

lemma choose_workers_ok:
  assumes wf: "hm_wf (gs_workers s)" and ord: "orders_ok ev" and n: "0 < ji_req_nodes job"
    and ch: "choose_workers ev s job now = Inr (Some (ids, js))"
  shows "selection_ok s job now ids js"
proof -
  let ?sel = "select_nodes ev (ji_req_nodes job) (cpu_key s) (available_workers s job now)"
  let ?pre = "select_nodes ev (ji_req_nodes job) (\<lambda>c. cpu_key s (fst c)) (preempt_candidates s job now)"
  from ch consider (free) "?sel = Inr (Some ids)" "js = []"
    | (pre) sel where "?pre = Inr (Some sel)" "ids = map fst sel" "ji_qos job = Interactive"
        "js = ev_id_order ev (fold (\<lambda>c acc. fold hs_insert (snd c) acc) sel [])"
    by (auto simp: choose_workers_def split: sum.splits option.splits if_splits)
  then show ?thesis
  proof cases
    case free
    note r = select_nodes_result [OF free(1) n]
    have "\<exists>w. hm_get (gs_workers s) i = Some w \<and> usable w \<and> \<not> is_reserved s job i now \<and> fits job w"
      if "i \<in> set ids" for i
      using r(2) that available_workers_set(1) [OF wf, of i job now] no_fail_reasons_fits [of s job now i] by blast
    then show ?thesis using r available_workers_set(2) [OF wf] free(2)
      unfolding selection_ok_def by fastforce
  next
    case pre
    note r = select_nodes_result [OF pre(1) n]
    have js: "set js = (\<Union>c\<in>set sel. set (snd c))"
      using ord by (simp add: pre(4) orders_ok_def fold_hs_insert_set)
    have c: "\<exists>w. hm_get (gs_workers s) (fst c) = Some w \<and> usable w \<and>
        eligible_with_preemption s job now (fst c) w \<and> snd c = preemptible_jobs_on s w" if "c \<in> set sel" for c
      using r(2) that preempt_candidates_set(1) [OF wf, of c job now] by blast
    have "distinct ids"
    proof -
      have "distinct (preempt_candidates s job now)" "inj_on fst (set (preempt_candidates s job now))"
        using preempt_candidates_set(2) [OF wf] by (auto simp: distinct_map)
      then show ?thesis using r(2,3) by (auto simp: pre(2) distinct_map intro: inj_on_subset)
    qed
    moreover have "\<exists>w. hm_get (gs_workers s) i = Some w \<and> usable w \<and> \<not> is_reserved s job i now \<and>
        eligible_with_preemption s job now i w \<and> set (preemptible_jobs_on s w) \<subseteq> set js" if "i \<in> set ids" for i
      using that c js by (fastforce simp: pre(2) eligible_with_preemption_def)
    moreover have "\<exists>run_job. hm_get (gs_jobs s) j = Some run_job \<and> ji_qos run_job = Preemptible" if "j \<in> set js" for j
      using that c unfolding js by (fastforce simp: preemptible_jobs_on_def split: option.splits)
    moreover have "\<exists>k. \<forall>i\<in>set ids. cpu_key s i = Some k" if "1 < ji_req_nodes job"
      using r(4) [OF that] by (auto simp: pre(2))
    moreover have "length ids = ji_req_nodes job" using r(1) by (simp add: pre(2))
    ultimately show ?thesis using pre(3) unfolding selection_ok_def by (intro conjI ballI impI) blast+
  qed
qed

lemma choose_workers_no_panic: "0 < ji_req_nodes job \<Longrightarrow> \<exists>r. choose_workers ev s job now = Inr r"
  using select_nodes_no_panic [of "ji_req_nodes job" ev "cpu_key s" "available_workers s job now"]
    select_nodes_no_panic [of "ji_req_nodes job" ev "\<lambda>c. cpu_key s (fst c)" "preempt_candidates s job now"]
  by (auto simp: choose_workers_def split: option.splits)

section \<open>Allocation and dispatch\<close>

lemma allocate_on_frame:
  assumes "allocate_on j job ids a = Inr a'" "wid \<notin> set ids"
  shows "hm_get (al_workers a') wid = hm_get (al_workers a) wid"
    "hm_get (al_cores a') wid = hm_get (al_cores a) wid"
    "hm_get (al_gres a') wid = hm_get (al_gres a) wid"
  using assms by (induction j job ids a rule: allocate_on.induct) (auto split: option.splits sum.splits)

lemma allocate_on_absent:
  "allocate_on j job ids a = Inr a' \<Longrightarrow> hm_get (al_workers a) wid = None \<Longrightarrow> hm_get (al_workers a') wid = None"
proof (induction j job ids a rule: allocate_on.induct)
  case (2 j job i ids a)
  show ?case
  proof (cases "hm_get (al_workers a) i")
    case (Some w)
    then have "i \<noteq> wid" using 2(4) by auto
    with Some 2 show ?thesis by (auto split: sum.splits)
  qed (use 2 in auto)
qed auto

lemma allocate_on_wf: "allocate_on j job ids a = Inr a' \<Longrightarrow> hm_wf (al_workers a) \<Longrightarrow> hm_wf (al_workers a')"
  by (induction j job ids a rule: allocate_on.induct) (auto split: option.splits sum.splits)

lemma allocate_on_selected:
  assumes "allocate_on j job ids a = Inr a'" "distinct ids" "wid \<in> set ids" "hm_get (al_workers a) wid = Some w"
  shows "\<exists>w' c g. alloc_worker j job w = Inr (w', c, g) \<and> hm_get (al_workers a') wid = Some w' \<and>
    hm_get (al_cores a') wid = Some c \<and> hm_get (al_gres a') wid = Some g"
  using assms
proof (induction j job ids a rule: allocate_on.induct)
  case (2 j job i ids a)
  show ?case
  proof (cases "i = wid")
    case True
    then obtain w' c g where al: "alloc_worker j job w = Inr (w', c, g)"
      using 2 by (auto split: sum.splits)
    let ?a = "\<lparr>al_workers = hm_insert i w' (al_workers a), al_cores = hm_insert i c (al_cores a),
      al_gres = hm_insert i g (al_gres a), al_node_list_ips = al_node_list_ips a @ [addr_to_string (wh_addr w)]\<rparr>"
    have "allocate_on j job ids ?a = Inr a'" using 2 True al by simp
    from allocate_on_frame [OF this, of wid] al True 2 show ?thesis by auto
  next
    case False
    then show ?thesis using 2 by (auto split: option.splits sum.splits)
  qed
qed simp

lemma allocate_on_no_panic:
  assumes "\<forall>i\<in>set ids. \<forall>w. hm_get (al_workers a) i = Some w \<longrightarrow> fits job w"
    and "distinct ids" "hm_wf (ji_gres_req job)"
  shows "\<exists>a'. allocate_on j job ids a = Inr a'"
  using assms
proof (induction j job ids a rule: allocate_on.induct)
  case (2 j job i ids a)
  show ?case
  proof (cases "hm_get (al_workers a) i")
    case None
    then show ?thesis using 2 by simp
  next
    case (Some w)
    then obtain w' c g where al: "alloc_worker j job w = Inr (w', c, g)"
      using alloc_worker_no_panic [of job w j] 2 by auto
    show ?thesis using 2(2) [OF Some al refl refl] 2(3-) Some al by auto
  qed
qed simp

lemma dispatch_one_fields [simp]:
  "gs_workers (dispatch_one j job a n t s) = gs_workers s"
  "gs_jobs (dispatch_one j job a n t s) = gs_jobs s"
  "gs_queue (dispatch_one j job a n t s) = gs_queue s"
  "gs_reservations (dispatch_one j job a n t s) = gs_reservations s"
  "gs_usage_tracker (dispatch_one j job a n t s) = gs_usage_tracker s"
  "gs_role (dispatch_one j job a n t s) = gs_role s"
  "gs_steps (dispatch_one j job a n t s) = gs_steps s"
  by (auto simp: dispatch_one_def split: prod.split option.split)

lemma dispatch_all_fields [simp]:
  "gs_workers (fold (dispatch_one j job a n) ts s) = gs_workers s"
  "gs_jobs (fold (dispatch_one j job a n) ts s) = gs_jobs s"
  "gs_reservations (fold (dispatch_one j job a n) ts s) = gs_reservations s"
  "gs_usage_tracker (fold (dispatch_one j job a n) ts s) = gs_usage_tracker s"
  "gs_role (fold (dispatch_one j job a n) ts s) = gs_role s"
  "gs_steps (fold (dispatch_one j job a n) ts s) = gs_steps s"
  by (induction ts arbitrary: s) auto

lemma tracking_fields [simp]:
  "gs_workers (record_dispatched_workers j ws s) = gs_workers s"
  "gs_jobs (record_dispatched_workers j ws s) = gs_jobs s"
  "gs_reservations (record_dispatched_workers j ws s) = gs_reservations s"
  "gs_usage_tracker (record_dispatched_workers j ws s) = gs_usage_tracker s"
  "gs_role (record_dispatched_workers j ws s) = gs_role s"
  "gs_steps (record_dispatched_workers j ws s) = gs_steps s"
  "gs_workers (write_hostfile j job ids s) = gs_workers s"
  "gs_jobs (write_hostfile j job ids s) = gs_jobs s"
  "gs_reservations (write_hostfile j job ids s) = gs_reservations s"
  "gs_usage_tracker (write_hostfile j job ids s) = gs_usage_tracker s"
  "gs_role (write_hostfile j job ids s) = gs_role s"
  "gs_steps (write_hostfile j job ids s) = gs_steps s"
  by (simp_all add: record_dispatched_workers_def write_hostfile_def Let_def)

lemma start_job_result:
  assumes "start_job ev j job ids js s = Inr s'"
  obtains a where
    "allocate_on j job ids \<lparr>al_workers = gs_workers (fold preempt_job js s), al_cores = [], al_gres = [],
       al_node_list_ips = []\<rparr> = Inr a"
    "gs_workers s' = al_workers a"
    "gs_jobs s' = hm_modify j (started ev ids a) (gs_jobs (fold preempt_job js s))"
    "gs_reservations s' = gs_reservations (fold preempt_job js s)"
  using assms by (auto simp: start_job_def Let_def split: sum.splits)

text \<open>A job that starts is linked to exactly the workers it was allocated on.\<close>

lemma alloc_worker_link:
  assumes al: "alloc_worker j job w = Inr (w', c, g)" and l: "link_ok jobs wid w"
    and j: "hm_get jobs' j = Some job'" "ji_status job' = Running" "wid \<in> set (ji_assigned_workers job')"
    and others: "\<And>k. k \<noteq> j \<Longrightarrow> hm_get jobs' k = hm_get jobs k"
  shows "link_ok jobs' wid w'"
  unfolding link_ok_def
proof (intro ballI allI impI)
  fix k job1 assume k: "k \<in> set (wh_assigned_jobs w')" "hm_get jobs' k = Some job1"
  note f = alloc_worker_fields [OF al]
  show "ji_status job1 = Running \<and> wid \<in> set (ji_assigned_workers job1) \<and>
     (hm_get (wh_job_core_assignments w') k = None \<longrightarrow> hm_get (ji_allocated_cores job1) wid = None) \<and>
     (hm_get (wh_job_gres_assignments w') k = None \<longrightarrow> hm_get (ji_allocated_gres job1) wid = None)"
  proof (cases "k = j")
    case True
    then show ?thesis using k j f(7,8) [of k] by simp
  next
    case False
    then show ?thesis using k l f(1) f(7,8) [of k] others [of k] by (auto simp: link_ok_def)
  qed
qed

theorem start_job_alloc_inv:
  assumes inv: "alloc_inv s" and job: "hm_get (gs_jobs s) j = Some job0" "ji_status job0 = Pending"
    and wf: "hm_wf (ji_gres_req job)" and d: "distinct ids"
    and st: "start_job ev j job ids js s = Inr s'"
  shows "alloc_inv s'"
proof -
  let ?s1 = "fold preempt_job js s"
  from st obtain a where
    al: "allocate_on j job ids \<lparr>al_workers = gs_workers ?s1, al_cores = [], al_gres = [], al_node_list_ips = []\<rparr> = Inr a"
    and ws: "gs_workers s' = al_workers a"
    and js: "gs_jobs s' = hm_modify j (started ev ids a) (gs_jobs ?s1)"
    by (rule start_job_result)
  have i1: "alloc_inv ?s1" by (rule preempt_all_alloc_inv [OF inv])
  have j1: "hm_get (gs_jobs ?s1) j = Some job0" using job by (intro preempt_all_pending_job) auto
  have un: "unlisted j ?s1" using i1 j1 job(2) by (intro pending_unlisted) auto
  have j': "hm_get (gs_jobs s') j = Some (started ev ids a job0)" by (simp add: js j1)
  have others: "k \<noteq> j \<Longrightarrow> hm_get (gs_jobs s') k = hm_get (gs_jobs ?s1) k" for k by (simp add: js)
  have "worker_ok w \<and> link_ok (gs_jobs s') wid w" if w: "hm_get (al_workers a) wid = Some w" for wid w
  proof (cases "wid \<in> set ids \<and> hm_get (gs_workers ?s1) wid \<noteq> None")
    case True
    then obtain w0 where w0: "hm_get (gs_workers ?s1) wid = Some w0" "wid \<in> set ids" by auto
    from allocate_on_selected [OF al d w0(2)] w0 w obtain c g where aw: "alloc_worker j job w0 = Inr (w, c, g)"
      by auto
    note ok = alloc_invD [OF i1 w0(1)]
    have "j \<notin> set (wh_assigned_jobs w0)" using un w0 by (auto simp: unlisted_def)
    then have "worker_ok w" using alloc_worker_ok [OF ok(1) _ wf aw] by blast
    moreover have "link_ok (gs_jobs s') wid w"
      using alloc_worker_link [OF aw ok(2) j' _ _ others] w0(2) by (simp add: started_def)
    ultimately show ?thesis ..
  next
    case False
    have "hm_get (gs_workers ?s1) wid = Some w"
    proof (cases "wid \<in> set ids")
      case True
      with False have "hm_get (gs_workers ?s1) wid = None" by auto
      then show ?thesis using allocate_on_absent [OF al, of wid] w by simp
    next
      case False
      then show ?thesis using allocate_on_frame(1) [OF al] w by simp
    qed
    note ok = alloc_invD [OF i1 this]
    have "j \<notin> set (wh_assigned_jobs w)" using un \<open>hm_get (gs_workers ?s1) wid = Some w\<close> by (auto simp: unlisted_def)
    then have same: "k \<in> set (wh_assigned_jobs w) \<Longrightarrow> hm_get (gs_jobs s') k = hm_get (gs_jobs ?s1) k" for k
      using others by metis
    have "link_ok (gs_jobs s') wid w"
      by (rule link_ok_mono [OF ok(2)]) (simp add: same)
    with ok(1) show ?thesis ..
  qed
  then show ?thesis using i1 allocate_on_wf [OF al] by (simp add: alloc_inv_def ws js)
qed

lemma grows_fits:
  assumes "worker_ok w" "worker_ok w'" "grows js w w'" "fits job w"
  shows "fits job w'"
proof -
  have d: "distinct (wh_available_core_ids w)" "distinct (wh_available_core_ids w')"
    "distinct (free_gres w n)" "distinct (free_gres w' n)" for n
    using assms(1,2) by (auto simp: worker_ok_def cores_ok_def gres_ok_def pool_ok_def)
  have c: "card (set (wh_available_core_ids w)) \<le> card (set (wh_available_core_ids w'))"
    using growsD(1) [OF assms(3)] by (intro card_mono) auto
  have g: "card (set (free_gres w n)) \<le> card (set (free_gres w' n))" for n
    using growsD(2) [OF assms(3)] by (intro card_mono) auto
  show ?thesis using assms(4) c g
    by (fastforce simp: fits_def distinct_card d intro: order_trans)
qed

lemma start_job_no_panic:
  assumes inv: "alloc_inv s" and sel: "selection_ok s job now ids js" and wf: "hm_wf (ji_gres_req job)"
  shows "\<exists>s'. start_job ev j job ids js s = Inr s'"
proof -
  let ?s1 = "fold preempt_job js s"
  have "fits job w1" if i: "i \<in> set ids" and w1: "hm_get (gs_workers ?s1) i = Some w1" for i w1
  proof -
    from sel i obtain w where w: "hm_get (gs_workers s) i = Some w"
      and c: "fits job w \<or> eligible_with_preemption s job now i w \<and> set (preemptible_jobs_on s w) \<subseteq> set js"
      by (auto simp: selection_ok_def)
    have "\<forall>k\<in>set js. hm_get (gs_jobs s) k \<noteq> None" using sel by (auto simp: selection_ok_def)
    from preempt_all_grows [OF inv w this] w1 have g: "grows (set js) w w1" by auto
    have ok: "worker_ok w" "worker_ok w1"
      using alloc_invD(1) [OF inv w] alloc_invD(1) [OF preempt_all_alloc_inv [OF inv] w1] by auto
    show ?thesis using c grows_fits [OF ok g] eligible_fits [OF ok g] by blast
  qed
  then obtain a where "allocate_on j job ids
      \<lparr>al_workers = gs_workers ?s1, al_cores = [], al_gres = [], al_node_list_ips = []\<rparr> = Inr a"
    using allocate_on_no_panic [of ids "\<lparr>al_workers = gs_workers ?s1, al_cores = [], al_gres = [], al_node_list_ips = []\<rparr>" job j]
      sel wf by (auto simp: selection_ok_def)
  then show ?thesis by (simp add: start_job_def Let_def)
qed

section \<open>The pass\<close>

text \<open>Every job in the table asks for at least one node and names each GRES once.\<close>

definition jobs_ok :: "(u64, job_info) hmap \<Rightarrow> bool" where
  "jobs_ok jobs = (\<forall>(j, job)\<in>set jobs. 0 < ji_req_nodes job \<and> hm_wf (ji_gres_req job))"

definition same_request :: "job_info \<Rightarrow> job_info \<Rightarrow> bool" where
  "same_request a b = (ji_req_nodes a = ji_req_nodes b \<and> ji_gres_req a = ji_gres_req b)"

lemma jobs_okD: "jobs_ok jobs \<Longrightarrow> hm_get jobs j = Some job \<Longrightarrow> 0 < ji_req_nodes job \<and> hm_wf (ji_gres_req job)"
  by (auto simp: jobs_ok_def dest!: hm_get_SomeD)

lemma jobs_okI:
  assumes "hm_wf jobs" "\<And>j job. hm_get jobs j = Some job \<Longrightarrow> 0 < ji_req_nodes job \<and> hm_wf (ji_gres_req job)"
  shows "jobs_ok jobs"
  using assms by (auto simp: jobs_ok_def hm_get_iff)

lemma jobs_ok_modify:
  assumes "jobs_ok jobs" "hm_wf jobs" "\<And>job. same_request (f job) job"
  shows "jobs_ok (hm_modify j f jobs)"
  using assms jobs_okD [OF assms(1)]
  by (intro jobs_okI) (auto simp: same_request_def split: if_splits)

definition sched_ok :: "global_state \<Rightarrow> bool" where
  "sched_ok s = (alloc_inv s \<and> jobs_ok (gs_jobs s))"

lemma sched_ok_modify:
  assumes "sched_ok s" "\<And>job. same_allocation (f job) job" "\<And>job. same_request (f job) job"
  shows "sched_ok (s\<lparr>gs_jobs := hm_modify j f (gs_jobs s)\<rparr>)"
proof -
  have "hm_wf (gs_jobs s)" using assms(1) by (simp add: sched_ok_def alloc_inv_def)
  with assms show ?thesis by (simp add: sched_ok_def alloc_inv_modify_job jobs_ok_modify)
qed

lemma set_reason_ok: "sched_ok s \<Longrightarrow> sched_ok (set_reason j r s)"
  unfolding set_reason_def by (rule sched_ok_modify) (auto simp: same_allocation_def same_request_def)

lemma clear_reason_ok: "sched_ok s \<Longrightarrow> sched_ok (clear_waiting_reason j s)"
  unfolding clear_waiting_reason_def by (rule sched_ok_modify) (auto simp: same_allocation_def same_request_def)

lemma jobs_ok_preempt: "jobs_ok (gs_jobs s) \<Longrightarrow> alloc_inv s \<Longrightarrow> jobs_ok (gs_jobs (fold preempt_job js s))"
proof (induction js arbitrary: s)
  case (Cons k js)
  have "jobs_ok (gs_jobs (preempt_job k s))"
    using Cons.prems preempt_alloc_inv [OF Cons.prems(2), of k] jobs_okD [OF Cons.prems(1)]
    by (intro jobs_okI) (auto simp: alloc_inv_def preempt_get_job preempted_def split: if_splits)
  with Cons preempt_alloc_inv show ?case by simp
qed simp

lemma start_job_ok:
  assumes ok: "sched_ok s" and job: "hm_get (gs_jobs s) j = Some job0" "ji_status job0 = Pending"
    and sel: "selection_ok s job now ids js" and wf: "hm_wf (ji_gres_req job)"
  shows "\<exists>s'. start_job ev j job ids js s = Inr s' \<and> sched_ok s'"
proof -
  from ok have inv: "alloc_inv s" by (simp add: sched_ok_def)
  from start_job_no_panic [OF inv sel wf] obtain s' where st: "start_job ev j job ids js s = Inr s'" by blast
  have "alloc_inv s'" using start_job_alloc_inv [OF inv job wf _ st] sel by (simp add: selection_ok_def)
  moreover from st obtain a where "gs_jobs s' = hm_modify j (started ev ids a) (gs_jobs (fold preempt_job js s))"
    by (rule start_job_result)
  ultimately have "sched_ok s'"
    using jobs_ok_preempt [of s js] ok preempt_all_alloc_inv [OF inv, of js]
    by (simp add: sched_ok_def jobs_ok_modify same_request_def started_def alloc_inv_def)
  with st show ?thesis by blast
qed

lemma schedule_one_ok:
  assumes ok: "sched_ok (ps_state ps)" and ord: "orders_ok ev"
  shows "\<exists>ps'. schedule_one ev db j ps = Inr ps' \<and> sched_ok (ps_state ps')"
proof (cases "hm_get (gs_jobs (ps_state ps)) j")
  case (Some job)
  let ?s = "clear_waiting_reason j (ps_state ps)"
  have ok': "sched_ok ?s" by (rule clear_reason_ok [OF ok])
  have n: "0 < ji_req_nodes job" "hm_wf (ji_gres_req job)"
    using jobs_okD Some ok by (auto simp: sched_ok_def)
  have keep: "sched_ok (ps_state (keep_pending j r p)) = sched_ok (set_reason j (Some r) (ps_state p))" for r p
    by (simp add: keep_pending_def)
  have "\<exists>ps'. schedule_ready_job ev j job ps = Inr ps' \<and> sched_ok (ps_state ps')" if "ji_status job = Pending"
  proof (cases "backfill_denied ev job (ps_top_job_earliest_start ps)")
    case True
    then show ?thesis using set_reason_ok [OF ok'] by (simp add: schedule_ready_job_def Let_def keep)
  next
    case False
    from choose_workers_no_panic [OF n(1), of ev ?s "ev_now ev"] obtain r
      where r: "choose_workers ev ?s job (ev_now ev) = Inr r" by blast
    show ?thesis
    proof (cases r)
      case None
      then show ?thesis using False r set_reason_ok [OF ok']
        by (simp add: schedule_ready_job_def Let_def block_job_def keep split: option.split)
    next
      case (Some p)
      obtain ids js where p: "p = (ids, js)" by (cases p)
      have sel: "selection_ok ?s job (ev_now ev) ids js"
        using choose_workers_ok [OF _ ord n(1)] r Some p ok' by (simp add: sched_ok_def alloc_inv_def)
      have "hm_get (gs_jobs ?s) j \<noteq> None" "\<And>x. hm_get (gs_jobs ?s) j = Some x \<Longrightarrow> ji_status x = Pending"
        using \<open>hm_get (gs_jobs (ps_state ps)) j = Some job\<close> that
        by (auto simp: clear_waiting_reason_def)
      then obtain job0 where "hm_get (gs_jobs ?s) j = Some job0" "ji_status job0 = Pending" by blast
      from start_job_ok [OF ok' this sel n(2), of ev] False r Some p show ?thesis
        by (auto simp: schedule_ready_job_def Let_def)
    qed
  qed
  then show ?thesis using Some ok set_reason_ok
    by (auto simp: schedule_one_def keep split: sum.split bool.split)
qed (simp add: schedule_one_def ok)

lemma schedule_loop_ok:
  "sched_ok (ps_state ps) \<Longrightarrow> orders_ok ev \<Longrightarrow>
   \<exists>ps'. schedule_loop ev db js ps = Inr ps' \<and> sched_ok (ps_state ps')"
proof (induction js arbitrary: ps)
  case (Cons j js)
  then obtain ps1 where "schedule_one ev db j ps = Inr ps1" "sched_ok (ps_state ps1)"
    using schedule_one_ok by blast
  with Cons show ?case by simp
qed simp

lemma schedule_jobs_ok:
  assumes "sched_ok s" "orders_ok ev"
  shows "\<exists>s'. schedule_jobs ev db s = Inr s' \<and> sched_ok s'"
proof -
  let ?ps = "\<lparr>ps_state = begin_pass ev s, ps_still_pending = [], ps_top_job_earliest_start = None, ps_top_job_id = None\<rparr>"
  have "sched_ok (begin_pass ev s)" using assms(1) by (simp add: sched_ok_def begin_pass_def alloc_inv_def)
  then obtain ps' where "schedule_loop ev db (sort_pending ev (begin_pass ev s) (gs_queue s)) ?ps = Inr ps'"
    "sched_ok (ps_state ps')" using schedule_loop_ok [of ?ps ev db] assms(2) by auto
  then show ?thesis by (simp add: schedule_jobs_def Let_def sched_ok_def alloc_inv_def)
qed

end
