(* ===== verification/Samples.thy ===== *)
theory Samples
  imports SchedulerSafety
begin

text \<open>
  Concrete inputs on which the witnesses evaluate the theorems: an exact-arithmetic environment, a job,
  a worker and states built from them.
\<close>

definition sample_env :: env where
  "sample_env = \<lparr>ev_now = 1000, ev_starvation_threshold = None, ev_boost_rate = None,
     ev_rnd = (\<lambda>x. x), ev_rnd32 = (\<lambda>x. x), ev_powf = (\<lambda>x y. if y \<le> 0 then 1 else x),
     ev_idle_timeout = None, ev_key_order = (\<lambda>xs. xs), ev_id_order = (\<lambda>xs. xs)\<rparr>"

definition sample_job :: "u64 \<Rightarrow> job_info" where
  "sample_job i = \<lparr>
     ji_id = i, ji_job_name = None, ji_job_comment = None, ji_binary = ''hostname'', ji_args = [],
     ji_status = Pending, ji_req_nodes = 1, ji_req_cores = 1, ji_req_memory = 256,
     ji_assigned_workers = [], ji_walltime = 60, ji_start_time = None, ji_priority = 0,
     ji_user_id = ''alice'', ji_working_directory = ''/tmp'', ji_queued_time = 900,
     ji_current_cpu_usage = 0, ji_current_memory_usage = 0, ji_is_idle = False, ji_idle_duration = 0,
     ji_end_time = None, ji_env_vars = [], ji_reason = None, ji_array_id = None, ji_array_task_id = None,
     ji_inputs = [], ji_cgroup_active = False, ji_gres_req = [], ji_allocated_cores = [],
     ji_allocated_gres = [], ji_mpi_stats = None, ji_secret = ''s'', ji_stdout_file_id = None,
     ji_stderr_file_id = None, ji_workdir_file_id = None, ji_worker_log_files = [],
     ji_output_artifacts = [], ji_wait_for_licenses = False, ji_estimated_walltime = None,
     ji_priority_offset = None, ji_dependencies = None, ji_dependency_specs = None, ji_qos = Production,
     ji_container_asset = None, ji_vnc_enabled = False, ji_inherit_host_env = False,
     ji_env_allowlist = None, ji_job_profile = None, ji_interactive_port = None\<rparr>"

definition sample_resources :: resources where
  "sample_resources = \<lparr>
     rs_cpu_cores = 2, rs_total_memory = 1073741824, rs_free_memory = 1073741824, rs_cpu_usage = 0,
     rs_cpu_model = ''m'', rs_arch = ''x86_64'', rs_os_name = [], rs_os_version = [],
     rs_kernel_version = [], rs_host_name = ''w1'', rs_load_avg = [0, 0, 0], rs_disk_total = 0,
     rs_disk_free = 0, rs_uptime = 0, rs_boot_time = 0, rs_process_count = 0, rs_swap_total = 0,
     rs_swap_free = 0, rs_version = [], rs_gres = [], rs_cgroup_enabled = False\<rparr>"

definition sample_worker :: worker_handle where
  "sample_worker = \<lparr>
     wh_addr = V4 ''10.0.0.1'' 7000, wh_hostname = ''w1'', wh_resources = sample_resources,
     wh_routing = Direct 0, wh_assigned_jobs = [], wh_allocated_memory = 0, wh_connection_id = 1,
     wh_available_core_ids = [0, 1], wh_job_core_assignments = [], wh_available_gres_ids = [],
     wh_job_gres_assignments = [], wh_connected = True, wh_last_seen = 1000, wh_cgroup_enabled = False,
     wh_draining = False, wh_current_pulse_interval = 1, wh_features = 0\<rparr>"

definition sample_tracking :: multinode_job_tracking where
  "sample_tracking = \<lparr>mt_dispatched_workers = [], mt_worker_log_files = [], mt_done_workers = []\<rparr>"

definition sample_state :: "(string, worker_handle) hmap \<Rightarrow> (u64, job_info) hmap \<Rightarrow> u64 list \<Rightarrow> global_state" where
  "sample_state workers jobs queue = \<lparr>
     gs_workers = workers, gs_jobs = jobs, gs_queue = queue, gs_next_job_id = 10,
     gs_usage_tracker = \<lparr>ut_usage = [], ut_last_decay = 990\<rparr>, gs_log_requests = [],
     gs_component_log_requests = [], gs_scheduler_notify = False, gs_steps = [], gs_next_step_id = 1,
     gs_role = Leader, gs_leader_addr = None, gs_leader_id = None, gs_peers = [],
     gs_job_output_buffers = [], gs_multinode_job_tracking = sample_tracking, gs_api_port = 8080,
     gs_step_waiters = [], gs_step_output_waiters = [], gs_next_request_id = 1, gs_reservations = [],
     gs_outbox = [], gs_closed = [], gs_hostfiles = [], gs_disk = None\<rparr>"

definition one_job_state :: global_state where
  "one_job_state = sample_state [(''w1'', sample_worker)] [(1, sample_job 1)] [1]"

lemma sample_worker_ok: "worker_ok sample_worker"
  unfolding worker_ok_def
proof (intro conjI allI)
  show "tables_ok sample_worker" by (simp add: tables_ok_def sample_worker_def sample_resources_def)
  show "cores_ok sample_worker" unfolding cores_ok_def
    by (rule pool_ok_fresh) (auto simp: cores_of_def sample_worker_def sample_resources_def)
  show "gres_ok sample_worker n" for n unfolding gres_ok_def
    by (rule pool_ok_fresh) (auto simp: gres_of_def free_gres_def gres_limit_def sample_worker_def sample_resources_def)
qed

lemma sample_env_ok: "orders_ok sample_env" "float_ok sample_env"
  by (auto simp: orders_ok_def float_ok_def sample_env_def mono_def)

lemma one_job_state_ok: "sched_ok one_job_state"
  using sample_worker_ok
  by (auto simp: sched_ok_def alloc_inv_def jobs_ok_def link_ok_def one_job_state_def sample_state_def
      sample_job_def sample_worker_def split: if_splits)

text \<open>A job running on core 0 of two workers, and the context around that state.\<close>

definition loaded_worker :: "string \<Rightarrow> worker_handle" where
  "loaded_worker host = sample_worker\<lparr>wh_hostname := host, wh_assigned_jobs := [1], wh_allocated_memory := 256,
     wh_available_core_ids := [1], wh_job_core_assignments := [(1, [0])]\<rparr>"

definition running_job :: job_info where
  "running_job = sample_job 1\<lparr>ji_status := Running, ji_req_nodes := 2, ji_assigned_workers := [''w1'', ''w2''],
     ji_start_time := Some 950, ji_allocated_cores := [(''w1'', [0]), (''w2'', [0])]\<rparr>"

definition two_node_state :: global_state where
  "two_node_state = (sample_state [(''w1'', loaded_worker ''w1''), (''w2'', loaded_worker ''w2'')] [(1, running_job)] [])
     \<lparr>gs_multinode_job_tracking := sample_tracking\<lparr>mt_dispatched_workers := [(1, [''w1'', ''w2''])]\<rparr>\<rparr>"

definition sample_ctx :: "global_state \<Rightarrow> controller_ctx" where
  "sample_ctx s = \<lparr>
     cx_state = s, cx_missing_jobs = [], cx_failed_jobs = 0, cx_completed_jobs = 0, cx_accounting = [],
     cx_metrics_nodes = [], cx_active_jobs = [], cx_worker_resources = [], cx_job_worker_stats = [],
     cx_global_idle_start = [], cx_events = [], cx_job_metrics_history = [], cx_pmi_kvs = [],
     cx_pmi_barriers = [], cx_deleted_files = [], cx_step_results = [],
     cx_next_job_id = 10, cx_submission_open = True, cx_submissions = [], cx_last_heartbeat = 0\<rparr>"

lemma loaded_worker_ok: "worker_ok (loaded_worker host)"
  unfolding worker_ok_def
proof (intro conjI allI)
  show "tables_ok (loaded_worker host)"
    by (auto simp: tables_ok_def loaded_worker_def sample_worker_def sample_resources_def split: if_splits)
  show "cores_ok (loaded_worker host)"
    by (auto simp: cores_ok_def pool_ok_def cores_of_def loaded_worker_def sample_worker_def sample_resources_def
        split: if_splits)
  show "gres_ok (loaded_worker host) n" for n unfolding gres_ok_def
    by (rule pool_ok_fresh)
      (auto simp: gres_of_def free_gres_def gres_limit_def loaded_worker_def sample_worker_def sample_resources_def)
qed

lemma two_node_state_ok: "alloc_inv two_node_state"
proof -
  have "link_ok [(1, running_job)] wid (loaded_worker host)" if "wid = ''w1'' \<or> wid = ''w2''" for wid host
    using that by (auto simp: link_ok_def loaded_worker_def sample_worker_def running_job_def sample_job_def)
  then show ?thesis
    using loaded_worker_ok by (auto simp: alloc_inv_def two_node_state_def sample_state_def split: if_splits)
qed

end
