(* ===== verification/WorkerSafety.thy ===== *)
theory WorkerSafety
  imports Rebuild Samples
begin

text \<open>
  The worker handlers keep the allocation invariant; a multi-node job is finalized exactly when its
  last dispatched worker reports; the output buffer is bounded; the PMI key-value space and barrier do
  what their clients rely on; an input file is deleted only when no live job refers to it.
\<close>

section \<open>The allocation invariant\<close>

text \<open>Worker changes that leave the pools alone and keep the capacity.\<close>

definition same_pool :: "worker_handle \<Rightarrow> worker_handle \<Rightarrow> bool" where
  "same_pool a b = (
     rs_cpu_cores (wh_resources a) = rs_cpu_cores (wh_resources b) \<and> rs_gres (wh_resources a) = rs_gres (wh_resources b) \<and>
     wh_assigned_jobs a = wh_assigned_jobs b \<and> wh_available_core_ids a = wh_available_core_ids b \<and>
     wh_job_core_assignments a = wh_job_core_assignments b \<and> wh_available_gres_ids a = wh_available_gres_ids b \<and>
     wh_job_gres_assignments a = wh_job_gres_assignments b)"

lemma alloc_inv_mono:
  "alloc_inv b \<Longrightarrow> gs_workers a = gs_workers b \<Longrightarrow> gs_jobs a = gs_jobs b \<Longrightarrow> alloc_inv a"
  by (simp add: alloc_inv_def)

lemma same_pool_ok: "same_pool a b \<Longrightarrow> worker_ok b \<Longrightarrow> worker_ok a"
  by (simp add: same_pool_def worker_ok_def tables_ok_def cores_ok_def gres_ok_def cores_of_def [abs_def]
      gres_of_def [abs_def] free_gres_def gres_limit_def)

lemma same_pool_link: "same_pool a b \<Longrightarrow> link_ok jobs wid b \<Longrightarrow> link_ok jobs wid a"
  by (simp add: same_pool_def link_ok_def)

lemma alloc_inv_workers:
  assumes "alloc_inv s" "hm_wf ws'"
    and "\<And>wid w. hm_get ws' wid = Some w \<Longrightarrow>
      (worker_ok w \<and> link_ok (gs_jobs s) wid w) \<or> (\<exists>w0. hm_get (gs_workers s) wid = Some w0 \<and> same_pool w w0)"
  shows "alloc_inv (s\<lparr>gs_workers := ws'\<rparr>)"
proof -
  have "worker_ok w \<and> link_ok (gs_jobs s) wid w" if "hm_get ws' wid = Some w" for wid w
    using assms(3) [OF that] alloc_invD [OF assms(1)] same_pool_ok same_pool_link by blast
  then show ?thesis using assms(1,2) by (simp add: alloc_inv_def)
qed

lemma tell_peers_fields [simp]:
  "gs_workers (tell_peers e s) = gs_workers s" "gs_jobs (tell_peers e s) = gs_jobs s"
proof -
  have "gs_workers (fold (\<lambda>tx s. if tx \<in> set (gs_closed s) then s else post tx e s) xs s) = gs_workers s \<and>
    gs_jobs (fold (\<lambda>tx s. if tx \<in> set (gs_closed s) then s else post tx e s) xs s) = gs_jobs s" for xs
    by (induction xs arbitrary: s) (simp_all add: post_def)
  then show "gs_workers (tell_peers e s) = gs_workers s" "gs_jobs (tell_peers e s) = gs_jobs s"
    by (simp_all add: tell_peers_def post_def split: option.split)
qed

lemma register_alloc_inv:
  assumes inv: "alloc_inv (cx_state ctx)" and rec: "recorded_ok wid res (gs_jobs (cx_state ctx))"
  shows "alloc_inv (cx_state (register_worker ev wid addr hostname res features tx cid ctx))"
proof -
  let ?s = "cx_state ctx"
  have "alloc_inv (?s\<lparr>gs_workers := hm_insert wid
      (registered_handle ev wid addr hostname res features tx cid p (gs_jobs ?s)) (gs_workers ?s)\<rparr>)" for p
    by (rule alloc_inv_workers [OF inv])
      (use inv registered_handle_ok [OF rec] in \<open>auto simp: alloc_inv_def same_pool_def split: if_splits\<close>)
  from this [of "case hm_get (gs_workers ?s) wid of Some w \<Rightarrow> wh_current_pulse_interval w | None \<Rightarrow> 2"]
  show ?thesis
    by (rule alloc_inv_mono) (simp_all add: register_worker_def Let_def notify_one_def)
qed

lemma modify_worker_alloc_inv:
  assumes "alloc_inv s" "\<And>w. same_pool (f w) w"
  shows "alloc_inv (s\<lparr>gs_workers := hm_modify wid f (gs_workers s)\<rparr>)"
  by (rule alloc_inv_workers [OF assms(1)])
    (use assms in \<open>auto simp: alloc_inv_def split: if_splits\<close>)

lemma disconnect_alloc_inv:
  assumes "alloc_inv (cx_state ctx)"
  shows "alloc_inv (cx_state (disconnect_worker ev wid cid ctx))"
proof -
  have "alloc_inv (cx_state ctx\<lparr>gs_workers := hm_modify wid
      (\<lambda>w. w\<lparr>wh_connected := False, wh_last_seen := ev_now ev\<rparr>) (gs_workers (cx_state ctx))\<rparr>)"
    by (rule modify_worker_alloc_inv [OF assms]) (simp add: same_pool_def)
  then show ?thesis using assms by (simp add: disconnect_worker_def Let_def alloc_inv_def split: option.split)
qed

lemma update_job_stats_allocation: "same_allocation (fst (update_job_stats ev m idle stats job)) job"
  by (auto simp: update_job_stats_def Let_def same_allocation_def split_def split: option.splits)

lemma insert_job_alloc_inv:
  assumes "alloc_inv s" "hm_get (gs_jobs s) j = Some job" "same_allocation job' job"
  shows "alloc_inv (s\<lparr>gs_jobs := hm_insert j job' (gs_jobs s)\<rparr>)"
  by (rule alloc_inv_jobs [OF assms(1)])
    (use assms in \<open>auto simp: alloc_inv_def split: if_splits\<close>)

lemma heartbeat_stats_alloc_inv:
  assumes "alloc_inv (cx_state ctx)"
  shows "alloc_inv (cx_state (heartbeat_stats ev wid stats ctx))"
proof -
  have same: "cx_state (record_worker_stats wid stats (push_history stats ctx)) = cx_state ctx"
    by (simp add: record_worker_stats_def push_history_def)
  show ?thesis
    using assms insert_job_alloc_inv [OF assms] update_job_stats_allocation
    by (auto simp: heartbeat_stats_def Let_def same split_def split: option.splits)
qed

lemma heartbeat_alloc_inv:
  assumes inv: "alloc_inv (cx_state ctx)"
    and cap: "\<And>w. hm_get (gs_workers (cx_state ctx)) wid = Some w \<Longrightarrow>
       rs_cpu_cores res = rs_cpu_cores (wh_resources w) \<and> rs_gres res = rs_gres (wh_resources w)"
  shows "alloc_inv (cx_state (heartbeat ev wid cid res stats ctx))"
proof (cases "\<exists>w. hm_get (gs_workers (cx_state ctx)) wid = Some w \<and> wh_connection_id w = cid")
  case True
  then obtain w where w: "hm_get (gs_workers (cx_state ctx)) wid = Some w" "wh_connection_id w = cid" by blast
  define s1 where "s1 = cx_state ctx\<lparr>gs_workers := hm_insert wid (w\<lparr>wh_resources := res, wh_last_seen := ev_now ev\<rparr>) (gs_workers (cx_state ctx))\<rparr>"
  define p where "p = reconcile_missing_worker_jobs ev wid (remdups (map jst_job_id stats)) (ev_now ev) (cx_missing_jobs ctx, s1)"
  have "alloc_inv s1" unfolding s1_def
    by (rule alloc_inv_workers [OF inv])
      (use inv cap w in \<open>auto simp: alloc_inv_def same_pool_def split: if_splits\<close>)
  then have "alloc_inv (snd p)" unfolding p_def by (rule reconcile_alloc_inv)
  then have "alloc_inv (cx_state (fold (heartbeat_stats ev wid) stats (ctx\<lparr>cx_state := snd p, cx_missing_jobs := fst p\<rparr>)))"
    by (intro fold_inv [where P = "\<lambda>c. alloc_inv (cx_state c)"] heartbeat_stats_alloc_inv) simp_all
  then show ?thesis using w by (simp add: heartbeat_def Let_def split_def s1_def [symmetric] p_def [symmetric])
next
  case False
  then show ?thesis using inv by (auto simp: heartbeat_def split: option.split)
qed

lemma job_started_alloc_inv:
  assumes "alloc_inv (cx_state ctx)"
  shows "alloc_inv (cx_state (job_started j ctx))"
proof -
  let ?s = "cx_state ctx"
  have "alloc_inv (?s\<lparr>gs_jobs := hm_modify j (\<lambda>x. x\<lparr>ji_status := Running, ji_cgroup_active := b\<rparr>) (gs_jobs ?s)\<rparr>)" for b
  proof (rule alloc_inv_jobs [OF assms])
    show "hm_wf (hm_modify j (\<lambda>x. x\<lparr>ji_status := Running, ji_cgroup_active := b\<rparr>) (gs_jobs ?s))"
      using assms by (simp add: alloc_inv_def)
  next
    fix wid w k job
    assume "hm_get (gs_workers ?s) wid = Some w" "k \<in> set (wh_assigned_jobs w)"
      "hm_get (hm_modify j (\<lambda>x. x\<lparr>ji_status := Running, ji_cgroup_active := b\<rparr>) (gs_jobs ?s)) k = Some job"
    then show "\<exists>job0. hm_get (gs_jobs ?s) k = Some job0 \<and> same_allocation job job0"
      using alloc_invD(2) [OF assms] by (fastforce simp: link_ok_def same_allocation_def split: if_splits)
  qed
  then show ?thesis by (simp add: job_started_def Let_def)
qed

lemma finish_job_alloc_inv:
  assumes "alloc_inv (cx_state ctx)"
  shows "alloc_inv (cx_state (finish_job ev j st cl ctx))"
proof -
  let ?s1 = "fst (finalize_job ev j st (cx_state ctx))"
  have 1: "alloc_inv ?s1" by (rule finalize_alloc_inv [OF assms])
  have "alloc_inv (?s1\<lparr>gs_jobs := hm_remove j (gs_jobs ?s1)\<rparr>)"
    by (rule alloc_inv_shrink_jobs [OF 1]) (use 1 in \<open>auto simp: alloc_inv_def split: if_splits\<close>)
  then show ?thesis
    by (rule alloc_inv_mono)
      (simp_all add: finish_job_def Let_def split_def record_usage_def delete_unreferenced_def notify_one_def)
qed

lemma take_profile_alloc_inv: "alloc_inv s \<Longrightarrow> alloc_inv (take_profile sv j s)"
proof -
  assume a: "alloc_inv s"
  let ?s1 = "s\<lparr>gs_job_output_buffers := hm_remove j (gs_job_output_buffers s)\<rparr>"
  have "alloc_inv ?s1" using a by (simp add: alloc_inv_def)
  then have "alloc_inv (?s1\<lparr>gs_jobs := hm_modify j (\<lambda>x. x\<lparr>ji_mpi_stats := m\<rparr>) (gs_jobs ?s1)\<rparr>)" for m
    by (rule alloc_inv_modify_job) (simp add: same_allocation_def)
  with a \<open>alloc_inv ?s1\<close> show ?thesis by (simp add: take_profile_def Let_def split: option.split)
qed

lemma store_log_ids_allocation: "same_allocation (store_log_ids a b c job) job"
  by (simp add: same_allocation_def store_log_ids_def Let_def split: option.split)

lemma job_done_alloc_inv:
  assumes "alloc_inv (cx_state ctx)"
  shows "alloc_inv (cx_state (job_done ev sv wid j code ctx))"
proof -
  have fin: "alloc_inv (cx_state (job_done_finish ev sv j code ids lf c))" if "alloc_inv (cx_state c)" for ids lf c
    unfolding job_done_finish_def Let_def
    by (rule finish_job_alloc_inv)
      (simp add: alloc_inv_modify_job [OF take_profile_alloc_inv [OF that]] store_log_ids_allocation)
  have "alloc_inv (cx_state (fst (job_done_mark wid j ctx)))"
    using assms by (simp add: job_done_mark_def Let_def split_def alloc_inv_def)
  then show ?thesis using fin by (simp add: job_done_def Let_def split_def split: option.split)
qed

lemma job_error_alloc_inv:
  assumes "alloc_inv (cx_state ctx)"
  shows "alloc_inv (cx_state (job_error ev j err ctx))"
proof -
  have m: "alloc_inv (cx_state ctx\<lparr>gs_jobs := hm_modify j (\<lambda>x. x\<lparr>ji_worker_log_files := l\<rparr>) (gs_jobs (cx_state ctx))\<rparr>)" for l
    by (rule alloc_inv_modify_job [OF assms]) (simp add: same_allocation_def)
  show ?thesis unfolding job_error_def Let_def
    by (rule finish_job_alloc_inv) (simp add: m assms split: option.split)
qed

lemma job_killed_alloc_inv: "alloc_inv (cx_state ctx) \<Longrightarrow> alloc_inv (cx_state (job_killed ev j ctx))"
  unfolding job_killed_def by (rule finish_job_alloc_inv) simp

definition sample_services :: services where
  "sample_services = \<lparr>sv_download = (\<lambda>_. None), sv_upload = (\<lambda>_. None), sv_captures = (\<lambda>_. []), sv_parse_f64 = (\<lambda>_. None)\<rparr>"

section \<open>A multi-node job ends with its last worker\<close>

abbreviation job_tracking :: "controller_ctx \<Rightarrow> multinode_job_tracking" where
  "job_tracking ctx \<equiv> gs_multinode_job_tracking (cx_state ctx)"

definition done_set :: "u64 \<Rightarrow> controller_ctx \<Rightarrow> string list" where
  "done_set j ctx = (case hm_get (mt_done_workers (job_tracking ctx)) j of None \<Rightarrow> [] | Some d \<Rightarrow> d)"

text \<open>\<open>ctx\<close> differs from \<open>ctx0\<close> only in that the workers \<open>D\<close> have reported the end of job \<open>j\<close>.\<close>

definition collecting :: "u64 \<Rightarrow> string list \<Rightarrow> string set \<Rightarrow> controller_ctx \<Rightarrow> controller_ctx \<Rightarrow> bool" where
  "collecting j ws D ctx0 ctx = (
     gs_jobs (cx_state ctx) = gs_jobs (cx_state ctx0) \<and> gs_workers (cx_state ctx) = gs_workers (cx_state ctx0) \<and>
     cx_accounting ctx = cx_accounting ctx0 \<and> cx_completed_jobs ctx = cx_completed_jobs ctx0 \<and>
     hm_get (mt_dispatched_workers (job_tracking ctx)) j = Some ws \<and>
     distinct (done_set j ctx) \<and> set (done_set j ctx) = D)"

lemma length_hs_insert: "length (hs_insert x xs) = (if x \<in> set xs then length xs else Suc (length xs))"
  by (simp add: hs_insert_def)

lemma job_done_mark_collecting:
  assumes "collecting j ws D ctx0 ctx"
  shows "collecting j ws (insert w D) ctx0 (fst (job_done_mark w j ctx))"
    and "hm_get (gs_jobs (cx_state ctx0)) j = Some job \<Longrightarrow> ji_status job = Running \<Longrightarrow>
      snd (job_done_mark w j ctx) = (length ws \<le> card (insert w D))"
proof -
  have D: "distinct (done_set j ctx)" "set (done_set j ctx) = D" using assms by (simp_all add: collecting_def)
  have l: "length (hs_insert w (done_set j ctx)) = card (insert w D)"
    using D distinct_card [OF distinct_hs_insert [OF D(1)], of w] by simp
  show "collecting j ws (insert w D) ctx0 (fst (job_done_mark w j ctx))"
    using assms D by (auto simp: collecting_def job_done_mark_def Let_def split_def mark_worker_done_def done_set_def
        split: option.splits)
  show "snd (job_done_mark w j ctx) = (length ws \<le> card (insert w D))"
    if "hm_get (gs_jobs (cx_state ctx0)) j = Some job" "ji_status job = Running"
    using assms that l by (auto simp: collecting_def job_done_mark_def Let_def split_def mark_worker_done_def done_set_def
        expected_done_workers_def split: option.splits)
qed

lemma job_done_collecting:
  assumes "collecting j ws D ctx0 ctx" "hm_get (gs_jobs (cx_state ctx0)) j = Some job" "ji_status job = Running"
    and "card (insert w D) < length ws"
  shows "collecting j ws (insert w D) ctx0 (job_done ev sv w j code ctx)"
  using job_done_mark_collecting [OF assms(1), where w = w] assms by (simp add: job_done_def Let_def split_def)

lemma job_done_fold_collecting:
  assumes "hm_get (gs_jobs (cx_state ctx0)) j = Some job" "ji_status job = Running"
    and "collecting j ws D ctx0 ctx" "card (D \<union> fst ` set rs) < length ws"
  shows "collecting j ws (D \<union> fst ` set rs) ctx0 (fold (\<lambda>(w, code). job_done ev sv w j code) rs ctx)"
  using assms(3,4)
proof (induction rs arbitrary: D ctx)
  case (Cons r rs)
  obtain w code where r: "r = (w, code)" by fastforce
  have fin: "finite (D \<union> fst ` set (r # rs))"
    using Cons.prems(1) by (auto simp: collecting_def)
  have "card (insert w D) \<le> card (D \<union> fst ` set (r # rs))"
    using fin by (intro card_mono) (auto simp: r)
  then have "collecting j ws (insert w D) ctx0 (job_done ev sv w j code ctx)"
    using Cons.prems by (intro job_done_collecting [OF Cons.prems(1) assms(1,2)]) simp
  from Cons.IH [OF this] Cons.prems(2) show ?case by (simp add: r)
qed simp

lemma finish_job_result:
  assumes inv: "alloc_inv (cx_state ctx)" and job: "hm_get (gs_jobs (cx_state ctx)) j = Some job"
  shows "hm_get (gs_jobs (cx_state (finish_job ev j st cl ctx))) k =
      (if k = j then None else hm_get (gs_jobs (cx_state ctx)) k)"
    and "cx_accounting (finish_job ev j st cl ctx) = cx_accounting ctx @ [job_to_usage (finalized ev st job)]"
    and "cx_completed_jobs (finish_job ev j st cl ctx) =
      cx_completed_jobs ctx + (case st of Completed _ \<Rightarrow> 1 | _ \<Rightarrow> 0)"
    and "unlisted j (cx_state (finish_job ev j st cl ctx))"
    and "cl \<Longrightarrow> job_tracking (finish_job ev j st cl ctx) = cleanup_job_tracking j (job_tracking ctx)"
proof -
  let ?s = "cx_state ctx"
  have acc: "gs_jobs (accrue_job_usage ev j ?s) = gs_jobs ?s" "gs_workers (accrue_job_usage ev j ?s) = gs_workers ?s"
    "gs_multinode_job_tracking (accrue_job_usage ev j ?s) = gs_multinode_job_tracking ?s"
    by (simp_all add: accrue_job_usage_def split: option.split)
  have rel: "gs_jobs (release_job_resources_internal j s) = gs_jobs s"
    "gs_multinode_job_tracking (release_job_resources_internal j s) = gs_multinode_job_tracking s" for s
    by (simp_all add: release_job_resources_internal_def split: option.split)
  have sync: "cx_accounting (sync_active_state_to_dashmaps c) = cx_accounting c"
    "cx_completed_jobs (sync_active_state_to_dashmaps c) = cx_completed_jobs c" for c
    by (simp_all add: sync_active_state_to_dashmaps_def Let_def split_def)
  note defs = finish_job_def finalize_job_def Let_def record_usage_def delete_unreferenced_def notify_one_def acc rel sync
  show "hm_get (gs_jobs (cx_state (finish_job ev j st cl ctx))) k =
      (if k = j then None else hm_get (gs_jobs ?s) k)"
    "cx_accounting (finish_job ev j st cl ctx) = cx_accounting ctx @ [job_to_usage (finalized ev st job)]"
    "cx_completed_jobs (finish_job ev j st cl ctx) = cx_completed_jobs ctx + (case st of Completed _ \<Rightarrow> 1 | _ \<Rightarrow> 0)"
    "cl \<Longrightarrow> job_tracking (finish_job ev j st cl ctx) = cleanup_job_tracking j (job_tracking ctx)"
    using job by (simp_all add: defs)
  have "alloc_inv (accrue_job_usage ev j ?s)" using inv acc by (simp add: alloc_inv_def)
  then have "unlisted j (release_job_resources_internal j (accrue_job_usage ev j ?s))"
    using job acc by (intro release_unlisted) auto
  then show "unlisted j (cx_state (finish_job ev j st cl ctx))"
    by (simp add: unlisted_def defs)
qed

lemma take_profile_fields:
  "gs_workers (take_profile sv j s) = gs_workers s"
  "gs_multinode_job_tracking (take_profile sv j s) = gs_multinode_job_tracking s"
  "\<exists>m. hm_get (gs_jobs (take_profile sv j s)) j = map_option (\<lambda>x. x\<lparr>ji_mpi_stats := m x\<rparr>) (hm_get (gs_jobs s) j)"
  "k \<noteq> j \<Longrightarrow> hm_get (gs_jobs (take_profile sv j s)) k = hm_get (gs_jobs s) k"
proof -
  have id: "map_option (\<lambda>x. x\<lparr>ji_mpi_stats := ji_mpi_stats x\<rparr>) jo = jo" for jo :: "job_info option"
    by (cases jo) simp_all
  show "gs_workers (take_profile sv j s) = gs_workers s"
    "gs_multinode_job_tracking (take_profile sv j s) = gs_multinode_job_tracking s"
    "k \<noteq> j \<Longrightarrow> hm_get (gs_jobs (take_profile sv j s)) k = hm_get (gs_jobs s) k"
    by (simp_all add: take_profile_def Let_def split: option.split)
  show "\<exists>m. hm_get (gs_jobs (take_profile sv j s)) j = map_option (\<lambda>x. x\<lparr>ji_mpi_stats := m x\<rparr>) (hm_get (gs_jobs s) j)"
  proof (cases "hm_get (gs_job_output_buffers s) j")
    case (Some b)
    then show ?thesis
    proof (cases "mpi_profile sv b")
      case None
      then show ?thesis using Some id [of "hm_get (gs_jobs s) j"]
        by (intro exI [of _ ji_mpi_stats]) (simp add: take_profile_def Let_def)
    next
      case (Some m)
      then show ?thesis using \<open>hm_get (gs_job_output_buffers s) j = Some b\<close>
        by (intro exI [of _ "\<lambda>_. Some m"]) (simp add: take_profile_def Let_def)
    qed
  next
    case None
    then show ?thesis using id [of "hm_get (gs_jobs s) j"]
      by (intro exI [of _ ji_mpi_stats]) (simp add: take_profile_def)
  qed
qed

lemma job_done_finish_result:
  assumes inv: "alloc_inv (cx_state ctx)" and job: "hm_get (gs_jobs (cx_state ctx)) j = Some job"
  shows "hm_get (gs_jobs (cx_state (job_done_finish ev sv j code ids lf ctx))) k =
      (if k = j then None else hm_get (gs_jobs (cx_state ctx)) k)"
    and "\<exists>u. cx_accounting (job_done_finish ev sv j code ids lf ctx) = cx_accounting ctx @ [u] \<and>
      ju_job_id u = ji_id job \<and> ju_status u = Completed code \<and> ju_exit_code u = Some code \<and>
      ju_end_time u = Some (ev_now ev)"
    and "cx_completed_jobs (job_done_finish ev sv j code ids lf ctx) = cx_completed_jobs ctx + 1"
    and "unlisted j (cx_state (job_done_finish ev sv j code ids lf ctx))"
    and "job_tracking (job_done_finish ev sv j code ids lf ctx) = cleanup_job_tracking j (job_tracking ctx)"
proof -
  define s1 where "s1 = take_profile sv j (cx_state ctx)"
  obtain m where m: "hm_get (gs_jobs s1) j = Some (job\<lparr>ji_mpi_stats := m\<rparr>)"
    using take_profile_fields(3) [of sv j "cx_state ctx"] job by (auto simp: s1_def)
  define fresh where "fresh = (case hm_get (mt_worker_log_files (gs_multinode_job_tracking s1)) j of
      Some m \<Rightarrow> (if m \<noteq> [] then Some m else if lf = [] then None else Some lf)
    | None \<Rightarrow> if lf = [] then None else Some lf)"
  define c1 where "c1 = ctx\<lparr>cx_state := s1\<lparr>gs_jobs := hm_modify j (store_log_ids (fst ids) (snd ids) fresh) (gs_jobs s1)\<rparr>\<rparr>"
  have eq: "job_done_finish ev sv j code ids lf ctx = finish_job ev j (Completed code) True c1"
    by (simp add: job_done_finish_def Let_def c1_def fresh_def s1_def)
  have inv1: "alloc_inv (cx_state c1)"
    by (simp add: c1_def s1_def alloc_inv_modify_job [OF take_profile_alloc_inv [OF inv]] store_log_ids_allocation)
  define job1 where "job1 = store_log_ids (fst ids) (snd ids) fresh (job\<lparr>ji_mpi_stats := m\<rparr>)"
  have job1: "hm_get (gs_jobs (cx_state c1)) j = Some job1" using m by (simp add: c1_def job1_def)
  have "ji_id job1 = ji_id job" by (simp add: job1_def store_log_ids_def Let_def split: option.split)
  note r = finish_job_result [OF inv1 job1, where ev = ev and st = "Completed code" and cl = True, folded eq]
  show "hm_get (gs_jobs (cx_state (job_done_finish ev sv j code ids lf ctx))) k =
      (if k = j then None else hm_get (gs_jobs (cx_state ctx)) k)"
    using r(1) [of k] take_profile_fields(4) [of k j sv "cx_state ctx"] by (simp add: c1_def s1_def)
  show "\<exists>u. cx_accounting (job_done_finish ev sv j code ids lf ctx) = cx_accounting ctx @ [u] \<and>
      ju_job_id u = ji_id job \<and> ju_status u = Completed code \<and> ju_exit_code u = Some code \<and>
      ju_end_time u = Some (ev_now ev)"
    using r(2) \<open>ji_id job1 = ji_id job\<close> by (simp add: c1_def job_to_usage_def finalized_def)
  show "cx_completed_jobs (job_done_finish ev sv j code ids lf ctx) = cx_completed_jobs ctx + 1"
    "unlisted j (cx_state (job_done_finish ev sv j code ids lf ctx))"
    "job_tracking (job_done_finish ev sv j code ids lf ctx) = cleanup_job_tracking j (job_tracking ctx)"
    using r(3-5) by (simp_all add: c1_def s1_def take_profile_fields)
qed

text \<open>What the report of the last worker leaves behind.\<close>

definition job_completed :: "env \<Rightarrow> u64 \<Rightarrow> i32 \<Rightarrow> controller_ctx \<Rightarrow> controller_ctx \<Rightarrow> bool" where
  "job_completed ev j code ctx0 ctx = (
     (\<forall>k. hm_get (gs_jobs (cx_state ctx)) k = (if k = j then None else hm_get (gs_jobs (cx_state ctx0)) k)) \<and>
     unlisted j (cx_state ctx) \<and>
     (\<exists>u. cx_accounting ctx = cx_accounting ctx0 @ [u] \<and> ju_job_id u = j \<and> ju_status u = Completed code \<and>
        ju_exit_code u = Some code \<and> ju_end_time u = Some (ev_now ev)) \<and>
     cx_completed_jobs ctx = cx_completed_jobs ctx0 + 1 \<and>
     hm_get (mt_dispatched_workers (job_tracking ctx)) j = None \<and> done_set j ctx = [])"

lemma job_done_last:
  assumes col: "collecting j ws D ctx0 ctx" and inv: "alloc_inv (cx_state ctx0)"
    and job: "hm_get (gs_jobs (cx_state ctx0)) j = Some job" "ji_status job = Running" "ji_id job = j"
    and last: "length ws \<le> card (insert w D)"
  shows "job_completed ev j code ctx0 (job_done ev sv w j code ctx)"
proof -
  define c1 where "c1 = fst (job_done_mark w j ctx)"
  have col1: "collecting j ws (insert w D) ctx0 c1"
    using job_done_mark_collecting(1) [OF col] by (simp add: c1_def)
  have go: "snd (job_done_mark w j ctx)"
    using job_done_mark_collecting(2) [OF col job(1,2)] last by simp
  have inv1: "alloc_inv (cx_state c1)" using inv col1 by (simp add: alloc_inv_def collecting_def)
  have job1: "hm_get (gs_jobs (cx_state c1)) j = Some job" using job col1 by (simp add: collecting_def)
  obtain ids lf where eq: "job_done ev sv w j code ctx = job_done_finish ev sv j code ids lf c1"
    using go job1 by (simp add: job_done_def Let_def split_def c1_def)
  show ?thesis
    using job_done_finish_result [OF inv1 job1, of ev sv code ids lf] col1 job(3)
    by (simp add: job_completed_def eq collecting_def cleanup_job_tracking_def done_set_def)
qed

text \<open>
  C4: A multi-node job ends exactly when the last of the workers it was dispatched to reports its end,
  in whatever order the reports arrive: until then the job table and the accounting are untouched, and
  the last report removes the job, frees it on every worker, appends one accounting record with the
  exit code of that last report, counts one completed job and drops the tracking data.
\<close>

theorem job_done_all_workers:
  assumes "alloc_inv (cx_state ctx)" "hm_get (gs_jobs (cx_state ctx)) j = Some job"
    and "ji_status job = Running" "ji_id job = j"
    and "hm_get (mt_dispatched_workers (job_tracking ctx)) j = Some ws" "distinct ws"
    and "hm_get (mt_done_workers (job_tracking ctx)) j = None"
    and "distinct (map fst rs)" "set (map fst rs) = set ws" "rs \<noteq> []"
  shows "(\<forall>k < length rs. let c = fold (\<lambda>(w, code). job_done ev sv w j code) (take k rs) ctx in
            gs_jobs (cx_state c) = gs_jobs (cx_state ctx) \<and> cx_accounting c = cx_accounting ctx) \<and>
         job_completed ev j (snd (last rs)) ctx (fold (\<lambda>(w, code). job_done ev sv w j code) rs ctx)"
proof -
  let ?f = "fold (\<lambda>(w, code). job_done ev sv w j code)"
  have start: "collecting j ws {} ctx ctx" using assms by (simp add: collecting_def done_set_def)
  have len: "length rs = length ws"
    using assms(6,8,9) by (metis distinct_card length_map)
  have part: "collecting j ws (fst ` set (take k rs)) ctx (?f (take k rs) ctx)" if "k < length rs" for k
  proof -
    have "card (fst ` set (take k rs)) \<le> length (take k rs)"
      by (metis card_image_le card_length finite_set le_trans)
    then show ?thesis
      using that len job_done_fold_collecting [OF assms(2,3) start, of "take k rs" ev sv] by simp
  qed
  have split: "rs = butlast rs @ [last rs]" using assms(10) by simp
  obtain w code where l: "last rs = (w, code)" by fastforce
  have all: "insert w (fst ` set (butlast rs)) = set ws"
    using arg_cong [OF split, of "\<lambda>x. fst ` set x"] assms(9) l by simp
  have "collecting j ws (fst ` set (butlast rs)) ctx (?f (butlast rs) ctx)"
    using part [of "length rs - 1"] assms(10) by (simp add: butlast_conv_take)
  from job_done_last [OF this assms(1-4), of w ev code sv] all distinct_card [OF assms(6)]
  have "job_completed ev j code ctx (job_done ev sv w j code (?f (butlast rs) ctx))" by simp
  then have "job_completed ev j (snd (last rs)) ctx (?f rs ctx)"
    by (subst split, subst fold_append) (simp add: l)
  then show ?thesis using part by (auto simp: collecting_def Let_def)
qed

theorem job_done_all_workers_witness:
  "job_completed sample_env 1 3 (sample_ctx two_node_state)
     (job_done sample_env sample_services ''w1'' 1 3
       (job_done sample_env sample_services ''w2'' 1 0 (sample_ctx two_node_state)))"
proof -
  have "job_completed sample_env 1 (snd (last [(''w2'', 0), (''w1'', 3)])) (sample_ctx two_node_state)
     (fold (\<lambda>(w, code). job_done sample_env sample_services w 1 code) [(''w2'', 0), (''w1'', 3)] (sample_ctx two_node_state))"
    by (rule job_done_all_workers [where job = running_job and ws = "[''w1'', ''w2'']", THEN conjunct2])
      (use two_node_state_ok in \<open>auto simp: sample_ctx_def two_node_state_def sample_state_def sample_tracking_def
         running_job_def sample_job_def\<close>)
  then show ?thesis by simp
qed

end
