(* ===== verification/Strings.thy ===== *)
theory Strings
  imports Prelude
begin

text \<open>
  Further operations of Rust's \<open>str\<close> that the worker and the Slurm front end use: lines, words, the
  \<open>trim_*_matches\<close> family and replacement of a substring.
\<close>

fun split_by :: "(char \<Rightarrow> bool) \<Rightarrow> string \<Rightarrow> string list" where
  "split_by p [] = [[]]"
| "split_by p (x # xs) =
     (if p x then [] # split_by p xs
      else case split_by p xs of [] \<Rightarrow> [[x]] | q # qs \<Rightarrow> (x # q) # qs)"

definition split_whitespace :: "string \<Rightarrow> string list" where
  "split_whitespace s = filter (\<lambda>p. p \<noteq> []) (split_by is_space s)"

text \<open>\<open>lines\<close>: a line ends at LF or CR LF; the text after the last LF counts unless it is empty.\<close>

definition strip_cr :: "string \<Rightarrow> string" where
  "strip_cr l = (if l \<noteq> [] \<and> last l = CHR 0x0D then butlast l else l)"

definition str_lines :: "string \<Rightarrow> string list" where
  "str_lines s = (let ps = split_on CHR 0x0A s
     in map strip_cr (butlast ps) @ (if last ps = [] then [] else [last ps]))"

lemma starts_with_shorter: "p \<noteq> [] \<Longrightarrow> starts_with s p \<Longrightarrow> length s - length p < length s"
  by (cases s; cases p) (auto simp: starts_with_def)

text \<open>\<open>trim_start_matches\<close> removes a prefix that is not empty as often as it occurs.\<close>

function trim_start_matches :: "string \<Rightarrow> string \<Rightarrow> string" where
  "trim_start_matches p s = (if p \<noteq> [] \<and> starts_with s p then trim_start_matches p (drop (length p) s) else s)"
  by auto
termination
  by (relation "measure (\<lambda>(p, s). length s)") (simp_all add: starts_with_shorter)

declare trim_start_matches.simps [simp del]

definition trim_end_matches :: "char \<Rightarrow> string \<Rightarrow> string" where
  "trim_end_matches c s = rev (dropWhile (\<lambda>x. x = c) (rev s))"

text \<open>\<open>replace\<close> for a pattern that is not empty.\<close>

function replace_str :: "string \<Rightarrow> string \<Rightarrow> string \<Rightarrow> string" where
  "replace_str p r s =
     (if p = [] then s
      else case s of [] \<Rightarrow> []
        | c # t \<Rightarrow> if starts_with s p then r @ replace_str p r (drop (length p) s) else c # replace_str p r t)"
  by auto
termination
  by (relation "measure (\<lambda>(p, r, s). length s)") auto

declare replace_str.simps [simp del]

lemma split_by_nonempty [simp]: "split_by p s \<noteq> []"
  by (induction s) (auto split: list.splits)

lemma split_whitespace_words: "w \<in> set (split_whitespace s) \<Longrightarrow> w \<noteq> [] \<and> (\<forall>c\<in>set w. \<not> is_space c)"
proof -
  have "q \<in> set (split_by is_space s) \<Longrightarrow> \<forall>c\<in>set q. \<not> is_space c" for q
  proof (induction s arbitrary: q)
    case (Cons x xs)
    then obtain a ps where ps: "split_by is_space xs = a # ps" by (cases "split_by is_space xs") auto
    with Cons.IH [of a] have "\<forall>c\<in>set a. \<not> is_space c" by simp
    with Cons ps show ?case by (auto split: if_splits)
  qed simp
  then show "w \<in> set (split_whitespace s) \<Longrightarrow> ?thesis" by (auto simp: split_whitespace_def)
qed

lemma trim_start_matches_prefix: "p \<noteq> [] \<Longrightarrow> trim_start_matches p (p @ s) = trim_start_matches p s"
  by (subst trim_start_matches.simps) (simp add: starts_with_def)

lemma trim_start_matches_id: "\<not> starts_with s p \<Longrightarrow> trim_start_matches p s = s"
  by (subst trim_start_matches.simps) simp

lemma trim_end_matches_snoc: "trim_end_matches c (s @ [c]) = trim_end_matches c s"
  by (simp add: trim_end_matches_def)

lemma trim_end_matches_id: "s = [] \<or> last s \<noteq> c \<Longrightarrow> trim_end_matches c s = s"
  by (cases s rule: rev_cases) (auto simp: trim_end_matches_def)

lemma split_on_join:
  "xs \<noteq> [] \<Longrightarrow> \<forall>x\<in>set xs. c \<notin> set x \<Longrightarrow> split_on c (join [c] xs) = xs"
proof (induction xs)
  case (Cons x xs)
  then show ?case by (cases xs) (auto simp: split_on_no_sep split_on_append)
qed simp

lemma show_no_char: "\<not> is_ascii_digit c \<Longrightarrow> c \<notin> set (show_u64 n)"
  unfolding show_u64_def by (rule digit_not_in_show)

lemma show_no_sep [simp]: "CHR ''-'' \<notin> set (show_u64 n)" "CHR '':'' \<notin> set (show_u64 n)"
  by (simp_all add: show_no_char is_ascii_digit_def)

lemma show_u64_nonempty [simp]: "show_u64 n \<noteq> []"
  by (simp add: show_u64_def)

lemma split_once_none: "c \<notin> set s \<Longrightarrow> split_once c s = None"
  by (simp add: split_once_def)

lemma split_once_append: "c \<notin> set a \<Longrightarrow> split_once c (a @ c # b) = Some (a, b)"
  by (induction a) (auto simp: split_once_def split: if_splits)

end
