(* ===== verification/Persistence.thy ===== *)
theory Persistence
  imports WorkerSafety Strings
begin

text \<open>
  Job secrets at rest (\<open>controller/src/job_secrets.rs\<close>), the state file and the state sent to peers
  (\<open>save_state\<close> in \<open>controller/src/persistence.rs\<close>), and loading the state at startup with the
  reconstitution of worker handles (\<open>controller/src/main.rs\<close>).

  AES-GCM and base64 are outside the repository: \<open>aead\<close> is the pair of functions from a nonce and a
  plaintext to the base64 text of nonce and ciphertext, and back. What the code relies on is \<open>aead_ok\<close>:
  opening what was sealed gives the plaintext, and base64 text has no colon. Error texts that are only
  logged are dropped; a failing operation is \<open>None\<close>.
\<close>

section \<open>Job secrets\<close>

record aead =
  ae_seal :: "nat \<Rightarrow> string \<Rightarrow> string option"
  ae_open :: "string \<Rightarrow> string option"

definition aead_ok :: "aead \<Rightarrow> bool" where
  "aead_ok a = (\<forall>n p b. ae_seal a n p = Some b \<longrightarrow> ae_open a b = Some p \<and> CHR '':'' \<notin> set b)"

type_synonym job_secrets_cipher = "aead option"

definition SECRET_PREFIX :: string where
  "SECRET_PREFIX = ''v1:''"

definition is_encrypted :: "string \<Rightarrow> bool" where
  "is_encrypted stored = starts_with stored SECRET_PREFIX"

definition encrypt :: "job_secrets_cipher \<Rightarrow> nat \<Rightarrow> string \<Rightarrow> string option" where
  "encrypt jc nonce plaintext =
     (if plaintext = [] then Some []
      else (case jc of
              None \<Rightarrow> None
            | Some a \<Rightarrow> map_option (\<lambda>blob. SECRET_PREFIX @ blob) (ae_seal a nonce plaintext)))"

definition decrypt :: "job_secrets_cipher \<Rightarrow> string \<Rightarrow> string option" where
  "decrypt jc stored =
     (if stored = [] then Some []
      else if \<not> is_encrypted stored then Some stored
      else (case jc of None \<Rightarrow> None | Some a \<Rightarrow> ae_open a (trim_start_matches SECRET_PREFIX stored)))"

record secret_at_rest =
  sr_secret_column :: string
  sr_secret_enc :: "string option"

definition encode_for_storage :: "job_secrets_cipher \<Rightarrow> nat \<Rightarrow> string \<Rightarrow> secret_at_rest" where
  "encode_for_storage jc nonce plaintext =
     (if plaintext = [] then \<lparr>sr_secret_column = [], sr_secret_enc = None\<rparr>
      else if jc = None then \<lparr>sr_secret_column = plaintext, sr_secret_enc = None\<rparr>
      else (case encrypt jc nonce plaintext of
              Some enc \<Rightarrow> \<lparr>sr_secret_column = [], sr_secret_enc = Some enc\<rparr>
            | None \<Rightarrow> \<lparr>sr_secret_column = plaintext, sr_secret_enc = None\<rparr>))"

definition decode_at_rest :: "job_secrets_cipher \<Rightarrow> string option \<Rightarrow> string \<Rightarrow> string" where
  "decode_at_rest jc secret_enc secret_legacy =
     (let legacy = (if is_encrypted secret_legacy
                    then (case decrypt jc secret_legacy of Some s \<Rightarrow> s | None \<Rightarrow> [])
                    else secret_legacy)
      in case secret_enc of
           None \<Rightarrow> legacy
         | Some enc \<Rightarrow> (if enc = [] then legacy
                        else (case decrypt jc enc of Some s \<Rightarrow> s | None \<Rightarrow> legacy)))"

definition sealed :: "job_secrets_cipher \<Rightarrow> nat \<Rightarrow> string \<Rightarrow> string" where
  "sealed jc nonce secret =
     (if secret = [] \<or> is_encrypted secret then secret
      else (case encrypt jc nonce secret of Some enc \<Rightarrow> enc | None \<Rightarrow> secret))"

definition opened :: "job_secrets_cipher \<Rightarrow> string \<Rightarrow> string" where
  "opened jc secret =
     (if secret = [] then secret
      else if is_encrypted secret then (case decrypt jc secret of Some plain \<Rightarrow> plain | None \<Rightarrow> secret)
      else secret)"

definition seal_usage_secret :: "job_secrets_cipher \<Rightarrow> nat \<Rightarrow> job_usage \<Rightarrow> job_usage" where
  "seal_usage_secret jc nonce usage = usage\<lparr>ju_secret := sealed jc nonce (ju_secret usage)\<rparr>"

definition open_usage_secret :: "job_secrets_cipher \<Rightarrow> job_usage \<Rightarrow> job_usage" where
  "open_usage_secret jc usage = usage\<lparr>ju_secret := opened jc (ju_secret usage)\<rparr>"

definition seal_job_secret :: "job_secrets_cipher \<Rightarrow> nat \<Rightarrow> job_info \<Rightarrow> job_info" where
  "seal_job_secret jc nonce job = job\<lparr>ji_secret := sealed jc nonce (ji_secret job)\<rparr>"

definition open_job_secret :: "job_secrets_cipher \<Rightarrow> job_info \<Rightarrow> job_info" where
  "open_job_secret jc job = job\<lparr>ji_secret := opened jc (ji_secret job)\<rparr>"

text \<open>\<open>nonces\<close> gives the nonce drawn for each job.\<close>

definition prepare_persisted_state_for_disk ::
    "job_secrets_cipher \<Rightarrow> (u64 \<Rightarrow> nat) \<Rightarrow> persisted_state \<Rightarrow> persisted_state" where
  "prepare_persisted_state_for_disk jc nonces p =
     p\<lparr>pe_jobs := map (\<lambda>(i, job). (i, seal_job_secret jc (nonces i) job)) (pe_jobs p)\<rparr>"

definition restore_persisted_state :: "job_secrets_cipher \<Rightarrow> persisted_state \<Rightarrow> persisted_state" where
  "restore_persisted_state jc p = p\<lparr>pe_jobs := map (\<lambda>(i, job). (i, open_job_secret jc job)) (pe_jobs p)\<rparr>"

definition redact_job_usages :: "job_usage list \<Rightarrow> job_usage list" where
  "redact_job_usages usages = map (\<lambda>u. u\<lparr>ju_secret := []\<rparr>) usages"

section \<open>Saving the state\<close>

definition try_send :: "chan \<Rightarrow> envelope \<Rightarrow> global_state \<Rightarrow> global_state" where
  "try_send tx e s = (if tx \<in> set (gs_closed s) then s else post tx e s)"

definition persisted_of :: "global_state \<Rightarrow> persisted_state" where
  "persisted_of s = \<lparr>pe_jobs = gs_jobs s, pe_queue = gs_queue s, pe_next_job_id = gs_next_job_id s,
     pe_usage_tracker = gs_usage_tracker s, pe_steps = gs_steps s, pe_next_step_id = gs_next_step_id s,
     pe_reservations = gs_reservations s\<rparr>"

definition send_state_sync :: "persisted_state \<Rightarrow> global_state \<Rightarrow> global_state" where
  "send_state_sync p s = fold (\<lambda>tx. try_send tx (StateSync p)) (hm_values (gs_peers s)) s"

text \<open>\<open>io_ok\<close>: creating, writing, syncing and renaming the temporary file all succeed.\<close>

definition save_state :: "job_secrets_cipher \<Rightarrow> (u64 \<Rightarrow> nat) \<Rightarrow> bool \<Rightarrow> global_state \<Rightarrow> global_state" where
  "save_state jc nonces io_ok s =
     (if gs_role s \<noteq> Leader then s
      else (let persisted = persisted_of s;
                s1 = send_state_sync persisted s
            in if io_ok then s1\<lparr>gs_disk := Some (prepare_persisted_state_for_disk jc nonces persisted)\<rparr> else s1))"

section \<open>Loading the state\<close>

definition unknown_resources :: resources where
  "unknown_resources = \<lparr>
     rs_cpu_cores = 0, rs_total_memory = 0, rs_free_memory = 0, rs_cpu_usage = 0,
     rs_cpu_model = ''unknown'', rs_arch = ''unknown'', rs_os_name = ''unknown'', rs_os_version = ''unknown'',
     rs_kernel_version = ''unknown'', rs_host_name = ''unknown'', rs_load_avg = [0, 0, 0], rs_disk_total = 0,
     rs_disk_free = 0, rs_uptime = 0, rs_boot_time = 0, rs_process_count = 0, rs_swap_total = 0,
     rs_swap_free = 0, rs_version = ''unknown'', rs_gres = [], rs_cgroup_enabled = False\<rparr>"

definition disconnected_handle :: "chan \<Rightarrow> u64 \<Rightarrow> worker_handle" where
  "disconnected_handle dummy now = \<lparr>
     wh_addr = V4 ''0.0.0.0'' 0, wh_hostname = ''unknown'', wh_resources = unknown_resources,
     wh_routing = Direct dummy, wh_assigned_jobs = [], wh_allocated_memory = 0, wh_connection_id = 0,
     wh_available_core_ids = [], wh_job_core_assignments = [], wh_available_gres_ids = [],
     wh_job_gres_assignments = [], wh_connected = False, wh_last_seen = now, wh_cgroup_enabled = False,
     wh_draining = False, wh_current_pulse_interval = 2, wh_features = 0\<rparr>"

definition adopt_job :: "u64 \<Rightarrow> job_info \<Rightarrow> worker_handle \<Rightarrow> worker_handle" where
  "adopt_job i job w = w\<lparr>wh_assigned_jobs := hs_insert i (wh_assigned_jobs w),
     wh_allocated_memory := sat_add (wh_allocated_memory w) (ji_req_memory job)\<rparr>"

text \<open>The dummy channel of a reconstituted handle has lost its receiver.\<close>

definition reconstitute_workers :: "chan \<Rightarrow> u64 \<Rightarrow> (u64, job_info) hmap \<Rightarrow> (string, worker_handle) hmap" where
  "reconstitute_workers dummy now jobs =
     fold (\<lambda>(i, job) ws.
       if ji_status job = Running
       then fold (\<lambda>worker_name. hm_entry worker_name (disconnected_handle dummy now) (adopt_job i job))
              (ji_assigned_workers job) ws
       else ws) jobs []"

definition load_state :: "job_secrets_cipher \<Rightarrow> chan \<Rightarrow> u64 \<Rightarrow> persisted_state option \<Rightarrow> global_state \<Rightarrow> global_state" where
  "load_state jc dummy now disk initial =
     (case disk of
        None \<Rightarrow> initial
      | Some d \<Rightarrow>
          (let loaded = restore_persisted_state jc d
           in initial\<lparr>gs_jobs := pe_jobs loaded, gs_queue := pe_queue loaded,
                gs_next_job_id := pe_next_job_id loaded, gs_usage_tracker := pe_usage_tracker loaded,
                gs_steps := pe_steps loaded, gs_next_step_id := pe_next_step_id loaded,
                gs_reservations := pe_reservations loaded,
                gs_workers := reconstitute_workers dummy now (pe_jobs loaded),
                gs_closed := dummy # gs_closed initial\<rparr>))"

definition sync_next_job_id :: "job_usage list \<Rightarrow> global_state \<Rightarrow> global_state" where
  "sync_next_job_id history s =
     (let max_db_id = fold max (map ju_job_id history) 0
      in if max_db_id \<ge> gs_next_job_id s then s\<lparr>gs_next_job_id := max_db_id + 1\<rparr> else s)"

section \<open>Round trips\<close>

lemma trim_prefix_once:
  assumes "CHR '':'' \<notin> set b"
  shows "trim_start_matches SECRET_PREFIX (SECRET_PREFIX @ b) = b"
proof -
  have "\<not> starts_with b SECRET_PREFIX"
  proof
    assume "starts_with b SECRET_PREFIX"
    then have "CHR '':'' \<in> set (take 3 b)" by (simp add: starts_with_def SECRET_PREFIX_def numeral_3_eq_3)
    then show False using assms set_take_subset by fastforce
  qed
  then have "trim_start_matches SECRET_PREFIX b = b" by (simp add: trim_start_matches.simps)
  then show ?thesis
    by (subst trim_start_matches.simps) (simp add: starts_with_def SECRET_PREFIX_def)
qed

lemma decrypt_encrypt:
  assumes "\<forall>a. jc = Some a \<longrightarrow> aead_ok a" "encrypt jc n plaintext = Some enc"
  shows "decrypt jc enc = Some plaintext" "plaintext \<noteq> [] \<Longrightarrow> is_encrypted enc"
proof -
  show "plaintext \<noteq> [] \<Longrightarrow> is_encrypted enc"
    using assms(2) by (auto simp: encrypt_def is_encrypted_def starts_with_def SECRET_PREFIX_def split: option.splits)
  show "decrypt jc enc = Some plaintext"
  proof (cases "plaintext = []")
    case False
    then obtain a b where ab: "jc = Some a" "ae_seal a n plaintext = Some b" "enc = SECRET_PREFIX @ b"
      using assms(2) by (auto simp: encrypt_def split: option.splits)
    then have "ae_open a b = Some plaintext" "CHR '':'' \<notin> set b" using assms(1) by (auto simp: aead_ok_def)
    then show ?thesis using ab
      by (simp add: decrypt_def is_encrypted_def trim_prefix_once) (simp add: starts_with_def SECRET_PREFIX_def)
  qed (use assms(2) in \<open>simp add: encrypt_def decrypt_def\<close>)
qed

lemma opened_sealed:
  assumes "\<forall>a. jc = Some a \<longrightarrow> aead_ok a" "\<not> is_encrypted secret"
  shows "opened jc (sealed jc n secret) = secret"
proof (cases "encrypt jc n secret")
  case (Some enc)
  note d = decrypt_encrypt [OF assms(1) Some]
  show ?thesis
  proof (cases "secret = []")
    case False
    then have "enc \<noteq> []" using d(2) by (auto simp: is_encrypted_def starts_with_def SECRET_PREFIX_def)
    then show ?thesis using d Some False assms(2) by (simp add: sealed_def opened_def)
  qed (simp add: sealed_def opened_def)
qed (use assms(2) in \<open>simp add: sealed_def opened_def\<close>)

definition plain_secrets :: "(u64, job_info) hmap \<Rightarrow> bool" where
  "plain_secrets jobs = list_all (\<lambda>(i, job). \<not> is_encrypted (ji_secret job)) jobs"

lemma restore_prepare:
  assumes "\<forall>a. jc = Some a \<longrightarrow> aead_ok a" "plain_secrets (pe_jobs p)"
  shows "restore_persisted_state jc (prepare_persisted_state_for_disk jc nonces p) = p"
proof -
  have "open_job_secret jc (seal_job_secret jc n job) = job" if "\<not> is_encrypted (ji_secret job)" for n job
    using opened_sealed [OF assms(1) that] by (simp add: open_job_secret_def seal_job_secret_def)
  then have "map (\<lambda>(i, job). (i, open_job_secret jc job)) (map (\<lambda>(i, job). (i, seal_job_secret jc (nonces i) job)) (pe_jobs p)) = pe_jobs p"
    using assms(2) by (auto simp: plain_secrets_def list_all_iff intro!: map_idI)
  then show ?thesis by (simp add: restore_persisted_state_def prepare_persisted_state_for_disk_def)
qed

lemma send_state_sync_fields:
  "gs_role (send_state_sync p s) = gs_role s" "gs_disk (send_state_sync p s) = gs_disk s"
  "gs_jobs (send_state_sync p s) = gs_jobs s" "gs_workers (send_state_sync p s) = gs_workers s"
  "gs_queue (send_state_sync p s) = gs_queue s" "gs_reservations (send_state_sync p s) = gs_reservations s"
  "gs_next_job_id (send_state_sync p s) = gs_next_job_id s" "gs_steps (send_state_sync p s) = gs_steps s"
proof -
  have "gs_role (fold (\<lambda>tx. try_send tx e) xs s) = gs_role s \<and> gs_disk (fold (\<lambda>tx. try_send tx e) xs s) = gs_disk s \<and>
      gs_jobs (fold (\<lambda>tx. try_send tx e) xs s) = gs_jobs s \<and> gs_workers (fold (\<lambda>tx. try_send tx e) xs s) = gs_workers s \<and>
      gs_queue (fold (\<lambda>tx. try_send tx e) xs s) = gs_queue s \<and> gs_reservations (fold (\<lambda>tx. try_send tx e) xs s) = gs_reservations s \<and>
      gs_next_job_id (fold (\<lambda>tx. try_send tx e) xs s) = gs_next_job_id s \<and> gs_steps (fold (\<lambda>tx. try_send tx e) xs s) = gs_steps s"
    for xs e by (induction xs arbitrary: s) (simp_all add: try_send_def post_def)
  then show "gs_role (send_state_sync p s) = gs_role s" "gs_disk (send_state_sync p s) = gs_disk s"
    "gs_jobs (send_state_sync p s) = gs_jobs s" "gs_workers (send_state_sync p s) = gs_workers s"
    "gs_queue (send_state_sync p s) = gs_queue s" "gs_reservations (send_state_sync p s) = gs_reservations s"
    "gs_next_job_id (send_state_sync p s) = gs_next_job_id s" "gs_steps (send_state_sync p s) = gs_steps s"
    by (simp_all add: send_state_sync_def)
qed

lemma save_state_fields [simp]:
  "gs_jobs (save_state jc n io s) = gs_jobs s" "gs_workers (save_state jc n io s) = gs_workers s"
  "gs_queue (save_state jc n io s) = gs_queue s" "gs_reservations (save_state jc n io s) = gs_reservations s"
  "gs_next_job_id (save_state jc n io s) = gs_next_job_id s" "gs_steps (save_state jc n io s) = gs_steps s"
  "gs_role (save_state jc n io s) = gs_role s"
  by (simp_all add: save_state_def Let_def send_state_sync_fields)

section \<open>Reconstituted workers\<close>

definition adopted :: "(string \<Rightarrow> u64 set) \<Rightarrow> (string, worker_handle) hmap \<Rightarrow> bool" where
  "adopted S ws = (\<forall>k. case hm_get ws k of None \<Rightarrow> S k = {}
     | Some w \<Rightarrow> S k \<noteq> {} \<and> set (wh_assigned_jobs w) = S k \<and> \<not> wh_connected w)"

lemma adopted_entry:
  assumes "adopted S ws"
  shows "adopted (\<lambda>k. if k = n then insert i (S k) else S k) (hm_entry n (disconnected_handle d now) (adopt_job i job) ws)"
  unfolding adopted_def
proof
  fix k
  from assms have "case hm_get ws k of None \<Rightarrow> S k = {} | Some w \<Rightarrow> S k \<noteq> {} \<and> set (wh_assigned_jobs w) = S k \<and> \<not> wh_connected w"
    by (simp add: adopted_def)
  then show "case hm_get (hm_entry n (disconnected_handle d now) (adopt_job i job) ws) k of
      None \<Rightarrow> (if k = n then insert i (S k) else S k) = {}
    | Some w \<Rightarrow> (if k = n then insert i (S k) else S k) \<noteq> {} \<and>
        set (wh_assigned_jobs w) = (if k = n then insert i (S k) else S k) \<and> \<not> wh_connected w"
    by (auto simp: adopt_job_def disconnected_handle_def split: option.splits)
qed

lemma adopted_entries:
  "adopted S ws \<Longrightarrow> adopted (\<lambda>k. if k \<in> set ns then insert i (S k) else S k)
     (fold (\<lambda>n. hm_entry n (disconnected_handle d now) (adopt_job i job)) ns ws)"
proof (induction ns arbitrary: S ws)
  case (Cons n ns)
  have "(\<lambda>k. if k \<in> set (n # ns) then insert i (S k) else S k) =
      (\<lambda>k. if k \<in> set ns then insert i (if k = n then insert i (S k) else S k) else (if k = n then insert i (S k) else S k))"
    by (auto simp: fun_eq_iff)
  then show ?case using Cons.IH [OF adopted_entry [OF Cons.prems, of n i d now job]] by simp
qed simp

lemma reconstitute_adopted:
  "adopted (\<lambda>k. {j. \<exists>job. (j, job) \<in> set jobs \<and> runs_on k job}) (reconstitute_workers d now jobs)"
proof (induction jobs rule: rev_induct)
  case Nil
  show ?case by (simp add: reconstitute_workers_def adopted_def)
next
  case (snoc p jobs)
  obtain i job where p: "p = (i, job)" by fastforce
  let ?S = "\<lambda>js k. {j. \<exists>job. (j, job) \<in> set js \<and> runs_on k job}"
  show ?case
  proof (cases "ji_status job = Running")
    case True
    then have "?S (jobs @ [p]) = (\<lambda>k. if k \<in> set (ji_assigned_workers job) then insert i (?S jobs k) else ?S jobs k)"
      by (auto simp: p runs_on_def fun_eq_iff)
    then show ?thesis using adopted_entries [OF snoc.IH, of "ji_assigned_workers job" i d now job] True
      by (simp add: reconstitute_workers_def p)
  next
    case False
    then have "?S (jobs @ [p]) = ?S jobs" by (auto simp: p runs_on_def fun_eq_iff)
    then show ?thesis using snoc.IH False by (simp add: reconstitute_workers_def p)
  qed
qed

section \<open>Properties\<close>


text \<open>A cipher for the witness: it reverses the text and refuses texts with a colon.\<close>

definition sample_aead :: aead where
  "sample_aead = \<lparr>ae_seal = (\<lambda>n p. if CHR '':'' \<in> set p then None else Some (rev p)), ae_open = (\<lambda>b. Some (rev b))\<rparr>"


text \<open>
  A job's launch secret stored in the accounting database is read back unchanged, whether or not a
  master key is configured; with a key whose encryption succeeds the plaintext column is empty and the
  encrypted column is not the plaintext column's content.
\<close>

theorem secret_at_rest_roundtrip:
  assumes "\<forall>a. jc = Some a \<longrightarrow> aead_ok a" "\<not> is_encrypted plaintext"
  shows "decode_at_rest jc (sr_secret_enc (encode_for_storage jc n plaintext)) (sr_secret_column (encode_for_storage jc n plaintext)) = plaintext \<and>
    (encrypt jc n plaintext \<noteq> None \<longrightarrow> sr_secret_column (encode_for_storage jc n plaintext) = [])"
proof (cases "encrypt jc n plaintext")
  case None
  then show ?thesis using assms(2) by (auto simp: encode_for_storage_def decode_at_rest_def Let_def)
next
  case (Some enc)
  note d = decrypt_encrypt [OF assms(1) Some]
  show ?thesis
  proof (cases "plaintext = []")
    case True
    then show ?thesis by (simp add: encode_for_storage_def decode_at_rest_def is_encrypted_def starts_with_def SECRET_PREFIX_def)
  next
    case False
    then have "jc \<noteq> None" "enc \<noteq> []"
      using Some d(2) by (auto simp: encrypt_def is_encrypted_def starts_with_def SECRET_PREFIX_def split: option.splits)
    then show ?thesis using Some d False by (simp add: encode_for_storage_def decode_at_rest_def Let_def)
  qed
qed

theorem secret_at_rest_roundtrip_witness:
  "aead_ok sample_aead \<and> \<not> is_encrypted ''launch-token'' \<and>
   decode_at_rest (Some sample_aead) (sr_secret_enc (encode_for_storage (Some sample_aead) 0 ''launch-token''))
     (sr_secret_column (encode_for_storage (Some sample_aead) 0 ''launch-token'')) = ''launch-token''"
proof -
  have 2: "aead_ok sample_aead" by (auto simp: aead_ok_def sample_aead_def split: if_splits)
  have 3: "\<not> is_encrypted ''launch-token''" by (simp add: is_encrypted_def starts_with_def SECRET_PREFIX_def)
  show ?thesis using 2 3 secret_at_rest_roundtrip [of "Some sample_aead" "''launch-token''" 0] by simp
qed

end
