(* ===== verification/JobPolicy.thy ===== *)
theory JobPolicy
  imports ControllerState
begin

text \<open>
  What a submission may ask for: environment and binary policy (\<open>common/src/job_policy.rs\<close> and
  \<open>validate_job_submission\<close> in \<open>controller/src/config.rs\<close>), who a submission runs as
  (\<open>AuthenticatedPrincipal::resolve_user_id\<close> in \<open>controller/src/auth.rs\<close>) and which requests a role may
  send (\<open>is_authorized\<close> in \<open>controller/src/handlers/client.rs\<close>).
\<close>

section \<open>Environment policy\<close>

record job_execution_options =
  jx_inherit_host_env :: bool
  jx_env_allowlist :: "string list option"
  jx_job_profile :: "string option"

definition is_blocked_env_key :: "string \<Rightarrow> bool" where
  "is_blocked_env_key key =
     (key \<in> set [''LD_PRELOAD'', ''LD_LIBRARY_PATH'', ''BASH_ENV'', ''ENV'', ''PERL5OPT'', ''PYTHONPATH'']
      \<or> starts_with key ''DYLD_'')"

definition is_system_job_profile :: "string option \<Rightarrow> bool" where
  "is_system_job_profile profile = (case profile of None \<Rightarrow> False | Some p \<Rightarrow> p = ''system'')"

definition parse_env_defaults :: "string \<Rightarrow> string list" where
  "parse_env_defaults raw = filter (\<lambda>s. s \<noteq> []) (map trim (split_on CHR '','' raw))"

definition effective_allowlist_keys :: "string list \<Rightarrow> job_execution_options \<Rightarrow> string list" where
  "effective_allowlist_keys cluster_defaults job =
     remdups (cluster_defaults @ (case jx_env_allowlist job of None \<Rightarrow> [] | Some extra \<Rightarrow> extra))"

definition explicitly_allowed :: "job_execution_options \<Rightarrow> string \<Rightarrow> bool" where
  "explicitly_allowed job key = (case jx_env_allowlist job of None \<Rightarrow> False | Some a \<Rightarrow> key \<in> set a)"

definition validate_submitted_env_vars ::
    "(string \<times> string) list \<Rightarrow> job_execution_options \<Rightarrow> bool \<Rightarrow> string + unit" where
  "validate_submitted_env_vars env_vars job cluster_allowlist_enabled =
     (if \<not> cluster_allowlist_enabled then Inr ()
      else (case find (\<lambda>(key, _). is_blocked_env_key key \<and> \<not> explicitly_allowed job key) env_vars of
              None \<Rightarrow> Inr ()
            | Some (key, _) \<Rightarrow> Inl (''Environment variable '' @ quoted key @ '' is blocked by cluster policy'')))"

fun insert_if :: "(string \<Rightarrow> bool) \<Rightarrow> (string \<times> string) list \<Rightarrow> (string, string) hmap \<Rightarrow> (string, string) hmap" where
  "insert_if ok [] out = out"
| "insert_if ok ((k, v) # host) out = insert_if ok host (if ok k then hm_insert k v out else out)"

fun insert_missing :: "(string \<times> string) list \<Rightarrow> string list \<Rightarrow> (string, string) hmap \<Rightarrow> (string, string) hmap" where
  "insert_missing host [] out = out"
| "insert_missing host (key # keys) out =
     insert_missing host keys
       (if hm_contains out key then out
        else (case find (\<lambda>(k, _). k = key) host of None \<Rightarrow> out | Some (_, v) \<Rightarrow> hm_insert key v out))"

definition filter_host_env_for_job :: "(string \<times> string) list \<Rightarrow> bool \<Rightarrow> string list \<Rightarrow> job_execution_options \<Rightarrow> bool \<Rightarrow>
    (string, string) hmap" where
  "filter_host_env_for_job host cluster_allowlist_enabled cluster_defaults job impersonating =
     (if jx_inherit_host_env job \<or> \<not> cluster_allowlist_enabled
      then insert_if (\<lambda>k. \<not> is_blocked_env_key k) host []
      else (let allowed = effective_allowlist_keys cluster_defaults job;
                out = insert_if (\<lambda>k. k \<in> set allowed \<and> \<not> is_blocked_env_key k) host []
            in if impersonating then insert_missing host [''HOME'', ''USER'', ''TMPDIR''] out else out))"

definition must_fail_missing_user :: "bool \<Rightarrow> string option \<Rightarrow> bool \<Rightarrow> bool" where
  "must_fail_missing_user require_impersonation job_profile user_exists =
     (require_impersonation \<and> \<not> user_exists \<and> \<not> is_system_job_profile job_profile)"

definition validate_binary_prefix :: "string \<Rightarrow> string list \<Rightarrow> string + unit" where
  "validate_binary_prefix binary allowed_prefixes =
     (if allowed_prefixes = [] then Inr ()
      else if list_ex (\<lambda>prefix. prefix \<noteq> [] \<and> starts_with binary prefix) allowed_prefixes then Inr ()
      else Inl (''Binary '' @ quoted binary @ '' is not allowed by cluster policy (allowed_binaries_prefixes)''))"

definition cluster_env_allowlist_enabled :: "string option \<Rightarrow> bool" where
  "cluster_env_allowlist_enabled v = (case v of None \<Rightarrow> False | Some v \<Rightarrow> v = ''true'' \<or> v = ''1'')"

definition validate_job_submission :: "string option \<Rightarrow> string \<Rightarrow> (string \<times> string) list \<Rightarrow> job_execution_options \<Rightarrow>
    string list \<Rightarrow> string + unit" where
  "validate_job_submission allowlist_var binary env_vars exec allowed_binaries_prefixes =
     (case validate_binary_prefix binary allowed_binaries_prefixes of
        Inl e \<Rightarrow> Inl e
      | Inr _ \<Rightarrow> validate_submitted_env_vars env_vars exec (cluster_env_allowlist_enabled allowlist_var))"

section \<open>Principals\<close>

record principal =
  pr_user_id :: string
  pr_roles :: "string list"

definition is_admin_or_operator :: "principal \<Rightarrow> bool" where
  "is_admin_or_operator p = list_ex (\<lambda>r. r = ''admin'' \<or> r = ''operator'') (pr_roles p)"

definition resolve_user_id :: "principal \<Rightarrow> string \<Rightarrow> string + string" where
  "resolve_user_id p payload_user_id =
     (if is_admin_or_operator p
      then Inr (if payload_user_id = [] then pr_user_id p else payload_user_id)
      else if payload_user_id = [] then Inr (pr_user_id p)
      else if payload_user_id \<noteq> pr_user_id p
        then Inl (''Forbidden: cannot override user ID '' @ quoted (pr_user_id p) @ '' with '' @ quoted payload_user_id)
      else Inr (pr_user_id p))"

text \<open>The request messages of a client, as far as the role check distinguishes them.\<close>

datatype client_request =
    RqSubmit | RqSubmitDag | RqSubmitStep | RqStageProject | RqCancelJob
  | RqCreateReservation | RqDeleteReservation | RqListReservations
  | RqListJobs | RqGetJobHistory | RqGetMetrics | RqGetLogs | RqGetEfficiencyStats | RqGetJobEvents
  | RqGetJobSteps | RqListWorkers | RqGetComponentLogs | RqGetSystemLogs | RqRestart | RqOther

definition has_role :: "string list \<Rightarrow> string list \<Rightarrow> bool" where
  "has_role roles wanted = list_ex (\<lambda>r. r \<in> set wanted) roles"

definition is_authorized :: "client_request \<Rightarrow> string list \<Rightarrow> bool" where
  "is_authorized msg roles =
     (if has_role roles [''admin''] then True
      else (case msg of
          RqSubmitDag \<Rightarrow> has_role roles [''submitter'']
        | RqSubmit \<Rightarrow> has_role roles [''submitter'']
        | RqSubmitStep \<Rightarrow> has_role roles [''submitter'']
        | RqStageProject \<Rightarrow> has_role roles [''submitter'']
        | RqCancelJob \<Rightarrow> has_role roles [''submitter'', ''operator'']
        | RqCreateReservation \<Rightarrow> has_role roles [''operator'']
        | RqDeleteReservation \<Rightarrow> has_role roles [''operator'']
        | RqListReservations \<Rightarrow> has_role roles [''operator'']
        | RqListJobs \<Rightarrow> has_role roles [''viewer'', ''submitter'', ''operator'']
        | RqGetJobHistory \<Rightarrow> has_role roles [''viewer'', ''submitter'', ''operator'']
        | RqGetMetrics \<Rightarrow> has_role roles [''viewer'', ''submitter'', ''operator'']
        | RqGetLogs \<Rightarrow> has_role roles [''viewer'', ''submitter'', ''operator'']
        | RqGetEfficiencyStats \<Rightarrow> has_role roles [''viewer'', ''submitter'', ''operator'']
        | RqGetJobEvents \<Rightarrow> has_role roles [''viewer'', ''submitter'', ''operator'']
        | RqGetJobSteps \<Rightarrow> has_role roles [''viewer'', ''submitter'', ''operator'']
        | RqListWorkers \<Rightarrow> has_role roles [''viewer'', ''submitter'', ''operator'']
        | RqGetComponentLogs \<Rightarrow> has_role roles [''operator'']
        | RqGetSystemLogs \<Rightarrow> has_role roles [''operator'']
        | RqRestart \<Rightarrow> has_role roles [''operator'']
        | RqOther \<Rightarrow> True))"

section \<open>What the policy guarantees\<close>

lemma hm_get_insert_if:
  "hm_get (insert_if ok host out) k =
     (case find (\<lambda>(k', _). k' = k \<and> ok k') (rev host) of None \<Rightarrow> hm_get out k | Some (_, v) \<Rightarrow> Some v)"
proof (induction ok host out rule: insert_if.induct)
  case (2 ok k' v host out)
  have f: "find P (xs @ [y]) = (case find P xs of None \<Rightarrow> (if P y then Some y else None) | Some z \<Rightarrow> Some z)"
    for P and xs and y :: "string \<times> string" by (induction xs) auto
  show ?case using 2 by (auto simp: f split: option.splits)
qed simp

lemma insert_if_keys: "hm_get (insert_if ok host out) k = Some v \<Longrightarrow> ok k \<and> (k, v) \<in> set host \<or> hm_get out k = Some v"
  by (induction ok host out rule: insert_if.induct) (auto split: if_splits)

lemma insert_missing_keys:
  "hm_get (insert_missing host keys out) k = Some v \<Longrightarrow>
     hm_get out k = Some v \<or> k \<in> set keys \<and> (k, v) \<in> set host"
proof (induction host keys out rule: insert_missing.induct)
  case (2 host key keys out)
  have "find (\<lambda>(k, _). k = key) host = Some (k', v') \<Longrightarrow> k' = key \<and> (key, v') \<in> set host" for k' v'
    by (auto simp: find_Some_iff) (metis nth_mem)
  with 2 show ?case by (fastforce split: if_splits option.splits)
qed simp

lemma filter_host_env_result:
  assumes "hm_get (filter_host_env_for_job host enabled defaults job impersonating) k = Some v"
  shows "(k, v) \<in> set host \<and> \<not> is_blocked_env_key k \<and>
    (enabled \<and> \<not> jx_inherit_host_env job \<longrightarrow>
       k \<in> set (effective_allowlist_keys defaults job) \<or> impersonating \<and> k \<in> {''HOME'', ''USER'', ''TMPDIR''})"
proof -
  have nb: "\<not> is_blocked_env_key ''HOME''" "\<not> is_blocked_env_key ''USER''" "\<not> is_blocked_env_key ''TMPDIR''"
    by (simp_all add: is_blocked_env_key_def starts_with_def)
  show ?thesis
  proof (cases "jx_inherit_host_env job \<or> \<not> enabled")
    case True
    then show ?thesis using assms insert_if_keys by (fastforce simp: filter_host_env_for_job_def)
  next
    case False
    let ?out = "insert_if (\<lambda>k. k \<in> set (effective_allowlist_keys defaults job) \<and> \<not> is_blocked_env_key k) host []"
    have o: "hm_get ?out k = Some v \<Longrightarrow> k \<in> set (effective_allowlist_keys defaults job) \<and> \<not> is_blocked_env_key k \<and> (k, v) \<in> set host"
      using insert_if_keys [of _ host "[]" k v] by fastforce
    show ?thesis
    proof (cases impersonating)
      case True
      then have "hm_get (insert_missing host [''HOME'', ''USER'', ''TMPDIR''] ?out) k = Some v"
        using assms False by (simp add: filter_host_env_for_job_def Let_def)
      from insert_missing_keys [OF this] show ?thesis using o nb True by auto
    next
      case imp: False
      then show ?thesis using assms False o by (simp add: filter_host_env_for_job_def Let_def)
    qed
  qed
qed

text \<open>
  No variable whose name is on the block list reaches a job's process environment from the host,
  whatever the cluster mode and the job's options; with the cluster allowlist on and no inheritance, a
  host variable reaches the job only if the cluster defaults or the job's own allowlist name it, or it
  is one of the three variables added under impersonation. Values are the host's.
\<close>

theorem host_env_filtered:
  assumes "hm_get (filter_host_env_for_job host enabled defaults job impersonating) k = Some v"
  shows "(k, v) \<in> set host \<and> \<not> is_blocked_env_key k \<and>
    (enabled \<and> \<not> jx_inherit_host_env job \<longrightarrow>
       k \<in> set (effective_allowlist_keys defaults job) \<or> impersonating \<and> k \<in> {''HOME'', ''USER'', ''TMPDIR''})"
  using assms by (rule filter_host_env_result)

theorem host_env_filtered_witness:
  "hm_get (filter_host_env_for_job [(''LD_PRELOAD'', ''x''), (''PATH'', ''/usr/bin'')] True [''PATH'', ''LD_PRELOAD'']
     \<lparr>jx_inherit_host_env = False, jx_env_allowlist = None, jx_job_profile = None\<rparr> False) ''PATH'' = Some ''/usr/bin'' \<and>
   \<not> is_blocked_env_key ''PATH''"
proof -
  have "hm_get (filter_host_env_for_job [(''LD_PRELOAD'', ''x''), (''PATH'', ''/usr/bin'')] True [''PATH'', ''LD_PRELOAD'']
     \<lparr>jx_inherit_host_env = False, jx_env_allowlist = None, jx_job_profile = None\<rparr> False) ''PATH'' = Some ''/usr/bin''"
    by (simp add: filter_host_env_for_job_def Let_def effective_allowlist_keys_def is_blocked_env_key_def starts_with_def)
  with host_env_filtered [OF this] show ?thesis by blast
qed

text \<open>A caller who is neither administrator nor operator can only act under its own identity.\<close>

lemma resolve_user_own:
  "\<not> is_admin_or_operator p \<Longrightarrow> resolve_user_id p u = Inr v \<Longrightarrow> v = pr_user_id p"
  by (auto simp: resolve_user_id_def split: if_splits)

end
