(* ===== verification/Reservations.thy ===== *)
theory Reservations
  imports Persistence JobPolicy
begin

text \<open>
  Node reservations: the overlap test and the HTTP handlers of \<open>controller/src/api/reservations.rs\<close> and the
  reservation messages of \<open>controller/src/handlers/client.rs\<close>. The version 4 UUID of a new reservation and
  the outcome of writing the state file are arguments (\<open>uuid\<close>, \<open>store\<close>).
\<close>

section \<open>Operations\<close>

text \<open>How the state is written: the cipher, its nonces and whether the file operations succeed.\<close>

record store_env =
  se_cipher :: job_secrets_cipher
  se_nonces :: "u64 \<Rightarrow> nat"
  se_io_ok :: bool

definition save :: "store_env \<Rightarrow> global_state \<Rightarrow> global_state" where
  "save store s = save_state (se_cipher store) (se_nonces store) (se_io_ok store) s"

definition check_overlap :: "(string, reservation) hmap \<Rightarrow> string list \<Rightarrow> u64 \<Rightarrow> u64 \<Rightarrow> string option \<Rightarrow> bool" where
  "check_overlap reservations nodes start_time end_time exclude_id =
     list_ex (\<lambda>(i, res). exclude_id \<noteq> Some i \<and>
       start_time < rv_end_time res \<and> rv_start_time res < end_time \<and>
       list_ex (\<lambda>node. node \<in> set (rv_nodes res)) nodes) reservations"

datatype reservation_reply =
    ReservationCreated string | ReservationList "reservation list" | ReservationAck | ReservationError string

text \<open>The common tail of both ways to create a reservation.\<close>

definition add_reservation :: "store_env \<Rightarrow> string \<Rightarrow> string list \<Rightarrow> u64 \<Rightarrow> u64 \<Rightarrow> string \<Rightarrow> global_state \<Rightarrow> global_state" where
  "add_reservation store uuid nodes start_time end_time owner s =
     (let res = \<lparr>rv_id = uuid, rv_nodes = nodes, rv_start_time = start_time, rv_end_time = end_time,
                 rv_owner = owner\<rparr>
      in notify_one (save store (s\<lparr>gs_reservations := hm_insert uuid res (gs_reservations s)\<rparr>)))"

definition create_reservation :: "env \<Rightarrow> store_env \<Rightarrow> string \<Rightarrow> string list \<Rightarrow> u64 \<Rightarrow> u64 \<Rightarrow> string \<Rightarrow> global_state \<Rightarrow>
    global_state \<times> reservation_reply" where
  "create_reservation ev store uuid nodes start_time end_time owner s =
     (if start_time \<ge> end_time then (s, ReservationError ''Start time must be before end time'')
      else if end_time \<le> ev_now ev then (s, ReservationError ''End time must be in the future'')
      else if nodes = [] then (s, ReservationError ''Reservation must include at least one node'')
      else if \<not> list_all (hm_contains (gs_workers s)) nodes
        then (s, ReservationError ''One or more requested nodes do not exist'')
      else if check_overlap (gs_reservations s) nodes start_time end_time None
        then (s, ReservationError ''Requested nodes are already reserved during this time window'')
      else (add_reservation store uuid nodes start_time end_time owner s, ReservationCreated uuid))"

definition list_reservations :: "global_state \<Rightarrow> reservation_reply" where
  "list_reservations s = ReservationList (hm_values (gs_reservations s))"

definition delete_reservation :: "store_env \<Rightarrow> string \<Rightarrow> global_state \<Rightarrow> global_state \<times> reservation_reply" where
  "delete_reservation store i s =
     (if hm_contains (gs_reservations s) i
      then (notify_one (save store (s\<lparr>gs_reservations := hm_remove i (gs_reservations s)\<rparr>)), ReservationAck)
      else (s, ReservationError ''Reservation not found''))"

datatype http_reply =
    HttpForbidden string | HttpBadRequest string | HttpConflict string | HttpCreated string
  | HttpOk | HttpNotFound | HttpReservations "reservation list"

definition api_create_reservation :: "env \<Rightarrow> store_env \<Rightarrow> string \<Rightarrow> principal \<Rightarrow> string list \<Rightarrow> u64 \<Rightarrow> u64 \<Rightarrow> string \<Rightarrow>
    global_state \<Rightarrow> global_state \<times> http_reply" where
  "api_create_reservation ev store uuid caller nodes start_time end_time owner s =
     (if \<not> is_admin_or_operator caller then (s, HttpForbidden ''Forbidden: insufficient role'')
      else (case resolve_user_id caller owner of
          Inl e \<Rightarrow> (s, HttpForbidden e)
        | Inr resolved_owner \<Rightarrow>
            (if start_time \<ge> end_time then (s, HttpBadRequest ''Start time must be before end time'')
             else if end_time \<le> ev_now ev then (s, HttpBadRequest ''End time must be in the future'')
             else if nodes = [] then (s, HttpBadRequest ''Reservation must include at least one node'')
             else (case find (\<lambda>node. \<not> hm_contains (gs_workers s) node) nodes of
                 Some node \<Rightarrow> (s, HttpBadRequest (''Node '' @ node @ '' does not exist''))
               | None \<Rightarrow>
                   (if check_overlap (gs_reservations s) nodes start_time end_time None
                    then (s, HttpConflict ''Requested nodes are already reserved during this time window'')
                    else (add_reservation store uuid nodes start_time end_time resolved_owner s,
                          HttpCreated uuid))))))"

definition api_list_reservations :: "principal \<Rightarrow> global_state \<Rightarrow> http_reply" where
  "api_list_reservations caller s =
     (if \<not> is_admin_or_operator caller then HttpForbidden ''Forbidden: insufficient role''
      else HttpReservations (hm_values (gs_reservations s)))"

definition api_delete_reservation :: "store_env \<Rightarrow> principal \<Rightarrow> string \<Rightarrow> global_state \<Rightarrow> global_state \<times> http_reply" where
  "api_delete_reservation store caller i s =
     (if \<not> is_admin_or_operator caller then (s, HttpForbidden ''Forbidden: insufficient role'')
      else if hm_contains (gs_reservations s) i
        then (notify_one (save store (s\<lparr>gs_reservations := hm_remove i (gs_reservations s)\<rparr>)), HttpOk)
      else (s, HttpNotFound))"

section \<open>No node is reserved twice at the same time\<close>

definition holds_at :: "reservation \<Rightarrow> string \<Rightarrow> u64 \<Rightarrow> bool" where
  "holds_at r node t = (node \<in> set (rv_nodes r) \<and> rv_start_time r \<le> t \<and> t < rv_end_time r)"

definition exclusive :: "(string, reservation) hmap \<Rightarrow> bool" where
  "exclusive rs = (hm_wf rs \<and> (\<forall>i j a b node t. hm_get rs i = Some a \<longrightarrow> hm_get rs j = Some b \<longrightarrow>
     holds_at a node t \<longrightarrow> holds_at b node t \<longrightarrow> i = j))"

lemma check_overlap_False:
  assumes "\<not> check_overlap rs nodes s e x" "hm_get rs i = Some r" "x \<noteq> Some i" "node \<in> set nodes" "s \<le> t" "t < e"
  shows "\<not> holds_at r node t"
proof
  assume "holds_at r node t"
  with assms(4-) have "s < rv_end_time r" "rv_start_time r < e" "list_ex (\<lambda>n. n \<in> set (rv_nodes r)) nodes"
    by (auto simp: holds_at_def list_ex_iff)
  with assms(1,3) hm_get_SomeD [OF assms(2)] show False by (force simp: check_overlap_def list_ex_iff)
qed

lemma exclusive_insert:
  assumes "exclusive rs" and free: "\<And>node t. holds_at r node t \<Longrightarrow> \<forall>j b. hm_get rs j = Some b \<longrightarrow> \<not> holds_at b node t"
  shows "exclusive (hm_insert i r rs)"
  using assms(1) free by (force simp: exclusive_def split: if_splits)

lemma exclusive_remove: "exclusive rs \<Longrightarrow> exclusive (hm_remove i rs)"
  by (simp add: exclusive_def split: if_splits)

lemma add_reservation_exclusive:
  assumes "exclusive (gs_reservations s)" "\<not> check_overlap (gs_reservations s) nodes st en None"
  shows "exclusive (gs_reservations (add_reservation store u nodes st en owner s))"
proof -
  have "exclusive (hm_insert u \<lparr>rv_id = u, rv_nodes = nodes, rv_start_time = st, rv_end_time = en, rv_owner = owner\<rparr>
      (gs_reservations s))"
    using check_overlap_False [OF assms(2)] by (intro exclusive_insert [OF assms(1)]) (fastforce simp: holds_at_def)
  then show ?thesis by (simp add: add_reservation_def save_def notify_one_def)
qed

lemma delete_exclusive:
  "exclusive (gs_reservations s) \<Longrightarrow>
     exclusive (gs_reservations (notify_one (save store (s\<lparr>gs_reservations := hm_remove i (gs_reservations s)\<rparr>))))"
  by (simp add: save_def notify_one_def exclusive_remove)

text \<open>The operations on the reservation table, from clients and over HTTP, in any order.\<close>

inductive reservation_step :: "global_state \<Rightarrow> global_state \<Rightarrow> bool" where
  rs_create: "reservation_step s (fst (create_reservation ev store u nodes st en owner s))"
| rs_delete: "reservation_step s (fst (delete_reservation store i s))"
| rs_api_create: "reservation_step s (fst (api_create_reservation ev store u p nodes st en owner s))"
| rs_api_delete: "reservation_step s (fst (api_delete_reservation store p i s))"

interpretation reservations: invariant_system
  "\<lambda>s. gs_reservations s = []" reservation_step "\<lambda>s. exclusive (gs_reservations s)"
proof
  show "gs_reservations s = [] \<Longrightarrow> exclusive (gs_reservations s)" for s by (simp add: exclusive_def)
  show "exclusive (gs_reservations t)" if "exclusive (gs_reservations s)" "reservation_step s t" for s t
    using that(2,1)
    by cases (auto simp: create_reservation_def delete_reservation_def api_create_reservation_def
        api_delete_reservation_def add_reservation_exclusive delete_exclusive
        split: sum.splits option.splits)
qed

text \<open>
  C17: Whatever sequence of reservation requests a controller has served since it had no reservation,
  from clients or over HTTP, accepted or refused, no node is held by two reservations at any instant.
\<close>

theorem reservations_exclusive:
  assumes "reachable (\<lambda>s. gs_reservations s = []) reservation_step s"
    and "hm_get (gs_reservations s) i = Some a" and "hm_get (gs_reservations s) j = Some b"
    and "node \<in> set (rv_nodes a)" and "node \<in> set (rv_nodes b)"
    and "rv_start_time a \<le> t" and "t < rv_end_time a" and "rv_start_time b \<le> t" and "t < rv_end_time b"
  shows "i = j"
  using reservations.reachable_inv [OF assms(1)] assms(2-) by (auto simp: exclusive_def holds_at_def)

definition sample_store :: store_env where
  "sample_store = \<lparr>se_cipher = None, se_nonces = (\<lambda>_. 0), se_io_ok = True\<rparr>"

definition reserved_state :: global_state where
  "reserved_state = fst (create_reservation sample_env sample_store ''r1'' [''w1''] 1000 2000 ''alice'' two_node_state)"

lemma reserved_state_reservations: "gs_reservations reserved_state =
    [(''r1'', \<lparr>rv_id = ''r1'', rv_nodes = [''w1''], rv_start_time = 1000, rv_end_time = 2000, rv_owner = ''alice''\<rparr>)]"
  by (simp add: reserved_state_def create_reservation_def two_node_state_def sample_state_def sample_env_def
      hm_contains_def check_overlap_def add_reservation_def save_def notify_one_def hm_insert_def)

theorem reservations_exclusive_witness:
  "reachable (\<lambda>s. gs_reservations s = []) reservation_step reserved_state \<and>
   hm_get (gs_reservations reserved_state) ''r1'' = Some (hd (hm_values (gs_reservations reserved_state))) \<and>
   ''r1'' = ''r1''"
proof -
  have "gs_reservations two_node_state = []" by (simp add: two_node_state_def sample_state_def)
  then have r: "reachable (\<lambda>s. gs_reservations s = []) reservation_step reserved_state"
    unfolding reserved_state_def by (blast intro: reach_step reach_init rs_create)
  moreover have "hm_get (gs_reservations reserved_state) ''r1'' = Some (hd (hm_values (gs_reservations reserved_state)))"
    by (simp add: reserved_state_reservations hm_values_def)
  moreover have "''r1'' = ''r1''"
    by (rule reservations_exclusive [OF r, where t = 1500 and node = "''w1''"])
      (auto simp: reserved_state_reservations)
  ultimately show ?thesis by blast
qed

text \<open>
  Creating a reservation is refused without any effect exactly when the window is empty or past,
  the node list is empty or names an unknown worker, or an existing reservation holds one of the nodes
  in an overlapping window. Otherwise the reservation is in the table under its id, every other entry is
  unchanged, and the scheduler is woken.
\<close>

theorem create_reservation_outcome:
  "if en \<le> st \<or> en \<le> ev_now ev \<or> nodes = [] \<or> (\<exists>n. n \<in> set nodes \<and> hm_get (gs_workers s) n = None) \<or>
      (\<exists>i r. (i, r) \<in> set (gs_reservations s) \<and> st < rv_end_time r \<and> rv_start_time r < en \<and>
         set nodes \<inter> set (rv_nodes r) \<noteq> {})
   then \<exists>e. create_reservation ev store u nodes st en owner s = (s, ReservationError e)
   else \<exists>s'. create_reservation ev store u nodes st en owner s = (s', ReservationCreated u) \<and>
      gs_reservations s' = hm_insert u \<lparr>rv_id = u, rv_nodes = nodes, rv_start_time = st, rv_end_time = en,
         rv_owner = owner\<rparr> (gs_reservations s) \<and> gs_scheduler_notify s' \<and> gs_jobs s' = gs_jobs s \<and>
      gs_workers s' = gs_workers s"
proof -
  have o: "check_overlap (gs_reservations s) nodes st en None \<longleftrightarrow>
     (\<exists>i r. (i, r) \<in> set (gs_reservations s) \<and> st < rv_end_time r \<and> rv_start_time r < en \<and>
         set nodes \<inter> set (rv_nodes r) \<noteq> {})"
    by (force simp: check_overlap_def list_ex_iff)
  have c: "(\<exists>n. n \<in> set nodes \<and> hm_get (gs_workers s) n = None) \<longleftrightarrow> \<not> list_all (hm_contains (gs_workers s)) nodes"
    by (auto simp: list_all_iff hm_contains_def)
  show ?thesis unfolding o [symmetric] c
    by (simp add: create_reservation_def add_reservation_def save_def notify_one_def)
qed

end
