(* ===== verification/SchedulerQueue.thy ===== *)
theory SchedulerQueue
  imports Samples "HOL-Library.Sublist"
begin

text \<open>
  What a scheduling pass does to the queue and to the jobs in it: the order in which jobs are
  considered, that a job is never forgotten unless it is preempted, that a started job gets all its
  nodes at once and respects reservations and backfill, and the estimate of the earliest start.
\<close>

section \<open>One step of the pass\<close>

lemma block_job_form:
  "\<exists>r t i. block_job ev j job ps = keep_pending j r (ps\<lparr>ps_top_job_earliest_start := t, ps_top_job_id := i\<rparr>)"
proof (cases "ps_top_job_earliest_start ps")
  case None
  then show ?thesis unfolding block_job_def Let_def by (simp only: option.case) blast
next
  case (Some a)
  have "ps = ps\<lparr>ps_top_job_earliest_start := Some a, ps_top_job_id := ps_top_job_id ps\<rparr>" using Some by simp
  with Some show ?thesis unfolding block_job_def Let_def by (simp only: option.case) metis
qed

text \<open>The four outcomes of one loop iteration.\<close>

lemma schedule_one_cases:
  assumes "schedule_one ev db j ps = Inr ps'"
  obtains (skip) "ps' = ps" "\<And>job. hm_get (gs_jobs (ps_state ps)) j = Some job \<Longrightarrow> ji_status job \<noteq> Pending"
  | (wait) job r where "hm_get (gs_jobs (ps_state ps)) j = Some job" "ji_status job = Pending"
      "ps' = keep_pending j r ps"
  | (block) job r t i where "hm_get (gs_jobs (ps_state ps)) j = Some job" "ji_status job = Pending"
      "ps' = keep_pending j r (ps\<lparr>ps_state := clear_waiting_reason j (ps_state ps),
         ps_top_job_earliest_start := t, ps_top_job_id := i\<rparr>)"
  | (start) job ids js s' where "hm_get (gs_jobs (ps_state ps)) j = Some job" "ji_status job = Pending"
      "are_dependencies_satisfied job (gs_jobs (ps_state ps)) db = Inr True"
      "\<not> backfill_denied ev job (ps_top_job_earliest_start ps)"
      "choose_workers ev (clear_waiting_reason j (ps_state ps)) job (ev_now ev) = Inr (Some (ids, js))"
      "start_job ev j job ids js (clear_waiting_reason j (ps_state ps)) = Inr s'"
      "ps' = ps\<lparr>ps_state := s'\<rparr>"
proof -
  have ready: thesis if h: "hm_get (gs_jobs (ps_state ps)) j = Some job" "ji_status job = Pending"
    "are_dependencies_satisfied job (gs_jobs (ps_state ps)) db = Inr True"
    "schedule_ready_job ev j job ps = Inr ps'" for job
  proof (cases "backfill_denied ev job (ps_top_job_earliest_start ps)")
    case True
    let ?ps = "ps\<lparr>ps_state := clear_waiting_reason j (ps_state ps)\<rparr>"
    have "ps' = keep_pending j (backfill_message ?ps) (?ps\<lparr>ps_top_job_earliest_start := ps_top_job_earliest_start ps,
        ps_top_job_id := ps_top_job_id ps\<rparr>)"
      using True h(4) by (simp add: schedule_ready_job_def Let_def)
    then show thesis by (rule block [OF h(1,2)])
  next
    case False
    let ?c = "choose_workers ev (clear_waiting_reason j (ps_state ps)) job (ev_now ev)"
    from False h(4) consider "?c = Inr None" | ids js where "?c = Inr (Some (ids, js))"
      by (auto simp: schedule_ready_job_def Let_def split: sum.splits option.splits)
    then show thesis
    proof cases
      case 1
      let ?ps = "ps\<lparr>ps_state := clear_waiting_reason j (ps_state ps)\<rparr>"
      have "ps' = block_job ev j job ?ps" using 1 False h(4) by (simp add: schedule_ready_job_def Let_def)
      moreover obtain r t i where "block_job ev j job ?ps =
          keep_pending j r (?ps\<lparr>ps_top_job_earliest_start := t, ps_top_job_id := i\<rparr>)"
        using block_job_form by blast
      ultimately have "ps' = keep_pending j r (?ps\<lparr>ps_top_job_earliest_start := t, ps_top_job_id := i\<rparr>)" by simp
      then show thesis by (rule block [OF h(1,2)])
    next
      case 2
      then obtain s' where "start_job ev j job ids js (clear_waiting_reason j (ps_state ps)) = Inr s'"
        "ps' = ps\<lparr>ps_state := s'\<rparr>"
        using False h(4) by (auto simp: schedule_ready_job_def Let_def split: sum.splits)
      then show thesis using start h(1-3) False 2 by blast
    qed
  qed
  show thesis
  proof (cases "hm_get (gs_jobs (ps_state ps)) j")
    case None
    then show thesis using assms skip by (simp add: schedule_one_def)
  next
    case (Some job)
    show thesis
    proof (cases "ji_status job = Pending")
      case False
      then show thesis using assms skip Some by (simp add: schedule_one_def)
    next
      case True
      then show thesis using assms Some wait ready
        by (auto simp: schedule_one_def split: sum.splits bool.splits)
    qed
  qed
qed

section \<open>The queue\<close>

lemma schedule_one_still:
  assumes "schedule_one ev db j ps = Inr ps'"
  shows "ps_still_pending ps' = ps_still_pending ps \<or> ps_still_pending ps' = ps_still_pending ps @ [j]"
  using assms by (cases rule: schedule_one_cases) (simp_all add: keep_pending_def)

lemma schedule_loop_still:
  "schedule_loop ev db js ps = Inr ps' \<Longrightarrow> \<exists>l. ps_still_pending ps' = ps_still_pending ps @ l \<and> subseq l js"
proof (induction js arbitrary: ps)
  case (Cons j js)
  from Cons.prems obtain ps1 where 1: "schedule_one ev db j ps = Inr ps1" "schedule_loop ev db js ps1 = Inr ps'"
    by (auto split: sum.splits)
  from Cons.IH [OF 1(2)] obtain l where l: "ps_still_pending ps' = ps_still_pending ps1 @ l" "subseq l js" by blast
  from schedule_one_still [OF 1(1)] l show ?case
    by (auto intro: exI [of _ l] exI [of _ "j # l"])
qed simp

lemma schedule_jobs_queue:
  assumes "schedule_jobs ev db s = Inr s'"
  shows "subseq (gs_queue s') (sort_pending ev (begin_pass ev s) (gs_queue s))"
  using assms schedule_loop_still
  by (fastforce simp: schedule_jobs_def Let_def split: sum.splits)

lemma sort_pending_perm: "mset (sort_pending ev s q) = mset q"
  by (simp add: sort_pending_def)

lemma sort_pending_sorted:
  "sorted_wrt (\<lambda>a b. job_score ev s a > job_score ev s b \<or> job_score ev s a = job_score ev s b \<and> a \<le> b)
     (sort_pending ev s q)"
proof -
  have "sorted (map (\<lambda>i. (- job_score ev s i, i)) (sort_pending ev s q))"
    by (simp add: sort_pending_def)
  then show ?thesis
    by (simp add: sorted_map) (rule sorted_wrt_mono_rel, auto simp: less_eq_prod_def)
qed

lemma schedule_jobs_queue_subset:
  assumes "schedule_jobs ev db s = Inr s'"
  shows "set (gs_queue s') \<subseteq> set (gs_queue s)"
proof -
  have "subseq l l' \<Longrightarrow> set l \<subseteq> set l'" for l l' :: "u64 list"
    by (induction rule: list_emb.induct) auto
  from this [OF schedule_jobs_queue [OF assms]] show ?thesis
    using mset_eq_setD [OF sort_pending_perm] by blast
qed

section \<open>No job is forgotten\<close>

text \<open>
  What an iteration for a job that does not preempt leaves of the others, and of the job itself.
\<close>

lemma keep_pending_jobs:
  "hm_get (gs_jobs (ps_state (keep_pending j r ps))) k =
     (if k = j then map_option (\<lambda>job. job\<lparr>ji_reason := Some r\<rparr>) (hm_get (gs_jobs (ps_state ps)) k)
      else hm_get (gs_jobs (ps_state ps)) k)"
  by (simp add: keep_pending_def set_reason_def)

lemma clear_waiting_jobs:
  "hm_get (gs_jobs (clear_waiting_reason j s)) k =
     (if k = j then map_option (\<lambda>job. if ji_reason job = Some ''Waiting for dependencies''
         then job\<lparr>ji_reason := None\<rparr> else job) (hm_get (gs_jobs s) k)
      else hm_get (gs_jobs s) k)"
  by (simp add: clear_waiting_reason_def)

lemma choose_workers_no_preempt:
  "ji_qos job \<noteq> Interactive \<Longrightarrow> choose_workers ev s job now = Inr (Some (ids, js)) \<Longrightarrow> js = []"
  by (auto simp: choose_workers_def split: sum.splits option.splits)

lemma schedule_one_effect:
  assumes st: "schedule_one ev db j ps = Inr ps'"
    and q: "\<forall>job. hm_get (gs_jobs (ps_state ps)) j = Some job \<longrightarrow> ji_qos job \<noteq> Interactive"
  shows "k \<noteq> j \<Longrightarrow> hm_get (gs_jobs (ps_state ps')) k = hm_get (gs_jobs (ps_state ps)) k"
    "hm_get (gs_jobs (ps_state ps)) j = Some job \<Longrightarrow>
       \<exists>job'. hm_get (gs_jobs (ps_state ps')) j = Some job' \<and> ji_qos job' = ji_qos job \<and>
         (ji_status job' = ji_status job \<or> ji_status job' = Running) \<and>
         (ji_status job = Pending \<longrightarrow> ji_status job' = Running \<or> j \<in> set (ps_still_pending ps'))"
    "hm_get (gs_jobs (ps_state ps)) j = None \<Longrightarrow> hm_get (gs_jobs (ps_state ps')) j = None"
proof -
  have "(\<forall>k. k \<noteq> j \<longrightarrow> hm_get (gs_jobs (ps_state ps')) k = hm_get (gs_jobs (ps_state ps)) k) \<and>
    (\<forall>job. hm_get (gs_jobs (ps_state ps)) j = Some job \<longrightarrow>
       (\<exists>job'. hm_get (gs_jobs (ps_state ps')) j = Some job' \<and> ji_qos job' = ji_qos job \<and>
         (ji_status job' = ji_status job \<or> ji_status job' = Running) \<and>
         (ji_status job = Pending \<longrightarrow> ji_status job' = Running \<or> j \<in> set (ps_still_pending ps')))) \<and>
    (hm_get (gs_jobs (ps_state ps)) j = None \<longrightarrow> hm_get (gs_jobs (ps_state ps')) j = None)"
    using st
  proof (cases rule: schedule_one_cases)
    case skip
    then show ?thesis by simp
  next
    case (wait job r)
    then show ?thesis by (auto simp: keep_pending_jobs) (simp add: keep_pending_def)
  next
    case (block job r t i)
    then show ?thesis by (auto simp: keep_pending_jobs clear_waiting_jobs) (auto simp: keep_pending_def)
  next
    case (start job ids js s')
    have js: "js = []" using choose_workers_no_preempt [OF _ start(5)] q start(1) by blast
    from start(6) obtain a where
      "gs_jobs s' = hm_modify j (started ev ids a) (gs_jobs (clear_waiting_reason j (ps_state ps)))"
      unfolding js by (rule start_job_result) simp
    then show ?thesis using start by (auto simp: clear_waiting_jobs started_def)
  qed
  then show "k \<noteq> j \<Longrightarrow> hm_get (gs_jobs (ps_state ps')) k = hm_get (gs_jobs (ps_state ps)) k"
    "hm_get (gs_jobs (ps_state ps)) j = Some job \<Longrightarrow>
       \<exists>job'. hm_get (gs_jobs (ps_state ps')) j = Some job' \<and> ji_qos job' = ji_qos job \<and>
         (ji_status job' = ji_status job \<or> ji_status job' = Running) \<and>
         (ji_status job = Pending \<longrightarrow> ji_status job' = Running \<or> j \<in> set (ps_still_pending ps'))"
    "hm_get (gs_jobs (ps_state ps)) j = None \<Longrightarrow> hm_get (gs_jobs (ps_state ps')) j = None"
    by blast+
qed

definition kept :: "u64 list \<Rightarrow> global_state \<Rightarrow> u64 \<Rightarrow> bool" where
  "kept queue s j = (j \<in> set queue \<or> (\<exists>job. hm_get (gs_jobs s) j = Some job \<and> ji_status job = Running))"

definition no_interactive :: "global_state \<Rightarrow> u64 list \<Rightarrow> bool" where
  "no_interactive s js = list_all (\<lambda>j. case hm_get (gs_jobs s) j of None \<Rightarrow> True
     | Some job \<Rightarrow> ji_qos job \<noteq> Interactive) js"

lemma schedule_one_no_interactive:
  assumes "schedule_one ev db j ps = Inr ps'" "no_interactive (ps_state ps) (j # js)"
  shows "no_interactive (ps_state ps') js"
proof -
  have q: "\<forall>job. hm_get (gs_jobs (ps_state ps)) j = Some job \<longrightarrow> ji_qos job \<noteq> Interactive"
    using assms(2) by (auto simp: no_interactive_def)
  note e = schedule_one_effect [OF assms(1) q]
  have "case hm_get (gs_jobs (ps_state ps')) k of None \<Rightarrow> True | Some job \<Rightarrow> ji_qos job \<noteq> Interactive"
    if "k \<in> set js" for k
  proof (cases "k = j")
    case True
    then show ?thesis using e(2,3) q by (cases "hm_get (gs_jobs (ps_state ps)) j") auto
  next
    case False
    then show ?thesis using e(1) [OF False] assms(2) that by (simp add: no_interactive_def list_all_iff)
  qed
  then show ?thesis by (simp add: no_interactive_def list_all_iff)
qed

lemma schedule_loop_kept:
  assumes "schedule_loop ev db js ps = Inr ps'" "no_interactive (ps_state ps) js"
  shows "kept (ps_still_pending ps) (ps_state ps) j \<or>
      (j \<in> set js \<and> (\<exists>job. hm_get (gs_jobs (ps_state ps)) j = Some job \<and> ji_status job = Pending)) \<Longrightarrow>
    kept (ps_still_pending ps') (ps_state ps') j"
  using assms
proof (induction js arbitrary: ps)
  case (Cons i js)
  from Cons.prems(2) obtain ps1 where 1: "schedule_one ev db i ps = Inr ps1" "schedule_loop ev db js ps1 = Inr ps'"
    by (auto split: sum.splits)
  have q: "\<forall>job. hm_get (gs_jobs (ps_state ps)) i = Some job \<longrightarrow> ji_qos job \<noteq> Interactive"
    using Cons.prems(3) by (auto simp: no_interactive_def)
  note e = schedule_one_effect [OF 1(1) q]
  have sub: "set (ps_still_pending ps) \<subseteq> set (ps_still_pending ps1)"
    using schedule_one_still [OF 1(1)] by auto
  have "kept (ps_still_pending ps1) (ps_state ps1) j \<or>
      (j \<in> set js \<and> (\<exists>job. hm_get (gs_jobs (ps_state ps1)) j = Some job \<and> ji_status job = Pending))"
  proof (cases "j = i")
    case True
    then show ?thesis using Cons.prems(1) e(2) sub unfolding kept_def by (metis (no_types, lifting) subsetD)
  next
    case False
    then show ?thesis using Cons.prems(1) e(1) [OF False] sub unfolding kept_def by auto
  qed
  with Cons.IH 1 schedule_one_no_interactive [OF 1(1) Cons.prems(3)] show ?case by blast
qed simp

lemma schedule_jobs_kept:
  assumes st: "schedule_jobs ev db s = Inr s'" and ni: "no_interactive s (gs_queue s)"
    and j: "j \<in> set (gs_queue s)" "hm_get (gs_jobs s) j = Some job" "ji_status job = Pending"
  shows "kept (gs_queue s') s' j"
proof -
  let ?js = "sort_pending ev (begin_pass ev s) (gs_queue s)"
  let ?ps = "\<lparr>ps_state = begin_pass ev s, ps_still_pending = [], ps_top_job_earliest_start = None, ps_top_job_id = None\<rparr>"
  from st obtain ps where ps: "schedule_loop ev db ?js ?ps = Inr ps" "s' = (ps_state ps)\<lparr>gs_queue := ps_still_pending ps\<rparr>"
    by (auto simp: schedule_jobs_def Let_def split: sum.splits)
  have set: "set ?js = set (gs_queue s)" using mset_eq_setD [OF sort_pending_perm] by blast
  have "kept (ps_still_pending ps) (ps_state ps) j"
    by (rule schedule_loop_kept [OF ps(1)])
      (use ni j set in \<open>auto simp: no_interactive_def list_all_iff begin_pass_def\<close>)
  then show ?thesis by (simp add: ps(2) kept_def)
qed

section \<open>What a started job gets\<close>

lemma reservation_not_blocking:
  assumes "\<not> is_reserved s job i t" "res \<in> set (hm_values (gs_reservations s))" "i \<in> set (rv_nodes res)"
    "rv_owner res \<noteq> ji_user_id job"
  shows "\<not> (rv_start_time res \<le> t \<and> t < rv_end_time res)"
    "rv_start_time res > t \<Longrightarrow> t + job_walltime_for_reservation job \<le> rv_start_time res"
  using assms by (auto simp: is_reserved_def list_ex_iff reservation_blocks_def not_less)

lemma start_job_cores:
  assumes st: "start_job ev j job ids js s = Inr s'" and d: "distinct ids" and i: "i \<in> set ids"
    and w: "hm_get (gs_workers s) i = Some w" and inv: "alloc_inv s"
    and js: "\<forall>k\<in>set js. hm_get (gs_jobs s) k \<noteq> None"
    and job: "hm_get (gs_jobs s) j = Some job0" "ji_status job0 \<noteq> Running"
  shows "\<exists>job' w' c. hm_get (gs_jobs s') j = Some job' \<and> ji_status job' = Running \<and>
     ji_assigned_workers job' = ids \<and> hm_get (ji_allocated_cores job') i = Some c \<and>
     length c = unat (ji_req_cores job) \<and> hm_get (gs_workers s') i = Some w' \<and> cores_of w' j = c \<and>
     j \<in> set (wh_assigned_jobs w')"
proof -
  let ?s1 = "fold preempt_job js s"
  from st obtain a where
    al: "allocate_on j job ids \<lparr>al_workers = gs_workers ?s1, al_cores = [], al_gres = [], al_node_list_ips = []\<rparr> = Inr a"
    and ws: "gs_workers s' = al_workers a"
    and jb: "gs_jobs s' = hm_modify j (started ev ids a) (gs_jobs ?s1)"
    by (rule start_job_result)
  from preempt_all_grows [OF inv w js] obtain w1 where w1: "hm_get (gs_workers ?s1) i = Some w1" by blast
  with allocate_on_selected [OF al d i] obtain w' c g where
    aw: "alloc_worker j job w1 = Inr (w', c, g)" "hm_get (al_workers a) i = Some w'" "hm_get (al_cores a) i = Some c"
    by auto
  have "hm_get (gs_jobs ?s1) j = Some job0" by (rule preempt_all_pending_job [OF job])
  with aw alloc_worker_fields [OF aw(1)] show ?thesis
    by (auto simp: jb ws started_def cores_of_def)
qed

lemma fits_at_now_earliest:
  assumes "fits_at s job now (filter (\<lambda>j. ji_status j = Running) (hm_values (gs_jobs s))) now"
    and "\<And>rjob. now \<le> end_time_est now rjob"
  shows "calculate_earliest_start_time job s now = now"
proof -
  let ?r = "filter (\<lambda>j. ji_status j = Running) (hm_values (gs_jobs s))"
  let ?ts = "remdups_adj (sort (now # map (end_time_est now) ?r))"
  have "sort (now # map (end_time_est now) ?r) = now # sort (map (end_time_est now) ?r)"
    using assms(2) by (auto simp: insort_is_Cons)
  then obtain l where l: "?ts = now # l"
    by (metis hd_remdups_adj list.exhaust_sel list.sel(1) list.discI remdups_adj_Nil_iff)
  show ?thesis unfolding calculate_earliest_start_time_def Let_def l using assms(1) by simp
qed

lemma end_time_est_ge: "now + 1 \<noteq> 0 \<Longrightarrow> now < end_time_est now rjob"
  unfolding end_time_est_def less_max_iff_disj
  by (rule disjI2) (simp add: word_less_nat_alt unatSuc [of now] add.commute)

lemma earliest_start_ge:
  assumes "now + 1 \<noteq> 0" "now \<le> now + 365 * 24 * 3600"
  shows "now \<le> calculate_earliest_start_time job s now"
proof -
  let ?r = "filter (\<lambda>j. ji_status j = Running) (hm_values (gs_jobs s))"
  let ?ts = "remdups_adj (sort (now # map (end_time_est now) ?r))"
  have "now \<le> t" if "t \<in> set ?ts" for t
    using that end_time_est_ge [OF assms(1)]
    by (auto simp: set_insort_key intro: order.strict_implies_order)
  then show ?thesis unfolding calculate_earliest_start_time_def Let_def
    using assms(2) by (auto split: option.split dest: find_SomeD)
qed

section \<open>Ageing\<close>

lemma boosting_bonus_mono:
  assumes "float_ok ev" "0 \<le> boost_rate ev" "x \<le> y"
  shows "boosting_bonus ev x \<le> boosting_bonus ev y"
proof -
  let ?t = "ev_rnd ev (real (unat (starvation_threshold ev)))"
  have m: "a \<le> b \<Longrightarrow> ev_rnd ev a \<le> ev_rnd ev b" for a b using assms(1) by (auto simp: float_ok_def mono_def)
  have nn: "0 \<le> a \<Longrightarrow> 0 \<le> ev_rnd ev a" for a by (rule float_ok_nonneg [OF assms(1)])
  define f where "f z = ev_rnd ev (ev_rnd ev (z - ?t) / 60)" for z
  have f0: "0 \<le> f z" if "?t < z" for z 
    unfolding f_def using that by (intro nn divide_nonneg_nonneg) auto
  have fm: "f x \<le> f y" unfolding f_def by (intro m divide_right_mono) (use assms(3) in auto)
  have b: "boosting_bonus ev z = (if z > ?t then ev_rnd ev (ev_rnd ev (f z * f z) * boost_rate ev) else 0)" for z
    by (simp add: boosting_bonus_def Let_def f_def)
  show ?thesis
  proof (cases "x > ?t")
    case True
    then have "f x * f x \<le> f y * f y" using fm f0 [of x] f0 [of y] assms(3) by (intro mult_mono) auto
    then show ?thesis using True assms(2,3) by (auto simp: b intro!: m mult_right_mono)
  next
    case False
    then show ?thesis using assms(2) f0 by (auto simp: b intro!: nn mult_nonneg_nonneg)
  qed
qed

lemma older_job_scores_higher:
  assumes fl: "float_ok ev" and r: "0 \<le> boost_rate ev"
    and same: "ji_priority a = ji_priority b" "ji_user_id a = ji_user_id b"
    and older: "ji_queued_time a \<le> ji_queued_time b"
  shows "calculate_effective_priority ev b t \<le> calculate_effective_priority ev a t"
proof -
  have m: "x \<le> y \<Longrightarrow> ev_rnd ev x \<le> ev_rnd ev y" for x y using fl by (auto simp: float_ok_def mono_def)
  have "unat (sat_sub (ev_now ev) (ji_queued_time b)) \<le> unat (sat_sub (ev_now ev) (ji_queued_time a))"
    using older by (simp add: unat_sat_sub word_le_nat_alt)
  then have w: "real (unat (sat_sub (ev_now ev) (ji_queued_time b))) \<le>
      real (unat (sat_sub (ev_now ev) (ji_queued_time a)))" by (simp only: of_nat_le_iff)
  have "ev_rnd ev (ev_rnd ev (ev_rnd ev (p + ev_rnd ev (x * (1 / 2))) + boosting_bonus ev x) - u) \<le>
      ev_rnd ev (ev_rnd ev (ev_rnd ev (p + ev_rnd ev (y * (1 / 2))) + boosting_bonus ev y) - u)"
    if "x \<le> y" for x y p u
    using that by (intro m diff_right_mono add_mono boosting_bonus_mono [OF fl r] mult_right_mono) auto
  from this [OF m [OF w]] show ?thesis unfolding calculate_effective_priority_def Let_def same .
qed

section \<open>A preemption scenario\<close>

text \<open>
  One worker, fully used by the preemptible job 1; the interactive job 2 waits for its two cores.
\<close>

definition busy_worker :: worker_handle where
  "busy_worker = sample_worker\<lparr>wh_assigned_jobs := [1], wh_allocated_memory := 256,
     wh_available_core_ids := [], wh_job_core_assignments := [(1, [0, 1])], wh_job_gres_assignments := [(1, [])]\<rparr>"

definition preemptible_job :: job_info where
  "preemptible_job = (sample_job 1)\<lparr>ji_status := Running, ji_req_cores := 2, ji_assigned_workers := [''w1''],
     ji_allocated_cores := [(''w1'', [0, 1])], ji_allocated_gres := [(''w1'', [])],
     ji_start_time := Some 950, ji_qos := Preemptible\<rparr>"

definition interactive_job :: job_info where
  "interactive_job = (sample_job 2)\<lparr>ji_req_cores := 2, ji_qos := Interactive\<rparr>"

definition preemption_state :: global_state where
  "preemption_state = sample_state [(''w1'', busy_worker)] [(1, preemptible_job), (2, interactive_job)] [2]"

lemma busy_worker_ok: "worker_ok busy_worker"
  unfolding worker_ok_def
proof (intro conjI allI)
  show "tables_ok busy_worker" by (simp add: tables_ok_def busy_worker_def sample_worker_def sample_resources_def)
  have "cores_of busy_worker = (\<lambda>j. if j = 1 then [0, 1] else [])"
    by (auto simp: cores_of_def busy_worker_def)
  then show "cores_ok busy_worker" unfolding cores_ok_def pool_ok_def
    by (auto simp: busy_worker_def sample_worker_def sample_resources_def)
  show "gres_ok busy_worker n" for n unfolding gres_ok_def
    by (rule pool_ok_fresh)
      (auto simp: gres_of_def free_gres_def gres_limit_def busy_worker_def sample_worker_def sample_resources_def)
qed

lemma preemption_state_ok: "sched_ok preemption_state"
  using busy_worker_ok
  by (auto simp: sched_ok_def alloc_inv_def jobs_ok_def link_ok_def preemption_state_def sample_state_def
      preemptible_job_def interactive_job_def sample_job_def busy_worker_def split: if_splits)

lemma preemption_choice:
  "choose_workers sample_env (clear_waiting_reason 2 (begin_pass sample_env preemption_state)) interactive_job 1000 =
     Inr (Some ([''w1''], [1]))"
  by code_simp

lemma preemption_outcome:
  assumes "schedule_jobs sample_env [] preemption_state = Inr s'"
  shows "gs_queue s' = []" "hm_get (gs_jobs s') 1 = Some (preempted preemptible_job)"
proof -
  let ?s = "begin_pass sample_env preemption_state"
  let ?s1 = "clear_waiting_reason 2 ?s"
  let ?ps = "\<lparr>ps_state = ?s, ps_still_pending = [], ps_top_job_earliest_start = None, ps_top_job_id = None\<rparr>"
  have q: "sort_pending sample_env ?s (gs_queue preemption_state) = [2]"
    by (simp add: sort_pending_def preemption_state_def sample_state_def)
  have job: "hm_get (gs_jobs ?s) 2 = Some interactive_job" "ji_status interactive_job = Pending"
    by (simp_all add: begin_pass_def preemption_state_def sample_state_def interactive_job_def sample_job_def)
  have deps: "are_dependencies_satisfied interactive_job jobs [] = Inr True" for jobs
    by (simp add: are_dependencies_satisfied_def interactive_job_def sample_job_def)
  have now: "ev_now sample_env = 1000" by (simp add: sample_env_def)
  obtain s2 where s2: "start_job sample_env 2 interactive_job [''w1''] [1] ?s1 = Inr s2" "s' = s2\<lparr>gs_queue := []\<rparr>"
    using assms by (auto simp: schedule_jobs_def Let_def q schedule_one_def schedule_ready_job_def job deps
        backfill_denied_def preemption_choice now split: sum.splits)
  from s2(1) obtain a where
    "gs_jobs s2 = hm_modify 2 (started sample_env [''w1''] a) (gs_jobs (fold preempt_job [1] ?s1))"
    by (rule start_job_result)
  then show "gs_queue s' = []" "hm_get (gs_jobs s') 1 = Some (preempted preemptible_job)"
    by (auto simp: s2(2) preempt_get_job clear_waiting_jobs begin_pass_def preemption_state_def
        sample_state_def preemptible_job_def)
qed

end
