(* ===== verification/Books.thy ===== *)
theory Books
  imports WorkerSafety SchedulerQueue
begin

text \<open>
  The agreement between the job table and the worker table: every running job is listed, with exactly
  the cores and GRES ids its record names, by every worker it is assigned to, and that worker is
  known. Together with \<open>alloc_inv\<close> this is an invariant of all controller operations; it makes the
  reconstruction of a reconnecting worker's pools safe.
\<close>

section \<open>Booked jobs\<close>

definition booked :: "(string, worker_handle) hmap \<Rightarrow> u64 \<Rightarrow> job_info \<Rightarrow> string \<Rightarrow> bool" where
  "booked ws j job wid = (\<exists>w. hm_get ws wid = Some w \<and> j \<in> set (wh_assigned_jobs w) \<and>
     hm_get (wh_job_core_assignments w) j = hm_get (ji_allocated_cores job) wid \<and>
     hm_get (wh_job_gres_assignments w) j = hm_get (ji_allocated_gres job) wid)"

text \<open>
  \<open>E j wid\<close> marks bookings that may be missing while a dead worker's jobs are being failed one by one.
\<close>

definition books :: "(u64 \<Rightarrow> string \<Rightarrow> bool) \<Rightarrow> global_state \<Rightarrow> bool" where
  "books E s = (\<forall>j job. hm_get (gs_jobs s) j = Some job \<longrightarrow>
     ji_id job = j \<and> 0 < ji_req_nodes job \<and> hm_wf (ji_gres_req job) \<and>
     (ji_status job = Running \<longrightarrow> (\<forall>wid\<in>set (ji_assigned_workers job). booked (gs_workers s) j job wid \<or> E j wid)))"

abbreviation all_booked :: "global_state \<Rightarrow> bool" where
  "all_booked \<equiv> books (\<lambda>_ _. False)"

definition keeps :: "(string, worker_handle) hmap \<Rightarrow> (string, worker_handle) hmap \<Rightarrow> u64 \<Rightarrow> bool" where
  "keeps ws ws' j = (\<forall>wid w. hm_get ws wid = Some w \<longrightarrow> j \<in> set (wh_assigned_jobs w) \<longrightarrow>
     (\<exists>w'. hm_get ws' wid = Some w' \<and> j \<in> set (wh_assigned_jobs w') \<and>
        hm_get (wh_job_core_assignments w') j = hm_get (wh_job_core_assignments w) j \<and>
        hm_get (wh_job_gres_assignments w') j = hm_get (wh_job_gres_assignments w) j))"

lemma keeps_refl [simp]: "keeps ws ws j"
  by (auto simp: keeps_def)

lemma booked_keeps:
  assumes "booked ws j job wid" "keeps ws ws' j" "ji_allocated_cores job' = ji_allocated_cores job"
    "ji_allocated_gres job' = ji_allocated_gres job"
  shows "booked ws' j job' wid"
proof -
  from assms(1) obtain w where w: "hm_get ws wid = Some w" "j \<in> set (wh_assigned_jobs w)"
    "hm_get (wh_job_core_assignments w) j = hm_get (ji_allocated_cores job) wid"
    "hm_get (wh_job_gres_assignments w) j = hm_get (ji_allocated_gres job) wid" by (auto simp: booked_def)
  with assms(2) obtain w' where "hm_get ws' wid = Some w'" "j \<in> set (wh_assigned_jobs w')"
    "hm_get (wh_job_core_assignments w') j = hm_get (wh_job_core_assignments w) j"
    "hm_get (wh_job_gres_assignments w') j = hm_get (wh_job_gres_assignments w) j" unfolding keeps_def by blast
  with w assms(3,4) show ?thesis by (auto simp: booked_def)
qed

definition carried :: "global_state \<Rightarrow> global_state \<Rightarrow> u64 \<Rightarrow> job_info \<Rightarrow> bool" where
  "carried s s' j job' = (\<exists>job. hm_get (gs_jobs s) j = Some job \<and> ji_id job' = ji_id job \<and> same_request job' job \<and>
     (ji_status job' = Running \<longrightarrow> same_allocation job' job \<and> keeps (gs_workers s) (gs_workers s') j))"

lemma books_mono:
  assumes b: "books E s" and c: "\<And>j job'. hm_get (gs_jobs s') j = Some job' \<Longrightarrow> carried s s' j job'"
  shows "books E s'"
  unfolding books_def
proof (intro allI impI)
  fix j job' assume "hm_get (gs_jobs s') j = Some job'"
  from c [OF this] obtain job where job: "hm_get (gs_jobs s) j = Some job" "ji_id job' = ji_id job" "same_request job' job"
    "ji_status job' = Running \<Longrightarrow> same_allocation job' job \<and> keeps (gs_workers s) (gs_workers s') j"
    by (auto simp: carried_def)
  have o: "ji_id job = j" "0 < ji_req_nodes job" "hm_wf (ji_gres_req job)"
    "\<And>wid. ji_status job = Running \<Longrightarrow> wid \<in> set (ji_assigned_workers job) \<Longrightarrow> booked (gs_workers s) j job wid \<or> E j wid"
    using b job(1) by (auto simp: books_def)
  have run: "booked (gs_workers s') j job' wid \<or> E j wid"
    if r: "ji_status job' = Running" and wid: "wid \<in> set (ji_assigned_workers job')" for wid
  proof -
    have a: "same_allocation job' job" "keeps (gs_workers s) (gs_workers s') j" using job(4) [OF r] by auto
    then have "ji_status job = Running" "wid \<in> set (ji_assigned_workers job)"
      using r wid by (auto simp: same_allocation_def)
    from o(4) [OF this] show ?thesis
      using booked_keeps a by (auto simp: same_allocation_def)
  qed
  show "ji_id job' = j \<and> 0 < ji_req_nodes job' \<and> hm_wf (ji_gres_req job') \<and>
     (ji_status job' = Running \<longrightarrow> (\<forall>wid\<in>set (ji_assigned_workers job'). booked (gs_workers s') j job' wid \<or> E j wid))"
    using job(2,3) o(1-3) run by (auto simp: same_request_def)
qed

lemma books_cong:
  "gs_workers s' = gs_workers s \<Longrightarrow> gs_jobs s' = gs_jobs s \<Longrightarrow> books E s' = books E s"
  by (simp add: books_def)

lemma books_weaken: "books E s \<Longrightarrow> (\<And>j wid. E j wid \<Longrightarrow> F j wid) \<Longrightarrow> books F s"
  unfolding books_def by blast

lemma same_request_refl [simp]: "same_request job job"
  by (simp add: same_request_def)

lemma carried_refl: "hm_get (gs_jobs s) j = Some job \<Longrightarrow> keeps (gs_workers s) (gs_workers s') j \<Longrightarrow> carried s s' j job"
  by (auto simp: carried_def)

text \<open>Changing one job's record without touching its allocation, and removing jobs.\<close>

lemma books_modify_job:
  assumes "books E s" "\<And>x. same_allocation (f x) x" "\<And>x. same_request (f x) x" "\<And>x. ji_id (f x) = ji_id x"
  shows "books E (s\<lparr>gs_jobs := hm_modify j f (gs_jobs s)\<rparr>)"
  by (rule books_mono [OF assms(1)]) (use assms in \<open>auto simp: carried_def split: if_splits\<close>)

lemma books_shrink_jobs:
  assumes "books E s" "\<And>j job. hm_get jobs' j = Some job \<Longrightarrow> hm_get (gs_jobs s) j = Some job"
  shows "books E (s\<lparr>gs_jobs := jobs'\<rparr>)"
  by (rule books_mono [OF assms(1)]) (use assms(2) in \<open>auto simp: carried_def\<close>)

section \<open>Ending a job\<close>

lemma release_keeps:
  assumes "alloc_inv s" "k \<noteq> j"
  shows "keeps (gs_workers s) (gs_workers (release_job_resources_internal j s)) k"
  unfolding keeps_def
proof (intro allI impI)
  fix wid w assume w: "hm_get (gs_workers s) wid = Some w" "k \<in> set (wh_assigned_jobs w)"
  have "worker_ok w" using alloc_invD(1) [OF assms(1) w(1)] .
  moreover have "hs_remove j (wh_assigned_jobs w) \<noteq> []"
    using w(2) assms(2) set_hs_remove [of j "wh_assigned_jobs w"] by (metis Diff_iff empty_iff list.set(1) singletonD)
  then have "k \<in> set (wh_assigned_jobs (release_worker j job wid w))" for job
    using w(2) assms(2) by (simp add: release_worker_def Let_def release_cores_def release_gres_def reset_if_idle_def
        split: option.split)
  ultimately show "\<exists>w'. hm_get (gs_workers (release_job_resources_internal j s)) wid = Some w' \<and> k \<in> set (wh_assigned_jobs w') \<and>
      hm_get (wh_job_core_assignments w') k = hm_get (wh_job_core_assignments w) k \<and>
      hm_get (wh_job_gres_assignments w') k = hm_get (wh_job_gres_assignments w) k"
    using w assms(2) by (auto simp: release_get_worker release_worker_assignments split: option.split)
qed

lemma books_release_job:
  assumes b: "books E s" and inv: "alloc_inv s" and f: "\<And>x. ji_status (f x) \<noteq> Running" "\<And>x. same_request (f x) x"
    "\<And>x. ji_id (f x) = ji_id x"
    and s': "gs_workers s' = gs_workers (release_job_resources_internal j s)" "gs_jobs s' = hm_modify j f (gs_jobs s)"
  shows "books E s'"
  by (rule books_mono [OF b])
    (use f s' release_keeps [OF inv] in \<open>auto simp: carried_def split: if_splits\<close>)

lemma accrue_fields [simp]:
  "gs_jobs (accrue_job_usage ev j s) = gs_jobs s" "gs_workers (accrue_job_usage ev j s) = gs_workers s"
  by (simp_all add: accrue_job_usage_def split: option.split)

lemma release_accrue: "gs_workers (release_job_resources_internal j (accrue_job_usage ev j s)) =
    gs_workers (release_job_resources_internal j s)"
  by (simp add: release_job_resources_internal_def split: option.split)

lemma finalize_books:
  assumes "books E s" "alloc_inv s" "st \<noteq> Running"
  shows "books E (fst (finalize_job ev j st s))"
  by (rule books_release_job [where f = "finalized ev st" and j = j, OF assms(1,2)])
    (use assms(3) in \<open>auto simp: finalize_job_def Let_def release_accrue finalized_def same_request_def\<close>)

lemma preempt_books:
  assumes b: "books E s" and inv: "alloc_inv s"
  shows "books E (preempt_job j s)"
proof (cases "\<exists>job. hm_get (gs_jobs s) j = Some job \<and> ji_status job = Running")
  case True
  then obtain job where job: "hm_get (gs_jobs s) j = Some job" "ji_status job = Running" by blast
  define s1 where "s1 = (case ji_assigned_workers job of [] \<Rightarrow> s | w # _ \<Rightarrow> send_ignore s w (PreemptJob j))"
  have f: "gs_jobs s1 = gs_jobs s" "gs_workers s1 = gs_workers s" by (simp_all add: s1_def split: list.split)
  then have "books E s1" "alloc_inv s1" using b inv by (simp_all add: books_cong [of s1 s] alloc_inv_cong [of s1 s])
  then show ?thesis
    by (rule books_release_job [where f = preempted and j = j])
      (use job f in \<open>auto simp: preempt_job_def Let_def s1_def preempted_def same_request_def\<close>)
qed (auto simp: preempt_job_def b split: option.split)

lemma preempt_all_books: "books E s \<Longrightarrow> alloc_inv s \<Longrightarrow> books E (fold preempt_job js s) \<and> alloc_inv (fold preempt_job js s)"
  by (rule fold_inv [where P = "\<lambda>s. books E s \<and> alloc_inv s"]) (auto simp: preempt_books preempt_alloc_inv)

lemma fail_and_remove_books:
  assumes "books E (cx_state ctx)" "alloc_inv (cx_state ctx)"
  shows "books (\<lambda>k w. E k w \<and> k \<noteq> j) (cx_state (fail_and_remove ev err j ctx))"
proof -
  let ?s = "fst (finalize_job ev j (Failed err) (cx_state ctx))"
  have "books E ?s" using assms by (intro finalize_books) simp_all
  then have "books E (?s\<lparr>gs_jobs := hm_remove j (gs_jobs ?s)\<rparr>)"
    by (rule books_shrink_jobs) (simp split: if_splits)
  then have "books (\<lambda>k w. E k w \<and> k \<noteq> j) (?s\<lparr>gs_jobs := hm_remove j (gs_jobs ?s)\<rparr>)"
    by (auto simp: books_def split: if_splits)
  then show ?thesis by (simp add: fail_and_remove_def Let_def)
qed

lemma terminate_books:
  assumes "all_booked (cx_state ctx)" "alloc_inv (cx_state ctx)"
  shows "all_booked (cx_state (terminate_timed_out ev j ctx))"
proof -
  let ?s = "cx_state ctx"
  define s1 where "s1 = (case (case hm_get (gs_jobs ?s) j of
      None \<Rightarrow> None | Some job \<Rightarrow> (case ji_assigned_workers job of [] \<Rightarrow> None | w # _ \<Rightarrow> Some w)) of
      None \<Rightarrow> ?s | Some w \<Rightarrow> send_ignore ?s w (TerminateJob j))"
  have f: "gs_jobs s1 = gs_jobs ?s" "gs_workers s1 = gs_workers ?s" by (simp_all add: s1_def split: option.split)
  then have "all_booked s1" "alloc_inv s1"
    using assms by (simp_all add: books_cong [of s1 ?s] alloc_inv_cong [of s1 ?s])
  then show ?thesis
    using fail_and_remove_books [of "\<lambda>_ _. False" "ctx\<lparr>cx_state := s1\<rparr>"]
    by (simp add: terminate_timed_out_def Let_def s1_def)
qed

definition ctl_ok :: "global_state \<Rightarrow> bool" where
  "ctl_ok s = (alloc_inv s \<and> all_booked s)"

lemma ctl_ok_cong: "gs_workers s' = gs_workers s \<Longrightarrow> gs_jobs s' = gs_jobs s \<Longrightarrow> ctl_ok s' = ctl_ok s"
  unfolding ctl_ok_def by (simp add: books_cong [of s' s] alloc_inv_cong [of s' s])

lemma books_notify [simp]: "books E (notify_one s) = books E s"
  by (rule books_cong) (simp_all add: notify_one_def)

lemma ctl_ok_notify [simp]: "ctl_ok (notify_one s) = ctl_ok s"
  by (rule ctl_ok_cong) (simp_all add: notify_one_def)

lemma ctl_ok_sched_ok: "ctl_ok s \<Longrightarrow> sched_ok s"
  unfolding ctl_ok_def sched_ok_def by (auto simp: alloc_inv_def books_def intro: jobs_okI)

lemma remove_dead_worker_ok:
  assumes "ctl_ok (cx_state ctx)"
  shows "ctl_ok (cx_state (remove_dead_worker ev wid ctx))"
proof -
  let ?s = "cx_state ctx"
  define L where "L = (case hm_get (gs_workers ?s) wid of None \<Rightarrow> [] | Some w \<Rightarrow> wh_assigned_jobs w)"
  define s1 where "s1 = ?s\<lparr>gs_workers := hm_remove wid (gs_workers ?s)\<rparr>"
  define c1 where "c1 = ctx\<lparr>cx_state := s1, cx_metrics_nodes := hs_remove wid (cx_metrics_nodes ctx)\<rparr>"
  have inv1: "alloc_inv s1" using assms by (auto simp: s1_def ctl_ok_def alloc_inv_def split: if_splits)
  have b: "booked (gs_workers s1) j job w \<or> w = wid \<and> j \<in> set L" if "booked (gs_workers ?s) j job w" for j job w
    using that by (auto simp: booked_def s1_def L_def)
  have b1: "books (\<lambda>k w. w = wid \<and> k \<in> set L) s1"
    using assms b by (auto simp: ctl_ok_def books_def s1_def)
  have step: "books (\<lambda>k w. E k w \<and> k \<noteq> j) (cx_state (fail_job_of_dead_worker ev j c)) \<and>
      alloc_inv (cx_state (fail_job_of_dead_worker ev j c))"
    if h: "books E (cx_state c)" "alloc_inv (cx_state c)" for E j c
  proof -
    let ?c = "c\<lparr>cx_state := cx_state c\<lparr>gs_jobs := hm_modify j
        (\<lambda>x. x\<lparr>ji_current_cpu_usage := 0, ji_current_memory_usage := 0\<rparr>) (gs_jobs (cx_state c))\<rparr>\<rparr>"
    have "books E (cx_state ?c)" using h(1) by (simp add: books_modify_job same_allocation_def same_request_def)
    moreover have "alloc_inv (cx_state ?c)" using h(2) by (simp add: alloc_inv_modify_job same_allocation_def)
    ultimately show ?thesis unfolding fail_job_of_dead_worker_def Let_def
      using fail_and_remove_books fail_and_remove_alloc_inv by blast
  qed
  have "books (\<lambda>k w. E k w \<and> k \<notin> set js) (cx_state (fold (fail_job_of_dead_worker ev) js c)) \<and>
      alloc_inv (cx_state (fold (fail_job_of_dead_worker ev) js c))"
    if "books E (cx_state c)" "alloc_inv (cx_state c)" for E js c
    using that
  proof (induction js arbitrary: E c)
    case (Cons j js)
    from Cons.IH [OF conjunct1 [OF step [OF Cons.prems]] conjunct2 [OF step [OF Cons.prems]]] show ?case
      by (auto elim: books_weaken)
  qed simp
  from this [of "\<lambda>k w. w = wid \<and> k \<in> set L" c1 L] b1 inv1
  have "books (\<lambda>k w. (w = wid \<and> k \<in> set L) \<and> k \<notin> set L) (cx_state (fold (fail_job_of_dead_worker ev) L c1)) \<and>
      alloc_inv (cx_state (fold (fail_job_of_dead_worker ev) L c1))" by (simp add: c1_def)
  then have "ctl_ok (cx_state (fold (fail_job_of_dead_worker ev) L c1))"
    unfolding ctl_ok_def by (auto elim: books_weaken)
  then show ?thesis by (simp add: remove_dead_worker_def Let_def c1_def s1_def L_def)
qed

lemma check_timeouts_ok:
  assumes "ctl_ok (cx_state ctx)"
  shows "ctl_ok (cx_state (check_timeouts ev ctx))"
proof -
  have t: "ctl_ok (cx_state (fold (terminate_timed_out ev) js c))" if "ctl_ok (cx_state c)" for js c
    using that by (rule fold_inv [where P = "\<lambda>c. ctl_ok (cx_state c)"])
      (auto simp: ctl_ok_def terminate_books terminate_alloc_inv)
  have d: "ctl_ok (cx_state (fold (remove_dead_worker ev) ws c))" if "ctl_ok (cx_state c)" for ws c
    using that by (rule fold_inv [where P = "\<lambda>c. ctl_ok (cx_state c)"]) (rule remove_dead_worker_ok)
  show ?thesis unfolding check_timeouts_def Let_def using d [OF t [OF assms]] assms by simp
qed

lemma prune_ok:
  assumes "ctl_ok (cx_state ctx)"
  shows "ctl_ok (cx_state (prune_jobs ev r ctx))"
proof -
  have "all_booked (cx_state ctx\<lparr>gs_jobs := fold hm_remove ks (gs_jobs (cx_state ctx))\<rparr>)" for ks
    using assms by (intro books_shrink_jobs) (auto simp: ctl_ok_def hmap.get_fold_del split: if_splits)
  then have "all_booked (cx_state (prune_jobs ev r ctx))"
    using assms by (simp add: prune_jobs_def Let_def ctl_ok_def)
  then show ?thesis using assms by (simp add: ctl_ok_def prune_alloc_inv)
qed

lemma finalize_ok: "ctl_ok s \<Longrightarrow> st \<noteq> Running \<Longrightarrow> ctl_ok (fst (finalize_job ev j st s))"
  by (simp add: ctl_ok_def finalize_alloc_inv finalize_books)

lemma reconcile_ok: "ctl_ok s \<Longrightarrow> ctl_ok (snd (reconcile_missing_worker_jobs ev wid act now (m, s)))"
  unfolding reconcile_missing_worker_jobs_def Let_def split_def
  by (rule fold_inv [where P = "\<lambda>p. ctl_ok (snd p)"]) (auto simp: finalize_ok split_def)

lemma finish_job_ok:
  assumes "ctl_ok (cx_state ctx)" "st \<noteq> Running"
  shows "ctl_ok (cx_state (finish_job ev j st cl ctx))"
proof -
  let ?s1 = "fst (finalize_job ev j st (cx_state ctx))"
  have "all_booked (?s1\<lparr>gs_jobs := hm_remove j (gs_jobs ?s1)\<rparr>)"
    using finalize_ok [OF assms] by (intro books_shrink_jobs) (auto simp: ctl_ok_def split: if_splits)
  then have "all_booked (cx_state (finish_job ev j st cl ctx))"
    by (rule books_cong [THEN iffD2, rotated 2])
      (simp_all add: finish_job_def Let_def split_def record_usage_def delete_unreferenced_def notify_one_def)
  then show ?thesis using assms by (simp add: ctl_ok_def finish_job_alloc_inv)
qed

section \<open>Messages of workers\<close>

definition light_change :: "(job_info \<Rightarrow> job_info) \<Rightarrow> bool" where
  "light_change f = (\<forall>x. same_allocation (f x) x \<and> same_request (f x) x \<and> ji_id (f x) = ji_id x)"

lemma modify_job_ok:
  assumes "ctl_ok s" "light_change f"
  shows "ctl_ok (s\<lparr>gs_jobs := hm_modify j f (gs_jobs s)\<rparr>)"
  using assms by (simp add: ctl_ok_def light_change_def alloc_inv_modify_job books_modify_job)

lemma take_profile_ok: "ctl_ok s \<Longrightarrow> ctl_ok (take_profile sv j s)"
proof -
  assume a: "ctl_ok s"
  let ?s1 = "s\<lparr>gs_job_output_buffers := hm_remove j (gs_job_output_buffers s)\<rparr>"
  have s1: "ctl_ok ?s1" using a by (simp add: ctl_ok_cong [of ?s1 s])
  have "ctl_ok (?s1\<lparr>gs_jobs := hm_modify j (\<lambda>x. x\<lparr>ji_mpi_stats := m\<rparr>) (gs_jobs ?s1)\<rparr>)" for m
    by (rule modify_job_ok [OF s1]) (simp add: light_change_def same_allocation_def same_request_def)
  with a s1 show ?thesis by (simp add: take_profile_def Let_def split: option.split)
qed

lemma store_log_ids_light: "light_change (store_log_ids a b c)"
  by (simp add: light_change_def same_allocation_def same_request_def store_log_ids_def Let_def split: option.split)

lemma job_done_ok:
  assumes "ctl_ok (cx_state ctx)"
  shows "ctl_ok (cx_state (job_done ev sv wid j code ctx))"
proof -
  have fin: "ctl_ok (cx_state (job_done_finish ev sv j code ids lf c))" if "ctl_ok (cx_state c)" for ids lf c
    unfolding job_done_finish_def Let_def
    by (rule finish_job_ok) (simp_all add: modify_job_ok [OF take_profile_ok [OF that]] store_log_ids_light)
  have "ctl_ok (cx_state (fst (job_done_mark wid j ctx)))"
    by (rule ctl_ok_cong [THEN iffD2, OF _ _ assms]) (simp_all add: job_done_mark_def Let_def split_def)
  then show ?thesis using fin by (simp add: job_done_def Let_def split_def split: option.split)
qed

lemma job_error_ok:
  assumes "ctl_ok (cx_state ctx)"
  shows "ctl_ok (cx_state (job_error ev j err ctx))"
proof -
  have m: "ctl_ok (cx_state ctx\<lparr>gs_jobs := hm_modify j (\<lambda>x. x\<lparr>ji_worker_log_files := l\<rparr>) (gs_jobs (cx_state ctx))\<rparr>)" for l
    by (rule modify_job_ok [OF assms]) (simp add: light_change_def same_allocation_def same_request_def)
  show ?thesis unfolding job_error_def Let_def
    by (rule finish_job_ok) (simp_all add: m assms split: option.split)
qed

lemma job_killed_ok: "ctl_ok (cx_state ctx) \<Longrightarrow> ctl_ok (cx_state (job_killed ev j ctx))"
  unfolding job_killed_def by (rule finish_job_ok) simp_all

text \<open>
  A start report is harmless for a job that is running, or that holds no workers. The controller does
  not check this: a report that arrives after the job has ended makes it running again.
\<close>

definition start_report_ok :: "u64 \<Rightarrow> global_state \<Rightarrow> bool" where
  "start_report_ok j s = (case hm_get (gs_jobs s) j of None \<Rightarrow> True
     | Some job \<Rightarrow> ji_status job = Running \<or> ji_assigned_workers job = [])"

lemma job_started_ok:
  assumes ok: "ctl_ok (cx_state ctx)" and g: "start_report_ok j (cx_state ctx)"
  shows "ctl_ok (cx_state (job_started j ctx))"
proof -
  let ?s = "cx_state ctx"
  have "all_booked (?s\<lparr>gs_jobs := hm_modify j (\<lambda>x. x\<lparr>ji_status := Running, ji_cgroup_active := b\<rparr>) (gs_jobs ?s)\<rparr>)" for b
    using ok g by (auto simp: ctl_ok_def books_def start_report_ok_def booked_def split: option.splits if_splits)
  then have "all_booked (cx_state (job_started j ctx))"
    by (simp add: job_started_def Let_def)
  then show ?thesis using ok by (simp add: ctl_ok_def job_started_alloc_inv)
qed

lemma modify_worker_ok:
  assumes "ctl_ok s" "\<And>w. same_pool (f w) w"
  shows "ctl_ok (s\<lparr>gs_workers := hm_modify wid f (gs_workers s)\<rparr>)"
proof -
  have "all_booked (s\<lparr>gs_workers := hm_modify wid f (gs_workers s)\<rparr>)"
    by (rule books_mono [of _ s])
      (use assms in \<open>auto simp: ctl_ok_def carried_def keeps_def same_pool_def\<close>)
  then show ?thesis using assms by (simp add: ctl_ok_def modify_worker_alloc_inv)
qed

lemma disconnect_ok:
  assumes "ctl_ok (cx_state ctx)"
  shows "ctl_ok (cx_state (disconnect_worker ev wid cid ctx))"
proof -
  let ?s1 = "cx_state ctx\<lparr>gs_workers := hm_modify wid
      (\<lambda>w. w\<lparr>wh_connected := False, wh_last_seen := ev_now ev\<rparr>) (gs_workers (cx_state ctx))\<rparr>"
  have "ctl_ok ?s1" by (rule modify_worker_ok [OF assms]) (simp add: same_pool_def)
  then have "ctl_ok (tell_peers e ?s1)" for e by (simp add: ctl_ok_cong [of "tell_peers e ?s1" ?s1])
  with \<open>ctl_ok ?s1\<close> assms show ?thesis by (simp add: disconnect_worker_def Let_def split: option.split)
qed

lemma draining_ok: "ctl_ok (cx_state ctx) \<Longrightarrow> ctl_ok (cx_state (worker_draining wid ctx))"
  by (simp add: worker_draining_def Let_def modify_worker_ok same_pool_def)

lemma heartbeat_stats_ok:
  assumes ok: "ctl_ok (cx_state ctx)"
  shows "ctl_ok (cx_state (heartbeat_stats ev wid stats ctx))"
proof -
  have same: "cx_state (record_worker_stats wid stats (push_history stats ctx)) = cx_state ctx"
    by (simp add: record_worker_stats_def push_history_def)
  have upd: "same_request (fst (update_job_stats ev m idle st job)) job \<and> ji_id (fst (update_job_stats ev m idle st job)) = ji_id job"
    for m idle st job by (auto simp: update_job_stats_def Let_def same_request_def split_def split: option.splits)
  have "all_booked (cx_state (heartbeat_stats ev wid stats ctx))"
    by (rule books_mono [of _ "cx_state ctx"])
      (use ok upd update_job_stats_allocation in \<open>auto simp: ctl_ok_def heartbeat_stats_def Let_def same split_def carried_def
        split: option.splits if_splits\<close>)
  then show ?thesis using ok by (simp add: ctl_ok_def heartbeat_stats_alloc_inv)
qed

text \<open>The capacity a known worker reports does not change.\<close>

definition same_capacity :: "string \<Rightarrow> resources \<Rightarrow> global_state \<Rightarrow> bool" where
  "same_capacity wid res s = (case hm_get (gs_workers s) wid of None \<Rightarrow> True
     | Some w \<Rightarrow> rs_cpu_cores res = rs_cpu_cores (wh_resources w) \<and> rs_gres res = rs_gres (wh_resources w))"

lemma heartbeat_ok:
  assumes ok: "ctl_ok (cx_state ctx)" and cap: "same_capacity wid res (cx_state ctx)"
  shows "ctl_ok (cx_state (heartbeat ev wid cid res stats ctx))"
proof (cases "\<exists>w. hm_get (gs_workers (cx_state ctx)) wid = Some w \<and> wh_connection_id w = cid")
  case True
  then obtain w where w: "hm_get (gs_workers (cx_state ctx)) wid = Some w" "wh_connection_id w = cid" by blast
  define s1 where "s1 = cx_state ctx\<lparr>gs_workers := hm_insert wid (w\<lparr>wh_resources := res, wh_last_seen := ev_now ev\<rparr>) (gs_workers (cx_state ctx))\<rparr>"
  define p where "p = reconcile_missing_worker_jobs ev wid (remdups (map jst_job_id stats)) (ev_now ev) (cx_missing_jobs ctx, s1)"
  have "alloc_inv s1" unfolding s1_def
    by (rule alloc_inv_workers) (use ok cap w in \<open>auto simp: ctl_ok_def alloc_inv_def same_pool_def same_capacity_def split: if_splits\<close>)
  moreover have "all_booked s1"
    by (rule books_mono [of _ "cx_state ctx"])
      (use ok w in \<open>auto simp: ctl_ok_def s1_def carried_def keeps_def\<close>)
  ultimately have "ctl_ok (snd p)" unfolding p_def by (intro reconcile_ok) (simp add: ctl_ok_def)
  then have "ctl_ok (cx_state (fold (heartbeat_stats ev wid) stats (ctx\<lparr>cx_state := snd p, cx_missing_jobs := fst p\<rparr>)))"
    by (intro fold_inv [where P = "\<lambda>c. ctl_ok (cx_state c)"] heartbeat_stats_ok) simp_all
  then show ?thesis using w by (simp add: heartbeat_def Let_def split_def s1_def [symmetric] p_def [symmetric])
next
  case False
  then show ?thesis using ok by (auto simp: heartbeat_def split: option.split)
qed

section \<open>Registration\<close>

lemma booked_recorded:
  assumes ok: "ctl_ok s" and w: "hm_get (gs_workers s) wid = Some w"
  shows "rec_cores wid (gs_jobs s) j = [] \<or> rec_cores wid (gs_jobs s) j = cores_of w j"
    "rec_gres wid (gs_jobs s) name j = [] \<or> rec_gres wid (gs_jobs s) name j = gres_of w name j"
    "rec_gres_entry wid (gs_jobs s) j = Some m \<Longrightarrow> hm_get (wh_job_gres_assignments w) j = Some m"
proof -
  have b: "hm_get (wh_job_core_assignments w) j = hm_get (ji_allocated_cores job) wid \<and>
      hm_get (wh_job_gres_assignments w) j = hm_get (ji_allocated_gres job) wid"
    if "hm_get (gs_jobs s) j = Some job" "runs_on wid job" for job
    using ok w that by (fastforce simp: ctl_ok_def books_def booked_def runs_on_def)
  show "rec_cores wid (gs_jobs s) j = [] \<or> rec_cores wid (gs_jobs s) j = cores_of w j"
    "rec_gres wid (gs_jobs s) name j = [] \<or> rec_gres wid (gs_jobs s) name j = gres_of w name j"
    "rec_gres_entry wid (gs_jobs s) j = Some m \<Longrightarrow> hm_get (wh_job_gres_assignments w) j = Some m"
    using b by (auto simp: rec_cores_def rec_core_entry_def rec_gres_def rec_gres_entry_def cores_of_def gres_of_def
        split: option.splits if_splits)
qed

lemma disjoint_ids_sub:
  assumes "pool_ok P av f" "\<And>j. g j = [] \<or> g j = f j"
  shows "disjoint_ids P g"
proof -
  have f: "distinct (f j)" "x \<in> set (f j) \<Longrightarrow> P x" "j \<noteq> k \<Longrightarrow> set (f j) \<inter> set (f k) = {}" for j k x
    using assms(1) by (auto simp: pool_ok_def)
  have "distinct (g j)" "x \<in> set (g j) \<Longrightarrow> P x" "j \<noteq> k \<Longrightarrow> set (g j) \<inter> set (g k) = {}" for j k x
    using assms(2) [of j] assms(2) [of k] f(1) [of j] f(2) [of x j] f(3) [of j k] by auto
  then show ?thesis by (simp add: disjoint_ids_def)
qed

lemma ctl_ok_recorded:
  assumes ok: "ctl_ok s" and cap: "same_capacity wid res s" and wf: "hm_wf (rs_gres res)"
  shows "recorded_ok wid res (gs_jobs s)"
proof -
  have keyed: "keyed (gs_jobs s)"
    using ok by (auto simp: keyed_def ctl_ok_def alloc_inv_def books_def hm_get_iff)
  show ?thesis
  proof (cases "hm_get (gs_workers s) wid")
    case None
    have "\<not> runs_on wid job" if "hm_get (gs_jobs s) j = Some job" for j job
      using ok None that by (fastforce simp: ctl_ok_def books_def booked_def runs_on_def)
    then have e: "rec_core_entry wid (gs_jobs s) j = None" "rec_gres_entry wid (gs_jobs s) j = None" for j
      by (auto simp: rec_core_entry_def rec_gres_entry_def split: option.split)
    show ?thesis using keyed wf by (simp add: recorded_ok_def e rec_cores_def rec_gres_def disjoint_ids_def)
  next
    case (Some w)
    have wok: "worker_ok w" using ok Some by (auto simp: ctl_ok_def alloc_inv_def)
    have c: "rs_cpu_cores res = rs_cpu_cores (wh_resources w)" "res_limit res name = gres_limit w name" for name
      using cap Some by (simp_all add: same_capacity_def res_limit_def gres_limit_def)
    note b = booked_recorded [OF ok Some]
    have "hm_wf m" if "rec_gres_entry wid (gs_jobs s) j = Some m" for j m
      using b(3) [OF that] wok by (auto simp: worker_ok_def tables_ok_def)
    moreover have "disjoint_ids (\<lambda>x. x < rs_cpu_cores res) (rec_cores wid (gs_jobs s))"
      by (rule disjoint_ids_sub [OF _ b(1)]) (use wok c in \<open>auto simp: worker_ok_def cores_ok_def\<close>)
    moreover have "disjoint_ids (\<lambda>i. unat i < res_limit res name) (rec_gres wid (gs_jobs s) name)" for name
      by (rule disjoint_ids_sub [OF _ b(2)]) (use wok c in \<open>auto simp: worker_ok_def gres_ok_def\<close>)
    ultimately show ?thesis using keyed wf by (simp add: recorded_ok_def)
  qed
qed

lemma register_ok:
  assumes ok: "ctl_ok (cx_state ctx)" and cap: "same_capacity wid res (cx_state ctx)" and wf: "hm_wf (rs_gres res)"
  shows "ctl_ok (cx_state (register_worker ev wid addr hostname res features tx cid ctx))"
proof -
  let ?s = "cx_state ctx"
  have rec: "recorded_ok wid res (gs_jobs ?s)" by (rule ctl_ok_recorded [OF ok cap wf])
  have k: "keyed (gs_jobs ?s)" using rec by (simp add: recorded_ok_def)
  let ?w = "\<lambda>p. registered_handle ev wid addr hostname res features tx cid p (gs_jobs ?s)"
  have f: "wh_assigned_jobs (?w p) = ra_assigned_jobs (rebuild_worker_allocations wid res (gs_jobs ?s))"
    "wh_job_core_assignments (?w p) = ra_job_core_assignments (rebuild_worker_allocations wid res (gs_jobs ?s))"
    "wh_job_gres_assignments (?w p) = ra_job_gres_assignments (rebuild_worker_allocations wid res (gs_jobs ?s))" for p
    by (simp_all add: registered_handle_def Let_def)
  have new: "booked (hm_insert wid (?w p) (gs_workers ?s)) j job wid"
    if "hm_get (gs_jobs ?s) j = Some job" "runs_on wid job" for j job p
    using that rebuild_tables [OF k, of wid res] by (auto simp: booked_def f rec_core_entry_def rec_gres_entry_def)
  have old: "booked (hm_insert wid (?w p) (gs_workers ?s)) j job i" if "i \<noteq> wid" "booked (gs_workers ?s) j job i" for p j job i
    using that by (auto simp: booked_def)
  have "booked (hm_insert wid (?w p) (gs_workers ?s)) j job i"
    if "hm_get (gs_jobs ?s) j = Some job" "ji_status job = Running" "i \<in> set (ji_assigned_workers job)" for p j job i
    using ok that new [of j job p] old [of i j job p]
    by (cases "i = wid") (auto simp: ctl_ok_def books_def runs_on_def)
  then have "all_booked (?s\<lparr>gs_workers := hm_insert wid (?w p) (gs_workers ?s)\<rparr>)" for p
    using ok by (auto simp: ctl_ok_def books_def)
  from this [of "case hm_get (gs_workers ?s) wid of Some w \<Rightarrow> wh_current_pulse_interval w | None \<Rightarrow> 2"]
  have "all_booked (cx_state (register_worker ev wid addr hostname res features tx cid ctx))"
    by (rule books_cong [THEN iffD2, rotated 2]) (simp_all add: register_worker_def Let_def notify_one_def)
  then show ?thesis using register_alloc_inv rec ok by (simp add: ctl_ok_def)
qed

section \<open>Scheduling\<close>

lemma start_job_books:
  assumes st: "start_job ev j job ids js s = Inr s'" and ok: "ctl_ok s"
    and sel: "selection_ok s job now ids js" and job: "hm_get (gs_jobs s) j = Some job0" "ji_status job0 \<noteq> Running"
  shows "all_booked s'"
proof -
  let ?s1 = "fold preempt_job js s"
  from st obtain a where
    al: "allocate_on j job ids \<lparr>al_workers = gs_workers ?s1, al_cores = [], al_gres = [], al_node_list_ips = []\<rparr> = Inr a"
    and ws: "gs_workers s' = al_workers a" and js: "gs_jobs s' = hm_modify j (started ev ids a) (gs_jobs ?s1)"
    by (rule start_job_result)
  have b1: "all_booked ?s1" and i1: "alloc_inv ?s1" using ok preempt_all_books by (auto simp: ctl_ok_def)
  have j1: "hm_get (gs_jobs ?s1) j = Some job0" using job by (rule preempt_all_pending_job)
  have d: "distinct ids" and ex: "\<forall>k\<in>set js. hm_get (gs_jobs s) k \<noteq> None"
    using sel by (auto simp: selection_ok_def)
  have sel1: "\<exists>w' c g. hm_get (al_workers a) i = Some w' \<and> alloc_worker j job w1 = Inr (w', c, g) \<and>
      hm_get (al_cores a) i = Some c \<and> hm_get (al_gres a) i = Some g"
    if "i \<in> set ids" "hm_get (gs_workers ?s1) i = Some w1" for i w1
    using allocate_on_selected [OF al d that(1)] that(2) by auto
  have keep: "keeps (gs_workers ?s1) (gs_workers s') k" if "k \<noteq> j" for k
    unfolding keeps_def ws
  proof (intro allI impI)
    fix i w1 assume w1: "hm_get (gs_workers ?s1) i = Some w1" "k \<in> set (wh_assigned_jobs w1)"
    show "\<exists>w'. hm_get (al_workers a) i = Some w' \<and> k \<in> set (wh_assigned_jobs w') \<and>
        hm_get (wh_job_core_assignments w') k = hm_get (wh_job_core_assignments w1) k \<and>
        hm_get (wh_job_gres_assignments w') k = hm_get (wh_job_gres_assignments w1) k"
    proof (cases "i \<in> set ids")
      case True
      from sel1 [OF True w1(1)] obtain w' c g where "hm_get (al_workers a) i = Some w'" "alloc_worker j job w1 = Inr (w', c, g)"
        by blast
      with w1(2) that alloc_worker_fields [OF this(2)] show ?thesis by auto
    next
      case False
      with w1 allocate_on_frame(1) [OF al False] show ?thesis by simp
    qed
  qed
  have new: "booked (gs_workers s') j (started ev ids a job0) i" if i: "i \<in> set ids" for i
  proof -
    from sel i obtain w where "hm_get (gs_workers s) i = Some w" by (auto simp: selection_ok_def)
    from preempt_all_grows [OF _ this ex] ok obtain w1 where w1: "hm_get (gs_workers ?s1) i = Some w1"
      by (auto simp: ctl_ok_def)
    from sel1 [OF i w1] obtain w' c g where "hm_get (al_workers a) i = Some w'" "alloc_worker j job w1 = Inr (w', c, g)"
      "hm_get (al_cores a) i = Some c" "hm_get (al_gres a) i = Some g" by blast
    with alloc_worker_fields [OF this(2)] show ?thesis by (auto simp: booked_def ws started_def)
  qed
  have others: "booked (gs_workers s') k x i" if "k \<noteq> j" "booked (gs_workers ?s1) k x i" for k x i
    using booked_keeps [OF that(2) keep [OF that(1)]] by simp
  show ?thesis unfolding books_def
  proof (intro allI impI)
    fix k x assume x: "hm_get (gs_jobs s') k = Some x"
    show "ji_id x = k \<and> 0 < ji_req_nodes x \<and> hm_wf (ji_gres_req x) \<and>
      (ji_status x = Running \<longrightarrow> (\<forall>i\<in>set (ji_assigned_workers x). booked (gs_workers s') k x i \<or> False))"
    proof (cases "k = j")
      case True
      then have "x = started ev ids a job0" using x j1 by (simp add: js)
      with b1 j1 new True show ?thesis by (auto simp: books_def started_def)
    next
      case False
      then have "hm_get (gs_jobs ?s1) k = Some x" using x by (simp add: js)
      with b1 others False show ?thesis by (auto simp: books_def)
    qed
  qed
qed

lemma reason_light: "light_change (\<lambda>x. x\<lparr>ji_reason := r\<rparr>)"
  "light_change (\<lambda>x. if ji_reason x = r' then x\<lparr>ji_reason := r\<rparr> else x)"
  by (simp_all add: light_change_def same_allocation_def same_request_def)

lemma keep_pending_ctl: "ctl_ok (ps_state ps) \<Longrightarrow> ctl_ok (ps_state (keep_pending j r ps))"
  by (simp add: keep_pending_def set_reason_def modify_job_ok reason_light)

lemma clear_reason_ctl: "ctl_ok s \<Longrightarrow> ctl_ok (clear_waiting_reason j s)"
  by (simp add: clear_waiting_reason_def modify_job_ok reason_light)

lemma schedule_one_ctl:
  assumes st: "schedule_one ev db j ps = Inr ps'" and ok: "ctl_ok (ps_state ps)" and ord: "orders_ok ev"
  shows "ctl_ok (ps_state ps')"
  using st
proof (cases rule: schedule_one_cases)
  case skip
  then show ?thesis using ok by simp
next
  case (wait job r)
  then show ?thesis using ok by (simp add: keep_pending_ctl)
next
  case (block job r t i)
  then show ?thesis using ok by (simp add: keep_pending_ctl clear_reason_ctl)
next
  case (start job ids js s')
  let ?s = "clear_waiting_reason j (ps_state ps)"
  have ok': "ctl_ok ?s" by (rule clear_reason_ctl [OF ok])
  have n: "0 < ji_req_nodes job" using ok start(1) by (auto simp: ctl_ok_def books_def)
  have sel: "selection_ok ?s job (ev_now ev) ids js"
    using ok' by (intro choose_workers_ok [OF _ ord n start(5)]) (simp add: ctl_ok_def alloc_inv_def)
  obtain job0 where job0: "hm_get (gs_jobs ?s) j = Some job0" "ji_status job0 \<noteq> Running"
    using start(1,2) by (auto simp: clear_waiting_jobs)
  have "all_booked s'" by (rule start_job_books [OF start(6) ok' sel job0])
  moreover have "alloc_inv (ps_state ps')"
    using schedule_one_ok [OF ctl_ok_sched_ok [OF ok] ord, of db j] st by (auto simp: sched_ok_def)
  ultimately show ?thesis using start(7) by (simp add: ctl_ok_def)
qed

lemma schedule_loop_ctl:
  "schedule_loop ev db js ps = Inr ps' \<Longrightarrow> ctl_ok (ps_state ps) \<Longrightarrow> orders_ok ev \<Longrightarrow> ctl_ok (ps_state ps')"
  by (induction js arbitrary: ps) (auto split: sum.splits dest: schedule_one_ctl)

lemma schedule_jobs_ctl:
  assumes "schedule_jobs ev db s = Inr s'" "ctl_ok s" "orders_ok ev"
  shows "ctl_ok s'"
proof -
  let ?ps = "\<lparr>ps_state = begin_pass ev s, ps_still_pending = [], ps_top_job_earliest_start = None, ps_top_job_id = None\<rparr>"
  from assms(1) obtain ps where ps: "schedule_loop ev db (sort_pending ev (begin_pass ev s) (gs_queue s)) ?ps = Inr ps"
    "s' = (ps_state ps)\<lparr>gs_queue := ps_still_pending ps\<rparr>"
    by (auto simp: schedule_jobs_def Let_def split: sum.splits)
  have "ctl_ok (begin_pass ev s)"
    by (rule ctl_ok_cong [THEN iffD2, OF _ _ assms(2)]) (simp_all add: begin_pass_def)
  then have "ctl_ok (ps_state ps)" using schedule_loop_ctl [OF ps(1)] assms(3) by simp
  then show ?thesis by (simp add: ps(2) ctl_ok_cong [of "ps_state ps\<lparr>gs_queue := q\<rparr>" "ps_state ps" for q])
qed

end
