(* ===== verification/Steps.thy ===== *)
theory Steps
  imports Finalize
begin

text \<open>
  Job steps (\<open>controller/src/scheduler/steps.rs\<close>): submitting a step inside a running job, choosing the
  steps that fit into the job's cores, and distributing the ranks of a step over the job's workers.
\<close>

section \<open>Submitting and scheduling steps\<close>

definition submit_step :: "u64 \<Rightarrow> string \<Rightarrow> string list \<Rightarrow> usize \<Rightarrow> u32 \<Rightarrow> u32 \<Rightarrow> file_handle list \<Rightarrow>
    (string \<times> string) list \<Rightarrow> global_state \<Rightarrow> global_state \<times> (string + u32)" where
  "submit_step parent_job_id binary args req_nodes req_cores ntasks inputs env_vars s =
     (case hm_get (gs_jobs s) parent_job_id of
        None \<Rightarrow> (s, Inl ''Parent job not found'')
      | Some parent_job \<Rightarrow>
          (if ji_status parent_job \<noteq> Running then (s, Inl ''Parent job is not running'')
           else if ji_assigned_workers parent_job = [] then (s, Inl ''Parent job has no assigned workers'')
           else
             (let step_id = gs_next_step_id s;
                  step_info = \<lparr>si_step_id = step_id, si_parent_job_id = parent_job_id, si_binary = binary,
                    si_args = args, si_status = StepPending, si_req_nodes = req_nodes,
                    si_req_cores = req_cores, si_ntasks = ntasks, si_assigned_workers = [],
                    si_is_idle = False, si_idle_duration = 0, si_inputs = inputs, si_env_vars = env_vars\<rparr>
              in (notify_one (s\<lparr>gs_next_step_id := step_id + 1,
                                 gs_steps := hm_insert (parent_job_id, step_id) step_info (gs_steps s)\<rparr>),
                  Inr step_id))))"

definition job_pending_steps :: "global_state \<Rightarrow> (u64, u32 list) hmap" where
  "job_pending_steps s =
     fold (\<lambda>((jid, sid), step) m. if si_status step = StepPending
             then hm_entry jid [] (\<lambda>l. l @ [sid]) m else m) (gs_steps s) []"

definition running_step_cores :: "global_state \<Rightarrow> u64 \<Rightarrow> u32" where
  "running_step_cores s job_id = sum_list (map (\<lambda>(_, st). si_req_cores st)
     (filter (\<lambda>((jid, _), st). jid = job_id \<and> si_status st = StepRunning) (gs_steps s)))"

fun pick_steps :: "global_state \<Rightarrow> u64 \<Rightarrow> u32 \<Rightarrow> u32 \<Rightarrow> u32 list \<Rightarrow> (u64 \<times> u32) list" where
  "pick_steps s job_id limit used [] = []"
| "pick_steps s job_id limit used (step_id # ids) =
     (case hm_get (gs_steps s) (job_id, step_id) of
        None \<Rightarrow> pick_steps s job_id limit used ids
      | Some step \<Rightarrow>
          (if used + si_req_cores step \<le> limit
           then (job_id, step_id) # pick_steps s job_id limit (used + si_req_cores step) ids
           else pick_steps s job_id limit used ids))"

definition steps_of_job :: "global_state \<Rightarrow> u64 \<Rightarrow> (u64 \<times> u32) list" where
  "steps_of_job s job_id =
     (let step_ids = (case hm_get (job_pending_steps s) job_id of None \<Rightarrow> [] | Some l \<Rightarrow> sort l) in
      case hm_get (gs_jobs s) job_id of
        None \<Rightarrow> []
      | Some parent_job \<Rightarrow>
          (if ji_status parent_job \<noteq> Running then []
           else pick_steps s job_id (ji_req_cores parent_job) (running_step_cores s job_id) step_ids))"

section \<open>Dispatching a step\<close>

fun assign_ranks :: "u32 \<Rightarrow> u32 \<Rightarrow> u32 \<Rightarrow> nat \<Rightarrow> string list \<Rightarrow> (string \<times> u32 list) list" where
  "assign_ranks ranks_per_worker remainder current i [] = []"
| "assign_ranks ranks_per_worker remainder current i (w # ws) =
     (let ranks_to_assign = ranks_per_worker + (if (of_nat i :: u32) < remainder then 1 else 0);
          ranks = map (\<lambda>k. current + of_nat k) [0..<unat ranks_to_assign]
      in (w, ranks) # assign_ranks ranks_per_worker remainder (current + ranks_to_assign) (Suc i) ws)"

definition step_ranks :: "u32 \<Rightarrow> string list \<Rightarrow> (string \<times> u32 list) list" where
  "step_ranks ntasks workers =
     (let num_workers = of_nat (length workers) :: u32
      in assign_ranks (if num_workers > 0 then ntasks div num_workers else ntasks)
           (if num_workers > 0 then ntasks mod num_workers else 0) 0 0 workers)"

definition run_step_message :: "global_state \<Rightarrow> job_info \<Rightarrow> step_info \<Rightarrow> u64 \<Rightarrow> u32 \<Rightarrow> string list \<Rightarrow> u32 list \<Rightarrow> run_step_msg" where
  "run_step_message s parent_job step parent_job_id step_id node_ips ranks = \<lparr>
     rst_parent_job_id = parent_job_id,
     rst_step_id = step_id,
     rst_binary = si_binary step,
     rst_args = si_args step,
     rst_node_list = node_ips,
     rst_assigned_cores = None,
     rst_working_directory = ji_working_directory parent_job,
     rst_user_id = ji_user_id parent_job,
     rst_assigned_ranks = ranks,
     rst_total_ranks = si_ntasks step,
     rst_inputs = si_inputs step,
     rst_allocated_gres = [],
     rst_gres_req = [],
     rst_secret = ji_secret parent_job,
     rst_controller_url = ''https://localhost:'' @ show_u64 (gs_api_port s),
     rst_env_vars = si_env_vars step\<rparr>"

definition node_ips_of :: "global_state \<Rightarrow> string list \<Rightarrow> string list" where
  "node_ips_of s ws = List.map_filter (\<lambda>w. map_option (\<lambda>h. ip_to_string (wh_addr h)) (hm_get (gs_workers s) w)) ws"

definition perform_step_dispatch :: "u64 \<Rightarrow> u32 \<Rightarrow> global_state \<Rightarrow> global_state \<times> (string + unit)" where
  "perform_step_dispatch parent_job_id step_id s =
     (case hm_get (gs_jobs s) parent_job_id of
        None \<Rightarrow> (s, Inl ''Parent job not found'')
      | Some parent_job \<Rightarrow>
          (case hm_get (gs_steps s) (parent_job_id, step_id) of
             None \<Rightarrow> (s, Inl ''Step not found'')
           | Some step \<Rightarrow>
               (let workers_to_use = take (si_req_nodes step) (ji_assigned_workers parent_job);
                    node_ips = node_ips_of s workers_to_use;
                    s1 = s\<lparr>gs_steps := hm_insert (parent_job_id, step_id)
                           (step\<lparr>si_assigned_workers := workers_to_use, si_status := StepRunning\<rparr>) (gs_steps s)\<rparr>
                in (fold (\<lambda>(w, ranks) s.
                      (case hm_get (gs_workers s) w of
                         None \<Rightarrow> s
                       | Some _ \<Rightarrow> send_ignore s w (RunStep
                           (run_step_message s parent_job step parent_job_id step_id node_ips ranks))))
                      (step_ranks (si_ntasks step) workers_to_use) s1, Inr ()))))"

definition schedule_steps :: "env \<Rightarrow> global_state \<Rightarrow> global_state" where
  "schedule_steps ev s =
     (let to_dispatch = concat (map (steps_of_job s) (ev_id_order ev (hm_keys (job_pending_steps s))))
      in fold (\<lambda>(job_id, step_id) s. fst (perform_step_dispatch job_id step_id s)) to_dispatch s)"

section \<open>Ranks\<close>

lemma map_of_nat_upt: "map (\<lambda>k. (of_nat c :: 'a::len word) + of_nat k) [0..<n] = map of_nat [c..<c + n]"
  by (rule nth_equalityI) simp_all

lemma assign_ranks_concat:
  assumes "\<And>k. k < i + length ws \<Longrightarrow> unat (per + (if (of_nat k :: u32) < rm then 1 else 0)) = f k"
  shows "concat (map snd (assign_ranks per rm (of_nat c) i ws)) =
    map of_nat [c..<c + (\<Sum>k\<in>{i..<i + length ws}. f k)]"
  using assms
proof (induction ws arbitrary: i c)
  case (Cons w ws)
  let ?n = "per + (if (of_nat i :: u32) < rm then 1 else 0)"
  have n: "unat ?n = f i" using Cons.prems [of i] by simp
  have step: "of_nat c + ?n = of_nat (c + f i)" by (simp only: of_nat_add flip: n) simp
  have "{i..<i + length (w # ws)} = insert i {Suc i..<Suc i + length ws}" by auto
  then have sum: "(\<Sum>k\<in>{i..<i + length (w # ws)}. f k) = f i + (\<Sum>k\<in>{Suc i..<Suc i + length ws}. f k)" by simp
  have "concat (map snd (assign_ranks per rm (of_nat (c + f i)) (Suc i) ws)) =
      map of_nat [c + f i..<c + f i + (\<Sum>k\<in>{Suc i..<Suc i + length ws}. f k)]"
    using Cons.prems by (intro Cons.IH) simp
  moreover have "[c..<c + f i] @ [c + f i..<c + f i + m] = [c..<c + f i + m]" for m
    by (metis le_add1 upt_add_eq_append add.assoc)
  moreover have "concat (map snd (assign_ranks per rm (of_nat c) i (w # ws))) =
      map (\<lambda>k. of_nat c + of_nat k) [0..<unat ?n] @ concat (map snd (assign_ranks per rm (of_nat c + ?n) (Suc i) ws))"
    by (simp add: Let_def)
  ultimately show ?case
    by (simp only: n step map_of_nat_upt sum add.assoc [where 'a = nat, symmetric] flip: map_append)
qed simp

lemma sum_extra: "(\<Sum>k\<in>{0..<n}. q + (if k < r then 1 else 0)) = n * q + min n r" for n q r :: nat
  by (induction n) (auto simp: min_def)

lemma step_ranks_all:
  assumes "ws \<noteq> []" "length ws < 2 ^ 32"
  shows "concat (map snd (step_ranks ntasks ws)) = map of_nat [0..<unat ntasks]"
proof -
  let ?n = "of_nat (length ws) :: u32"
  have un: "unat ?n = length ws" using assms(2) by (simp add: unat_of_nat)
  have pos: "?n > 0" using assms(1) un by (simp add: word_less_nat_alt)
  define q where "q = unat ntasks div length ws"
  define r where "r = unat ntasks mod length ws"
  have qr: "length ws * q + r = unat ntasks" "r < length ws" using assms(1) by (simp_all add: q_def r_def)
  have uq: "unat (ntasks div ?n) = q" "unat (ntasks mod ?n) = r"
    by (simp_all add: q_def r_def unat_div_distrib unat_mod_distrib un)
  have f: "unat (ntasks div ?n + (if (of_nat k :: u32) < ntasks mod ?n then 1 else 0)) = q + (if k < r then 1 else 0)"
    if "k < length ws" for k
  proof -
    have lt: "((of_nat k :: u32) < ntasks mod ?n) = (k < r)"
      using that assms(2) by (simp add: word_less_nat_alt uq(2) unat_of_nat)
    have "q + 1 < 2 ^ 32" if "k < r"
    proof -
      have "q + 1 \<le> length ws * q + r" using that qr(2) assms(1) by (cases ws) auto
      also have "\<dots> < 2 ^ 32" using qr(1) unsigned_less [where 'a = nat, of ntasks] by simp
      finally show ?thesis .
    qed
    then show ?thesis unfolding lt by (auto simp: uq(1) unat_add_no_wrap)
  qed
  have "concat (map snd (assign_ranks (ntasks div ?n) (ntasks mod ?n) (of_nat 0) 0 ws)) =
      map of_nat [0..<0 + (\<Sum>k\<in>{0..<0 + length ws}. q + (if k < r then 1 else 0))]"
    by (rule assign_ranks_concat) (use f in simp)
  also have "(\<Sum>k\<in>{0..<0 + length ws}. q + (if k < r then 1 else 0)) = unat ntasks"
    using qr by (simp add: sum_extra)
  finally show ?thesis using pos by (simp add: step_ranks_def Let_def)
qed

lemma step_ranks_workers: "map fst (step_ranks ntasks ws) = ws"
proof -
  have "map fst (assign_ranks a b c i ws) = ws" for a b c i
    by (induction ws arbitrary: c i) (simp_all add: Let_def)
  then show ?thesis by (simp add: step_ranks_def Let_def)
qed

section \<open>Capacity\<close>

definition step_cores :: "global_state \<Rightarrow> u64 \<times> u32 \<Rightarrow> nat" where
  "step_cores s k = (case hm_get (gs_steps s) k of None \<Rightarrow> 0 | Some st \<Rightarrow> unat (si_req_cores st))"

lemma pick_steps_capacity:
  assumes "\<forall>i. step_cores s (job_id, i) + unat limit < 2 ^ 32" "unat used \<le> unat limit"
  shows "unat used + sum_list (map (step_cores s) (pick_steps s job_id limit used ids)) \<le> unat limit"
  using assms(2)
proof (induction ids arbitrary: used)
  case (Cons i ids)
  show ?case
  proof (cases "hm_get (gs_steps s) (job_id, i)")
    case (Some st)
    have "unat used + unat (si_req_cores st) < 2 ^ 32"
      using spec [OF assms(1), of i] Cons.prems Some by (simp add: step_cores_def)
    then have u: "unat (used + si_req_cores st) = unat used + unat (si_req_cores st)"
      by (simp add: unat_add_no_wrap)
    show ?thesis
    proof (cases "used + si_req_cores st \<le> limit")
      case True
      then have "unat (used + si_req_cores st) \<le> unat limit" by (simp add: word_le_nat_alt)
      from Cons.IH [OF this] Some True u show ?thesis by (simp add: step_cores_def)
    next
      case False
      then show ?thesis using Cons Some by simp
    qed
  qed (use Cons in simp)
qed simp

end
