(* ===== verification/Accounting.thy ===== *)
theory Accounting
  imports Persistence
begin

text \<open>
  The accounting stores of \<open>controller/src/accounting.rs\<close>: the append-only file of length-prefixed
  records, the conversion of statuses and QoS levels to the text columns of the SQL store, and the
  store that buffers records while the primary one fails.

  \<open>bincode\<close> is outside the repository: \<open>codec\<close> is the pair of its functions on \<open>JobUsage\<close>, and what
  the code relies on is \<open>codec_ok\<close> (what was serialized deserializes to the same record). The primary
  store of \<open>ResilientAccountingStore\<close> is any store: a function from its state and a record to the new
  state or a failure.
\<close>

section \<open>The record file\<close>

datatype history_filter = HfSingle u64 | HfRange u64 u64 | HfAll

record codec =
  bc_serialize :: "job_usage \<Rightarrow> string option"
  bc_deserialize :: "string \<Rightarrow> job_usage option"

definition codec_ok :: "codec \<Rightarrow> bool" where
  "codec_ok c = (\<forall>u b. bc_serialize c u = Some b \<longrightarrow> bc_deserialize c b = Some u)"

definition MAX_RECORD_SIZE :: nat where
  "MAX_RECORD_SIZE = 100 * 1024 * 1024"

text \<open>\<open>u64::to_le_bytes\<close> and \<open>u64::from_le_bytes\<close>.\<close>

fun le_bytes :: "nat \<Rightarrow> nat \<Rightarrow> string" where
  "le_bytes 0 n = []"
| "le_bytes (Suc k) n = char_of (n mod 256) # le_bytes k (n div 256)"

fun from_le_bytes :: "string \<Rightarrow> nat" where
  "from_le_bytes [] = 0"
| "from_le_bytes (c # cs) = of_char c + 256 * from_le_bytes cs"

text \<open>
  \<open>FileAccountingStore::record_job\<close>: the new content of the file, or \<open>None\<close> when it cannot be opened.
  A record that does not serialize is dropped silently. \<open>write_all\<close> is assumed to write everything.
\<close>

definition file_record_job :: "job_secrets_cipher \<Rightarrow> nat \<Rightarrow> codec \<Rightarrow> bool \<Rightarrow> job_usage \<Rightarrow> string \<Rightarrow> string option" where
  "file_record_job jc nonce c open_ok r file =
     (let stored = seal_usage_secret jc nonce r in
      case bc_serialize c stored of
        None \<Rightarrow> Some file
      | Some encoded \<Rightarrow>
          (if open_ok then Some (file @ le_bytes 8 (length encoded) @ encoded) else None))"

text \<open>The reading loop: it stops at a short read or at a length beyond the limit.\<close>

function read_records :: "codec \<Rightarrow> string \<Rightarrow> job_usage list" where
  "read_records c file =
     (if length file < 8 then []
      else (let len = from_le_bytes (take 8 file); rest = drop 8 file in
            if len > MAX_RECORD_SIZE then []
            else if length rest < len then []
            else (case bc_deserialize c (take len rest) of None \<Rightarrow> [] | Some u \<Rightarrow> [u])
                 @ read_records c (drop len rest)))"
  by auto
termination by (relation "measure (\<lambda>(c, file). length file)") auto

declare read_records.simps [simp del]

fun included :: "history_filter \<Rightarrow> job_usage \<Rightarrow> bool" where
  "included HfAll u = True"
| "included (HfSingle i) u = (ju_job_id u = i)"
| "included (HfRange a b) u = (a \<le> ju_job_id u \<and> ju_job_id u \<le> b)"

definition collapse :: "job_usage \<Rightarrow> (u64, job_usage) hmap \<Rightarrow> (u64, job_usage) hmap" where
  "collapse usage by_job =
     (case hm_get by_job (ju_job_id usage) of
        Some prev \<Rightarrow> hm_insert (ju_job_id usage) (usage\<lparr>ju_worker_log_files :=
            merge_worker_log_file_maps (ju_worker_log_files prev) (ju_worker_log_files usage)\<rparr>) by_job
      | None \<Rightarrow> hm_insert (ju_job_id usage) usage by_job)"

definition file_query_history :: "job_secrets_cipher \<Rightarrow> codec \<Rightarrow> history_filter \<Rightarrow> string \<Rightarrow> job_usage list" where
  "file_query_history jc c f file =
     hm_values (fold collapse (filter (included f) (map (open_usage_secret jc) (read_records c file))) [])"

section \<open>Text columns of the SQL store\<close>

fun status_str :: "job_status \<Rightarrow> string" where
  "status_str Pending = ''Pending''"
| "status_str Running = ''Running''"
| "status_str (Completed code) = ''Completed('' @ show_int code @ '')''"
| "status_str (Failed err) = ''Failed('' @ err @ '')''"
| "status_str Killed = ''Cancelled''"

definition parse_job_status :: "string \<Rightarrow> i32 option \<Rightarrow> job_status" where
  "parse_job_status s exit_code =
     (if s = ''Pending'' then Pending
      else if s = ''Running'' then Running
      else if s = ''Cancelled'' \<or> s = ''Killed'' then Killed
      else if starts_with s ''Failed''
        then Failed (trim_end_matches CHR '')'' (trim_start_matches ''Failed('' s))
      else Completed (case exit_code of None \<Rightarrow> 0 | Some e \<Rightarrow> e))"

fun qos_str :: "qos_level \<Rightarrow> string" where
  "qos_str Interactive = ''Interactive''"
| "qos_str Production = ''Production''"
| "qos_str Preemptible = ''Preemptible''"
| "qos_str Background = ''Background''"

definition parse_qos_level :: "string \<Rightarrow> qos_level" where
  "parse_qos_level s =
     (if s = ''Interactive'' then Interactive
      else if s = ''Preemptible'' then Preemptible
      else if s = ''Background'' then Background else Production)"

section \<open>The resilient store\<close>

record 's resilient =
  rl_inner :: 's
  rl_buffer :: "job_usage list"
  rl_file :: string

definition RETRY_BUFFER_LIMIT :: nat where
  "RETRY_BUFFER_LIMIT = 1000"

definition buffer_record :: "job_usage \<Rightarrow> job_usage list \<Rightarrow> job_usage list" where
  "buffer_record r buf = (if length buf < RETRY_BUFFER_LIMIT then buf @ [r] else tl buf @ [r])"

text \<open>\<open>inner r st\<close> is \<open>None\<close> when the primary store answers with an error.\<close>

definition resilient_record_job :: "(job_usage \<Rightarrow> 's \<Rightarrow> 's option) \<Rightarrow> job_secrets_cipher \<Rightarrow> nat \<Rightarrow> codec \<Rightarrow> bool \<Rightarrow>
    job_usage \<Rightarrow> 's resilient \<Rightarrow> 's resilient" where
  "resilient_record_job inner jc nonce c open_ok r st =
     (case inner r (rl_inner st) of
        Some i \<Rightarrow> st\<lparr>rl_inner := i\<rparr>
      | None \<Rightarrow> st\<lparr>rl_buffer := buffer_record r (rl_buffer st),
                   rl_file := (case file_record_job jc nonce c open_ok r (rl_file st) of
                                 Some f \<Rightarrow> f | None \<Rightarrow> rl_file st)\<rparr>)"

fun retry_all :: "(job_usage \<Rightarrow> 's \<Rightarrow> 's option) \<Rightarrow> job_usage list \<Rightarrow> 's \<times> job_usage list \<Rightarrow> 's \<times> job_usage list" where
  "retry_all inner [] acc = acc"
| "retry_all inner (r # rs) (i, failed) =
     (case inner r i of
        Some i' \<Rightarrow> retry_all inner rs (i', failed)
      | None \<Rightarrow> retry_all inner rs (i, failed @ [r]))"

text \<open>
  One round of the background task. \<open>meanwhile\<close> are the records buffered between the drain and the
  moment the failed ones are pushed back in front of them.
\<close>

definition flush_buffer :: "(job_usage \<Rightarrow> 's \<Rightarrow> 's option) \<Rightarrow> job_usage list \<Rightarrow> 's resilient \<Rightarrow> 's resilient" where
  "flush_buffer inner meanwhile st =
     (let to_retry = rl_buffer st; (i, failed) = retry_all inner to_retry (rl_inner st, [])
      in st\<lparr>rl_inner := i, rl_buffer := failed @ meanwhile\<rparr>)"

definition resilient_query_history :: "('s \<Rightarrow> history_filter \<Rightarrow> job_usage list option) \<Rightarrow> job_secrets_cipher \<Rightarrow> codec \<Rightarrow>
    history_filter \<Rightarrow> 's resilient \<Rightarrow> job_usage list" where
  "resilient_query_history inner_query jc c f st =
     (case inner_query (rl_inner st) f of
        Some results \<Rightarrow> results
      | None \<Rightarrow> file_query_history jc c f (rl_file st))"


section \<open>What the file returns\<close>

lemma length_le_bytes [simp]: "length (le_bytes k n) = k"
  by (induction k arbitrary: n) auto

lemma from_le_bytes_le_bytes: "n < 256 ^ k \<Longrightarrow> from_le_bytes (le_bytes k n) = n"
proof (induction k arbitrary: n)
  case (Suc k)
  then have "n div 256 < 256 ^ k" by (simp add: less_mult_imp_div_less mult.commute)
  with Suc.IH show ?case by simp
qed simp

definition frame :: "string \<Rightarrow> string" where
  "frame b = le_bytes 8 (length b) @ b"

lemma read_records_frame:
  assumes "length b \<le> MAX_RECORD_SIZE"
  shows "read_records c (frame b @ rest) =
    (case bc_deserialize c b of None \<Rightarrow> [] | Some u \<Rightarrow> [u]) @ read_records c rest"
proof -
  have "from_le_bytes (le_bytes 8 (length b)) = length b"
    using assms by (intro from_le_bytes_le_bytes) (simp add: MAX_RECORD_SIZE_def)
  then show ?thesis using assms by (subst read_records.simps) (simp add: frame_def Let_def)
qed

lemma read_records_oversized:
  assumes "MAX_RECORD_SIZE < length b" "length b < 256 ^ 8"
  shows "read_records c (frame b @ rest) = []"
  using assms from_le_bytes_le_bytes [OF assms(2)] by (subst read_records.simps) (simp add: frame_def Let_def)

lemma read_records_frames:
  "list_all (\<lambda>b. length b \<le> MAX_RECORD_SIZE) bs \<Longrightarrow>
     read_records c (concat (map frame bs) @ rest) = List.map_filter (bc_deserialize c) bs @ read_records c rest"
  by (induction bs) (auto simp: read_records_frame map_filter_simps split: option.splits)

lemma read_records_Nil [simp]: "read_records c [] = []"
  by (subst read_records.simps) simp

text \<open>Recording one record after another; \<open>nrs\<close> pairs each record with its nonce.\<close>

definition record_all :: "job_secrets_cipher \<Rightarrow> codec \<Rightarrow> (nat \<times> job_usage) list \<Rightarrow> string \<Rightarrow> string" where
  "record_all jc c nrs file =
     fold (\<lambda>(n, r) f. case file_record_job jc n c True r f of Some f' \<Rightarrow> f' | None \<Rightarrow> f) nrs file"

definition storable :: "job_secrets_cipher \<Rightarrow> codec \<Rightarrow> nat \<times> job_usage \<Rightarrow> bool" where
  "storable jc c = (\<lambda>(n, r). \<not> is_encrypted (ju_secret r) \<and>
     (case bc_serialize c (seal_usage_secret jc n r) of None \<Rightarrow> False | Some b \<Rightarrow> length b \<le> MAX_RECORD_SIZE))"

definition encoded :: "job_secrets_cipher \<Rightarrow> codec \<Rightarrow> nat \<times> job_usage \<Rightarrow> string" where
  "encoded jc c = (\<lambda>(n, r). the (bc_serialize c (seal_usage_secret jc n r)))"

lemma record_all_frames:
  "list_all (storable jc c) nrs \<Longrightarrow> record_all jc c nrs fl = fl @ concat (map (frame \<circ> encoded jc c) nrs)"
  unfolding record_all_def
  by (induction nrs arbitrary: fl)
    (auto simp: file_record_job_def storable_def encoded_def frame_def Let_def split: option.splits)

lemma open_stored:
  assumes "\<forall>a. jc = Some a \<longrightarrow> aead_ok a" "codec_ok c" "storable jc c (n, r)"
  shows "map_option (open_usage_secret jc) (bc_deserialize c (encoded jc c (n, r))) = Some r"
proof -
  obtain b where "bc_serialize c (seal_usage_secret jc n r) = Some b" and p: "\<not> is_encrypted (ju_secret r)"
    using assms(3) by (auto simp: storable_def split: option.splits)
  with assms(2) have "bc_deserialize c (encoded jc c (n, r)) = Some (seal_usage_secret jc n r)"
    by (simp add: codec_ok_def encoded_def)
  then show ?thesis
    by (simp add: open_usage_secret_def seal_usage_secret_def opened_sealed [OF assms(1) p])
qed

lemma read_back:
  assumes "\<forall>a. jc = Some a \<longrightarrow> aead_ok a" "codec_ok c" "list_all (storable jc c) nrs"
  shows "map (open_usage_secret jc) (read_records c (record_all jc c nrs [])) = map snd nrs"
proof -
  have "read_records c (concat (map frame (map (encoded jc c) nrs)) @ []) =
      List.map_filter (bc_deserialize c) (map (encoded jc c) nrs) @ read_records c []"
    using assms(3) by (intro read_records_frames) (auto simp: list_all_iff storable_def encoded_def split: option.splits)
  moreover have "map (open_usage_secret jc) (List.map_filter (bc_deserialize c) (map (encoded jc c) nrs)) = map snd nrs"
    using assms(3)
  proof (induction nrs)
    case (Cons p nrs)
    then show ?case using open_stored [OF assms(1,2), of "fst p" "snd p"]
      by (cases p) (auto simp: map_filter_simps split: option.splits)
  qed (simp add: map_filter_simps)
  ultimately show ?thesis by (simp add: record_all_frames [OF assms(3)])
qed

text \<open>The latest row, with the log files of all rows of the job.\<close>

definition latest :: "job_usage list \<Rightarrow> job_usage" where
  "latest us = (last us)\<lparr>ju_worker_log_files :=
     foldl merge_worker_log_file_maps (ju_worker_log_files (hd us)) (map ju_worker_log_files (tl us))\<rparr>"

lemma latest_snoc: "us \<noteq> [] \<Longrightarrow>
  latest (us @ [u]) = u\<lparr>ju_worker_log_files := merge_worker_log_file_maps (ju_worker_log_files (latest us)) (ju_worker_log_files u)\<rparr>"
  by (simp add: latest_def)

lemma collapse_get:
  "hm_get (fold collapse us []) i =
     (let mine = filter (\<lambda>u. ju_job_id u = i) us in if mine = [] then None else Some (latest mine))"
proof (induction us rule: rev_induct)
  case (snoc u us)
  then show ?case
    by (auto simp: collapse_def Let_def latest_snoc latest_def filter_empty_conv split: option.splits if_splits)
qed simp

lemma collapse_wf: "hm_wf m \<Longrightarrow> hm_wf (fold collapse us m)"
  by (induction us arbitrary: m) (auto simp: collapse_def split: option.splits)

lemma set_hm_values: "hm_wf m \<Longrightarrow> set (hm_values m) = {v. \<exists>k. hm_get m k = Some v}"
  by (force simp: hm_values_def hm_get_iff)

text \<open>
  C18: Records written to the accounting file are read back. After any sequence of recorded usage
  reports that serialize within the record limit, a query returns, for every job whose id the filter
  selects and that has a record, exactly one row: its latest record, with the launch secret in plain
  text and the per-worker log files of all its records merged.
\<close>

theorem accounting_file_roundtrip:
  assumes "\<forall>a. jc = Some a \<longrightarrow> aead_ok a" and "codec_ok c" and "list_all (storable jc c) nrs"
  shows "set (file_query_history jc c f (record_all jc c nrs [])) =
    {latest rows | rows i. rows = filter (\<lambda>u. included f u \<and> ju_job_id u = i) (map snd nrs) \<and> rows \<noteq> []}"
proof -
  let ?us = "filter (included f) (map snd nrs)"
  have "set (hm_values (fold collapse ?us [])) = {v. \<exists>k. hm_get (fold collapse ?us []) k = Some v}"
    by (rule set_hm_values) (simp add: collapse_wf)
  also have "\<dots> = {latest rows | rows i. rows = filter (\<lambda>u. ju_job_id u = i) ?us \<and> rows \<noteq> []}"
    by (auto simp: collapse_get Let_def simp del: filter_filter filter_map split: if_splits)
  finally show ?thesis by (simp add: file_query_history_def read_back [OF assms])
qed


text \<open>One concrete codec for the witness: the decimal job id in front of a fixed record.\<close>

definition sample_usage :: "u64 \<Rightarrow> job_usage" where
  "sample_usage i = job_to_usage (sample_job i\<lparr>ji_status := Completed 0\<rparr>)"

definition sample_codec :: codec where
  "sample_codec = \<lparr>bc_serialize = (\<lambda>u. if u = sample_usage (ju_job_id u) then Some (show_u64 (ju_job_id u)) else None),
     bc_deserialize = (\<lambda>b. map_option sample_usage (parse_u64 b))\<rparr>"

lemma sample_codec_ok: "codec_ok sample_codec"
  by (auto simp: codec_ok_def sample_codec_def split: if_splits)

lemma sample_usage_storable: "storable None sample_codec (0, sample_usage 4)"
  by (simp add: storable_def sample_codec_def seal_usage_secret_def sealed_def encrypt_def sample_usage_def job_to_usage_def
      sample_job_def is_encrypted_def starts_with_def SECRET_PREFIX_def show_u64_def show_nat.simps MAX_RECORD_SIZE_def)

theorem accounting_file_roundtrip_witness:
  "codec_ok sample_codec \<and> storable None sample_codec (0, sample_usage 4) \<and>
   sample_usage 4 \<in> set (file_query_history None sample_codec (HfSingle 4)
     (record_all None sample_codec [(0, sample_usage 4)] []))"
proof -
  have "list_all (storable None sample_codec) [(0, sample_usage 4)]" using sample_usage_storable by simp
  from accounting_file_roundtrip [OF _ sample_codec_ok this, of "HfSingle 4"]
  have "set (file_query_history None sample_codec (HfSingle 4) (record_all None sample_codec [(0, sample_usage 4)] [])) =
    {latest rows | rows i. rows = filter (\<lambda>u. included (HfSingle 4) u \<and> ju_job_id u = i) (map snd [(0 :: nat, sample_usage 4)]) \<and> rows \<noteq> []}"
    by simp
  moreover have "ju_job_id (sample_usage 4) = 4" by (simp add: sample_usage_def job_to_usage_def sample_job_def)
  moreover have "latest [sample_usage 4] = sample_usage 4" by (simp add: latest_def)
  ultimately show ?thesis using sample_codec_ok sample_usage_storable by (auto intro!: exI [of _ "[sample_usage 4]"])
qed

text \<open>
  The reader stops at a record beyond the size limit, which the writer does not check: once such a
  record has been appended behind whole records, no record written later is ever returned.
\<close>

theorem oversized_record_hides_later:
  assumes "list_all (storable jc c) nrs" "bc_serialize c (seal_usage_secret jc n r) = Some b"
    and "MAX_RECORD_SIZE < length b" "length b < 256 ^ 8"
  shows "file_query_history jc c f (record_all jc c (nrs @ [(n, r)] @ later) []) =
    file_query_history jc c f (record_all jc c nrs [])"
proof -
  have prefix: "\<exists>rest. record_all jc c later fl = fl @ rest" for fl
    unfolding record_all_def
    by (induction later arbitrary: fl)
      (auto simp: file_record_job_def Let_def split: option.splits, (metis append.assoc)+)
  have nrs: "record_all jc c nrs [] = concat (map frame (map (encoded jc c) nrs))"
    using record_all_frames [OF assms(1), of "[]"] by simp
  have "record_all jc c (nrs @ [(n, r)] @ later) [] = record_all jc c later (record_all jc c nrs [] @ frame b)"
    using assms(2) by (simp add: record_all_def file_record_job_def frame_def)
  then obtain rest where "record_all jc c (nrs @ [(n, r)] @ later) [] = concat (map frame (map (encoded jc c) nrs)) @ frame b @ rest"
    using prefix by (metis append.assoc nrs)
  moreover have "list_all (\<lambda>b. length b \<le> MAX_RECORD_SIZE) (map (encoded jc c) nrs)"
    using assms(1) by (auto simp: list_all_iff storable_def encoded_def split: option.splits)
  ultimately have "read_records c (record_all jc c (nrs @ [(n, r)] @ later) []) =
      List.map_filter (bc_deserialize c) (map (encoded jc c) nrs)"
    "read_records c (record_all jc c nrs []) = List.map_filter (bc_deserialize c) (map (encoded jc c) nrs)"
    using read_records_frames [of "map (encoded jc c) nrs" c "frame b @ rest"]
      read_records_frames [of "map (encoded jc c) nrs" c "[]"] read_records_oversized [OF assms(3,4)] nrs by simp_all
  then show ?thesis by (simp add: file_query_history_def)
qed

theorem oversized_record_hides_later_witness:
  "MAX_RECORD_SIZE < length (replicate (Suc MAX_RECORD_SIZE) CHR ''x'') \<and>
   file_query_history None (sample_codec\<lparr>bc_serialize := \<lambda>u. Some (replicate (Suc MAX_RECORD_SIZE) CHR ''x'')\<rparr>) HfAll
     (record_all None (sample_codec\<lparr>bc_serialize := \<lambda>u. Some (replicate (Suc MAX_RECORD_SIZE) CHR ''x'')\<rparr>)
       ([] @ [(0, sample_usage 4)] @ [(0, sample_usage 5)]) []) =
   file_query_history None (sample_codec\<lparr>bc_serialize := \<lambda>u. Some (replicate (Suc MAX_RECORD_SIZE) CHR ''x'')\<rparr>) HfAll
     (record_all None (sample_codec\<lparr>bc_serialize := \<lambda>u. Some (replicate (Suc MAX_RECORD_SIZE) CHR ''x'')\<rparr>) [] [])"
proof -
  let ?c = "sample_codec\<lparr>bc_serialize := \<lambda>u. Some (replicate (Suc MAX_RECORD_SIZE) CHR ''x'')\<rparr>"
  have 1: "list_all (storable None ?c) []" by simp
  have 2: "bc_serialize ?c (seal_usage_secret None 0 (sample_usage 4)) = Some (replicate (Suc MAX_RECORD_SIZE) CHR ''x'')"
    by (simp del: replicate_Suc)
  have 3: "MAX_RECORD_SIZE < length (replicate (Suc MAX_RECORD_SIZE) CHR ''x'')" by (simp del: replicate_Suc)
  have 4: "length (replicate (Suc MAX_RECORD_SIZE) CHR ''x'') < 256 ^ 8"
    by (simp add: MAX_RECORD_SIZE_def del: replicate_Suc)
  show ?thesis using 3 oversized_record_hides_later [OF 1 2 3 4, of HfAll "[(0, sample_usage 5)]"] by blast
qed

section \<open>Text columns\<close>

text \<open>
  C26: A job's status and QoS level survive the text columns of the SQL store, given the exit code column
  that is stored beside them, except for an error text that ends in a closing parenthesis or starts
  with \<open>Failed(\<close>: all trailing parentheses and leading occurrences are cut.
\<close>

theorem status_columns_roundtrip:
  assumes "\<And>e. st = Failed e \<Longrightarrow> (e = [] \<or> last e \<noteq> CHR '')'') \<and> \<not> starts_with (e @ '')'') ''Failed(''"
  shows "parse_job_status (status_str st) (ju_exit_code (job_to_usage (job\<lparr>ji_status := st\<rparr>))) = st \<and>
    parse_qos_level (qos_str q) = q"
proof
  show "parse_qos_level (qos_str q) = q" by (cases q) (simp_all add: parse_qos_level_def)
  show "parse_job_status (status_str st) (ju_exit_code (job_to_usage (job\<lparr>ji_status := st\<rparr>))) = st"
  proof (cases st)
    case (Failed e)
    have "trim_start_matches ''Failed('' (''Failed('' @ e @ '')'') = e @ '')''"
      using assms [OF Failed] trim_start_matches_prefix [of "''Failed(''" "e @ '')''"]
        trim_start_matches_id [of "e @ '')''" "''Failed(''"] by simp
    then show ?thesis using assms [OF Failed] Failed
      by (simp add: parse_job_status_def starts_with_def trim_end_matches_snoc [simplified] trim_end_matches_id)
  qed (simp_all add: parse_job_status_def starts_with_def job_to_usage_def)
qed

theorem status_columns_roundtrip_witness:
  "parse_job_status (status_str (Failed ''Timeout'')) None = Failed ''Timeout'' \<and>
   parse_job_status (status_str (Failed ''exit (9)'')) None = Failed ''exit (9'' \<and> parse_qos_level (qos_str Background) = Background"
proof -
  have "parse_job_status (status_str (Failed ''Timeout'')) None = Failed ''Timeout'' \<and> parse_qos_level (qos_str Background) = Background"
    using status_columns_roundtrip [of "Failed ''Timeout''" "sample_job 1" Background]
    by (simp add: starts_with_def job_to_usage_def)
  moreover have "parse_job_status (status_str (Failed ''exit (9)'')) None = Failed ''exit (9''"
    by (simp add: parse_job_status_def starts_with_def trim_start_matches.simps trim_end_matches_def)
  ultimately show ?thesis by blast
qed


section \<open>The resilient store\<close>

definition held :: "('s \<Rightarrow> job_usage multiset) \<Rightarrow> 's resilient \<Rightarrow> job_usage multiset" where
  "held recorded st = recorded (rl_inner st) + mset (rl_buffer st)"

lemma retry_all_held:
  assumes "\<And>r i i'. inner r i = Some i' \<Longrightarrow> recorded i' = recorded i + {#r#}"
    and "retry_all inner rs (i, failed) = (i', failed')"
  shows "recorded i' + mset failed' = recorded i + mset failed + mset rs"
  using assms(2)
proof (induction rs arbitrary: i failed)
  case (Cons r rs)
  then show ?case using assms(1) [of r i] by (cases "inner r i") (fastforce simp: ac_simps)+
qed simp

text \<open>
  No accounting record is lost while the primary store is down, as long as at most 1000 records
  wait. Recording adds exactly the new record to what the primary store and the retry buffer hold
  together, and a flush round keeps all of it, re-buffering in front, and in their order, the records
  the primary store still refuses. The premise on the primary store is that a successful insert adds
  the record.
\<close>

theorem resilient_store_loses_nothing:
  assumes inner: "\<And>r i i'. inner r i = Some i' \<Longrightarrow> recorded i' = recorded i + {#r#}"
    and "length (rl_buffer st) < RETRY_BUFFER_LIMIT"
  shows "held recorded (resilient_record_job inner jc n c open_ok r st) = held recorded st + {#r#} \<and>
    held recorded (flush_buffer inner meanwhile st) = held recorded st + mset meanwhile"
proof
  show "held recorded (resilient_record_job inner jc n c open_ok r st) = held recorded st + {#r#}"
    using assms(2) inner [of r "rl_inner st"]
    by (auto simp: held_def resilient_record_job_def buffer_record_def split: option.splits)
  show "held recorded (flush_buffer inner meanwhile st) = held recorded st + mset meanwhile"
    using retry_all_held [OF inner, where rs = "rl_buffer st" and failed = "[]" and i = "rl_inner st"]
    by (auto simp: held_def flush_buffer_def Let_def split: prod.splits)
qed

text \<open>A primary store that keeps a list and refuses job 7.\<close>

definition sample_inner :: "job_usage \<Rightarrow> job_usage list \<Rightarrow> job_usage list option" where
  "sample_inner r i = (if ju_job_id r = 7 then None else Some (i @ [r]))"

theorem resilient_store_loses_nothing_witness:
  "held mset (resilient_record_job sample_inner None 0 sample_codec True (sample_usage 7)
      \<lparr>rl_inner = [], rl_buffer = [sample_usage 3], rl_file = []\<rparr>) = {#sample_usage 3, sample_usage 7#} \<and>
   held mset (flush_buffer sample_inner [] \<lparr>rl_inner = [], rl_buffer = [sample_usage 3], rl_file = []\<rparr>)
      = {#sample_usage 3#}"
proof -
  have "held mset (resilient_record_job sample_inner None 0 sample_codec True (sample_usage 7)
      \<lparr>rl_inner = [], rl_buffer = [sample_usage 3], rl_file = []\<rparr>) =
      held mset \<lparr>rl_inner = [], rl_buffer = [sample_usage 3], rl_file = []\<rparr> + {#sample_usage 7#} \<and>
    held mset (flush_buffer sample_inner [] \<lparr>rl_inner = [], rl_buffer = [sample_usage 3], rl_file = []\<rparr>) =
      held mset \<lparr>rl_inner = [], rl_buffer = [sample_usage 3], rl_file = []\<rparr> + mset []"
    by (rule resilient_store_loses_nothing) (auto simp: sample_inner_def RETRY_BUFFER_LIMIT_def split: if_splits)
  then show ?thesis by (simp add: held_def)
qed

end
