(* ===== verification/Submission.thy ===== *)
theory Submission
  imports Reservations Books Steps Accounting
begin

text \<open>
  Job submission: the \<open>Submit\<close> and \<open>SubmitDag\<close> messages of \<open>controller/src/handlers/client.rs\<close>, the batch
  processor of \<open>controller/src/submission.rs\<close>, and one scheduling pass (\<open>run_scheduling_pass\<close> in
  \<open>controller/src/scheduler/mod.rs\<close>) with the parents' statuses it fetches from the accounting store.

  \<open>submit_env\<close> holds what the handlers read from the configuration, the process environment, the container
  registry (another service) and the UUID generator. Audit log entries are not part of the state. The
  submission channel is \<open>cx_submissions\<close>; \<open>send\<close> waits for room, so it fails only once the receiver is
  gone (\<open>cx_submission_open\<close>).
\<close>

section \<open>Requests and replies\<close>

record submit_request =
  sq_job_name :: "string option"
  sq_job_comment :: "string option"
  sq_binary :: string
  sq_args :: "string list"
  sq_req_nodes :: usize
  sq_req_cores :: u32
  sq_req_memory :: u64
  sq_walltime :: u64
  sq_priority :: u32
  sq_user_id :: string
  sq_working_directory :: string
  sq_array_indices :: "u32 list option"
  sq_inputs :: "file_handle list"
  sq_gres_req :: "(string, u64) hmap"
  sq_env_vars :: "(string \<times> string) list"
  sq_wait_for_licenses :: bool
  sq_estimated_walltime :: "u64 option"
  sq_priority_offset :: "i32 option"
  sq_dependencies :: "u64 list option"
  sq_dependency_specs :: "string list option"
  sq_qos :: qos_level
  sq_image_uri :: "string option"
  sq_vnc_enabled :: bool
  sq_inherit_host_env :: bool
  sq_env_allowlist :: "string list option"
  sq_job_profile :: "string option"

text \<open>A node of a DAG; \<open>None\<close> is a task that is not a \<open>Submit\<close> message.\<close>

record dag_node =
  dn_node_id :: string
  dn_task :: "submit_request option"
  dn_depends_on :: "string list"

datatype response =
    JobId u64
  | ArrayJobSubmitted u64 usize
  | DagSubmitted u64 usize
  | StepId u32
  | JobSteps "step_info list"
  | JobList "job_info list"
  | JobHistoryResponse "job_usage list"
  | Ack
  | ReservationReply reservation_reply
  | ErrorMsg string

record submit_env =
  sv_prefixes :: "string list"
  sv_allowlist_var :: "string option"
  sv_container :: "string \<Rightarrow> container_asset option"
  sv_uuid :: "nat \<Rightarrow> string"

section \<open>Building and enqueuing jobs\<close>

definition new_job :: "env \<Rightarrow> submit_request \<Rightarrow> u64 \<Rightarrow> string \<Rightarrow> container_asset option \<Rightarrow> bool \<Rightarrow> u64 option \<Rightarrow> u32 option \<Rightarrow>
    u64 list option \<Rightarrow> string list option \<Rightarrow> string \<Rightarrow> job_info" where
  "new_job ev q i user asset vnc array_id array_task_id deps specs secret = \<lparr>
     ji_id = i, ji_job_name = sq_job_name q, ji_job_comment = sq_job_comment q, ji_binary = sq_binary q,
     ji_args = sq_args q, ji_status = Pending, ji_req_nodes = sq_req_nodes q, ji_req_cores = sq_req_cores q,
     ji_req_memory = sq_req_memory q, ji_assigned_workers = [], ji_walltime = sq_walltime q,
     ji_start_time = None, ji_priority = sq_priority q, ji_user_id = user,
     ji_working_directory = sq_working_directory q, ji_queued_time = ev_now ev, ji_current_cpu_usage = 0,
     ji_current_memory_usage = 0, ji_is_idle = False, ji_idle_duration = 0, ji_end_time = None,
     ji_env_vars = sq_env_vars q, ji_reason = None, ji_array_id = array_id, ji_array_task_id = array_task_id,
     ji_inputs = sq_inputs q, ji_cgroup_active = False, ji_gres_req = sq_gres_req q, ji_allocated_cores = [],
     ji_allocated_gres = [], ji_mpi_stats = None, ji_secret = secret, ji_stdout_file_id = None,
     ji_stderr_file_id = None, ji_workdir_file_id = None, ji_worker_log_files = [], ji_output_artifacts = [],
     ji_wait_for_licenses = sq_wait_for_licenses q, ji_estimated_walltime = sq_estimated_walltime q,
     ji_priority_offset = sq_priority_offset q, ji_dependencies = deps, ji_dependency_specs = specs,
     ji_qos = sq_qos q, ji_container_asset = asset, ji_vnc_enabled = vnc,
     ji_inherit_host_env = sq_inherit_host_env q, ji_env_allowlist = sq_env_allowlist q,
     ji_job_profile = sq_job_profile q, ji_interactive_port = None\<rparr>"

definition lookup_container :: "submit_env \<Rightarrow> submit_request \<Rightarrow> container_asset option" where
  "lookup_container sv q = sv_container sv (case sq_image_uri q of Some uri \<Rightarrow> uri | None \<Rightarrow> sq_binary q)"

definition resolved_vnc :: "submit_request \<Rightarrow> container_asset option \<Rightarrow> bool" where
  "resolved_vnc q asset =
     (sq_vnc_enabled q \<or> (case asset of None \<Rightarrow> False | Some a \<Rightarrow> sm_vnc_enabled (ca_manifest a)))"

text \<open>\<open>submission_tx.send(job).await\<close>: whether the job was enqueued.\<close>

definition send_submission :: "job_info \<Rightarrow> controller_ctx \<Rightarrow> controller_ctx \<times> bool" where
  "send_submission job ctx =
     (if cx_submission_open ctx then (ctx\<lparr>cx_submissions := cx_submissions ctx @ [job]\<rparr>, True) else (ctx, False))"

fun send_all :: "job_info list \<Rightarrow> controller_ctx \<times> nat \<Rightarrow> controller_ctx \<times> nat" where
  "send_all [] acc = acc"
| "send_all (job # jobs) (ctx, success_count) =
     (let (ctx', sent) = send_submission job ctx
      in send_all jobs (ctx', if sent then success_count + 1 else success_count))"

text \<open>\<open>next_job_id.fetch_add(n)\<close>\<close>

definition take_ids :: "nat \<Rightarrow> controller_ctx \<Rightarrow> controller_ctx \<times> u64" where
  "take_ids n ctx = (ctx\<lparr>cx_next_job_id := cx_next_job_id ctx + of_nat n\<rparr>, cx_next_job_id ctx)"

definition cycle_to :: "(u64, job_info) hmap \<Rightarrow> u64 \<Rightarrow> u64 \<Rightarrow> bool" where
  "cycle_to jobs i dep = (case has_cycle (cycle_fuel jobs) dep i jobs [] of Some (b, _) \<Rightarrow> b | None \<Rightarrow> False)"

definition has_circular :: "(u64, job_info) hmap \<Rightarrow> u64 \<Rightarrow> submit_request \<Rightarrow> bool" where
  "has_circular jobs i q =
     (list_ex (cycle_to jobs i) (case sq_dependencies q of None \<Rightarrow> [] | Some deps \<Rightarrow> deps) \<or>
      list_ex (\<lambda>spec. case spec_parent spec of None \<Rightarrow> False | Some p \<Rightarrow> cycle_to jobs i p)
        (case sq_dependency_specs q of None \<Rightarrow> [] | Some specs \<Rightarrow> specs))"

section \<open>Submit\<close>

definition array_jobs :: "env \<Rightarrow> submit_env \<Rightarrow> submit_request \<Rightarrow> string \<Rightarrow> container_asset option \<Rightarrow> u64 \<Rightarrow> u32 list \<Rightarrow> job_info list" where
  "array_jobs ev sv q user asset base_id indices =
     map (\<lambda>(i, task_id). new_job ev q (base_id + of_nat i) user asset (resolved_vnc q asset) (Some base_id) (Some task_id)
            (sq_dependencies q) (sq_dependency_specs q) (sv_uuid sv i))
       (enumerate 0 indices)"

definition submit_array :: "env \<Rightarrow> submit_env \<Rightarrow> submit_request \<Rightarrow> string \<Rightarrow> container_asset option \<Rightarrow> u32 list \<Rightarrow>
    controller_ctx \<Rightarrow> controller_ctx \<times> response" where
  "submit_array ev sv q user asset indices ctx =
     (if indices = [] then (ctx, ErrorMsg ''Empty array indices'')
      else (let (ctx1, base_id) = take_ids (length indices) ctx;
                (ctx2, success_count) = send_all (array_jobs ev sv q user asset base_id indices) (ctx1, 0)
            in if success_count > 0 then (ctx2, ArrayJobSubmitted base_id success_count)
               else (ctx2, ErrorMsg ''Failed to submit any tasks of the job array'')))"

definition submit_single :: "env \<Rightarrow> submit_env \<Rightarrow> submit_request \<Rightarrow> string \<Rightarrow> container_asset option \<Rightarrow>
    controller_ctx \<Rightarrow> controller_ctx \<times> response" where
  "submit_single ev sv q user asset ctx =
     (let (ctx1, i) = take_ids 1 ctx in
      if has_circular (gs_jobs (cx_state ctx1)) i q then (ctx1, ErrorMsg ''Circular dependency detected'')
      else (let job = new_job ev q i user asset (resolved_vnc q asset) None None
                        (sq_dependencies q) (sq_dependency_specs q) (sv_uuid sv 0);
                (ctx2, sent) = send_submission job ctx1
            in if sent then (ctx2, JobId i) else (ctx2, ErrorMsg ''Internal submission error'')))"

definition submit :: "env \<Rightarrow> submit_env \<Rightarrow> principal \<Rightarrow> submit_request \<Rightarrow> controller_ctx \<Rightarrow> controller_ctx \<times> response" where
  "submit ev sv caller q ctx =
     (let asset = lookup_container sv q;
          error_msg = (case (asset, sq_image_uri q) of
              (None, Some uri) \<Rightarrow> Some (''Container image '' @ quoted uri @ '' not found in registry'')
            | _ \<Rightarrow> (case resolve_user_id caller (sq_user_id q) of Inl e \<Rightarrow> Some e | Inr _ \<Rightarrow> None))
      in case error_msg of
           Some e \<Rightarrow> (ctx, ErrorMsg e)
         | None \<Rightarrow>
             (case validate_job_submission (sv_allowlist_var sv) (sq_binary q) (sq_env_vars q)
                     \<lparr>jx_inherit_host_env = sq_inherit_host_env q, jx_env_allowlist = sq_env_allowlist q,
                      jx_job_profile = sq_job_profile q\<rparr> (sv_prefixes sv) of
                Inl e \<Rightarrow> (ctx, ErrorMsg e)
              | Inr _ \<Rightarrow>
                  (if sq_qos q = Interactive \<and> (sq_walltime q = 0 \<or> sq_walltime q > 1800)
                   then (ctx, ErrorMsg ''Interactive jobs must have a walltime limit of 30 minutes (1800 seconds) or less'')
                   else if sq_qos q = Interactive \<and> sq_req_cores q > 4
                   then (ctx, ErrorMsg ''Interactive jobs are limited to a maximum of 4 CPU cores per node'')
                   else (let user = (case resolve_user_id caller (sq_user_id q) of Inr u \<Rightarrow> u | Inl _ \<Rightarrow> [])
                         in case sq_array_indices q of
                              Some indices \<Rightarrow> submit_array ev sv q user asset indices ctx
                            | None \<Rightarrow> submit_single ev sv q user asset ctx))))"

section \<open>SubmitDag\<close>

definition node_to_job :: "u64 \<Rightarrow> dag_node list \<Rightarrow> (string, u64) hmap" where
  "node_to_job base_id nodes =
     fold (\<lambda>(i, node) m. hm_insert (dn_node_id node) (base_id + of_nat i) m) (enumerate 0 nodes) []"

definition dag_deps :: "(string, u64) hmap \<Rightarrow> dag_node \<Rightarrow> u64 list" where
  "dag_deps m node = List.map_filter (hm_get m) (dn_depends_on node)"

definition some_if_any :: "'a list \<Rightarrow> 'a list option" where
  "some_if_any xs = (if xs = [] then None else Some xs)"

definition or_empty :: "'a list option \<Rightarrow> 'a list" where
  "or_empty xs = (case xs of None \<Rightarrow> [] | Some l \<Rightarrow> l)"

definition dag_job :: "env \<Rightarrow> submit_env \<Rightarrow> principal \<Rightarrow> (string, u64) hmap \<Rightarrow> u64 \<Rightarrow> nat \<times> dag_node \<Rightarrow> job_info option" where
  "dag_job ev sv caller m base_id = (\<lambda>(i, node).
     map_option (\<lambda>q.
       (let asset = lookup_container sv q; deps = dag_deps m node in
        new_job ev q (base_id + of_nat i)
          (case resolve_user_id caller (sq_user_id q) of Inr u \<Rightarrow> u | Inl _ \<Rightarrow> [])
          asset (resolved_vnc q asset) None None
          (some_if_any (or_empty (sq_dependencies q) @ deps))
          (some_if_any (or_empty (sq_dependency_specs q) @ map (\<lambda>d. ''AfterOk:'' @ show_u64 d) deps))
          (sv_uuid sv i))) (dn_task node))"

definition dag_jobs :: "env \<Rightarrow> submit_env \<Rightarrow> principal \<Rightarrow> u64 \<Rightarrow> dag_node list \<Rightarrow> job_info list" where
  "dag_jobs ev sv caller base_id nodes =
     List.map_filter (dag_job ev sv caller (node_to_job base_id nodes) base_id) (enumerate 0 nodes)"

definition dag_error :: "principal \<Rightarrow> dag_node \<Rightarrow> string option" where
  "dag_error caller node = (case dn_task node of
     None \<Rightarrow> None
   | Some q \<Rightarrow> (case resolve_user_id caller (sq_user_id q) of Inl e \<Rightarrow> Some e | Inr _ \<Rightarrow> None))"

definition submit_dag :: "env \<Rightarrow> submit_env \<Rightarrow> principal \<Rightarrow> dag_node list \<Rightarrow> controller_ctx \<Rightarrow> controller_ctx \<times> response" where
  "submit_dag ev sv caller nodes ctx =
     (if nodes = [] then (ctx, ErrorMsg ''DAG has no nodes'')
      else (case List.map_filter (dag_error caller) nodes of
              e # _ \<Rightarrow> (ctx, ErrorMsg e)
            | [] \<Rightarrow>
                (let (ctx1, base_id) = take_ids (length nodes) ctx;
                     (ctx2, success_count) = send_all (dag_jobs ev sv caller base_id nodes) (ctx1, 0)
                 in if success_count > 0 then (ctx2, DagSubmitted base_id success_count)
                    else (ctx2, ErrorMsg ''Failed to submit any tasks of the DAG''))))"

section \<open>A scheduling pass\<close>

definition pending_in_queue :: "global_state \<Rightarrow> job_info list" where
  "pending_in_queue s = filter (\<lambda>j. ji_status j = Pending) (List.map_filter (hm_get (gs_jobs s)) (gs_queue s))"

definition needed_ids :: "global_state \<Rightarrow> u64 list" where
  "needed_ids s = remdups (filter (\<lambda>p. \<not> hm_contains (gs_jobs s) p) (concat (map job_parents (pending_in_queue s))))"

text \<open>\<open>query i\<close> is \<open>query_history(Single(i))\<close>; \<open>None\<close> an error.\<close>

definition db_cache_of :: "(u64 \<Rightarrow> job_usage list option) \<Rightarrow> u64 list \<Rightarrow> (u64, job_status) hmap" where
  "db_cache_of query ids =
     fold (\<lambda>p m. case query p of Some (h # _) \<Rightarrow> hm_insert p (ju_status h) m | _ \<Rightarrow> m) ids []"

text \<open>The part of the pass under the second lock.\<close>

definition apply_pass :: "env \<Rightarrow> store_env \<Rightarrow> (u64, job_status) hmap \<Rightarrow> controller_ctx \<Rightarrow> panic + controller_ctx" where
  "apply_pass ev store db ctx =
     (if gs_role (cx_state ctx) = Leader then
        (case schedule_jobs ev db (cx_state ctx) of
           Inl p \<Rightarrow> Inl p
         | Inr s \<Rightarrow>
             (let ctx1 = sync_active_state_to_dashmaps (ctx\<lparr>cx_state := schedule_steps ev s\<rparr>)
              in Inr (ctx1\<lparr>cx_state := save store (cx_state ctx1)\<rparr>)))
      else Inr ctx)"

definition run_scheduling_pass :: "env \<Rightarrow> store_env \<Rightarrow> (u64 \<Rightarrow> job_usage list option) \<Rightarrow> controller_ctx \<Rightarrow> panic + controller_ctx" where
  "run_scheduling_pass ev store query ctx =
     (if gs_role (cx_state ctx) \<noteq> Leader then Inr ctx
      else apply_pass ev store (db_cache_of query (needed_ids (cx_state ctx))) ctx)"

section \<open>The submission processor\<close>

text \<open>One batch of the first \<open>n\<close> enqueued jobs, \<open>1 \<le> n \<le> 100\<close>, up to the scheduling pass.\<close>

definition enter_jobs :: "job_info list \<Rightarrow> global_state \<Rightarrow> global_state" where
  "enter_jobs batch s =
     fold (\<lambda>job s. s\<lparr>gs_jobs := hm_insert (ji_id job) job (gs_jobs s), gs_queue := gs_queue s @ [ji_id job]\<rparr>) batch s"

definition process_batch :: "nat \<Rightarrow> controller_ctx \<Rightarrow> controller_ctx" where
  "process_batch n ctx =
     (let batch = take n (cx_submissions ctx);
          ctx1 = ctx\<lparr>cx_submissions := drop n (cx_submissions ctx)\<rparr>;
          s = cx_state ctx1
      in if gs_role s \<noteq> Leader then ctx1
         else sync_active_state_to_dashmaps
                (ctx1\<lparr>cx_state := enter_jobs batch (s\<lparr>gs_next_job_id := cx_next_job_id ctx1\<rparr>)\<rparr>))"

definition submission_processor :: "env \<Rightarrow> store_env \<Rightarrow> (u64 \<Rightarrow> job_usage list option) \<Rightarrow> nat \<Rightarrow> controller_ctx \<Rightarrow>
    panic + controller_ctx" where
  "submission_processor ev store query n ctx =
     (if cx_submissions ctx = [] then Inr ctx
      else (let ctx1 = process_batch n ctx in
            if gs_role (cx_state ctx) \<noteq> Leader then Inr ctx1 else run_scheduling_pass ev store query ctx1))"


section \<open>Concrete requests\<close>

definition sample_request :: submit_request where
  "sample_request = \<lparr>sq_job_name = None, sq_job_comment = None, sq_binary = ''/opt/sim'', sq_args = [], sq_req_nodes = 1,
     sq_req_cores = 1, sq_req_memory = 256, sq_walltime = 60, sq_priority = 0, sq_user_id = [],
     sq_working_directory = ''/tmp'', sq_array_indices = None, sq_inputs = [], sq_gres_req = [], sq_env_vars = [],
     sq_wait_for_licenses = False, sq_estimated_walltime = None, sq_priority_offset = None, sq_dependencies = None,
     sq_dependency_specs = None, sq_qos = Production, sq_image_uri = None, sq_vnc_enabled = False,
     sq_inherit_host_env = False, sq_env_allowlist = None, sq_job_profile = None\<rparr>"

definition sample_submit_env :: submit_env where
  "sample_submit_env = \<lparr>sv_prefixes = [''/opt/''], sv_allowlist_var = Some ''true'', sv_container = (\<lambda>_. None),
     sv_uuid = (\<lambda>_. ''uuid'')\<rparr>"

definition sample_caller :: principal where
  "sample_caller = \<lparr>pr_user_id = ''bob'', pr_roles = [''submitter'']\<rparr>"

definition sample_dag :: "dag_node list" where
  "sample_dag = [\<lparr>dn_node_id = ''mesh'', dn_task = Some sample_request, dn_depends_on = []\<rparr>,
     \<lparr>dn_node_id = ''solve'', dn_task = Some sample_request, dn_depends_on = [''mesh'']\<rparr>]"

lemmas sample_defs = sample_request_def sample_submit_env_def sample_caller_def

lemma sample_validates:
  "resolve_user_id sample_caller (sq_user_id sample_request) = Inr ''bob''"
  "lookup_container sample_submit_env q = None"
  "validate_job_submission (sv_allowlist_var sample_submit_env) (sq_binary sample_request) (sq_env_vars sample_request) x
     (sv_prefixes sample_submit_env) = Inr ()"
  by (simp_all add: sample_defs resolve_user_id_def is_admin_or_operator_def lookup_container_def
      validate_job_submission_def validate_binary_prefix_def validate_submitted_env_vars_def starts_with_def)

section \<open>What a submission enqueues\<close>

lemma send_all_result:
  "send_all jobs (ctx, k) =
     (if cx_submission_open ctx then (ctx\<lparr>cx_submissions := cx_submissions ctx @ jobs\<rparr>, k + length jobs) else (ctx, k))"
  by (induction jobs arbitrary: ctx k) (auto simp: send_submission_def)

lemma new_job_fields [simp]:
  "ji_id (new_job ev q i u a v ai ti d sp sec) = i" "ji_user_id (new_job ev q i u a v ai ti d sp sec) = u"
  "ji_status (new_job ev q i u a v ai ti d sp sec) = Pending" "ji_assigned_workers (new_job ev q i u a v ai ti d sp sec) = []"
  "ji_req_nodes (new_job ev q i u a v ai ti d sp sec) = sq_req_nodes q"
  "ji_req_cores (new_job ev q i u a v ai ti d sp sec) = sq_req_cores q"
  "ji_gres_req (new_job ev q i u a v ai ti d sp sec) = sq_gres_req q"
  "ji_binary (new_job ev q i u a v ai ti d sp sec) = sq_binary q"
  "ji_env_vars (new_job ev q i u a v ai ti d sp sec) = sq_env_vars q"
  "ji_env_allowlist (new_job ev q i u a v ai ti d sp sec) = sq_env_allowlist q"
  "ji_walltime (new_job ev q i u a v ai ti d sp sec) = sq_walltime q"
  "ji_qos (new_job ev q i u a v ai ti d sp sec) = sq_qos q"
  "ji_dependencies (new_job ev q i u a v ai ti d sp sec) = d"
  "ji_dependency_specs (new_job ev q i u a v ai ti d sp sec) = sp"
  "ji_array_id (new_job ev q i u a v ai ti d sp sec) = ai"
  "ji_array_task_id (new_job ev q i u a v ai ti d sp sec) = ti"
  by (simp_all add: new_job_def)

text \<open>The cluster's policy on one job, as the submission messages state it.\<close>

definition policy_ok :: "submit_env \<Rightarrow> job_info \<Rightarrow> bool" where
  "policy_ok sv job =
     ((sv_prefixes sv = [] \<or> (\<exists>p\<in>set (sv_prefixes sv). p \<noteq> [] \<and> starts_with (ji_binary job) p)) \<and>
      (cluster_env_allowlist_enabled (sv_allowlist_var sv) \<longrightarrow>
         (\<forall>(k, v)\<in>set (ji_env_vars job). is_blocked_env_key k \<longrightarrow>
            (case ji_env_allowlist job of None \<Rightarrow> False | Some a \<Rightarrow> k \<in> set a))) \<and>
      (ji_qos job = Interactive \<longrightarrow> 0 < ji_walltime job \<and> ji_walltime job \<le> 1800 \<and> ji_req_cores job \<le> 4))"

text \<open>The jobs a request stands for, before they are enqueued.\<close>

definition submitted_jobs :: "env \<Rightarrow> submit_env \<Rightarrow> submit_request \<Rightarrow> string \<Rightarrow> u64 \<Rightarrow> job_info list" where
  "submitted_jobs ev sv q user base =
     (case sq_array_indices q of
        Some indices \<Rightarrow> array_jobs ev sv q user (lookup_container sv q) base indices
      | None \<Rightarrow> [new_job ev q base user (lookup_container sv q) (resolved_vnc q (lookup_container sv q)) None None
                   (sq_dependencies q) (sq_dependency_specs q) (sv_uuid sv 0)])"

lemma submitted_jobs_request:
  assumes "job \<in> set (submitted_jobs ev sv q user base)"
  shows "ji_user_id job = user" "ji_status job = Pending" "ji_binary job = sq_binary q" "ji_env_vars job = sq_env_vars q"
    "ji_env_allowlist job = sq_env_allowlist q" "ji_qos job = sq_qos q" "ji_walltime job = sq_walltime q"
    "ji_req_cores job = sq_req_cores q" "ji_req_nodes job = sq_req_nodes q" "ji_gres_req job = sq_gres_req q"
  using assms by (auto simp: submitted_jobs_def array_jobs_def split: option.splits)

lemma submitted_jobs_ids:
  "map ji_id (submitted_jobs ev sv q user base) = map (\<lambda>i. base + of_nat i) [0..<length (submitted_jobs ev sv q user base)]"
proof (cases "sq_array_indices q")
  case (Some indices)
  have "map ji_id (array_jobs ev sv q user a base indices) = map (\<lambda>p. base + of_nat (fst p)) (enumerate 0 indices)" for a
    by (simp add: array_jobs_def split_def o_def)
  also have "map (\<lambda>p. base + of_nat (fst p)) (enumerate 0 indices) = map (\<lambda>i. base + of_nat i) (map fst (enumerate 0 indices))"
    by (simp only: map_map o_def)
  finally have "map ji_id (array_jobs ev sv q user a base indices) = map (\<lambda>i. base + of_nat i) [0..<length indices]" for a
    by simp
  then show ?thesis using Some by (simp add: submitted_jobs_def array_jobs_def)
qed (simp add: submitted_jobs_def)

lemma validated_ok:
  assumes "validate_job_submission var b vars x ps = Inr u"
  shows "ps = [] \<or> (\<exists>p\<in>set ps. p \<noteq> [] \<and> starts_with b p)"
    "cluster_env_allowlist_enabled var \<Longrightarrow> (k, v) \<in> set vars \<Longrightarrow> is_blocked_env_key k \<Longrightarrow> explicitly_allowed x k"
  using assms
  by (auto simp: validate_job_submission_def validate_binary_prefix_def validate_submitted_env_vars_def list_ex_iff
      find_None_iff split: sum.splits if_splits option.splits)

lemma submit_single_result:
  "submit_single ev sv q user asset ctx =
     (if has_circular (gs_jobs (cx_state ctx)) (cx_next_job_id ctx) q
      then (ctx\<lparr>cx_next_job_id := cx_next_job_id ctx + 1\<rparr>, ErrorMsg ''Circular dependency detected'')
      else if cx_submission_open ctx
      then (ctx\<lparr>cx_next_job_id := cx_next_job_id ctx + 1, cx_submissions := cx_submissions ctx @
              [new_job ev q (cx_next_job_id ctx) user asset (resolved_vnc q asset) None None
                 (sq_dependencies q) (sq_dependency_specs q) (sv_uuid sv 0)]\<rparr>, JobId (cx_next_job_id ctx))
      else (ctx\<lparr>cx_next_job_id := cx_next_job_id ctx + 1\<rparr>, ErrorMsg ''Internal submission error''))"
  by (auto simp: submit_single_def take_ids_def send_submission_def Let_def)

lemma submit_array_result:
  "indices \<noteq> [] \<Longrightarrow> submit_array ev sv q user asset indices ctx =
     (if cx_submission_open ctx
      then (ctx\<lparr>cx_next_job_id := cx_next_job_id ctx + of_nat (length indices), cx_submissions := cx_submissions ctx @
              array_jobs ev sv q user asset (cx_next_job_id ctx) indices\<rparr>,
            ArrayJobSubmitted (cx_next_job_id ctx) (length indices))
      else (ctx\<lparr>cx_next_job_id := cx_next_job_id ctx + of_nat (length indices)\<rparr>,
            ErrorMsg ''Failed to submit any tasks of the job array''))"
  by (auto simp: submit_array_def take_ids_def send_all_result Let_def array_jobs_def)

text \<open>Either nothing is enqueued, or exactly the request's jobs are, with consecutive ids.\<close>

lemma submit_cases:
  obtains (refused) e n where "n \<le> 1 \<or> sq_array_indices q \<noteq> None \<and> n \<le> length (the (sq_array_indices q))"
      "submit ev sv caller q ctx = (ctx\<lparr>cx_next_job_id := cx_next_job_id ctx + of_nat n\<rparr>, ErrorMsg e)"
  | (accepted) user r x where "resolve_user_id caller (sq_user_id q) = Inr user"
      "validate_job_submission (sv_allowlist_var sv) (sq_binary q) (sq_env_vars q)
         \<lparr>jx_inherit_host_env = sq_inherit_host_env q, jx_env_allowlist = sq_env_allowlist q,
          jx_job_profile = sq_job_profile q\<rparr> (sv_prefixes sv) = Inr x"
      "sq_qos q = Interactive \<Longrightarrow> 0 < sq_walltime q \<and> sq_walltime q \<le> 1800 \<and> sq_req_cores q \<le> 4"
      "sq_array_indices q = None \<Longrightarrow> \<not> has_circular (gs_jobs (cx_state ctx)) (cx_next_job_id ctx) q"
      "submitted_jobs ev sv q user (cx_next_job_id ctx) \<noteq> []"
      "submit ev sv caller q ctx =
         (ctx\<lparr>cx_next_job_id := cx_next_job_id ctx + of_nat (length (submitted_jobs ev sv q user (cx_next_job_id ctx))),
              cx_submissions := cx_submissions ctx @ submitted_jobs ev sv q user (cx_next_job_id ctx)\<rparr>, r)"
      "r = (case sq_array_indices q of None \<Rightarrow> JobId (cx_next_job_id ctx)
            | Some indices \<Rightarrow> ArrayJobSubmitted (cx_next_job_id ctx) (length indices))"
proof -
  have same: "ctx\<lparr>cx_next_job_id := cx_next_job_id ctx + of_nat 0\<rparr> = ctx" by simp
  show thesis
  proof (cases "\<exists>e. submit ev sv caller q ctx = (ctx, ErrorMsg e)")
    case True
    then show ?thesis using refused [of 0] same by auto
  next
    case False
    obtain user where u: "resolve_user_id caller (sq_user_id q) = Inr user"
      using False by (cases "resolve_user_id caller (sq_user_id q)")
        (auto simp: submit_def Let_def split: option.splits prod.splits)
    have a: "lookup_container sv q \<noteq> None \<or> sq_image_uri q = None"
      using False u by (auto simp: submit_def Let_def split: option.splits prod.splits)
    obtain x where v: "validate_job_submission (sv_allowlist_var sv) (sq_binary q) (sq_env_vars q)
         \<lparr>jx_inherit_host_env = sq_inherit_host_env q, jx_env_allowlist = sq_env_allowlist q,
          jx_job_profile = sq_job_profile q\<rparr> (sv_prefixes sv) = Inr x"
      using False u a by (auto simp: submit_def Let_def split: option.splits prod.splits sum.splits)
    have i: "0 < sq_walltime q \<and> sq_walltime q \<le> 1800 \<and> sq_req_cores q \<le> 4" if "sq_qos q = Interactive"
      using False u a v that by (auto simp: submit_def Let_def not_less word_neq_0_conv split: option.splits prod.splits if_splits)
    have s: "submit ev sv caller q ctx = (case sq_array_indices q of
         Some indices \<Rightarrow> submit_array ev sv q user (lookup_container sv q) indices ctx
       | None \<Rightarrow> submit_single ev sv q user (lookup_container sv q) ctx)"
      using u a v i by (auto simp: submit_def Let_def not_less [symmetric] split: option.splits prod.splits)
    show ?thesis
    proof (cases "sq_array_indices q")
      case None
      note r = s [unfolded None, simplified, unfolded submit_single_result]
      show ?thesis
      proof (cases "has_circular (gs_jobs (cx_state ctx)) (cx_next_job_id ctx) q \<or> \<not> cx_submission_open ctx")
        case True
        then have "\<exists>e. submit ev sv caller q ctx = (ctx\<lparr>cx_next_job_id := cx_next_job_id ctx + of_nat 1\<rparr>, ErrorMsg e)"
          by (auto simp: r)
        then show ?thesis using refused [of 1] by auto
      next
        case False
        then show ?thesis using None by (intro accepted [OF u v i]) (simp_all add: r submitted_jobs_def)
      qed
    next
      case (Some indices)
      have len: "length (submitted_jobs ev sv q user (cx_next_job_id ctx)) = length indices"
        using Some by (simp add: submitted_jobs_def array_jobs_def)
      have ne: "indices \<noteq> []" using False s Some by (auto simp: submit_array_def)
      note r = s [unfolded Some, simplified, unfolded submit_array_result [OF ne]]
      show ?thesis
      proof (cases "cx_submission_open ctx")
        case True
        have "submitted_jobs ev sv q user (cx_next_job_id ctx) \<noteq> []" using len ne by (metis length_0_conv)
        then show ?thesis using Some len ne True
          by (intro accepted [OF u v i]) (auto simp: r submitted_jobs_def array_jobs_def)
      next
        case False
        then show ?thesis using Some by (intro refused [of "length indices"]) (simp_all add: r)
      qed
    qed
  qed
qed


lemma accepted_policy:
  assumes "validate_job_submission (sv_allowlist_var sv) (sq_binary q) (sq_env_vars q)
         \<lparr>jx_inherit_host_env = sq_inherit_host_env q, jx_env_allowlist = sq_env_allowlist q,
          jx_job_profile = sq_job_profile q\<rparr> (sv_prefixes sv) = Inr x"
    "sq_qos q = Interactive \<Longrightarrow> 0 < sq_walltime q \<and> sq_walltime q \<le> 1800 \<and> sq_req_cores q \<le> 4"
    "job \<in> set (submitted_jobs ev sv q user base)"
  shows "policy_ok sv job"
  using validated_ok [OF assms(1)] assms(2) submitted_jobs_request [OF assms(3)]
  by (auto simp: policy_ok_def explicitly_allowed_def)

text \<open>
  C12: A submission message changes nothing but the id counter and the submission channel. An error
  reply enqueues nothing. Otherwise exactly the requested jobs are enqueued, one, or one per array
  index, pending, with consecutive ids from the counter; every one of them meets the cluster's policy on
  binaries, environment variables and interactive limits, and runs as the caller unless the caller is
  administrator or operator.
\<close>

theorem submit_policy:
  "case submit ev sv caller q ctx of (ctx', r) \<Rightarrow>
     cx_state ctx' = cx_state ctx \<and>
     (\<exists>jobs. cx_submissions ctx' = cx_submissions ctx @ jobs \<and>
        map ji_id jobs = map (\<lambda>i. cx_next_job_id ctx + of_nat i) [0..<length jobs] \<and>
        (\<forall>job\<in>set jobs. ji_status job = Pending \<and> policy_ok sv job \<and>
           (is_admin_or_operator caller \<or> ji_user_id job = pr_user_id caller)) \<and>
        (case r of JobId i \<Rightarrow> length jobs = 1 \<and> i = cx_next_job_id ctx
         | ArrayJobSubmitted b n \<Rightarrow> b = cx_next_job_id ctx \<and> n = length jobs \<and>
             Some (map (the \<circ> ji_array_task_id) jobs) = sq_array_indices q
         | ErrorMsg e \<Rightarrow> jobs = []
         | _ \<Rightarrow> False))"
proof (cases rule: submit_cases [of q ev sv caller ctx])
  case (refused e n)
  then show ?thesis by simp
next
  case (accepted user r x)
  let ?jobs = "submitted_jobs ev sv q user (cx_next_job_id ctx)"
  have own: "is_admin_or_operator caller \<or> user = pr_user_id caller"
    using resolve_user_own accepted(1) by blast
  have tasks: "map (the \<circ> ji_array_task_id) (array_jobs ev sv q user a b indices) = indices" for a b indices
    by (simp add: array_jobs_def split_def o_def)
  have "\<forall>job\<in>set ?jobs. ji_status job = Pending \<and> policy_ok sv job \<and>
      (is_admin_or_operator caller \<or> ji_user_id job = pr_user_id caller)"
    using accepted_policy [OF accepted(2,3)] own submitted_jobs_request(1,2) by metis
  moreover have "case r of JobId i \<Rightarrow> length ?jobs = 1 \<and> i = cx_next_job_id ctx
         | ArrayJobSubmitted b n \<Rightarrow> b = cx_next_job_id ctx \<and> n = length ?jobs \<and>
             Some (map (the \<circ> ji_array_task_id) ?jobs) = sq_array_indices q
         | ErrorMsg e \<Rightarrow> ?jobs = [] | _ \<Rightarrow> False"
    using accepted(7) tasks by (auto simp: submitted_jobs_def array_jobs_def split: option.splits)
  ultimately show ?thesis using accepted(6) submitted_jobs_ids [of ev sv q user "cx_next_job_id ctx"] by auto
qed

lemma sample_submit_job:
  assumes "cx_submission_open ctx"
  shows "submit sample_env sample_submit_env sample_caller sample_request ctx =
    (ctx\<lparr>cx_next_job_id := cx_next_job_id ctx + 1, cx_submissions := cx_submissions ctx @
       [new_job sample_env sample_request (cx_next_job_id ctx) ''bob'' None
         (resolved_vnc sample_request None) None None (sq_dependencies sample_request) (sq_dependency_specs sample_request)
         (sv_uuid sample_submit_env 0)]\<rparr>, JobId (cx_next_job_id ctx))"
proof -
  have "\<not> has_circular jobs i sample_request" for jobs i by (simp add: has_circular_def sample_request_def)
  then have "submit_single sample_env sample_submit_env sample_request ''bob'' None ctx =
    (ctx\<lparr>cx_next_job_id := cx_next_job_id ctx + 1, cx_submissions := cx_submissions ctx @
       [new_job sample_env sample_request (cx_next_job_id ctx) ''bob'' None
         (resolved_vnc sample_request None) None None (sq_dependencies sample_request) (sq_dependency_specs sample_request)
         (sv_uuid sample_submit_env 0)]\<rparr>, JobId (cx_next_job_id ctx))"
    using assms by (simp add: submit_single_result)
  moreover have "sq_array_indices sample_request = None" "sq_qos sample_request = Production" "sq_image_uri sample_request = None"
    by (simp_all add: sample_request_def)
  ultimately show ?thesis by (simp add: submit_def Let_def sample_validates)
qed

lemma sample_submit:
  "\<exists>ctx'. submit sample_env sample_submit_env sample_caller sample_request (sample_ctx two_node_state) = (ctx', JobId 10)"
  by (subst sample_submit_job) (simp_all add: sample_ctx_def)

theorem submit_policy_witness:
  "\<exists>ctx' job. submit sample_env sample_submit_env sample_caller sample_request (sample_ctx two_node_state) = (ctx', JobId 10) \<and>
     cx_submissions ctx' = [job] \<and> ji_id job = 10 \<and> ji_user_id job = ''bob'' \<and> policy_ok sample_submit_env job"
proof -
  obtain ctx' where s: "submit sample_env sample_submit_env sample_caller sample_request (sample_ctx two_node_state) = (ctx', JobId 10)"
    using sample_submit by (elim exE)
  have c: "cx_submissions (sample_ctx two_node_state) = []" "cx_next_job_id (sample_ctx two_node_state) = 10"
    by (simp_all add: sample_ctx_def)
  have "\<exists>jobs. cx_submissions ctx' = [] @ jobs \<and> map ji_id jobs = map (\<lambda>i. 10 + of_nat i) [0..<length jobs] \<and>
      (\<forall>job\<in>set jobs. ji_status job = Pending \<and> policy_ok sample_submit_env job \<and>
         (is_admin_or_operator sample_caller \<or> ji_user_id job = pr_user_id sample_caller)) \<and> length jobs = 1 \<and> 10 = (10 :: u64)"
    using submit_policy [where ev = sample_env and sv = sample_submit_env and caller = sample_caller and q = sample_request
          and ctx = "sample_ctx two_node_state", unfolded s c prod.case response.case] by blast
  then obtain jobs where j: "cx_submissions ctx' = jobs" "map ji_id jobs = map (\<lambda>i. 10 + of_nat i) [0..<length jobs]" "length jobs = 1"
    and p: "\<forall>job\<in>set jobs. policy_ok sample_submit_env job \<and>
       (is_admin_or_operator sample_caller \<or> ji_user_id job = pr_user_id sample_caller)" by auto
  from j(3) obtain job where job: "jobs = [job]" by (cases jobs) auto
  have "\<not> is_admin_or_operator sample_caller" "pr_user_id sample_caller = ''bob''"
    by (simp_all add: sample_caller_def is_admin_or_operator_def)
  then have "ji_id job = 10" "ji_user_id job = ''bob''" "policy_ok sample_submit_env job" using j(2) p job by simp_all
  then show ?thesis using s j(1) job by blast
qed

section \<open>Directed graphs of jobs\<close>

lemma node_to_job_get:
  assumes "distinct (map dn_node_id nodes)" "k < length nodes"
  shows "hm_get (node_to_job base nodes) (dn_node_id (nodes ! k)) = Some (base + of_nat k)"
  using assms
proof (induction nodes rule: rev_induct)
  case (snoc x xs)
  have e: "node_to_job base (xs @ [x]) = hm_insert (dn_node_id x) (base + of_nat (length xs)) (node_to_job base xs)"
    by (simp add: node_to_job_def enumerate_append_eq)
  show ?case
  proof (cases "k = length xs")
    case False
    then have k: "k < length xs" using snoc.prems(2) by simp
    then have "dn_node_id (xs ! k) \<noteq> dn_node_id x" using snoc.prems(1) nth_mem [OF k] by (metis Un_iff distinct_append disjoint_iff image_eqI list.set_map map_append list.set_intros(1) list.simps(9))
    with k snoc show ?thesis by (simp add: e nth_append)
  qed (simp add: e nth_append)
qed simp

lemma submit_dag_accepted:
  assumes "submit_dag ev sv caller nodes ctx = (ctx', DagSubmitted base n)"
  shows "base = cx_next_job_id ctx" "cx_submissions ctx' = cx_submissions ctx @ dag_jobs ev sv caller base nodes"
    "\<And>node q. node \<in> set nodes \<Longrightarrow> dn_task node = Some q \<Longrightarrow> \<exists>u. resolve_user_id caller (sq_user_id q) = Inr u"
    "cx_next_job_id ctx' = cx_next_job_id ctx + of_nat (length nodes)" "cx_state ctx' = cx_state ctx"
proof -
  from assms have f: "List.map_filter (dag_error caller) nodes = []"
    and o: "cx_submission_open ctx"
    by (auto simp: submit_dag_def take_ids_def send_all_result Let_def split: if_splits list.splits)
  show "\<exists>u. resolve_user_id caller (sq_user_id q) = Inr u" if "node \<in> set nodes" "dn_task node = Some q" for node q
  proof -
    have "dag_error caller node = None" using f that(1) by (auto simp: map_filter_def filter_empty_conv)
    then show ?thesis using that(2) by (auto simp: dag_error_def split: sum.splits)
  qed
  show "base = cx_next_job_id ctx" "cx_submissions ctx' = cx_submissions ctx @ dag_jobs ev sv caller base nodes"
    "cx_next_job_id ctx' = cx_next_job_id ctx + of_nat (length nodes)" "cx_state ctx' = cx_state ctx"
    using assms f o by (auto simp: submit_dag_def take_ids_def send_all_result Let_def split: if_splits)
qed

text \<open>
  In an accepted graph with distinct node names, the job of every node waits for the jobs of all
  nodes of the graph it depends on: its dependencies count as satisfied only once each of them is known to
  have completed with exit code 0.
\<close>

theorem dag_order:
  assumes "submit_dag ev sv caller nodes ctx = (ctx', DagSubmitted base n)" and "distinct (map dn_node_id nodes)"
    and "i < length nodes" and "dn_task (nodes ! i) = Some q"
    and "k < length nodes" and "dn_node_id (nodes ! k) \<in> set (dn_depends_on (nodes ! i))"
  shows "\<exists>job. job \<in> set (cx_submissions ctx') \<and> ji_id job = base + of_nat i \<and>
    (\<forall>jobs db. are_dependencies_satisfied job jobs db = Inr True \<longrightarrow>
       known_status jobs db (base + of_nat k) = Some (Completed 0))"
proof -
  let ?m = "node_to_job base nodes"
  obtain job where job: "dag_job ev sv caller ?m base (i, nodes ! i) = Some job"
    using assms(4) by (auto simp: dag_job_def)
  have "(i, nodes ! i) \<in> set (enumerate 0 nodes)" using assms(3) by (simp add: in_set_enumerate_eq)
  then have "job \<in> set (dag_jobs ev sv caller base nodes)"
    unfolding dag_jobs_def map_filter_def using job by force
  then have sub: "job \<in> set (cx_submissions ctx')" using submit_dag_accepted(2) [OF assms(1)] by simp
  have "base + of_nat k \<in> set (dag_deps ?m (nodes ! i))"
    using node_to_job_get [OF assms(2,5)] assms(6) unfolding dag_deps_def map_filter_def by force
  then have "\<exists>ds. ji_dependencies job = Some ds \<and> base + of_nat k \<in> set ds"
    using job assms(4) by (auto simp: dag_job_def some_if_any_def Let_def)
  then have "raw_requirement (base + of_nat k) \<in> set (requirements job)"
    by (force simp: requirements_def sources_def)
  then have "known_status jobs db (base + of_nat k) = Some (Completed 0)"
    if "are_dependencies_satisfied job jobs db = Inr True" for jobs db
  proof -
    have "requirement_met jobs db (raw_requirement (base + of_nat k))"
      using that satisfied_iff_all_met [of job jobs db] \<open>raw_requirement _ \<in> _\<close> by blast
    then show ?thesis by (auto simp: requirement_met_def raw_requirement_def split: option.splits)
  qed
  moreover have "ji_id job = base + of_nat i" using job assms(4) by (auto simp: dag_job_def Let_def)
  ultimately show ?thesis using sub by blast
qed


lemma sample_dag_accepted:
  "\<exists>ctx'. submit_dag sample_env sample_submit_env sample_caller sample_dag (sample_ctx two_node_state) = (ctx', DagSubmitted 10 2)"
  by (auto simp: submit_dag_def sample_dag_def dag_error_def sample_validates map_filter_simps take_ids_def send_all_result
      dag_jobs_def dag_job_def sample_ctx_def Let_def)

theorem dag_order_witness:
  "\<exists>ctx' job. submit_dag sample_env sample_submit_env sample_caller sample_dag (sample_ctx two_node_state) = (ctx', DagSubmitted 10 2) \<and>
     job \<in> set (cx_submissions ctx') \<and> ji_id job = 11 \<and>
     are_dependencies_satisfied job [(10, sample_job 10\<lparr>ji_status := Completed 1\<rparr>)] [] \<noteq> Inr True"
proof -
  obtain ctx' where s: "submit_dag sample_env sample_submit_env sample_caller sample_dag (sample_ctx two_node_state) = (ctx', DagSubmitted 10 2)"
    using sample_dag_accepted by (elim exE)
  have "\<exists>job. job \<in> set (cx_submissions ctx') \<and> ji_id job = 10 + of_nat 1 \<and>
    (\<forall>jobs db. are_dependencies_satisfied job jobs db = Inr True \<longrightarrow>
       known_status jobs db (10 + of_nat 0) = Some (Completed 0))"
    by (rule dag_order [OF s, where q = sample_request]) (simp_all add: sample_dag_def)
  then obtain job where "job \<in> set (cx_submissions ctx')" "ji_id job = 11"
    "\<And>jobs db. are_dependencies_satisfied job jobs db = Inr True \<Longrightarrow> known_status jobs db 10 = Some (Completed 0)" by auto
  moreover have "known_status [(10, sample_job 10\<lparr>ji_status := Completed 1\<rparr>)] [] 10 \<noteq> Some (Completed 0)"
    by (simp add: known_status_def)
  ultimately show ?thesis using s by blast
qed

text \<open>
  Graph submission does not apply the cluster's policy: with the binary prefix list that makes a
  plain submission of a job be refused, the same job as the only node of a graph is enqueued.
\<close>

theorem dag_bypasses_policy:
  "(\<exists>e. submit sample_env sample_submit_env sample_caller (sample_request\<lparr>sq_binary := ''/bin/sh''\<rparr>) (sample_ctx two_node_state)
      = (sample_ctx two_node_state, ErrorMsg e)) \<and>
   (\<exists>ctx' job. submit_dag sample_env sample_submit_env sample_caller
        [\<lparr>dn_node_id = ''n'', dn_task = Some (sample_request\<lparr>sq_binary := ''/bin/sh''\<rparr>), dn_depends_on = []\<rparr>]
        (sample_ctx two_node_state) = (ctx', DagSubmitted 10 1) \<and>
      cx_submissions ctx' = [job] \<and> ji_binary job = ''/bin/sh'' \<and> \<not> policy_ok sample_submit_env job)"
  by (auto simp: submit_def sample_validates sample_defs resolve_user_id_def is_admin_or_operator_def
      validate_job_submission_def validate_binary_prefix_def starts_with_def submit_dag_def dag_error_def map_filter_simps
      take_ids_def send_all_result dag_jobs_def dag_job_def sample_ctx_def Let_def policy_ok_def lookup_container_def)

section \<open>Cycles\<close>

lemma cycle_to_iff: "cycle_to jobs i d \<longleftrightarrow> (parent_edge jobs)\<^sup>*\<^sup>* d i"
proof -
  obtain v where "has_cycle (cycle_fuel jobs) d i jobs [] = Some ((parent_edge jobs)\<^sup>*\<^sup>* d i, v)"
    using has_cycle_reachable by blast
  then show ?thesis by (simp add: cycle_to_def)
qed

lemma has_circular_False:
  assumes "\<not> has_circular jobs i q" "ji_dependencies job = sq_dependencies q" "ji_dependency_specs job = sq_dependency_specs q"
    "p \<in> set (job_parents job)"
  shows "\<not> (parent_edge jobs)\<^sup>*\<^sup>* p i"
  using assms
  by (cases "sq_dependencies q"; cases "sq_dependency_specs q")
    (auto simp: has_circular_def job_parents_def cycle_to_iff list_ex_iff map_filter_def split: option.splits)

text \<open>Redirecting the edges that leave \<open>i\<close> to nodes that do not reach \<open>i\<close> makes no cycle.\<close>

lemma acyclic_new_edges:
  assumes acyc: "acyclicP E" and E': "\<And>a b. E' a b \<longleftrightarrow> (if a = i then b \<in> P else E a b)"
    and P: "\<And>p. p \<in> P \<Longrightarrow> \<not> E\<^sup>*\<^sup>* p i"
  shows "acyclicP E'"
proof -
  have reach: "E\<^sup>*\<^sup>* p y \<or> E\<^sup>*\<^sup>* p i" if "E'\<^sup>*\<^sup>* p y" for p y
    using that by induction (auto simp: E' split: if_splits intro: rtranclp.rtrancl_into_rtrancl)
  have no: "\<not> E'\<^sup>+\<^sup>+ i i"
  proof
    assume "E'\<^sup>+\<^sup>+ i i"
    then obtain p where "E' i p" "E'\<^sup>*\<^sup>* p i" by (meson tranclpD)
    with reach P show False by (auto simp: E')
  qed
  have through: "E\<^sup>+\<^sup>+ x y \<or> E'\<^sup>*\<^sup>* x i \<and> E'\<^sup>+\<^sup>+ i y" if "E'\<^sup>+\<^sup>+ x y" for x y
    using that
  proof induction
    case (base y)
    then show ?case by (cases "x = i") (auto simp: E')
  next
    case (step y z)
    show ?case
    proof (cases "y = i")
      case True
      then have "E'\<^sup>*\<^sup>* x i" "E'\<^sup>+\<^sup>+ i z" using step(1,2) by auto
      then show ?thesis by blast
    next
      case False
      then have "E y z" using step(2) by (simp add: E')
      with step show ?thesis by (auto intro: tranclp.trancl_into_trancl)
    qed
  qed
  have "\<not> E'\<^sup>+\<^sup>+ x x" for x
  proof
    assume x: "E'\<^sup>+\<^sup>+ x x"
    have "\<not> E\<^sup>+\<^sup>+ x x" using acyc by (simp add: acyclic_def tranclp_unfold)
    with through [OF x] have "E'\<^sup>*\<^sup>* x i" "E'\<^sup>+\<^sup>+ i x" by auto
    then have "E'\<^sup>+\<^sup>+ i i" by (rule tranclp_rtranclp_tranclp [rotated])
    with no show False by blast
  qed
  then show ?thesis by (simp add: acyclic_def tranclp_unfold)
qed


section \<open>The parents' statuses a pass fetches\<close>

lemma db_cache_get:
  "hm_get (db_cache_of query ids) p =
     (if p \<in> set ids then (case query p of Some (h # _) \<Rightarrow> Some (ju_status h) | _ \<Rightarrow> None) else None)"
proof -
  have "hm_get (fold (\<lambda>p m. case query p of Some (h # _) \<Rightarrow> hm_insert p (ju_status h) m | _ \<Rightarrow> m) ids m) p =
     (if p \<in> set ids then (case query p of Some (h # _) \<Rightarrow> Some (ju_status h) | _ \<Rightarrow> hm_get m p) else hm_get m p)" for m
    by (induction ids arbitrary: m) (auto split: option.splits list.splits)
  then show ?thesis unfolding db_cache_of_def by (auto split: option.splits list.splits)
qed

lemma check_all_cong: "(\<And>x. x \<in> set xs \<Longrightarrow> f x = g x) \<Longrightarrow> check_all f xs = check_all g xs"
  by (induction xs) (auto split: sum.splits bool.splits)

lemma dependencies_cong:
  assumes "\<And>p. p \<in> set (job_parents job) \<Longrightarrow> hm_get jobs p = None \<Longrightarrow> hm_get db p = hm_get db' p"
  shows "are_dependencies_satisfied job jobs db = are_dependencies_satisfied job jobs db'"
proof -
  have "check_raw_dependency jobs db p = check_raw_dependency jobs db' p"
    if "ji_dependencies job = Some deps" "p \<in> set deps" for deps p
    using assms [of p] that by (auto simp: check_raw_dependency_def job_parents_def split: option.splits)
  moreover have "check_dependency_spec jobs db sp = check_dependency_spec jobs db' sp"
    if "ji_dependency_specs job = Some specs" "sp \<in> set specs" for specs sp
  proof (cases "dependency_spec_parse sp")
    case (Inr d)
    then have "ds_parent_id d \<in> set (job_parents job)"
      using that by (force simp: job_parents_def map_filter_def spec_parent_def)
    with assms [of "ds_parent_id d"] Inr show ?thesis by (auto simp: check_dependency_spec_def Let_def split: option.splits)
  qed (simp add: check_dependency_spec_def)
  ultimately show ?thesis
    unfolding are_dependencies_satisfied_def
    by (cases "ji_dependencies job"; cases "ji_dependency_specs job") (simp_all cong: check_all_cong split: sum.split bool.split)
qed

text \<open>
  Fetching only the parents that are needed gives the scheduler the same answers as the whole
  history would: for every pending job of the queue, the evaluation of its dependencies with the fetched
  statuses equals the evaluation with a table of the first history record of every job id.
\<close>

lemma db_cache_suffices:
  assumes "job \<in> set (pending_in_queue s)"
    and "\<And>p. hm_get history p = (case query p of Some (h # _) \<Rightarrow> Some (ju_status h) | _ \<Rightarrow> None)"
  shows "are_dependencies_satisfied job (gs_jobs s) (db_cache_of query (needed_ids s)) =
    are_dependencies_satisfied job (gs_jobs s) history"
proof (rule dependencies_cong)
  fix p assume p: "p \<in> set (job_parents job)" "hm_get (gs_jobs s) p = None"
  then have "p \<in> set (needed_ids s)" using assms(1) by (auto simp: needed_ids_def hm_contains_def)
  then show "hm_get (db_cache_of query (needed_ids s)) p = hm_get history p" by (simp add: db_cache_get assms(2))
qed


section \<open>Entering jobs into the table\<close>

lemma enter_jobs_fields:
  "gs_workers (enter_jobs b s) = gs_workers s" "gs_queue (enter_jobs b s) = gs_queue s @ map ji_id b"
  "gs_role (enter_jobs b s) = gs_role s" "gs_next_job_id (enter_jobs b s) = gs_next_job_id s"
  "gs_jobs (enter_jobs b s) = fold (\<lambda>job. hm_insert (ji_id job) job) b (gs_jobs s)"
  by (induction b arbitrary: s) (simp_all add: enter_jobs_def)

lemma fold_insert_other:
  "i \<notin> ji_id ` set b \<Longrightarrow> hm_get (fold (\<lambda>job. hm_insert (ji_id job) job) b m) i = hm_get m i"
  by (induction b arbitrary: m) auto

lemma fold_insert_in:
  "distinct (map ji_id b) \<Longrightarrow> job \<in> set b \<Longrightarrow>
     hm_get (fold (\<lambda>job. hm_insert (ji_id job) job) b m) (ji_id job) = Some job"
  by (induction b arbitrary: m) (auto simp: fold_insert_other)

lemma process_batch_state:
  "cx_state (process_batch n ctx) =
     (if gs_role (cx_state ctx) = Leader
      then enter_jobs (take n (cx_submissions ctx)) (cx_state ctx\<lparr>gs_next_job_id := cx_next_job_id ctx\<rparr>)
      else cx_state ctx)"
  by (simp add: process_batch_def Let_def)

text \<open>
  A submission that the table can take: pending, asking for a node, well-formed, and under an id that
  neither the table nor a worker's job list knows.
\<close>

definition enterable :: "global_state \<Rightarrow> job_info \<Rightarrow> bool" where
  "enterable s job = (ji_status job = Pending \<and> 0 < ji_req_nodes job \<and> hm_wf (ji_gres_req job) \<and>
     hm_get (gs_jobs s) (ji_id job) = None \<and> unlisted (ji_id job) s)"

lemma enter_one_ok:
  assumes "ctl_ok s" "enterable s job"
  shows "ctl_ok (s\<lparr>gs_jobs := hm_insert (ji_id job) job (gs_jobs s), gs_queue := q\<rparr>)"
proof -
  have "link_ok (hm_insert (ji_id job) job (gs_jobs s)) wid w" if "hm_get (gs_workers s) wid = Some w" for wid w
  proof -
    have "ji_id job \<notin> set (wh_assigned_jobs w)" using assms(2) that by (auto simp: enterable_def unlisted_def)
    moreover have "link_ok (gs_jobs s) wid w" using assms(1) that by (auto simp: ctl_ok_def alloc_inv_def)
    ultimately show ?thesis by (auto simp: link_ok_def)
  qed
  then show ?thesis using assms by (auto simp: ctl_ok_def alloc_inv_def books_def enterable_def)
qed

lemma enter_jobs_ok:
  assumes "ctl_ok s" "\<forall>job\<in>set b. enterable s job" "distinct (map ji_id b)"
  shows "ctl_ok (enter_jobs b s)"
  using assms
proof (induction b arbitrary: s)
  case (Cons x b)
  let ?s = "s\<lparr>gs_jobs := hm_insert (ji_id x) x (gs_jobs s), gs_queue := gs_queue s @ [ji_id x]\<rparr>"
  have "ctl_ok ?s" by (rule enter_one_ok) (use Cons.prems in auto)
  moreover have "ji_id job \<noteq> ji_id x" if "job \<in> set b" for job
    using Cons.prems(3) that by (metis distinct.simps(2) image_eqI list.set_map list.simps(9))
  then have "\<forall>job\<in>set b. enterable ?s job"
    using Cons.prems by (auto simp: enterable_def unlisted_def)
  ultimately have "ctl_ok (enter_jobs b ?s)" using Cons by auto
  then show ?case by (simp add: enter_jobs_def)
qed (simp add: enter_jobs_def)

text \<open>
  The leader's processor enters every job of a batch. Afterwards each is in the job table under its
  id and at the end of the queue in submission order, no other job changed, the rest of the channel is
  left, and the persisted id counter equals the shared one; a follower drops the batch and changes no
  job.
\<close>

lemma process_batch_enters:
  assumes "distinct (map ji_id (take n (cx_submissions ctx)))"
  shows "let b = take n (cx_submissions ctx); s = cx_state ctx; s' = cx_state (process_batch n ctx) in
    cx_submissions (process_batch n ctx) = drop n (cx_submissions ctx) \<and>
    (gs_role s = Leader \<longrightarrow>
       (\<forall>job\<in>set b. hm_get (gs_jobs s') (ji_id job) = Some job) \<and>
       (\<forall>i. i \<notin> ji_id ` set b \<longrightarrow> hm_get (gs_jobs s') i = hm_get (gs_jobs s) i) \<and>
       gs_queue s' = gs_queue s @ map ji_id b \<and> gs_next_job_id s' = cx_next_job_id ctx) \<and>
    (gs_role s \<noteq> Leader \<longrightarrow> gs_jobs s' = gs_jobs s \<and> gs_queue s' = gs_queue s)"
proof -
  have "cx_submissions (process_batch n ctx) = drop n (cx_submissions ctx)"
    by (simp add: process_batch_def Let_def sync_active_state_to_dashmaps_def split_def)
  then show ?thesis unfolding Let_def
    by (simp add: process_batch_state enter_jobs_fields fold_insert_in [OF assms] fold_insert_other)
qed


section \<open>Witnesses\<close>


end
