(* ===== verification/ClientHandler.thy ===== *)
theory ClientHandler
  imports Submission
begin

text \<open>
  The other request messages of \<open>controller/src/handlers/client.rs\<close> (steps, job lists, cancellation, job
  history) and the loop body of \<open>handle_client\<close>: the role check, then the handler of the message. The
  caller is the authenticated principal of the connection (\<open>client_id\<close>, \<open>roles\<close>).

  The spawned tasks of \<open>CancelJob\<close> (deleting input files, recording the usage) run after the reply; they
  are applied at once here, under the state the handler left.
\<close>

section \<open>Views\<close>

definition is_viewer_only :: "string list \<Rightarrow> bool" where
  "is_viewer_only roles = (has_role roles [''viewer''] \<and> \<not> has_role roles [''admin'', ''operator'', ''submitter''])"

definition is_submitter_only :: "string list \<Rightarrow> bool" where
  "is_submitter_only roles = (has_role roles [''submitter''] \<and> \<not> has_role roles [''admin'', ''operator''])"

definition permission_denied :: response where
  "permission_denied = ErrorMsg ''Permission denied: unauthorized operation''"

definition get_job_steps :: "principal \<Rightarrow> u64 \<Rightarrow> global_state \<Rightarrow> response" where
  "get_job_steps caller job_id s =
     (case hm_get (gs_jobs s) job_id of
        None \<Rightarrow> ErrorMsg (''Job '' @ show_u64 job_id @ '' not found'')
      | Some job \<Rightarrow>
          (if is_viewer_only (pr_roles caller) \<and> ji_user_id job \<noteq> pr_user_id caller then permission_denied
           else JobSteps (map snd (filter (\<lambda>((jid, _), _). jid = job_id) (gs_steps s)))))"

datatype job_state_filter = FPending | FRunning | FCompleted | FFailed | FKilled

fun filter_matches :: "job_state_filter \<Rightarrow> job_status \<Rightarrow> bool" where
  "filter_matches FPending Pending = True"
| "filter_matches FRunning Running = True"
| "filter_matches FCompleted (Completed _) = True"
| "filter_matches FFailed (Failed _) = True"
| "filter_matches FKilled Killed = True"
| "filter_matches _ _ = False"

text \<open>A row for a job that is only known from the accounting store.\<close>

definition historical_job :: "job_usage \<Rightarrow> job_info" where
  "historical_job h = \<lparr>
     ji_id = ju_job_id h, ji_job_name = ju_job_name h, ji_job_comment = ju_job_comment h,
     ji_binary = ju_command_line h, ji_args = [], ji_status = ju_status h, ji_req_nodes = ju_req_nodes h,
     ji_req_cores = ju_req_cores h, ji_req_memory = ju_req_memory h, ji_assigned_workers = ju_assigned_workers h,
     ji_walltime = 0, ji_start_time = ju_start_time h, ji_priority = 0, ji_user_id = ju_user_id h,
     ji_working_directory = [], ji_queued_time = ju_submission_time h, ji_current_cpu_usage = 0,
     ji_current_memory_usage = 0, ji_is_idle = False, ji_idle_duration = 0, ji_end_time = ju_end_time h,
     ji_env_vars = [], ji_reason = None, ji_array_id = ju_array_id h, ji_array_task_id = ju_array_task_id h,
     ji_inputs = [], ji_cgroup_active = False, ji_gres_req = ju_gres_req h, ji_allocated_cores = [],
     ji_allocated_gres = [], ji_mpi_stats = None, ji_secret = [], ji_stdout_file_id = ju_stdout_file_id h,
     ji_stderr_file_id = ju_stderr_file_id h, ji_workdir_file_id = ju_workdir_file_id h,
     ji_worker_log_files = ju_worker_log_files h, ji_output_artifacts = ju_output_artifacts h,
     ji_wait_for_licenses = ju_wait_for_licenses h, ji_estimated_walltime = ju_estimated_walltime h,
     ji_priority_offset = ju_priority_offset h, ji_dependencies = ju_dependencies h,
     ji_dependency_specs = ju_dependency_specs h, ji_qos = ju_qos h, ji_container_asset = None,
     ji_vnc_enabled = False, ji_inherit_host_env = False, ji_env_allowlist = None, ji_job_profile = None,
     ji_interactive_port = None\<rparr>"

definition list_jobs :: "principal \<Rightarrow> job_state_filter option \<Rightarrow> job_usage list option \<Rightarrow> global_state \<Rightarrow> response" where
  "list_jobs caller state_filter history s =
     (let active = hm_values (gs_jobs s);
          processed_ids = map ji_id active;
          past = map historical_job (filter (\<lambda>h. ju_job_id h \<notin> set processed_ids)
                   (case history of Some h \<Rightarrow> h | None \<Rightarrow> []))
      in JobList (filter (\<lambda>job. \<not> (is_viewer_only (pr_roles caller) \<and> ji_user_id job \<noteq> pr_user_id caller) \<and>
                   (case state_filter of None \<Rightarrow> True | Some f \<Rightarrow> filter_matches f (ji_status job))) (active @ past)))"

definition get_job_history :: "principal \<Rightarrow> history_filter \<Rightarrow> job_usage list option \<Rightarrow> response" where
  "get_job_history caller f history =
     (let rows = redact_job_usages (case history of Some h \<Rightarrow> h | None \<Rightarrow> []) in
      if is_viewer_only (pr_roles caller)
      then (let filtered = filter (\<lambda>h. ju_user_id h = pr_user_id caller) rows in
            case f of
              HfSingle _ \<Rightarrow> (if filtered = [] then permission_denied else JobHistoryResponse filtered)
            | _ \<Rightarrow> JobHistoryResponse filtered)
      else JobHistoryResponse rows)"

section \<open>Cancellation\<close>

definition cancel_job :: "env \<Rightarrow> principal \<Rightarrow> u64 \<Rightarrow> controller_ctx \<Rightarrow> controller_ctx \<times> response" where
  "cancel_job ev caller job_id ctx =
     (let s = cx_state ctx in
      case hm_get (gs_jobs s) job_id of
        None \<Rightarrow> (ctx, ErrorMsg (''Job '' @ show_u64 job_id @ '' not found''))
      | Some job \<Rightarrow>
          (if is_submitter_only (pr_roles caller) \<and> ji_user_id job \<noteq> pr_user_id caller then (ctx, permission_denied)
           else
             (let s1 = (case ji_assigned_workers job of [] \<Rightarrow> s | w # _ \<Rightarrow> send_ignore s w (TerminateJob job_id));
                  (s2, files) = finalize_job ev job_id Killed s1;
                  job_clone = hm_get (gs_jobs s2) job_id;
                  s3 = s2\<lparr>gs_jobs := hm_remove job_id (gs_jobs s2)\<rparr>;
                  ctx1 = sync_active_state_to_dashmaps (ctx\<lparr>cx_missing_jobs := hm_remove job_id (cx_missing_jobs ctx),
                           cx_state := s3, cx_failed_jobs := cx_failed_jobs ctx + 1\<rparr>);
                  ctx2 = ctx1\<lparr>cx_state := notify_one (cx_state ctx1)\<rparr>
              in (record_usage job_clone (delete_unreferenced files ctx2), Ack))))"

section \<open>The message loop\<close>

datatype client_message =
    MSubmit submit_request
  | MSubmitDag "dag_node list"
  | MSubmitStep u64 string "string list" usize u32 u32 "file_handle list" "(string \<times> string) list"
  | MGetJobSteps u64
  | MListJobs "job_state_filter option"
  | MCancelJob u64
  | MGetJobHistory history_filter
  | MCreateReservation "string list" u64 u64 string
  | MListReservations
  | MDeleteReservation string

fun request_kind :: "client_message \<Rightarrow> client_request" where
  "request_kind (MSubmit _) = RqSubmit"
| "request_kind (MSubmitDag _) = RqSubmitDag"
| "request_kind (MSubmitStep _ _ _ _ _ _ _ _) = RqSubmitStep"
| "request_kind (MGetJobSteps _) = RqGetJobSteps"
| "request_kind (MListJobs _) = RqListJobs"
| "request_kind (MCancelJob _) = RqCancelJob"
| "request_kind (MGetJobHistory _) = RqGetJobHistory"
| "request_kind (MCreateReservation _ _ _ _) = RqCreateReservation"
| "request_kind MListReservations = RqListReservations"
| "request_kind (MDeleteReservation _) = RqDeleteReservation"

definition with_state :: "controller_ctx \<Rightarrow> global_state \<times> 'r \<Rightarrow> ('r \<Rightarrow> response) \<Rightarrow> controller_ctx \<times> response" where
  "with_state ctx r f = (ctx\<lparr>cx_state := fst r\<rparr>, f (snd r))"

text \<open>
  \<open>query\<close> is the accounting store; \<open>uuid\<close> a fresh identifier for a reservation.
\<close>

fun respond :: "env \<Rightarrow> submit_env \<Rightarrow> store_env \<Rightarrow> (history_filter \<Rightarrow> job_usage list option) \<Rightarrow> string \<Rightarrow> principal \<Rightarrow>
    client_message \<Rightarrow> controller_ctx \<Rightarrow> controller_ctx \<times> response" where
  "respond ev sv store query uuid caller (MSubmit q) ctx = submit ev sv caller q ctx"
| "respond ev sv store query uuid caller (MSubmitDag nodes) ctx = submit_dag ev sv caller nodes ctx"
| "respond ev sv store query uuid caller (MSubmitStep j b args nodes cores ntasks inputs vars) ctx =
     with_state ctx (submit_step j b args nodes cores ntasks inputs vars (cx_state ctx)) (case_sum ErrorMsg StepId)"
| "respond ev sv store query uuid caller (MGetJobSteps j) ctx = (ctx, get_job_steps caller j (cx_state ctx))"
| "respond ev sv store query uuid caller (MListJobs f) ctx = (ctx, list_jobs caller f (query HfAll) (cx_state ctx))"
| "respond ev sv store query uuid caller (MCancelJob j) ctx = cancel_job ev caller j ctx"
| "respond ev sv store query uuid caller (MGetJobHistory f) ctx = (ctx, get_job_history caller f (query f))"
| "respond ev sv store query uuid caller (MCreateReservation nodes st en owner) ctx =
     with_state ctx (create_reservation ev store uuid nodes st en owner (cx_state ctx)) ReservationReply"
| "respond ev sv store query uuid caller MListReservations ctx = (ctx, ReservationReply (list_reservations (cx_state ctx)))"
| "respond ev sv store query uuid caller (MDeleteReservation i) ctx =
     with_state ctx (delete_reservation store i (cx_state ctx)) ReservationReply"

definition handle_client :: "env \<Rightarrow> submit_env \<Rightarrow> store_env \<Rightarrow> (history_filter \<Rightarrow> job_usage list option) \<Rightarrow> string \<Rightarrow> principal \<Rightarrow>
    client_message \<Rightarrow> controller_ctx \<Rightarrow> controller_ctx \<times> response" where
  "handle_client ev sv store query uuid caller msg ctx =
     (if \<not> is_authorized (request_kind msg) (pr_roles caller) then (ctx, permission_denied)
      else respond ev sv store query uuid caller msg ctx)"


section \<open>Cancelling is ending the job as killed\<close>

lemma cancel_allowed:
  assumes "hm_get (gs_jobs (cx_state ctx)) j = Some job"
    and "\<not> (is_submitter_only (pr_roles caller) \<and> ji_user_id job \<noteq> pr_user_id caller)"
  shows "\<exists>s1. gs_workers s1 = gs_workers (cx_state ctx) \<and> gs_jobs s1 = gs_jobs (cx_state ctx) \<and>
    cancel_job ev caller j ctx = (finish_job ev j Killed False
      (ctx\<lparr>cx_missing_jobs := hm_remove j (cx_missing_jobs ctx), cx_state := s1\<rparr>), Ack)"
  using assms
  by (intro exI [of _ "case ji_assigned_workers job of [] \<Rightarrow> cx_state ctx
       | w # _ \<Rightarrow> send_ignore (cx_state ctx) w (TerminateJob j)"])
    (auto simp: cancel_job_def finish_job_def Let_def split: list.split prod.split)

lemma cancel_denied:
  "hm_get (gs_jobs (cx_state ctx)) j = Some job \<Longrightarrow> is_submitter_only (pr_roles caller) \<Longrightarrow>
     ji_user_id job \<noteq> pr_user_id caller \<Longrightarrow> cancel_job ev caller j ctx = (ctx, permission_denied)"
  by (simp add: cancel_job_def)

lemma cancel_job_ok: "ctl_ok (cx_state ctx) \<Longrightarrow> ctl_ok (cx_state (fst (cancel_job ev caller j ctx)))"
proof (cases "\<exists>job. hm_get (gs_jobs (cx_state ctx)) j = Some job \<and>
      \<not> (is_submitter_only (pr_roles caller) \<and> ji_user_id job \<noteq> pr_user_id caller)")
  case True
  assume ok: "ctl_ok (cx_state ctx)"
  from True obtain job where "hm_get (gs_jobs (cx_state ctx)) j = Some job"
    "\<not> (is_submitter_only (pr_roles caller) \<and> ji_user_id job \<noteq> pr_user_id caller)" by blast
  from cancel_allowed [OF this, of ev] obtain s1 where
    s1: "gs_workers s1 = gs_workers (cx_state ctx)" "gs_jobs s1 = gs_jobs (cx_state ctx)"
    and c: "cancel_job ev caller j ctx = (finish_job ev j Killed False
      (ctx\<lparr>cx_missing_jobs := hm_remove j (cx_missing_jobs ctx), cx_state := s1\<rparr>), Ack)" by (elim exE conjE)
  have "ctl_ok s1" using ctl_ok_cong [OF s1] ok by simp
  then show ?thesis by (simp add: c finish_job_ok)
next
  case False
  assume "ctl_ok (cx_state ctx)"
  with False cancel_denied [of ctx j _ caller ev] show ?thesis
    by (cases "hm_get (gs_jobs (cx_state ctx)) j") (auto simp: cancel_job_def [of ev caller j ctx])
qed


text \<open>
  C15: Cancelling a job the caller may cancel ends it: the job leaves the table, no worker lists it any
  more so its cores and GRES ids are free again, it is accounted once as killed, every other job's
  record is unchanged and the books stay balanced. A submitter who is neither administrator nor operator
  cannot cancel another user's job, and nothing changes then.
\<close>

theorem cancel_job_outcome:
  assumes "ctl_ok (cx_state ctx)" and "hm_get (gs_jobs (cx_state ctx)) j = Some job"
  shows "if is_submitter_only (pr_roles caller) \<and> ji_user_id job \<noteq> pr_user_id caller
    then cancel_job ev caller j ctx = (ctx, permission_denied)
    else \<exists>ctx'. cancel_job ev caller j ctx = (ctx', Ack) \<and> ctl_ok (cx_state ctx') \<and> unlisted j (cx_state ctx') \<and>
      (\<forall>k. hm_get (gs_jobs (cx_state ctx')) k = (if k = j then None else hm_get (gs_jobs (cx_state ctx)) k)) \<and>
      cx_accounting ctx' = cx_accounting ctx @ [job_to_usage (finalized ev Killed job)]"
proof (cases "is_submitter_only (pr_roles caller) \<and> ji_user_id job \<noteq> pr_user_id caller")
  case True
  then show ?thesis using cancel_denied [OF assms(2)] by simp
next
  case False
  from cancel_allowed [OF assms(2) False] obtain s1 where s1: "gs_workers s1 = gs_workers (cx_state ctx)"
    "gs_jobs s1 = gs_jobs (cx_state ctx)" and c: "cancel_job ev caller j ctx = (finish_job ev j Killed False
      (ctx\<lparr>cx_missing_jobs := hm_remove j (cx_missing_jobs ctx), cx_state := s1\<rparr>), Ack)" (is "_ = (finish_job ev j Killed False ?c, _)")
    by blast
  have "alloc_inv (cx_state ?c)" "hm_get (gs_jobs (cx_state ?c)) j = Some job"
    using assms s1 alloc_inv_cong [of s1 "cx_state ctx"] by (simp_all add: ctl_ok_def)
  note r = finish_job_result [OF this, where st = Killed and cl = False and ev = ev]
  have "ctl_ok (cx_state (fst (cancel_job ev caller j ctx)))" by (rule cancel_job_ok [OF assms(1)])
  then show ?thesis unfolding if_not_P [OF False] using c r(1,2,4) s1 by simp
qed

lemma two_node_ctl: "ctl_ok two_node_state"
  using two_node_state_ok
  by (auto simp: ctl_ok_def books_def booked_def two_node_state_def sample_state_def running_job_def sample_job_def
      loaded_worker_def sample_worker_def split: if_splits)

theorem cancel_job_outcome_witness:
  "ctl_ok (cx_state (sample_ctx two_node_state)) \<and>
   cancel_job sample_env sample_caller 1 (sample_ctx two_node_state) = (sample_ctx two_node_state, permission_denied) \<and>
   snd (cancel_job sample_env (sample_caller\<lparr>pr_user_id := ''alice''\<rparr>) 1 (sample_ctx two_node_state)) = Ack"
proof -
  have 1: "ctl_ok (cx_state (sample_ctx two_node_state))" using two_node_ctl by (simp add: sample_ctx_def)
  have 2: "hm_get (gs_jobs (cx_state (sample_ctx two_node_state))) 1 = Some running_job"
    by (simp add: sample_ctx_def two_node_state_def sample_state_def)
  have 3: "is_submitter_only (pr_roles sample_caller)" "pr_user_id sample_caller = ''bob''" "ji_user_id running_job = ''alice''"
    by (simp_all add: sample_caller_def is_submitter_only_def has_role_def running_job_def sample_job_def)
  show ?thesis
    using 1 cancel_job_outcome [OF 1 2, of sample_caller sample_env] 3
      cancel_job_outcome [OF 1 2, of "sample_caller\<lparr>pr_user_id := ''alice''\<rparr>" sample_env] by force
qed

section \<open>What a caller without privileges can change and see\<close>

lemma submit_dag_state: "cx_state (fst (submit_dag ev sv caller nodes ctx)) = cx_state ctx"
  by (simp add: submit_dag_def take_ids_def send_all_result Let_def split: list.split)

lemma submit_state: "cx_state (fst (submit ev sv caller q ctx)) = cx_state ctx"
  by (cases rule: submit_cases [of q ev sv caller ctx]) simp_all

lemma submit_step_jobs:
  "gs_jobs (fst (submit_step j b a n c t i v s)) = gs_jobs s" "gs_reservations (fst (submit_step j b a n c t i v s)) = gs_reservations s"
  by (simp_all add: submit_step_def Let_def notify_one_def split: option.split)

lemma unprivileged_roles:
  assumes "\<not> is_admin_or_operator caller"
  shows "\<not> is_authorized RqCreateReservation (pr_roles caller)" "\<not> is_authorized RqDeleteReservation (pr_roles caller)"
    "is_authorized RqCancelJob (pr_roles caller) \<Longrightarrow> is_submitter_only (pr_roles caller)"
proof -
  have r: "''admin'' \<notin> set (pr_roles caller)" "''operator'' \<notin> set (pr_roles caller)"
    using assms by (auto simp: is_admin_or_operator_def list_ex_iff)
  then have h: "has_role (pr_roles caller) [''admin''] = False" "has_role (pr_roles caller) [''operator''] = False"
    "has_role (pr_roles caller) [''admin'', ''operator''] = False"
    "has_role (pr_roles caller) [''submitter'', ''operator''] = has_role (pr_roles caller) [''submitter'']"
    by (auto simp: has_role_def list_ex_iff)
  show "\<not> is_authorized RqCreateReservation (pr_roles caller)" "\<not> is_authorized RqDeleteReservation (pr_roles caller)"
    "is_authorized RqCancelJob (pr_roles caller) \<Longrightarrow> is_submitter_only (pr_roles caller)"
    by (simp_all add: is_authorized_def is_submitter_only_def h)
qed

text \<open>
  C16: Whatever message a caller who is neither administrator nor operator sends, authorized or not, the
  record of every job of another user stays in the job table as it was.
\<close>

theorem other_users_jobs_untouched:
  assumes "ctl_ok (cx_state ctx)" and "\<not> is_admin_or_operator caller"
    and "hm_get (gs_jobs (cx_state ctx)) j = Some job" and "ji_user_id job \<noteq> pr_user_id caller"
  shows "hm_get (gs_jobs (cx_state (fst (handle_client ev sv store query uuid caller msg ctx)))) j = Some job"
proof (cases "is_authorized (request_kind msg) (pr_roles caller)")
  case True
  show ?thesis
  proof (cases msg)
    case (MCancelJob k)
    have so: "is_submitter_only (pr_roles caller)" using True MCancelJob unprivileged_roles(3) [OF assms(2)] by simp
    have "hm_get (gs_jobs (cx_state (fst (cancel_job ev caller k ctx)))) j = Some job"
    proof (cases "hm_get (gs_jobs (cx_state ctx)) k")
      case None
      then show ?thesis using assms(3) by (simp add: cancel_job_def)
    next
      case (Some job')
      show ?thesis
      proof (cases "ji_user_id job' = pr_user_id caller")
        case True
        then have "j \<noteq> k" using assms(3,4) Some by auto
        from cancel_allowed [OF Some, of caller ev] True obtain s1 where s1: "gs_workers s1 = gs_workers (cx_state ctx)"
          "gs_jobs s1 = gs_jobs (cx_state ctx)" and c: "cancel_job ev caller k ctx = (finish_job ev k Killed False
          (ctx\<lparr>cx_missing_jobs := hm_remove k (cx_missing_jobs ctx), cx_state := s1\<rparr>), Ack)" by blast
        have "alloc_inv s1" using assms(1) s1 alloc_inv_cong [of s1 "cx_state ctx"] by (simp add: ctl_ok_def)
        then show ?thesis using \<open>j \<noteq> k\<close> assms(3) s1 Some
          by (simp add: c finish_job_result(1) [where job = job'])
      next
        case False
        then show ?thesis using cancel_denied [OF Some so] assms(3) by simp
      qed
    qed
    then show ?thesis using True MCancelJob by (simp add: handle_client_def)
  qed (use True assms(3) unprivileged_roles(1,2) [OF assms(2)] in \<open>simp_all add: handle_client_def submit_state submit_dag_state
        submit_step_jobs with_state_def\<close>)
qed (use assms(3) in \<open>simp add: handle_client_def\<close>)


theorem other_users_jobs_untouched_witness:
  "\<not> is_admin_or_operator sample_caller \<and> hm_get (gs_jobs (cx_state (sample_ctx two_node_state))) 1 = Some running_job \<and>
   hm_get (gs_jobs (cx_state (fst (handle_client sample_env sample_submit_env sample_store (\<lambda>_. None) ''u'' sample_caller
     (MCancelJob 1) (sample_ctx two_node_state))))) 1 = Some running_job"
proof -
  have 1: "ctl_ok (cx_state (sample_ctx two_node_state))" using two_node_ctl by (simp add: sample_ctx_def)
  have 2: "hm_get (gs_jobs (cx_state (sample_ctx two_node_state))) 1 = Some running_job"
    by (simp add: sample_ctx_def two_node_state_def sample_state_def)
  have 3: "\<not> is_admin_or_operator sample_caller" "ji_user_id running_job \<noteq> pr_user_id sample_caller"
    by (simp_all add: sample_caller_def is_admin_or_operator_def running_job_def sample_job_def)
  show ?thesis using 2 3(1) other_users_jobs_untouched [OF 1 3(1) 2 3(2)] by blast
qed

text \<open>
  A step submission is not checked against the owner of the parent job: a submitter can run a
  command of its choice inside another user's running job, and the controller dispatches it to the
  worker with the owner's user id.
\<close>

theorem step_runs_as_job_owner:
  "\<exists>ctx' m. handle_client sample_env sample_submit_env sample_store (\<lambda>_. None) ''u'' sample_caller
       (MSubmitStep 1 ''/bin/sh'' [] 1 1 1 [] []) (sample_ctx two_node_state) = (ctx', StepId 1) \<and>
     (0, Plain (RunStep m)) \<in> set (gs_outbox (schedule_steps sample_env (cx_state ctx'))) \<and>
     rst_binary m = ''/bin/sh'' \<and> rst_user_id m = ''alice'' \<and> pr_user_id sample_caller = ''bob''"
proof -
  define s0 where "s0 = fst (submit_step 1 ''/bin/sh'' [] 1 1 1 [] [] two_node_state)"
  have auth: "is_authorized RqSubmitStep (pr_roles sample_caller)"
    by (simp add: is_authorized_def has_role_def sample_caller_def)
  have step: "submit_step 1 ''/bin/sh'' [] 1 1 1 [] [] two_node_state = (s0, Inr 1)"
    by (simp add: s0_def submit_step_def two_node_state_def sample_state_def running_job_def sample_job_def Let_def)
  define st where "st = \<lparr>si_step_id = 1, si_parent_job_id = 1, si_binary = ''/bin/sh'', si_args = [], si_status = StepPending,
    si_req_nodes = 1, si_req_cores = 1, si_ntasks = 1, si_assigned_workers = [], si_is_idle = False, si_idle_duration = 0,
    si_inputs = [], si_env_vars = []\<rparr>"
  have s: "gs_steps s0 = [((1, 1), st)]" "gs_jobs s0 = [(1, running_job)]" "gs_workers s0 = gs_workers two_node_state"
    "gs_closed s0 = []" "gs_outbox s0 = []"
    by (simp_all add: s0_def submit_step_def two_node_state_def sample_state_def running_job_def sample_job_def Let_def notify_one_def
        hm_insert_def st_def)
  have p: "job_pending_steps s0 = [(1, [1])]"
    by (simp add: job_pending_steps_def s st_def hm_entry_def hm_insert_def)
  have j: "ji_status running_job = Running" "ji_req_cores running_job = 1" "ji_assigned_workers running_job = [''w1'', ''w2'']"
    "ji_user_id running_job = ''alice''"
    by (simp_all add: running_job_def sample_job_def)
  have of_job: "steps_of_job s0 1 = [(1, 1)]"
    by (simp add: steps_of_job_def p s j running_step_cores_def st_def)
  have w: "hm_get (gs_workers two_node_state) ''w1'' = Some (loaded_worker ''w1'')" "wh_routing (loaded_worker ''w1'') = Direct 0"
    by (simp_all add: two_node_state_def sample_state_def loaded_worker_def sample_worker_def)
  have st: "si_req_nodes st = 1" "si_ntasks st = 1" "si_binary st = ''/bin/sh''" by (simp_all add: st_def)
  have sched: "schedule_steps sample_env s0 = fst (perform_step_dispatch 1 1 s0)"
    by (simp add: schedule_steps_def p of_job sample_env_def hm_keys_def)
  have "(\<exists>m. (0, Plain (RunStep m)) \<in> set (gs_outbox (fst (perform_step_dispatch 1 1 s0))) \<and>
      rst_binary m = ''/bin/sh'' \<and> rst_user_id m = ''alice'')"
    by (simp add: perform_step_dispatch_def s j st w step_ranks_def send_ignore_def send_to_worker_def post_def Let_def
        run_step_message_def)
  then obtain m where m: "(0, Plain (RunStep m)) \<in> set (gs_outbox (schedule_steps sample_env s0))"
    "rst_binary m = ''/bin/sh''" "rst_user_id m = ''alice''" unfolding sched by (elim exE conjE)
  have "handle_client sample_env sample_submit_env sample_store (\<lambda>_. None) ''u'' sample_caller
       (MSubmitStep 1 ''/bin/sh'' [] 1 1 1 [] []) (sample_ctx two_node_state) = (sample_ctx two_node_state\<lparr>cx_state := s0\<rparr>, StepId 1)"
    using step auth by (simp add: handle_client_def with_state_def sample_ctx_def)
  moreover have "pr_user_id sample_caller = ''bob''" by (simp add: sample_caller_def)
  ultimately show ?thesis using m by fastforce
qed

text \<open>
  A caller who is only a viewer is shown nothing of other users' jobs: the job list contains only
  its own jobs and the history only its own rows, and no history row of anybody carries a launch secret.
\<close>

theorem viewer_sees_own_jobs:
  assumes "is_viewer_only (pr_roles caller)"
  shows "\<exists>jobs. list_jobs caller f history s = JobList jobs \<and> (\<forall>job\<in>set jobs. ji_user_id job = pr_user_id caller) \<and>
    (get_job_history caller g history = permission_denied \<or>
     (\<exists>rows. get_job_history caller g history = JobHistoryResponse rows \<and>
        (\<forall>h\<in>set rows. ju_user_id h = pr_user_id caller \<and> ju_secret h = [])))"
proof -
  have "\<forall>h\<in>set (filter (\<lambda>h. ju_user_id h = pr_user_id caller) (redact_job_usages rows)).
      ju_user_id h = pr_user_id caller \<and> ju_secret h = []" for rows
    by (auto simp: redact_job_usages_def)
  then show ?thesis using assms by (auto simp: list_jobs_def get_job_history_def Let_def split: history_filter.split)
qed

theorem viewer_sees_own_jobs_witness:
  "is_viewer_only [''viewer''] \<and> list_jobs \<lparr>pr_user_id = ''bob'', pr_roles = [''viewer'']\<rparr> None None two_node_state = JobList []"
proof -
  have v: "is_viewer_only (pr_roles \<lparr>pr_user_id = ''bob'', pr_roles = [''viewer'']\<rparr>)"
    by (simp add: is_viewer_only_def has_role_def)
  from viewer_sees_own_jobs [OF v, of None None two_node_state HfAll] obtain jobs where
    j: "list_jobs \<lparr>pr_user_id = ''bob'', pr_roles = [''viewer'']\<rparr> None None two_node_state = JobList jobs"
    "\<forall>job\<in>set jobs. ji_user_id job = ''bob''" by auto
  then have "set jobs \<subseteq> {running_job}"
    by (auto simp: list_jobs_def Let_def two_node_state_def sample_state_def hm_values_def split: if_splits)
  with j(2) have "jobs = []" by (cases jobs) (auto simp: running_job_def sample_job_def)
  with v j(1) show ?thesis by simp
qed

text \<open>
  The job list, unlike the history, does not redact launch secrets: a submitter who lists jobs
  receives the secret of another user's running job.
\<close>

theorem job_list_leaks_secret:
  "\<exists>jobs job. handle_client sample_env sample_submit_env sample_store (\<lambda>_. None) ''u'' sample_caller (MListJobs None)
       (sample_ctx two_node_state) = (sample_ctx two_node_state, JobList jobs) \<and>
     job \<in> set jobs \<and> ji_user_id job = ''alice'' \<and> ji_secret job = ''s'' \<and> pr_user_id sample_caller = ''bob''"
  by (auto simp: handle_client_def is_authorized_def has_role_def sample_caller_def list_jobs_def is_viewer_only_def Let_def
      sample_ctx_def two_node_state_def sample_state_def running_job_def sample_job_def hm_values_def)

end
