(* ===== verification/Controller.thy ===== *)
theory Controller
  imports ClientHandler
begin

text \<open>
  The controller as a whole: all operations of the leader, in any order, as one step relation on the
  shared context, and the invariant that every reachable context satisfies. It joins \<open>ctl_ok\<close> (pools and
  books) with the bookkeeping of job ids: an id that has been given out is below the counter, and a
  submission waiting in the channel carries an id that neither the job table nor a worker uses.
\<close>

section \<open>Which job ids are in use\<close>

definition listed :: "global_state \<Rightarrow> u64 set" where
  "listed s = {j. \<exists>wid w. hm_get (gs_workers s) wid = Some w \<and> j \<in> set (wh_assigned_jobs w)}"

definition present :: "global_state \<Rightarrow> u64 set" where
  "present s = set (hm_keys (gs_jobs s)) \<union> listed s"

lemma present_job [intro]: "hm_get (gs_jobs s) j = Some job \<Longrightarrow> j \<in> present s"
  by (auto simp: present_def hm_keys_get)

lemma present_listed [intro]: "hm_get (gs_workers s) wid = Some w \<Longrightarrow> j \<in> set (wh_assigned_jobs w) \<Longrightarrow> j \<in> present s"
  by (auto simp: present_def listed_def)

lemma present_sub:
  assumes "\<And>j job. hm_get (gs_jobs s') j = Some job \<Longrightarrow> j \<in> present s"
    and "\<And>wid w j. hm_get (gs_workers s') wid = Some w \<Longrightarrow> j \<in> set (wh_assigned_jobs w) \<Longrightarrow> j \<in> present s"
  shows "present s' \<subseteq> present s"
  using assms by (auto simp: present_def [of s'] listed_def hm_keys_get)

lemma present_cong: "gs_jobs s' = gs_jobs s \<Longrightarrow> gs_workers s' = gs_workers s \<Longrightarrow> present s' = present s"
  by (simp add: present_def listed_def)

lemma present_notify [simp]: "present (notify_one s) = present s"
  by (rule present_cong) (simp_all add: notify_one_def)

lemma present_modify_job [simp]: "gs_jobs s = m \<Longrightarrow> present (s\<lparr>gs_jobs := hm_modify j f m\<rparr>) = present s"
proof -
  assume "gs_jobs s = m"
  moreover have "set (hm_keys (hm_modify j f m)) = set (hm_keys m)"
    by (auto simp: hm_keys_get split: if_splits)
  ultimately show ?thesis by (simp add: present_def listed_def)
qed

lemma present_remove_job: "present (s\<lparr>gs_jobs := hm_remove j (gs_jobs s)\<rparr>) \<subseteq> present s"
  by (rule present_sub) (auto split: if_splits)

lemma release_worker_assigned: "set (wh_assigned_jobs (release_worker j job wid w)) \<subseteq> set (wh_assigned_jobs w)"
  by (auto simp: release_worker_def release_cores_def release_gres_def reset_if_idle_def Let_def split: option.splits if_splits)

lemma release_present: "present (release_job_resources_internal j s) \<subseteq> present s"
proof (rule present_sub)
  fix wid w k
  assume "hm_get (gs_workers (release_job_resources_internal j s)) wid = Some w" "k \<in> set (wh_assigned_jobs w)"
  then show "k \<in> present s"
    using release_worker_assigned by (fastforce simp: release_get_worker split: option.splits if_splits)
qed auto

lemma finalize_present: "present (fst (finalize_job ev j st s)) \<subseteq> present s"
proof -
  have "present (release_job_resources_internal j (accrue_job_usage ev j s)) \<subseteq> present (accrue_job_usage ev j s)"
    by (rule release_present)
  also have "present (accrue_job_usage ev j s) = present s" by (rule present_cong) simp_all
  finally show ?thesis by (simp add: finalize_job_def Let_def split: option.split)
qed

lemma preempt_present: "present (preempt_job j s) \<subseteq> present s"
proof (cases "\<exists>job. hm_get (gs_jobs s) j = Some job \<and> ji_status job = Running")
  case True
  then obtain job where job: "hm_get (gs_jobs s) j = Some job" "ji_status job = Running" by blast
  define s1 where "s1 = (case ji_assigned_workers job of [] \<Rightarrow> s | w # _ \<Rightarrow> send_ignore s w (PreemptJob j))"
  have s1: "present s1 = present s" by (rule present_cong) (simp_all add: s1_def split: list.split)
  have q: "present (s'\<lparr>gs_queue := q\<rparr>) = present s'" for s' q by (rule present_cong) simp_all
  show ?thesis using release_present [of j s1] job
    by (simp add: preempt_job_def Let_def s1_def [symmetric] s1 q)
next
  case False
  then show ?thesis by (auto simp: preempt_job_def split: option.split)
qed

lemma preempt_all_present: "present (fold preempt_job js s) \<subseteq> present s"
  by (rule fold_inv [where P = "\<lambda>s'. present s' \<subseteq> present s"]) (use preempt_present in blast)+

lemma start_job_present:
  assumes "start_job ev j job ids js s = Inr s'" "hm_get (gs_jobs s) j = Some job0" "distinct ids"
  shows "present s' \<subseteq> present s"
proof -
  let ?s1 = "fold preempt_job js s"
  from assms(1) obtain a where
    al: "allocate_on j job ids \<lparr>al_workers = gs_workers ?s1, al_cores = [], al_gres = [], al_node_list_ips = []\<rparr> = Inr a"
    and ws: "gs_workers s' = al_workers a" and js: "gs_jobs s' = hm_modify j (started ev ids a) (gs_jobs ?s1)"
    by (rule start_job_result)
  have sub: "present ?s1 \<subseteq> present s" by (rule preempt_all_present)
  show ?thesis
  proof (rule present_sub)
    fix k x assume "hm_get (gs_jobs s') k = Some x"
    then have "\<exists>x. hm_get (gs_jobs ?s1) k = Some x" by (auto simp: js split: if_splits)
    then show "k \<in> present s" using sub by blast
  next
    fix i w k assume w: "hm_get (gs_workers s') i = Some w" "k \<in> set (wh_assigned_jobs w)"
    then obtain w1 where w1: "hm_get (gs_workers ?s1) i = Some w1"
      using allocate_on_absent [OF al, of i] ws by (cases "hm_get (gs_workers ?s1) i") auto
    have "k = j \<or> k \<in> set (wh_assigned_jobs w1)"
    proof (cases "i \<in> set ids")
      case True
      from allocate_on_selected [OF al assms(3) True] w1 obtain w' c g where
        "alloc_worker j job w1 = Inr (w', c, g)" "hm_get (al_workers a) i = Some w'" by auto
      with w ws alloc_worker_fields(1) show ?thesis by fastforce
    next
      case False
      with w w1 ws allocate_on_frame(1) [OF al False] show ?thesis by simp
    qed
    then show "k \<in> present s" using sub w1 assms(2) by blast
  qed
qed

lemma keep_pending_present: "present (ps_state (keep_pending j r ps)) = present (ps_state ps)"
  by (simp add: keep_pending_def set_reason_def)

lemma clear_reason_present: "present (clear_waiting_reason j s) = present s"
  by (simp add: clear_waiting_reason_def)

lemma schedule_one_present:
  assumes st: "schedule_one ev db j ps = Inr ps'" and ok: "ctl_ok (ps_state ps)" and ord: "orders_ok ev"
  shows "present (ps_state ps') \<subseteq> present (ps_state ps)"
  using st
proof (cases rule: schedule_one_cases)
  case (start job ids js s')
  let ?s = "clear_waiting_reason j (ps_state ps)"
  have ok': "ctl_ok ?s" by (rule clear_reason_ctl [OF ok])
  have n: "0 < ji_req_nodes job" using ok start(1) by (auto simp: ctl_ok_def books_def)
  have "selection_ok ?s job (ev_now ev) ids js"
    using ok' by (intro choose_workers_ok [OF _ ord n start(5)]) (simp add: ctl_ok_def alloc_inv_def)
  then have d: "distinct ids" by (simp add: selection_ok_def)
  obtain job0 where "hm_get (gs_jobs ?s) j = Some job0" using start(1) by (auto simp: clear_waiting_jobs)
  from start_job_present [OF start(6) this d] show ?thesis using start(7) by (simp add: clear_reason_present)
qed (simp_all add: keep_pending_present clear_reason_present)

lemma schedule_loop_present:
  "schedule_loop ev db js ps = Inr ps' \<Longrightarrow> ctl_ok (ps_state ps) \<Longrightarrow> orders_ok ev \<Longrightarrow>
     present (ps_state ps') \<subseteq> present (ps_state ps)"
proof (induction js arbitrary: ps)
  case (Cons j js)
  then obtain ps1 where 1: "schedule_one ev db j ps = Inr ps1" "schedule_loop ev db js ps1 = Inr ps'"
    by (auto split: sum.splits)
  then show ?case using Cons schedule_one_present [OF 1(1)] schedule_one_ctl [OF 1(1)] by blast
qed auto

lemma schedule_jobs_present:
  assumes "schedule_jobs ev db s = Inr s'" "ctl_ok s" "orders_ok ev"
  shows "present s' \<subseteq> present s"
proof -
  let ?ps = "\<lparr>ps_state = begin_pass ev s, ps_still_pending = [], ps_top_job_earliest_start = None, ps_top_job_id = None\<rparr>"
  from assms(1) obtain ps where ps: "schedule_loop ev db (sort_pending ev (begin_pass ev s) (gs_queue s)) ?ps = Inr ps"
    "s' = (ps_state ps)\<lparr>gs_queue := ps_still_pending ps\<rparr>"
    by (auto simp: schedule_jobs_def Let_def split: sum.splits)
  have b: "ctl_ok (begin_pass ev s)" "present (begin_pass ev s) = present s"
    by (rule ctl_ok_cong [THEN iffD2, OF _ _ assms(2)], simp_all add: begin_pass_def) (rule present_cong, simp_all)
  then have "present (ps_state ps) \<subseteq> present s" using schedule_loop_present [OF ps(1)] assms(3) by simp
  moreover have "present s' = present (ps_state ps)" unfolding ps(2) by (rule present_cong) simp_all
  ultimately show ?thesis by simp
qed


section \<open>Operations that use no new id\<close>

text \<open>The counter and the submission channel stay, and no job id appears that was not in use.\<close>

definition quiet :: "controller_ctx \<Rightarrow> controller_ctx \<Rightarrow> bool" where
  "quiet ctx ctx' = (present (cx_state ctx') \<subseteq> present (cx_state ctx) \<and>
     cx_next_job_id ctx' = cx_next_job_id ctx \<and> cx_submissions ctx' = cx_submissions ctx)"

lemma quiet_refl [simp]: "quiet c c"
  by (simp add: quiet_def)

lemma quiet_trans: "quiet a b \<Longrightarrow> quiet b c \<Longrightarrow> quiet a c"
  by (auto simp: quiet_def)

lemma quiet_fold: "(\<And>x c. quiet c (f x c)) \<Longrightarrow> quiet c (fold f xs c)"
  by (rule fold_inv [where P = "quiet c"]) (auto intro: quiet_trans)

lemma sync_frame [simp]:
  "cx_next_job_id (sync_active_state_to_dashmaps c) = cx_next_job_id c"
  "cx_submissions (sync_active_state_to_dashmaps c) = cx_submissions c"
  by (simp_all add: sync_active_state_to_dashmaps_def Let_def split_def)

lemma quiet_state: "present s' \<subseteq> present (cx_state ctx) \<Longrightarrow> quiet ctx (ctx\<lparr>cx_state := s'\<rparr>)"
  by (simp add: quiet_def)

lemma quiet_fail: "quiet ctx (fail_and_remove ev err j ctx)"
  using present_remove_job finalize_present
  by (fastforce simp: quiet_def fail_and_remove_def Let_def)

lemma quiet_terminate: "quiet ctx (terminate_timed_out ev j ctx)"
proof -
  define s1 where "s1 = (case (case hm_get (gs_jobs (cx_state ctx)) j of None \<Rightarrow> None
      | Some job \<Rightarrow> (case ji_assigned_workers job of [] \<Rightarrow> None | w # _ \<Rightarrow> Some w))
    of None \<Rightarrow> cx_state ctx | Some w \<Rightarrow> send_ignore (cx_state ctx) w (TerminateJob j))"
  have "present s1 = present (cx_state ctx)" by (rule present_cong) (simp_all add: s1_def split: option.split)
  then have "quiet ctx (ctx\<lparr>cx_state := s1\<rparr>)" by (simp add: quiet_def)
  from quiet_trans [OF this quiet_fail] show ?thesis by (simp add: terminate_timed_out_def Let_def s1_def)
qed

lemma quiet_dead_job: "quiet ctx (fail_job_of_dead_worker ev j ctx)"
  unfolding fail_job_of_dead_worker_def Let_def by (rule quiet_trans [OF quiet_state quiet_fail]) simp

lemma present_remove_worker: "present (s\<lparr>gs_workers := hm_remove wid (gs_workers s)\<rparr>) \<subseteq> present s"
  by (rule present_sub) (auto split: if_splits)

lemma quiet_dead_worker: "quiet ctx (remove_dead_worker ev wid ctx)"
  unfolding remove_dead_worker_def Let_def
  by (rule quiet_trans [OF _ quiet_fold [OF quiet_dead_job]]) (simp add: quiet_def present_remove_worker)

lemma quiet_timeouts: "quiet ctx (check_timeouts ev ctx)"
proof -
  have *: "quiet ctx (fold (remove_dead_worker ev) ws (fold (terminate_timed_out ev) js ctx))" for ws js
    by (rule quiet_trans [OF quiet_fold [OF quiet_terminate] quiet_fold [OF quiet_dead_worker]])
  then have "quiet ctx (sync_active_state_to_dashmaps (fold (remove_dead_worker ev) ws (fold (terminate_timed_out ev) js ctx))
      \<lparr>cx_state := notify_one (cx_state (fold (remove_dead_worker ev) ws (fold (terminate_timed_out ev) js ctx)))\<rparr>)" for ws js
    by (simp add: quiet_def)
  with * show ?thesis by (simp add: check_timeouts_def Let_def)
qed

lemma quiet_prune: "quiet ctx (prune_jobs ev r ctx)"
proof -
  have "present (s\<lparr>gs_jobs := fold hm_remove ks (gs_jobs s)\<rparr>) \<subseteq> present s" for s ks
    by (rule present_sub) (auto simp: hmap.get_fold_del split: if_splits)
  then show ?thesis by (simp add: prune_jobs_def Let_def quiet_def)
qed

lemma quiet_finish: "quiet ctx (finish_job ev j st cl ctx)"
proof -
  let ?s1 = "fst (finalize_job ev j st (cx_state ctx))"
  have "present (cx_state (finish_job ev j st cl ctx)) = present (?s1\<lparr>gs_jobs := hm_remove j (gs_jobs ?s1)\<rparr>)"
    by (rule present_cong) (simp_all add: finish_job_def Let_def split_def record_usage_def delete_unreferenced_def notify_one_def)
  also have "\<dots> \<subseteq> present ?s1" by (rule present_remove_job)
  also have "\<dots> \<subseteq> present (cx_state ctx)" by (rule finalize_present)
  finally show ?thesis
    by (simp add: quiet_def finish_job_def Let_def split_def record_usage_def delete_unreferenced_def)
qed

lemma quiet_job_done: "quiet ctx (job_done ev sv w j code ctx)"
proof -
  have mark: "quiet ctx (fst (job_done_mark w j ctx))"
    by (simp add: job_done_mark_def Let_def split_def quiet_def present_cong [of "cx_state ctx\<lparr>gs_multinode_job_tracking := t\<rparr>" "cx_state ctx" for t])
  have prof: "present (take_profile sv j s) = present s" for s
    by (simp add: take_profile_def Let_def present_cong [of "s\<lparr>gs_job_output_buffers := b\<rparr>" s for b] split: option.split)
  have fin: "quiet c (job_done_finish ev sv j code ids lf c)" for ids lf c
    unfolding job_done_finish_def Let_def by (rule quiet_trans [OF quiet_state quiet_finish]) (simp add: prof)
  show ?thesis using quiet_trans [OF mark fin] mark
    by (simp add: job_done_def split_def Let_def split: option.split)
qed

lemma quiet_job_error: "quiet ctx (job_error ev j e ctx)"
  unfolding job_error_def Let_def
  by (rule quiet_trans [OF _ quiet_finish]) (simp add: quiet_def split: option.split)

lemma quiet_job_killed: "quiet ctx (job_killed ev j ctx)"
  unfolding job_killed_def by (rule quiet_trans [OF _ quiet_finish]) (simp add: quiet_def)

lemma quiet_cancel: "quiet ctx (fst (cancel_job ev caller j ctx))"
proof (cases "\<exists>job. hm_get (gs_jobs (cx_state ctx)) j = Some job \<and>
      \<not> (is_submitter_only (pr_roles caller) \<and> ji_user_id job \<noteq> pr_user_id caller)")
  case True
  then obtain job where "hm_get (gs_jobs (cx_state ctx)) j = Some job"
    "\<not> (is_submitter_only (pr_roles caller) \<and> ji_user_id job \<noteq> pr_user_id caller)" by blast
  from cancel_allowed [OF this, of ev] obtain s1 where
    s1: "gs_workers s1 = gs_workers (cx_state ctx)" "gs_jobs s1 = gs_jobs (cx_state ctx)"
    and c: "cancel_job ev caller j ctx = (finish_job ev j Killed False
      (ctx\<lparr>cx_missing_jobs := hm_remove j (cx_missing_jobs ctx), cx_state := s1\<rparr>), Ack)" by (elim exE conjE)
  have "quiet ctx (ctx\<lparr>cx_missing_jobs := hm_remove j (cx_missing_jobs ctx), cx_state := s1\<rparr>)"
    using present_cong [OF s1(2,1)] by (simp add: quiet_def)
  from quiet_trans [OF this quiet_finish] show ?thesis by (simp add: c)
next
  case False
  with cancel_denied [of ctx j _ caller ev] show ?thesis
    by (cases "hm_get (gs_jobs (cx_state ctx)) j") (auto simp: cancel_job_def [of ev caller j ctx])
qed

lemma quiet_register:
  assumes "ctl_ok (cx_state ctx)" "same_capacity wid res (cx_state ctx)" "hm_wf (rs_gres res)"
  shows "quiet ctx (register_worker ev wid addr hostname res features tx cid ctx)"
proof -
  let ?s = "cx_state ctx"
  have k: "keyed (gs_jobs ?s)" using ctl_ok_recorded [OF assms] by (simp add: recorded_ok_def)
  let ?w = "\<lambda>p. registered_handle ev wid addr hostname res features tx cid p (gs_jobs ?s)"
  have a: "wh_assigned_jobs (?w p) = ra_assigned_jobs (rebuild_worker_allocations wid res (gs_jobs ?s))" for p
    by (simp add: registered_handle_def Let_def)
  have "present (?s\<lparr>gs_workers := hm_insert wid (?w p) (gs_workers ?s)\<rparr>) \<subseteq> present ?s" for p
    by (rule present_sub) (use rebuild_tables [OF k, of wid res] in \<open>auto simp: a split: if_splits\<close>)
  moreover have "present (cx_state (register_worker ev wid addr hostname res features tx cid ctx)) =
      present (?s\<lparr>gs_workers := hm_insert wid (?w (case hm_get (gs_workers ?s) wid of
        Some w \<Rightarrow> wh_current_pulse_interval w | None \<Rightarrow> 2)) (gs_workers ?s)\<rparr>)"
    by (rule present_cong) (simp_all add: register_worker_def Let_def notify_one_def)
  ultimately show ?thesis by (simp add: quiet_def register_worker_def Let_def)
qed


lemma present_modify_worker:
  assumes "\<And>w. wh_assigned_jobs (f w) = wh_assigned_jobs w"
  shows "present (s\<lparr>gs_workers := hm_modify wid f (gs_workers s)\<rparr>) \<subseteq> present s"
  by (rule present_sub) (auto simp: assms split: if_splits)

lemma quiet_disconnect: "quiet ctx (disconnect_worker ev wid cid ctx)"
proof -
  let ?s1 = "cx_state ctx\<lparr>gs_workers := hm_modify wid (\<lambda>w. w\<lparr>wh_connected := False, wh_last_seen := ev_now ev\<rparr>)
    (gs_workers (cx_state ctx))\<rparr>"
  have "present ?s1 \<subseteq> present (cx_state ctx)" by (rule present_modify_worker) simp
  moreover have "present (tell_peers e ?s1) = present ?s1" for e by (rule present_cong) simp_all
  ultimately show ?thesis by (simp add: disconnect_worker_def Let_def quiet_def split: option.split)
qed

lemma quiet_draining: "quiet ctx (worker_draining wid ctx)"
  unfolding worker_draining_def Let_def by (rule quiet_state [OF present_modify_worker]) simp

lemma quiet_started: "quiet ctx (job_started j ctx)"
  by (simp add: job_started_def Let_def quiet_def)

lemma quiet_port: "quiet ctx (job_interactive_port j p ctx)"
  by (simp add: job_interactive_port_def Let_def quiet_def)

lemma present_update_job:
  "hm_get (gs_jobs s) j = Some job \<Longrightarrow> present (s\<lparr>gs_jobs := hm_insert j job' (gs_jobs s)\<rparr>) \<subseteq> present s"
  by (rule present_sub) (auto split: if_splits)

lemma quiet_heartbeat_stats: "quiet ctx (heartbeat_stats ev wid st ctx)"
proof -
  let ?c = "record_worker_stats wid st (push_history st ctx)"
  have c: "cx_state ?c = cx_state ctx" "cx_next_job_id ?c = cx_next_job_id ctx" "cx_submissions ?c = cx_submissions ctx"
    by (simp_all add: record_worker_stats_def push_history_def)
  show ?thesis using present_update_job [of "cx_state ctx" "jst_job_id st"]
    by (auto simp: heartbeat_stats_def Let_def c quiet_def split: option.split prod.split)
qed

lemma quiet_heartbeat: "quiet ctx (heartbeat ev wid cid res stats ctx)"
proof (cases "\<exists>w. hm_get (gs_workers (cx_state ctx)) wid = Some w \<and> wh_connection_id w = cid")
  case True
  then obtain w where w: "hm_get (gs_workers (cx_state ctx)) wid = Some w" "wh_connection_id w = cid" by blast
  define s1 where "s1 = cx_state ctx\<lparr>gs_workers := hm_insert wid (w\<lparr>wh_resources := res, wh_last_seen := ev_now ev\<rparr>) (gs_workers (cx_state ctx))\<rparr>"
  define p where "p = reconcile_missing_worker_jobs ev wid (remdups (map jst_job_id stats)) (ev_now ev) (cx_missing_jobs ctx, s1)"
  have "present s1 \<subseteq> present (cx_state ctx)" unfolding s1_def by (rule present_sub) (use w in \<open>auto split: if_splits\<close>)
  moreover have "present (snd p) \<subseteq> present s1"
    unfolding p_def reconcile_missing_worker_jobs_def Let_def split_def
    by (rule fold_inv [where P = "\<lambda>q. present (snd q) \<subseteq> present s1"]) (auto simp: split_def intro: order_trans [OF finalize_present, THEN subsetD])
  ultimately have "quiet ctx (ctx\<lparr>cx_state := snd p, cx_missing_jobs := fst p\<rparr>)" by (simp add: quiet_def)
  from quiet_trans [OF this quiet_fold [OF quiet_heartbeat_stats]]
  have "quiet ctx (fold (heartbeat_stats ev wid) stats (ctx\<lparr>cx_state := snd p, cx_missing_jobs := fst p\<rparr>))" .
  then show ?thesis using w
    by (simp add: heartbeat_def Let_def split_def s1_def [symmetric] p_def [symmetric] quiet_def)
next
  case False
  then show ?thesis by (auto simp: heartbeat_def split: option.split)
qed

text \<open>Messages that touch neither the job table nor the worker table.\<close>

definition aside :: "controller_ctx \<Rightarrow> controller_ctx \<Rightarrow> bool" where
  "aside ctx ctx' = (gs_jobs (cx_state ctx') = gs_jobs (cx_state ctx) \<and> gs_workers (cx_state ctx') = gs_workers (cx_state ctx) \<and>
     cx_next_job_id ctx' = cx_next_job_id ctx \<and> cx_submissions ctx' = cx_submissions ctx)"

lemma aside_quiet: "aside ctx ctx' \<Longrightarrow> quiet ctx ctx'"
  by (simp add: aside_def quiet_def present_cong [of "cx_state ctx'" "cx_state ctx"])

lemma aside_ok: "aside ctx ctx' \<Longrightarrow> ctl_ok (cx_state ctx) \<Longrightarrow> ctl_ok (cx_state ctx')"
  by (simp add: aside_def ctl_ok_cong [of "cx_state ctx'" "cx_state ctx"])

lemma aside_output: "job_output j d ctx = Inr ctx' \<Longrightarrow> aside ctx ctx'"
  by (auto simp: job_output_def Let_def aside_def split: if_splits sum.splits)

lemma aside_steps: "aside ctx (step_started j k ctx)" "aside ctx (step_done j k c ctx)" "aside ctx (step_error j k e ctx)"
  by (simp_all add: aside_def step_started_def step_done_def step_error_def step_finished_def set_step_status_def Let_def)

lemma aside_pmi: "aside ctx (pmi_put j k key v ctx)" "aside ctx (pmi_get w j k r key q ctx)" "aside ctx (pmi_barrier_enter j k r ctx)"
proof -
  have f: "gs_jobs (fold (\<lambda>w s. send_ignore s w m) ws s) = gs_jobs s" "gs_workers (fold (\<lambda>w s. send_ignore s w m) ws s) = gs_workers s"
    for m ws s by (induction ws arbitrary: s) simp_all
  show "aside ctx (pmi_put j k key v ctx)" "aside ctx (pmi_get w j k r key q ctx)" "aside ctx (pmi_barrier_enter j k r ctx)"
    by (simp_all add: aside_def pmi_put_def pmi_get_def pmi_barrier_enter_def Let_def f split: option.split)
qed

lemma dispatch_aside: "gs_jobs (fst (perform_step_dispatch j k s)) = gs_jobs s" "gs_workers (fst (perform_step_dispatch j k s)) = gs_workers s"
proof -
  have f: "gs_jobs (fold (\<lambda>(w, ranks) s. case hm_get (gs_workers s) w of None \<Rightarrow> s | Some _ \<Rightarrow> send_ignore s w (m s ranks)) ws s) = gs_jobs s"
    "gs_workers (fold (\<lambda>(w, ranks) s. case hm_get (gs_workers s) w of None \<Rightarrow> s | Some _ \<Rightarrow> send_ignore s w (m s ranks)) ws s) = gs_workers s"
    for m ws s by (induction ws arbitrary: s) (auto split: option.split)
  show "gs_jobs (fst (perform_step_dispatch j k s)) = gs_jobs s" "gs_workers (fst (perform_step_dispatch j k s)) = gs_workers s"
    by (simp_all add: perform_step_dispatch_def Let_def f split: option.split)
qed

lemma schedule_steps_aside: "gs_jobs (schedule_steps ev s) = gs_jobs s" "gs_workers (schedule_steps ev s) = gs_workers s"
  unfolding schedule_steps_def Let_def
  by (rule fold_inv [where P = "\<lambda>s'. gs_jobs s' = gs_jobs s"], simp, simp add: split_def dispatch_aside)
    (rule fold_inv [where P = "\<lambda>s'. gs_workers s' = gs_workers s"], simp, simp add: split_def dispatch_aside)

lemma apply_pass_cases:
  assumes "apply_pass ev store db ctx = Inr ctx'"
  shows "ctx' = ctx \<or> (\<exists>s. schedule_jobs ev db (cx_state ctx) = Inr s \<and> gs_jobs (cx_state ctx') = gs_jobs s \<and>
    gs_workers (cx_state ctx') = gs_workers s \<and> cx_next_job_id ctx' = cx_next_job_id ctx \<and> cx_submissions ctx' = cx_submissions ctx)"
  using assms by (auto simp: apply_pass_def Let_def save_def schedule_steps_aside split: if_splits sum.splits)

lemma apply_pass_ok:
  assumes "apply_pass ev store db ctx = Inr ctx'" "ctl_ok (cx_state ctx)" "orders_ok ev"
  shows "ctl_ok (cx_state ctx')" "quiet ctx ctx'"
proof -
  have "ctl_ok (cx_state ctx') \<and> quiet ctx ctx'"
    using apply_pass_cases [OF assms(1)]
  proof
    assume "\<exists>s. schedule_jobs ev db (cx_state ctx) = Inr s \<and> gs_jobs (cx_state ctx') = gs_jobs s \<and>
      gs_workers (cx_state ctx') = gs_workers s \<and> cx_next_job_id ctx' = cx_next_job_id ctx \<and> cx_submissions ctx' = cx_submissions ctx"
    then obtain s where s: "schedule_jobs ev db (cx_state ctx) = Inr s" "gs_jobs (cx_state ctx') = gs_jobs s"
      "gs_workers (cx_state ctx') = gs_workers s" "cx_next_job_id ctx' = cx_next_job_id ctx" "cx_submissions ctx' = cx_submissions ctx"
      by blast
    then show ?thesis using schedule_jobs_ctl [OF s(1) assms(2,3)] schedule_jobs_present [OF s(1) assms(2,3)]
        ctl_ok_cong [OF s(3,2)] present_cong [OF s(2,3)] by (simp add: quiet_def)
  qed (use assms(2) in simp)
  then show "ctl_ok (cx_state ctx')" "quiet ctx ctx'" by blast+
qed

text \<open>A usage report changes the job's files and flags, not its allocation.\<close>

lemma usage_light: "light_change (apply_usage_report m u t)"
  by (simp add: light_change_def apply_usage_report_def Let_def same_allocation_def same_request_def)

lemma report_jobs:
  "gs_workers (cx_state (report_job_usage w u ctx)) = gs_workers (cx_state ctx) \<and>
   (\<exists>m t. gs_jobs (cx_state (report_job_usage w u ctx)) = hm_modify (ju_job_id u) (apply_usage_report m u t) (gs_jobs (cx_state ctx)))"
proof -
  have n: "hm_get (gs_jobs (cx_state ctx)) (ju_job_id u) = None \<Longrightarrow> hm_modify (ju_job_id u) f (gs_jobs (cx_state ctx)) = gs_jobs (cx_state ctx)" for f
    by (simp add: hm_modify_def)
  show ?thesis
    by (cases "hm_get (gs_jobs (cx_state ctx)) (ju_job_id u)")
      (simp_all add: report_job_usage_def Let_def n, auto simp: hm_modify_def)
qed

lemma report_ok:
  assumes "ctl_ok (cx_state ctx)"
  shows "ctl_ok (cx_state (report_job_usage w u ctx))" "quiet ctx (report_job_usage w u ctx)"
proof -
  let ?s = "cx_state ctx" and ?s' = "cx_state (report_job_usage w u ctx)"
  obtain m t where j: "gs_jobs ?s' = hm_modify (ju_job_id u) (apply_usage_report m u t) (gs_jobs ?s)" "gs_workers ?s' = gs_workers ?s"
    using report_jobs by blast
  let ?s1 = "?s\<lparr>gs_jobs := hm_modify (ju_job_id u) (apply_usage_report m u t) (gs_jobs ?s)\<rparr>"
  have "ctl_ok ?s1" by (rule modify_job_ok [OF assms usage_light])
  then show "ctl_ok ?s'" using ctl_ok_cong [of ?s' ?s1] j by simp
  have "present ?s' = present ?s1" using j by (intro present_cong) simp_all
  then show "quiet ctx (report_job_usage w u ctx)"
    by (simp add: quiet_def report_job_usage_def Let_def split: option.split)
qed


section \<open>Job ids\<close>

text \<open>
  Ids in use lie below the counter, as numbers; a waiting submission is pending, well-formed, carries an
  id below the counter that is not in use, and no two of them carry the same id.
\<close>

definition ids_ok :: "controller_ctx \<Rightarrow> bool" where
  "ids_ok ctx = ((\<forall>j\<in>present (cx_state ctx). j < cx_next_job_id ctx) \<and>
     (\<forall>job\<in>set (cx_submissions ctx). ji_id job < cx_next_job_id ctx \<and> ji_id job \<notin> present (cx_state ctx) \<and>
        ji_status job = Pending \<and> 0 < ji_req_nodes job \<and> hm_wf (ji_gres_req job)) \<and>
     distinct (map ji_id (cx_submissions ctx)))"

lemma quiet_ids: "quiet ctx ctx' \<Longrightarrow> ids_ok ctx \<Longrightarrow> ids_ok ctx'"
  by (auto simp: quiet_def ids_ok_def)

text \<open>Taking \<open>n\<close> ids does not wrap around.\<close>

definition ids_left :: "nat \<Rightarrow> controller_ctx \<Rightarrow> bool" where
  "ids_left n ctx = (unat (cx_next_job_id ctx) + n < 2 ^ 64)"

lemma ids_left_less:
  assumes "ids_left n ctx"
  shows "i < n \<Longrightarrow> cx_next_job_id ctx + of_nat i < cx_next_job_id ctx + of_nat n"
    "j < cx_next_job_id ctx \<Longrightarrow> j < cx_next_job_id ctx + of_nat n"
    "cx_next_job_id ctx \<le> cx_next_job_id ctx + of_nat i \<or> n < i"
    "i < n \<Longrightarrow> k < n \<Longrightarrow> cx_next_job_id ctx + of_nat i = cx_next_job_id ctx + of_nat k \<Longrightarrow> i = k"
proof -
  have u: "unat (cx_next_job_id ctx + of_nat i) = unat (cx_next_job_id ctx) + i" if "i \<le> n" for i
    using assms that by (simp add: ids_left_def unat_word_ariths unat_of_nat)
  have n: "unat (cx_next_job_id ctx + of_nat n) = unat (cx_next_job_id ctx) + n" by (rule u) simp
  show "cx_next_job_id ctx + of_nat i < cx_next_job_id ctx + of_nat n" if "i < n"
    unfolding word_less_nat_alt n u [OF less_imp_le [OF that]] using that by simp
  show "j < cx_next_job_id ctx + of_nat n" if "j < cx_next_job_id ctx"
    using that unfolding word_less_nat_alt n by simp
  show "cx_next_job_id ctx \<le> cx_next_job_id ctx + of_nat i \<or> n < i"
  proof (cases "i \<le> n")
    case True
    then show ?thesis unfolding word_le_nat_alt u [OF True] by simp
  qed simp
  show "i = k" if "i < n" "k < n" "cx_next_job_id ctx + of_nat i = cx_next_job_id ctx + of_nat k"
    using arg_cong [OF that(3), of unat] unfolding u [OF less_imp_le [OF that(1)]] u [OF less_imp_le [OF that(2)]] by simp
qed

lemma ids_ok_enqueue:
  assumes ok: "ids_ok ctx" and left: "ids_left n ctx"
    and jobs: "map ji_id jobs = map (\<lambda>i. cx_next_job_id ctx + of_nat i) is" "distinct is" "\<forall>i\<in>set is. i < n"
    and fresh: "\<forall>job\<in>set jobs. ji_status job = Pending \<and> 0 < ji_req_nodes job \<and> hm_wf (ji_gres_req job)"
    and ctx': "present (cx_state ctx') = present (cx_state ctx)" "cx_next_job_id ctx' = cx_next_job_id ctx + of_nat n"
      "cx_submissions ctx' = cx_submissions ctx @ jobs"
  shows "ids_ok ctx'"
proof -
  note l = ids_left_less [OF left]
  have ids: "ji_id ` set jobs = (\<lambda>i. cx_next_job_id ctx + of_nat i) ` set is"
    using arg_cong [OF jobs(1), of set] by simp
  have above: "\<not> ji_id job < cx_next_job_id ctx" "ji_id job < cx_next_job_id ctx + of_nat n" if "job \<in> set jobs" for job
  proof -
    have "ji_id job \<in> (\<lambda>i. cx_next_job_id ctx + of_nat i) ` set is" unfolding ids [symmetric] using that by (rule imageI)
    then obtain i where i: "i \<in> set is" "ji_id job = cx_next_job_id ctx + of_nat i" by (elim imageE)
    then show "\<not> ji_id job < cx_next_job_id ctx" "ji_id job < cx_next_job_id ctx + of_nat n"
      using l(1,3) [of i] jobs(3) by auto
  qed
  have "distinct (map (\<lambda>i. cx_next_job_id ctx + of_nat i) is)"
    using jobs(2,3) l(4) by (auto simp: distinct_map inj_on_def)
  then have "distinct (map ji_id jobs)" using jobs(1) by simp
  moreover have "set (map ji_id (cx_submissions ctx)) \<inter> set (map ji_id jobs) = {}"
    using ok above(1) by (fastforce simp: ids_ok_def)
  ultimately show ?thesis
    using ok above l(2) fresh by (auto simp: ids_ok_def ctx')
qed

lemma process_batch_inv:
  assumes ok: "ctl_ok (cx_state ctx)" and ids: "ids_ok ctx"
  shows "ctl_ok (cx_state (process_batch n ctx))" "ids_ok (process_batch n ctx)"
proof -
  let ?b = "take n (cx_submissions ctx)" and ?s = "cx_state ctx\<lparr>gs_next_job_id := cx_next_job_id ctx\<rparr>"
  have b: "set ?b \<subseteq> set (cx_submissions ctx)" by (rule set_take_subset)
  have d: "distinct (map ji_id ?b)" using ids by (simp add: ids_ok_def flip: take_map)
  have ok': "ctl_ok ?s" using ctl_ok_cong [of ?s "cx_state ctx"] ok by simp
  have e: "\<forall>job\<in>set ?b. enterable ?s job"
  proof
    fix job assume "job \<in> set ?b"
    then have "ji_id job \<notin> present (cx_state ctx)" "ji_status job = Pending" "0 < ji_req_nodes job" "hm_wf (ji_gres_req job)"
      using ids b by (auto simp: ids_ok_def)
    then show "enterable ?s job" by (auto simp: enterable_def unlisted_def present_def listed_def hm_keys_get)
  qed
  show "ctl_ok (cx_state (process_batch n ctx))"
    using enter_jobs_ok [OF ok' e d] ok by (simp add: process_batch_state)
  have f: "cx_submissions (process_batch n ctx) = drop n (cx_submissions ctx)" "cx_next_job_id (process_batch n ctx) = cx_next_job_id ctx"
    by (simp_all add: process_batch_def Let_def)
  have p: "present (cx_state (process_batch n ctx)) \<subseteq> present (cx_state ctx) \<union> ji_id ` set ?b"
  proof -
    have "present (enter_jobs ?b ?s) \<subseteq> present ?s \<union> ji_id ` set ?b"
    proof
      fix j assume "j \<in> present (enter_jobs ?b ?s)"
      then have "j \<in> ji_id ` set ?b \<or> (\<exists>x. hm_get (gs_jobs ?s) j = Some x) \<or> j \<in> listed ?s"
        using fold_insert_other [of j ?b "gs_jobs (cx_state ctx)"]
        by (auto simp: present_def hm_keys_get enter_jobs_fields listed_def)
      then show "j \<in> present ?s \<union> ji_id ` set ?b" by (auto simp: present_def hm_keys_get)
    qed
    moreover have "present ?s = present (cx_state ctx)" by (rule present_cong) simp_all
    ultimately show ?thesis by (auto simp: process_batch_state)
  qed
  have "distinct (map ji_id ?b @ map ji_id (drop n (cx_submissions ctx)))"
    unfolding map_append [symmetric] append_take_drop_id using ids by (simp add: ids_ok_def)
  then have disj: "ji_id ` set ?b \<inter> ji_id ` set (drop n (cx_submissions ctx)) = {}" by simp
  have rest: "job \<in> set (cx_submissions ctx)" if "job \<in> set (drop n (cx_submissions ctx))" for job
    using that by (rule in_set_dropD)
  have "ji_id job \<notin> present (cx_state (process_batch n ctx))" if "job \<in> set (drop n (cx_submissions ctx))" for job
  proof -
    have "ji_id job \<notin> ji_id ` set ?b" using disj imageI [OF that, of ji_id] by (metis IntI empty_iff)
    moreover have "ji_id job \<notin> present (cx_state ctx)" using ids rest [OF that] by (simp add: ids_ok_def)
    ultimately show ?thesis using p by (meson UnE subsetD)
  qed
  moreover have "j < cx_next_job_id ctx" if "j \<in> present (cx_state (process_batch n ctx))" for j
  proof -
    have "j \<in> present (cx_state ctx) \<union> ji_id ` set ?b" using that p by (rule subsetD [rotated])
    then have "j \<in> present (cx_state ctx) \<or> (\<exists>job\<in>set (cx_submissions ctx). j = ji_id job)" using b by blast
    then show ?thesis using ids by (auto simp: ids_ok_def)
  qed
  moreover have "distinct (map ji_id (drop n (cx_submissions ctx)))" using ids by (simp add: ids_ok_def flip: drop_map)
  ultimately show "ids_ok (process_batch n ctx)"
    using ids rest by (simp add: ids_ok_def f)
qed


section \<open>Submissions\<close>

definition request_ok :: "submit_request \<Rightarrow> bool" where
  "request_ok q = (0 < sq_req_nodes q \<and> hm_wf (sq_gres_req q))"

definition message_ok :: "controller_ctx \<Rightarrow> client_message \<Rightarrow> bool" where
  "message_ok ctx msg = (case msg of
     MSubmit q \<Rightarrow> request_ok q \<and> ids_left (max 1 (length (or_empty (sq_array_indices q)))) ctx
   | MSubmitDag nodes \<Rightarrow> list_all (\<lambda>node. case dn_task node of None \<Rightarrow> True | Some q \<Rightarrow> request_ok q) nodes \<and>
       ids_left (length nodes) ctx
   | _ \<Rightarrow> True)"

lemma ids_left_mono: "ids_left n ctx \<Longrightarrow> m \<le> n \<Longrightarrow> ids_left m ctx"
  by (simp add: ids_left_def)

lemma ids_ok_skip:
  "ids_ok ctx \<Longrightarrow> ids_left n ctx \<Longrightarrow> ids_ok (ctx\<lparr>cx_next_job_id := cx_next_job_id ctx + of_nat n\<rparr>)"
  using ids_ok_enqueue [of ctx n "[]" "[]"] by simp

lemma submit_ids:
  assumes ok: "ids_ok ctx" and q: "request_ok q" and left: "ids_left (max 1 (length (or_empty (sq_array_indices q)))) ctx"
  shows "ids_ok (fst (submit ev sv caller q ctx))"
proof (cases rule: submit_cases [of q ev sv caller ctx])
  case (refused e n)
  then have "n \<le> max 1 (length (or_empty (sq_array_indices q)))" by (auto simp: or_empty_def)
  then show ?thesis using refused(2) ids_ok_skip [OF ok ids_left_mono [OF left]] by simp
next
  case (accepted user r x)
  let ?jobs = "submitted_jobs ev sv q user (cx_next_job_id ctx)"
  have len: "length ?jobs \<le> max 1 (length (or_empty (sq_array_indices q)))"
    by (simp add: submitted_jobs_def array_jobs_def or_empty_def split: option.split)
  have "\<forall>job\<in>set ?jobs. ji_status job = Pending \<and> 0 < ji_req_nodes job \<and> hm_wf (ji_gres_req job)"
    using q submitted_jobs_request(2,9,10) by (fastforce simp: request_ok_def)
  then show ?thesis using accepted(6)
    by (intro ids_ok_enqueue [OF ok ids_left_mono [OF left len] submitted_jobs_ids]) auto
qed

lemma dag_job_ids:
  "map ji_id (List.map_filter (dag_job ev sv caller m base) xs) =
     map (\<lambda>i. base + of_nat i) (map fst (filter (\<lambda>(i, node). dn_task node \<noteq> None) xs))"
  by (induction xs) (auto simp: map_filter_simps dag_job_def Let_def)

lemma dag_job_request:
  assumes "job \<in> set (dag_jobs ev sv caller base nodes)"
    "list_all (\<lambda>node. case dn_task node of None \<Rightarrow> True | Some q \<Rightarrow> request_ok q) nodes"
  shows "ji_status job = Pending \<and> 0 < ji_req_nodes job \<and> hm_wf (ji_gres_req job)"
proof -
  from assms(1) obtain i node where n: "(i, node) \<in> set (enumerate 0 nodes)"
    "dag_job ev sv caller (node_to_job base nodes) base (i, node) = Some job"
    by (auto simp: dag_jobs_def map_filter_def)
  then have "node \<in> set nodes" by (auto simp: in_set_enumerate_eq)
  moreover from n(2) obtain q where q: "dn_task node = Some q" by (auto simp: dag_job_def)
  ultimately have "request_ok q" using assms(2) by (auto simp: list_all_iff)
  then show ?thesis using n(2) q by (auto simp: dag_job_def Let_def request_ok_def)
qed

lemma submit_dag_ids:
  assumes ok: "ids_ok ctx" and left: "ids_left (length nodes) ctx"
    and q: "list_all (\<lambda>node. case dn_task node of None \<Rightarrow> True | Some q \<Rightarrow> request_ok q) nodes"
  shows "ids_ok (fst (submit_dag ev sv caller nodes ctx))"
proof -
  let ?base = "cx_next_job_id ctx"
  let ?jobs = "dag_jobs ev sv caller ?base nodes" and ?is = "map fst (filter (\<lambda>(i, node). dn_task node \<noteq> None) (enumerate 0 nodes))"
  let ?c = "ctx\<lparr>cx_next_job_id := ?base + of_nat (length nodes), cx_submissions := cx_submissions ctx @ ?jobs\<rparr>"
  have i: "distinct ?is" "\<forall>i\<in>set ?is. i < length nodes"
    by (auto simp: distinct_map_filter in_set_enumerate_eq)
  have sent: "ids_ok ?c"
    using ids_ok_enqueue [OF ok left, of ?jobs ?is ?c] dag_job_ids i dag_job_request [OF _ q]
    by (simp add: dag_jobs_def)
  have skip: "ids_ok (ctx\<lparr>cx_next_job_id := ?base + of_nat (length nodes)\<rparr>)" by (rule ids_ok_skip [OF ok left])
  show ?thesis using ok sent skip
    by (auto simp: submit_dag_def take_ids_def send_all_result Let_def split: list.split)
qed

lemma with_state_quiet:
  "gs_jobs (fst r) = gs_jobs (cx_state ctx) \<Longrightarrow> gs_workers (fst r) = gs_workers (cx_state ctx) \<Longrightarrow> aside ctx (fst (with_state ctx r f))"
  by (simp add: with_state_def aside_def)

lemma reservation_aside:
  "gs_jobs (fst (create_reservation ev st u nodes a b ow s)) = gs_jobs s" "gs_workers (fst (create_reservation ev st u nodes a b ow s)) = gs_workers s"
  "gs_jobs (fst (delete_reservation st i s)) = gs_jobs s" "gs_workers (fst (delete_reservation st i s)) = gs_workers s"
  by (simp_all add: create_reservation_def delete_reservation_def add_reservation_def save_def notify_one_def)

lemma submit_step_workers: "gs_workers (fst (submit_step j b a n c t i v s)) = gs_workers s"
  by (simp add: submit_step_def Let_def notify_one_def split: option.split)

lemma client_inv:
  assumes "ctl_ok (cx_state ctx)" "ids_ok ctx" "message_ok ctx msg"
  shows "ctl_ok (cx_state (fst (handle_client ev sv store query uuid caller msg ctx))) \<and>
    ids_ok (fst (handle_client ev sv store query uuid caller msg ctx))"
proof (cases "is_authorized (request_kind msg) (pr_roles caller)")
  case True
  have a: "ctl_ok (cx_state c) \<and> ids_ok c" if "aside ctx c" for c
    using aside_ok [OF that assms(1)] quiet_ids [OF aside_quiet [OF that] assms(2)] by blast
  show ?thesis
  proof (cases msg)
    case (MSubmit q)
    then show ?thesis using True assms submit_ids by (simp add: handle_client_def submit_state message_ok_def)
  next
    case (MSubmitDag nodes)
    then show ?thesis using True assms submit_dag_ids by (simp add: handle_client_def submit_dag_state message_ok_def)
  next
    case (MCancelJob j)
    then show ?thesis using True assms cancel_job_ok quiet_ids [OF quiet_cancel] by (simp add: handle_client_def)
  qed (use True assms in \<open>simp_all add: handle_client_def a with_state_quiet reservation_aside submit_step_jobs submit_step_workers\<close>)
qed (use assms in \<open>simp add: handle_client_def\<close>)

section \<open>All operations\<close>

text \<open>
  The steps of a controller: a scheduling pass with whatever statuses it fetched, the periodic checks,
  the messages of workers and clients, and the submission processor. The premises are what the code
  assumes of its peers: a worker does not change its core count or GRES while it is known, reports the
  start only of a job that runs or holds no workers, and a submission asks for at least one node.
\<close>

inductive controller_step :: "controller_ctx \<Rightarrow> controller_ctx \<Rightarrow> bool" where
  cs_pass: "orders_ok ev \<Longrightarrow> apply_pass ev store db ctx = Inr ctx' \<Longrightarrow> controller_step ctx ctx'"
| cs_timeouts: "controller_step ctx (check_timeouts ev ctx)"
| cs_prune: "controller_step ctx (prune_jobs ev retention ctx)"
| cs_register: "same_capacity wid res (cx_state ctx) \<Longrightarrow> hm_wf (rs_gres res) \<Longrightarrow>
    controller_step ctx (register_worker ev wid addr hostname res features tx cid ctx)"
| cs_disconnect: "controller_step ctx (disconnect_worker ev wid cid ctx)"
| cs_heartbeat: "same_capacity wid res (cx_state ctx) \<Longrightarrow> controller_step ctx (heartbeat ev wid cid res stats ctx)"
| cs_draining: "controller_step ctx (worker_draining wid ctx)"
| cs_started: "start_report_ok j (cx_state ctx) \<Longrightarrow> controller_step ctx (job_started j ctx)"
| cs_port: "controller_step ctx (job_interactive_port j port ctx)"
| cs_output: "job_output j d ctx = Inr ctx' \<Longrightarrow> controller_step ctx ctx'"
| cs_done: "controller_step ctx (job_done ev sv wid j code ctx)"
| cs_error: "controller_step ctx (job_error ev j e ctx)"
| cs_killed: "controller_step ctx (job_killed ev j ctx)"
| cs_usage: "controller_step ctx (report_job_usage wid u ctx)"
| cs_step_started: "controller_step ctx (step_started j k ctx)"
| cs_step_done: "controller_step ctx (step_done j k code ctx)"
| cs_step_error: "controller_step ctx (step_error j k e ctx)"
| cs_pmi_put: "controller_step ctx (pmi_put j k key v ctx)"
| cs_pmi_get: "controller_step ctx (pmi_get wid j k r key q ctx)"
| cs_pmi_barrier: "controller_step ctx (pmi_barrier_enter j k r ctx)"
| cs_client: "message_ok ctx msg \<Longrightarrow> controller_step ctx (fst (handle_client ev sve store query uuid caller msg ctx))"
| cs_process: "controller_step ctx (process_batch n ctx)"

definition controller_init :: "controller_ctx \<Rightarrow> bool" where
  "controller_init ctx = (gs_workers (cx_state ctx) = [] \<and> gs_jobs (cx_state ctx) = [] \<and> cx_submissions ctx = [])"

definition controller_inv :: "controller_ctx \<Rightarrow> bool" where
  "controller_inv ctx = (ctl_ok (cx_state ctx) \<and> ids_ok ctx)"

lemma quiet_inv: "controller_inv ctx \<Longrightarrow> ctl_ok (cx_state ctx') \<Longrightarrow> quiet ctx ctx' \<Longrightarrow> controller_inv ctx'"
  using quiet_ids by (simp add: controller_inv_def)

lemma aside_inv: "controller_inv ctx \<Longrightarrow> aside ctx ctx' \<Longrightarrow> controller_inv ctx'"
  using quiet_inv aside_ok aside_quiet by (simp add: controller_inv_def)

lemma port_ok: "ctl_ok (cx_state ctx) \<Longrightarrow> ctl_ok (cx_state (job_interactive_port j p ctx))"
  by (simp add: job_interactive_port_def Let_def modify_job_ok light_change_def same_allocation_def same_request_def)

interpretation controller: invariant_system controller_init controller_step controller_inv
proof
  show "controller_inv s" if "controller_init s" for s
    using that by (simp add: controller_init_def controller_inv_def ctl_ok_def alloc_inv_def books_def ids_ok_def present_def
        listed_def hm_keys_def)
  fix s t assume inv: "controller_inv s" and "controller_step s t"
  have ok: "ctl_ok (cx_state s)" using inv by (simp add: controller_inv_def)
  from \<open>controller_step s t\<close> show "controller_inv t"
  proof cases
    case (cs_pass ev store db)
    then show ?thesis using apply_pass_ok [OF _ ok] quiet_inv [OF inv] by blast
  next
    case (cs_register wid res ev addr hostname features tx cid)
    then show ?thesis using register_ok [OF ok] quiet_register [OF ok] quiet_inv [OF inv] by blast
  next
    case (cs_heartbeat wid res ev cid stats)
    then show ?thesis using heartbeat_ok [OF ok] quiet_heartbeat quiet_inv [OF inv] by blast
  next
    case (cs_client msg ev sve store query uuid caller)
    then show ?thesis using client_inv inv by (simp add: controller_inv_def)
  next
    case (cs_process n)
    then show ?thesis using process_batch_inv inv by (simp add: controller_inv_def)
  next
    case (cs_output j d)
    then show ?thesis using aside_inv [OF inv aside_output] by blast
  next
    case (cs_started j)
    then show ?thesis using job_started_ok [OF ok] quiet_started quiet_inv [OF inv] by blast
  qed (use ok inv in \<open>auto intro: quiet_inv aside_inv check_timeouts_ok quiet_timeouts prune_ok quiet_prune disconnect_ok
      quiet_disconnect draining_ok quiet_draining port_ok quiet_port job_done_ok quiet_job_done job_error_ok quiet_job_error
      job_killed_ok quiet_job_killed report_ok aside_steps aside_pmi\<close>)
qed


section \<open>What holds in every reachable context\<close>

text \<open>
  C1: No core and no GRES id is ever allocated twice. In every context a controller can reach from an
  empty one by scheduling passes, timeouts, worker and client messages in any order, two different jobs on
  the same worker hold disjoint sets of cores and, for every GRES name, disjoint sets of ids; what a
  job holds is not in the free pool, and it lies within what the worker has.
\<close>

theorem no_double_allocation:
  assumes "reachable controller_init controller_step ctx"
    and "hm_get (gs_workers (cx_state ctx)) wid = Some w" and "j \<noteq> k"
  shows "set (cores_of w j) \<inter> set (cores_of w k) = {} \<and>
    set (cores_of w j) \<inter> set (wh_available_core_ids w) = {} \<and>
    set (cores_of w j) \<subseteq> {..<rs_cpu_cores (wh_resources w)} \<and>
    set (gres_of w name j) \<inter> set (gres_of w name k) = {} \<and>
    set (gres_of w name j) \<inter> set (free_gres w name) = {} \<and>
    unat ` set (gres_of w name j) \<subseteq> {..<gres_limit w name}"
proof -
  have "worker_ok w" using controller.reachable_inv [OF assms(1)] assms(2)
    by (auto simp: controller_inv_def ctl_ok_def alloc_inv_def)
  then have c: "pool_ok (\<lambda>c. c < rs_cpu_cores (wh_resources w)) (wh_available_core_ids w) (cores_of w)"
    and g: "pool_ok (\<lambda>i. unat i < gres_limit w name) (free_gres w name) (gres_of w name)"
    by (simp_all add: worker_ok_def cores_ok_def gres_ok_def)
  have p: "set (f j) \<inter> set (f k) = {} \<and> set (f j) \<inter> set av = {} \<and> set (f j) \<subseteq> Collect P"
    if "pool_ok P av f" for P and av and f :: "u64 \<Rightarrow> 'x list"
    using that assms(3) by (auto simp: pool_ok_def)
  show ?thesis using p [OF c] p [OF g] by auto
qed




section \<open>Witnesses\<close>

text \<open>An empty controller, and the same controller after a worker has registered.\<close>

definition empty_ctx :: controller_ctx where
  "empty_ctx = sample_ctx (sample_state [] [] [])"

definition joined_ctx :: controller_ctx where
  "joined_ctx = register_worker sample_env ''w1'' (V4 ''10.0.0.1'' 7000) ''w1'' sample_resources 0 0 1 empty_ctx"

lemma empty_reachable: "reachable controller_init controller_step empty_ctx"
  by (rule reach_init) (simp add: controller_init_def empty_ctx_def sample_ctx_def sample_state_def)

lemma joined_reachable: "reachable controller_init controller_step joined_ctx"
  unfolding joined_ctx_def
  by (rule reach_step [OF empty_reachable cs_register])
    (simp_all add: same_capacity_def empty_ctx_def sample_ctx_def sample_state_def sample_resources_def)

lemma joined_worker: "\<exists>w. hm_get (gs_workers (cx_state joined_ctx)) ''w1'' = Some w"
  by (simp add: joined_ctx_def register_worker_def Let_def notify_one_def)

text \<open>A submission through the channel into the table of the joined controller.\<close>

definition entered_ctx :: controller_ctx where
  "entered_ctx = process_batch 1 (fst (handle_client sample_env sample_submit_env sample_store (\<lambda>_. None) ''u'' sample_caller
     (MSubmit sample_request) joined_ctx))"

lemma entered_reachable: "reachable controller_init controller_step entered_ctx"
proof -
  have "cx_next_job_id joined_ctx = 10"
    by (simp add: joined_ctx_def register_worker_def Let_def empty_ctx_def sample_ctx_def)
  then have "message_ok joined_ctx (MSubmit sample_request)"
    by (simp add: message_ok_def request_ok_def ids_left_def or_empty_def sample_request_def)
  then have "reachable controller_init controller_step (fst (handle_client sample_env sample_submit_env sample_store (\<lambda>_. None)
      ''u'' sample_caller (MSubmit sample_request) joined_ctx))"
    by (rule reach_step [OF joined_reachable cs_client])
  then show ?thesis unfolding entered_ctx_def by (rule reach_step) (rule cs_process)
qed

lemma joined_fields: "cx_submission_open joined_ctx" "cx_next_job_id joined_ctx = 10" "cx_submissions joined_ctx = []"
  "gs_role (cx_state joined_ctx) = Leader"
  by (simp_all add: joined_ctx_def register_worker_def Let_def empty_ctx_def sample_ctx_def sample_state_def notify_one_def
      sync_active_state_to_dashmaps_def split_def)

lemma entered_job: "\<exists>job. hm_get (gs_jobs (cx_state entered_ctx)) 10 = Some job"
proof -
  have "is_authorized RqSubmit (pr_roles sample_caller)" by (simp add: is_authorized_def has_role_def sample_caller_def)
  then show ?thesis
    by (simp add: entered_ctx_def handle_client_def sample_submit_job [OF joined_fields(1)] process_batch_state joined_fields
        enter_jobs_fields)
qed

theorem no_double_allocation_witness:
  "reachable controller_init controller_step joined_ctx \<and>
   (\<exists>w. hm_get (gs_workers (cx_state joined_ctx)) ''w1'' = Some w \<and> set (cores_of w 1) \<inter> set (cores_of w 2) = {})"
proof -
  obtain w where w: "hm_get (gs_workers (cx_state joined_ctx)) ''w1'' = Some w" using joined_worker by blast
  from no_double_allocation [OF joined_reachable w, of 1 2] w joined_reachable show ?thesis by simp
qed





end
