(* ===== verification/Peer.thy ===== *)
theory Peer
  imports Controller "HOL-Library.List_Lexorder" "HOL-Library.Char_ord"
begin

text \<open>
  The peer connection between two controllers (\<open>controller/src/ha/peer.rs\<close>): what is sent when a peer
  connects, leader election by heartbeats, replication of the state, workers that are reached through a
  peer, and the promotion of a follower. A peer connection is given by the peer's id, its address text and
  the channel of its sender. \<open>my_id\<close> is the environment variable \<open>HOSTNAME\<close>.

  Messages forwarded from a worker are handled by the functions of \<open>WorkerHandler\<close>. The heartbeat a leader
  writes to the socket is a result of \<open>peer_tick\<close>.
\<close>

section \<open>Addresses\<close>

text \<open>\<open>SocketAddr\<close>'s parser on texts without brackets: an IPv4 address, a colon and a port.\<close>

definition parse_octet :: "string \<Rightarrow> bool" where
  "parse_octet s = (s \<noteq> [] \<and> length s \<le> 3 \<and> list_all is_ascii_digit s \<and> digits_value s \<le> 255 \<and>
     (length s = 1 \<or> hd s \<noteq> CHR ''0''))"

definition parse_socket_addr :: "string \<Rightarrow> socket_addr option" where
  "parse_socket_addr s = (case split_on CHR '':'' s of
     [ip, port] \<Rightarrow>
       (if length (split_on CHR ''.'' ip) = 4 \<and> list_all parse_octet (split_on CHR ''.'' ip) \<and>
           port \<noteq> [] \<and> list_all is_ascii_digit port \<and> digits_value port \<le> 65535
        then Some (V4 ip (of_nat (digits_value port))) else None)
   | _ \<Rightarrow> None)"

definition peer_host :: "string \<Rightarrow> string" where
  "peer_host addr = hd (split_on CHR '':'' addr)"

definition gateway_addr :: "string \<Rightarrow> string option \<Rightarrow> socket_addr" where
  "gateway_addr peer_addr ip_address =
     (let worker_ip = (case ip_address of Some ip \<Rightarrow> ip | None \<Rightarrow> peer_host peer_addr);
          worker_port = (case split_on CHR '':'' peer_addr of _ # p # _ \<Rightarrow> p | _ \<Rightarrow> ''9000'')
      in case parse_socket_addr (worker_ip @ '':'' @ worker_port) of
           Some a \<Rightarrow> a | None \<Rightarrow> V4 ''127.0.0.1'' 9000)"

section \<open>Connecting\<close>

fun is_direct :: "worker_handle \<Rightarrow> bool" where
  "is_direct w = (case wh_routing w of Direct _ \<Rightarrow> True | Gateway _ \<Rightarrow> False)"

declare is_direct.simps [simp del]

definition registration :: "string \<times> worker_handle \<Rightarrow> envelope" where
  "registration = (\<lambda>(i, w). RegisterWorker i (wh_hostname w) (wh_resources w) (wh_features w) (ip_to_string (wh_addr w)))"

definition register_direct_workers :: "chan \<Rightarrow> global_state \<Rightarrow> global_state" where
  "register_direct_workers tx s =
     fold (\<lambda>p. try_send tx (registration p)) (filter (\<lambda>(i, w). is_direct w) (gs_workers s)) s"

definition peer_connected :: "string \<Rightarrow> chan \<Rightarrow> global_state \<Rightarrow> global_state" where
  "peer_connected controller_id tx s =
     (let s1 = s\<lparr>gs_peers := hm_insert controller_id tx (gs_peers s)\<rparr> in
      if gs_role s1 = Follower then register_direct_workers tx s1
      else try_send tx (StateSync (persisted_of s1)) s1)"

definition peer_disconnected :: "string \<Rightarrow> chan \<Rightarrow> global_state \<Rightarrow> global_state" where
  "peer_disconnected controller_id tx s =
     (if hm_get (gs_peers s) controller_id = Some tx
      then s\<lparr>gs_peers := hm_remove controller_id (gs_peers s)\<rparr> else s)"

section \<open>Heartbeats and promotion\<close>

definition peer_heartbeat :: "env \<Rightarrow> string \<Rightarrow> string \<Rightarrow> chan \<Rightarrow> string \<Rightarrow> controller_ctx \<Rightarrow> controller_ctx" where
  "peer_heartbeat ev my_id peer_addr tx leader_id ctx =
     (let s = cx_state ctx;
          s' = (if leader_id = my_id then s
                else (let leader_changed = (gs_leader_id s \<noteq> Some leader_id);
                          s1 = s\<lparr>gs_leader_addr := Some (peer_host peer_addr @ '':9000''), gs_leader_id := Some leader_id\<rparr>
                      in if gs_role s1 = Leader then
                           (if leader_id < my_id
                            then (let s2 = s1\<lparr>gs_role := Follower, gs_workers := hm_retain (\<lambda>_ w. is_direct w) (gs_workers s1)\<rparr>
                                  in register_direct_workers tx s2)
                            else s1)
                         else (let s2 = s1\<lparr>gs_role := Follower, gs_workers := hm_retain (\<lambda>_ w. is_direct w) (gs_workers s1)\<rparr>
                               in if leader_changed then
                                    (case hm_get (gs_peers s2) leader_id of
                                       Some peer_tx \<Rightarrow> register_direct_workers peer_tx s2 | None \<Rightarrow> s2)
                                  else s2)))
      in ctx\<lparr>cx_last_heartbeat := ev_now ev, cx_state := s'\<rparr>)"

text \<open>
  One tick of the two-second timer: the new context and whether a heartbeat is written to the peer.
  \<open>grace_over\<close>: the connection is older than fifteen seconds.
\<close>

definition peer_tick :: "env \<Rightarrow> bool \<Rightarrow> controller_ctx \<Rightarrow> controller_ctx \<times> bool" where
  "peer_tick ev grace_over ctx =
     (let s = cx_state ctx; role = gs_role s;
          promote = (grace_over \<and> sat_sub (ev_now ev) (cx_last_heartbeat ctx) > 5 \<and> role = Follower);
          s' = (if promote
                then (let s1 = s\<lparr>gs_role := Leader\<rparr>
                      in fold (\<lambda>tx. try_send tx (StateSync (persisted_of s1))) (hm_values (gs_peers s1)) s1)
                else s)
      in (ctx\<lparr>cx_state := s'\<rparr>, role = Leader))"

section \<open>Replication\<close>

definition peer_state_sync :: "env \<Rightarrow> store_env \<Rightarrow> persisted_state \<Rightarrow> controller_ctx \<Rightarrow> controller_ctx" where
  "peer_state_sync ev store new_state ctx =
     (let s = cx_state ctx;
          s1 = s\<lparr>gs_jobs := pe_jobs new_state, gs_queue := pe_queue new_state, gs_next_job_id := pe_next_job_id new_state,
                 gs_usage_tracker := pe_usage_tracker new_state, gs_steps := pe_steps new_state,
                 gs_next_step_id := pe_next_step_id new_state, gs_reservations := pe_reservations new_state\<rparr>;
          ctx1 = sync_active_state_to_dashmaps (ctx\<lparr>cx_last_heartbeat := ev_now ev, cx_state := s1\<rparr>)
      in ctx1\<lparr>cx_state := notify_one (save store (cx_state ctx1))\<rparr>)"

section \<open>Workers behind a peer\<close>

definition gateway_handle :: "env \<Rightarrow> string \<Rightarrow> string \<Rightarrow> string \<Rightarrow> string \<Rightarrow> resources \<Rightarrow> u64 option \<Rightarrow> string option \<Rightarrow> u64 \<Rightarrow> real \<Rightarrow>
    (u64, job_info) hmap \<Rightarrow> worker_handle" where
  "gateway_handle ev controller_id peer_addr worker_id hostname res features ip_address connection_id pulse jobs =
     (let r = rebuild_worker_allocations worker_id res jobs in
      \<lparr>wh_addr = gateway_addr peer_addr ip_address, wh_hostname = hostname, wh_resources = res,
       wh_routing = Gateway controller_id, wh_assigned_jobs = ra_assigned_jobs r,
       wh_allocated_memory = ra_allocated_memory r, wh_connection_id = connection_id,
       wh_available_core_ids = ra_available_core_ids r, wh_job_core_assignments = ra_job_core_assignments r,
       wh_available_gres_ids = ra_available_gres_ids r, wh_job_gres_assignments = ra_job_gres_assignments r,
       wh_connected = True, wh_last_seen = ev_now ev, wh_cgroup_enabled = rs_cgroup_enabled res,
       wh_draining = False, wh_current_pulse_interval = pulse,
       wh_features = (case features of Some f \<Rightarrow> f | None \<Rightarrow> 0)\<rparr>)"

definition peer_register_worker :: "env \<Rightarrow> string \<Rightarrow> string \<Rightarrow> string \<Rightarrow> string \<Rightarrow> resources \<Rightarrow> u64 option \<Rightarrow> string option \<Rightarrow>
    global_state \<Rightarrow> global_state" where
  "peer_register_worker ev controller_id peer_addr worker_id hostname res features ip_address s =
     (if gs_role s = Leader then
        (let (connection_id, pulse) = (case hm_get (gs_workers s) worker_id of
                Some w \<Rightarrow> (wh_connection_id w, wh_current_pulse_interval w) | None \<Rightarrow> (0, 2));
             w = gateway_handle ev controller_id peer_addr worker_id hostname res features ip_address connection_id pulse (gs_jobs s)
         in notify_one (s\<lparr>gs_workers := hm_insert worker_id w (gs_workers s)\<rparr>))
      else s)"

definition peer_deregister_worker :: "string \<Rightarrow> global_state \<Rightarrow> global_state" where
  "peer_deregister_worker worker_id s =
     (if gs_role s = Leader then notify_one (s\<lparr>gs_workers := hm_remove worker_id (gs_workers s)\<rparr>) else s)"

definition forward_to_worker :: "string \<Rightarrow> message \<Rightarrow> global_state \<Rightarrow> global_state" where
  "forward_to_worker worker_id msg s =
     (case hm_get (gs_workers s) worker_id of
        Some w \<Rightarrow> (case wh_routing w of Direct tx \<Rightarrow> try_send tx (Plain msg) s | Gateway _ \<Rightarrow> s)
      | None \<Rightarrow> s)"

definition batch_stats :: "job_stats \<Rightarrow> controller_ctx \<Rightarrow> controller_ctx" where
  "batch_stats stats ctx =
     (let ctx1 = push_history stats ctx; s = cx_state ctx1
      in ctx1\<lparr>cx_state := s\<lparr>gs_jobs := hm_modify (jst_job_id stats)
           (\<lambda>j. j\<lparr>ji_current_cpu_usage := jst_cpu_usage_percent stats, ji_current_memory_usage := jst_memory_usage_bytes stats,
                   ji_is_idle := jst_is_idle stats, ji_idle_duration := jst_idle_duration stats,
                   ji_cgroup_active := jst_cgroup_active stats\<rparr>) (gs_jobs s)\<rparr>\<rparr>)"

definition batch_update :: "env \<Rightarrow> string \<times> resources \<times> job_stats list \<Rightarrow> controller_ctx \<Rightarrow> controller_ctx" where
  "batch_update ev = (\<lambda>(worker_id, res, stats) ctx.
     (let s = cx_state ctx in
      if hm_contains (gs_workers s) worker_id then
        (let s1 = s\<lparr>gs_workers := hm_modify worker_id (\<lambda>w. w\<lparr>wh_resources := res, wh_last_seen := ev_now ev\<rparr>) (gs_workers s)\<rparr>;
             (missing, s2) = reconcile_missing_worker_jobs ev worker_id (remdups (map jst_job_id stats)) (ev_now ev)
               (cx_missing_jobs ctx, s1)
         in fold batch_stats stats (ctx\<lparr>cx_state := s2, cx_missing_jobs := missing\<rparr>))
      else ctx))"

definition batch_worker_heartbeats :: "env \<Rightarrow> (string \<times> resources \<times> job_stats list) list \<Rightarrow> controller_ctx \<Rightarrow> controller_ctx" where
  "batch_worker_heartbeats ev updates ctx =
     (if gs_role (cx_state ctx) = Leader
      then (let ctx1 = fold (batch_update ev) updates ctx in ctx1\<lparr>cx_state := notify_one (cx_state ctx1)\<rparr>)
      else ctx)"

section \<open>Fields the handlers leave alone\<close>

lemma try_send_fields [simp]:
  "gs_role (try_send tx e s) = gs_role s" "gs_leader_id (try_send tx e s) = gs_leader_id s"
  "gs_workers (try_send tx e s) = gs_workers s" "gs_peers (try_send tx e s) = gs_peers s"
  "gs_jobs (try_send tx e s) = gs_jobs s" "gs_closed (try_send tx e s) = gs_closed s"
  "persisted_of (try_send tx e s) = persisted_of s"
  by (simp_all add: try_send_def post_def persisted_of_def)

lemma fold_send_fields [simp]:
  "gs_role (fold (\<lambda>x. try_send (c x) (f x)) xs s) = gs_role s"
  "gs_leader_id (fold (\<lambda>x. try_send (c x) (f x)) xs s) = gs_leader_id s"
  "gs_workers (fold (\<lambda>x. try_send (c x) (f x)) xs s) = gs_workers s"
  "gs_jobs (fold (\<lambda>x. try_send (c x) (f x)) xs s) = gs_jobs s"
  "persisted_of (fold (\<lambda>x. try_send (c x) (f x)) xs s) = persisted_of s"
  by (induction xs arbitrary: s) simp_all

lemma register_direct_fields [simp]:
  "gs_role (register_direct_workers tx s) = gs_role s" "gs_leader_id (register_direct_workers tx s) = gs_leader_id s"
  "persisted_of (register_direct_workers tx s) = persisted_of s" "gs_workers (register_direct_workers tx s) = gs_workers s"
  by (simp_all add: register_direct_workers_def)

lemma heartbeat_role:
  "gs_role (cx_state (peer_heartbeat ev my_id addr tx leader_id ctx)) =
     (if gs_role (cx_state ctx) = Leader \<and> (leader_id = my_id \<or> \<not> leader_id < my_id) then Leader else Follower)"
  by (cases "gs_role (cx_state ctx)") (auto simp: peer_heartbeat_def Let_def split: option.splits)

lemma heartbeat_leader:
  "leader_id \<noteq> my_id \<Longrightarrow> gs_leader_id (cx_state (peer_heartbeat ev my_id addr tx leader_id ctx)) = Some leader_id"
  by (auto simp: peer_heartbeat_def Let_def split: option.splits)

lemma tick_role:
  "gs_role (cx_state (fst (peer_tick ev g ctx))) =
     (if g \<and> sat_sub (ev_now ev) (cx_last_heartbeat ctx) > 5 then Leader else gs_role (cx_state ctx))"
  by (cases "gs_role (cx_state ctx)") (auto simp: peer_tick_def Let_def)

lemma tick_sends: "snd (peer_tick ev g ctx) = (gs_role (cx_state ctx) = Leader)"
  by (simp add: peer_tick_def Let_def)

lemma tick_heartbeat [simp]: "cx_last_heartbeat (fst (peer_tick ev g ctx)) = cx_last_heartbeat ctx"
  by (simp add: peer_tick_def Let_def)

lemma tick_leader [simp]: "gs_leader_id (cx_state (fst (peer_tick ev g ctx))) = gs_leader_id (cx_state ctx)"
  by (simp add: peer_tick_def Let_def)

section \<open>Two controllers\<close>

text \<open>
  The two controllers of a high-availability pair with the heartbeats in flight between them. Either side
  may tick (and then sends a heartbeat when it leads) or take the next heartbeat that was sent to it; every
  event carries its own clock.
\<close>

record cluster =
  cl_a :: controller_ctx
  cl_b :: controller_ctx
  cl_to_a :: "string list"
  cl_to_b :: "string list"

datatype cluster_event = Tick_a env bool | Tick_b env bool | Deliver_a env | Deliver_b env

record wiring =
  wi_a :: string
  wi_b :: string
  wi_addr_a :: string
  wi_addr_b :: string
  wi_tx_a :: chan
  wi_tx_b :: chan

fun cluster_step :: "wiring \<Rightarrow> cluster_event \<Rightarrow> cluster \<Rightarrow> cluster" where
  "cluster_step wi (Tick_a ev g) c = (case peer_tick ev g (cl_a c) of (x, sent) \<Rightarrow>
     c\<lparr>cl_a := x, cl_to_b := cl_to_b c @ (if sent then [wi_a wi] else [])\<rparr>)"
| "cluster_step wi (Tick_b ev g) c = (case peer_tick ev g (cl_b c) of (x, sent) \<Rightarrow>
     c\<lparr>cl_b := x, cl_to_a := cl_to_a c @ (if sent then [wi_b wi] else [])\<rparr>)"
| "cluster_step wi (Deliver_a ev) c = (case cl_to_a c of [] \<Rightarrow> c
     | h # hs \<Rightarrow> c\<lparr>cl_a := peer_heartbeat ev (wi_a wi) (wi_addr_b wi) (wi_tx_a wi) h (cl_a c), cl_to_a := hs\<rparr>)"
| "cluster_step wi (Deliver_b ev) c = (case cl_to_b c of [] \<Rightarrow> c
     | h # hs \<Rightarrow> c\<lparr>cl_b := peer_heartbeat ev (wi_b wi) (wi_addr_a wi) (wi_tx_b wi) h (cl_b c), cl_to_b := hs\<rparr>)"

definition cluster_run :: "wiring \<Rightarrow> cluster_event list \<Rightarrow> cluster \<Rightarrow> cluster" where
  "cluster_run wi es c = fold (cluster_step wi) es c"

text \<open>What is in flight was sent by the other side, and the first controller has the lower id.\<close>

definition cluster_ok :: "wiring \<Rightarrow> cluster \<Rightarrow> bool" where
  "cluster_ok wi c = (wi_a wi < wi_b wi \<and> set (cl_to_a c) \<subseteq> {wi_b wi} \<and> set (cl_to_b c) \<subseteq> {wi_a wi})"

definition leads :: "controller_ctx \<Rightarrow> bool" where
  "leads ctx = (gs_role (cx_state ctx) = Leader)"

lemma cluster_step_ok:
  assumes "cluster_ok wi c" shows "cluster_ok wi (cluster_step wi e c)"
  using assms by (cases e) (auto simp: cluster_ok_def split: list.splits prod.splits)

lemma cluster_step_leader:
  assumes "cluster_ok wi c" "leads (cl_a c)" shows "leads (cl_a (cluster_step wi e c))"
proof (cases e)
  case (Tick_a ev g)
  then show ?thesis using assms tick_role [of ev g "cl_a c"] by (auto simp: leads_def split: prod.splits)
next
  case (Deliver_a ev)
  then show ?thesis using assms by (auto simp: leads_def cluster_ok_def heartbeat_role split: list.splits)
qed (use assms in \<open>auto simp: leads_def split: list.splits prod.splits\<close>)

lemma cluster_run_ok:
  "cluster_ok wi c \<Longrightarrow> cluster_ok wi (cluster_run wi es c) \<and> (leads (cl_a c) \<longrightarrow> leads (cl_a (cluster_run wi es c)))"
  unfolding cluster_run_def
  by (induction es arbitrary: c) (auto simp: cluster_step_ok cluster_step_leader)

lemma to_b_steps:
  "cl_to_b (cluster_step wi (Tick_b ev g) c) = cl_to_b c" "cl_to_b (cluster_step wi (Deliver_a ev) c) = cl_to_b c"
  by (simp_all split: list.splits prod.splits)

lemma deliver_all:
  assumes "cluster_ok wi c" "cl_to_b c \<noteq> []" "length evs = length (cl_to_b c)"
  shows "let c' = cluster_run wi (map Deliver_b evs) c in
    \<not> leads (cl_b c') \<and> gs_leader_id (cx_state (cl_b c')) = Some (wi_a wi) \<and> cl_to_b c' = [] \<and> cl_a c' = cl_a c"
  using assms
proof (induction "cl_to_b c" arbitrary: c evs)
  case (Cons h hs)
  from Cons obtain e es where evs: "evs = e # es" by (cases evs) auto
  let ?c = "cluster_step wi (Deliver_b e) c"
  have h: "h = wi_a wi" "wi_a wi < wi_b wi" using Cons.prems(1) Cons.hyps(2) [symmetric] by (auto simp: cluster_ok_def)
  have c: "?c = c\<lparr>cl_b := peer_heartbeat e (wi_b wi) (wi_addr_a wi) (wi_tx_b wi) h (cl_b c), cl_to_b := hs\<rparr>"
    using Cons.hyps(2) [symmetric] by simp
  have d: "\<not> leads (cl_b ?c)" "gs_leader_id (cx_state (cl_b ?c)) = Some (wi_a wi)" "cl_a ?c = cl_a c"
    unfolding c using h by (auto simp: leads_def heartbeat_role heartbeat_leader)
  have run: "cluster_run wi (map Deliver_b evs) c = cluster_run wi (map Deliver_b es) ?c"
    by (simp add: evs cluster_run_def)
  show ?case
  proof (cases "hs = []")
    case True
    then have "es = []" using Cons.prems(3) Cons.hyps(2) [symmetric] evs by simp
    then show ?thesis unfolding run Let_def using d c True by (simp add: cluster_run_def)
  next
    case False
    have "let c' = cluster_run wi (map Deliver_b es) ?c in
      \<not> leads (cl_b c') \<and> gs_leader_id (cx_state (cl_b c')) = Some (wi_a wi) \<and> cl_to_b c' = [] \<and> cl_a c' = cl_a ?c"
    proof (rule Cons.hyps(1))
      show "cluster_ok wi ?c" using Cons.prems(1) by (rule cluster_step_ok)
      show to_b: "hs = cl_to_b ?c" unfolding c by simp
      show "cl_to_b ?c \<noteq> []" using False to_b by simp
      show "length es = length (cl_to_b ?c)" unfolding to_b [symmetric] using Cons.prems(3) unfolding evs Cons.hyps(2) [symmetric] by simp
    qed
    then show ?thesis unfolding run using d(3) by simp
  qed
qed simp

text \<open>
  C7: Leadership settles on the controller with the lower id. However ticks and deliveries were
  interleaved since it took the lead, that controller still leads; and as soon as it ticks and its
  heartbeats are delivered, the other one follows it, so that exactly one controller leads.
\<close>

theorem leadership_settles:
  assumes "cluster_ok wi c" and "leads (cl_a c)" and "length evs = Suc (length (cl_to_b (cluster_run wi es c)))"
  shows "let c' = cluster_run wi (es @ Tick_a ev g # map Deliver_b evs) c in
    leads (cl_a c') \<and> \<not> leads (cl_b c') \<and> gs_leader_id (cx_state (cl_b c')) = Some (wi_a wi)"
proof -
  let ?c = "cluster_run wi es c" and ?d = "cluster_step wi (Tick_a ev g) (cluster_run wi es c)"
  have ok: "cluster_ok wi ?c" "leads (cl_a ?c)" using cluster_run_ok [OF assms(1), of es] assms(2) by auto
  obtain x where t: "peer_tick ev g (cl_a ?c) = (x, True)"
    using ok(2) tick_sends [of ev g "cl_a ?c"] by (cases "peer_tick ev g (cl_a ?c)") (simp add: leads_def)
  then have b: "cl_to_b ?d = cl_to_b ?c @ [wi_a wi]" by simp
  have d: "cluster_ok wi ?d" "leads (cl_a ?d)" using ok cluster_step_ok cluster_step_leader by blast+
  have run: "cluster_run wi (es @ Tick_a ev g # map Deliver_b evs) c = cluster_run wi (map Deliver_b evs) ?d"
    by (simp add: cluster_run_def)
  have len: "cl_to_b ?d \<noteq> []" "length evs = length (cl_to_b ?d)" unfolding b using assms(3) by simp_all
  show ?thesis unfolding run using deliver_all [OF d(1) len] d(2) by (auto simp: Let_def)
qed

definition sample_cluster :: cluster where
  "sample_cluster = \<lparr>cl_a = empty_ctx, cl_b = empty_ctx, cl_to_a = [], cl_to_b = []\<rparr>"

definition sample_wiring :: wiring where
  "sample_wiring = \<lparr>wi_a = ''c1'', wi_b = ''c2'', wi_addr_a = ''10.0.0.1:9000'', wi_addr_b = ''10.0.0.2:9000'',
     wi_tx_a = 0, wi_tx_b = 0\<rparr>"

theorem leadership_settles_witness:
  "leads (cl_a sample_cluster) \<and> leads (cl_b sample_cluster) \<and>
   (let c' = cluster_run sample_wiring ([Tick_b sample_env False, Deliver_a sample_env] @
        Tick_a sample_env False # map Deliver_b [sample_env]) sample_cluster in
    leads (cl_a c') \<and> \<not> leads (cl_b c') \<and> gs_leader_id (cx_state (cl_b c')) = Some ''c1'')"
proof -
  have l: "leads (cl_a sample_cluster)" "leads (cl_b sample_cluster)"
    by (simp_all add: leads_def sample_cluster_def empty_ctx_def sample_ctx_def sample_state_def)
  have ok: "cluster_ok sample_wiring sample_cluster"
    by (simp add: cluster_ok_def sample_wiring_def sample_cluster_def less_char_def)
  have "length [sample_env] = Suc (length (cl_to_b (cluster_run sample_wiring [Tick_b sample_env False, Deliver_a sample_env] sample_cluster)))"
    unfolding cluster_run_def fold.simps o_apply id_apply to_b_steps by (simp add: sample_cluster_def)
  from leadership_settles [OF ok l(1) this, of sample_env False] l show ?thesis
    by (simp add: sample_wiring_def)
qed

text \<open>
  A follower is promoted exactly by silence. Over any sequence of ticks with no message from the
  leader in between, a follower ends as leader if and only if at one of them the grace period was over
  and more than five seconds had passed since the last heartbeat or state sync.
\<close>

theorem silence_promotes:
  assumes "gs_role (cx_state ctx) = Follower"
  shows "gs_role (cx_state (fold (\<lambda>(ev, g) c. fst (peer_tick ev g c)) ticks ctx)) = Leader \<longleftrightarrow>
    (\<exists>(ev, g)\<in>set ticks. g \<and> sat_sub (ev_now ev) (cx_last_heartbeat ctx) > 5)"
proof -
  have "gs_role (cx_state (fold (\<lambda>(ev, g) c. fst (peer_tick ev g c)) ticks c)) = Leader \<longleftrightarrow> gs_role (cx_state c) = Leader \<or>
    (\<exists>(ev, g)\<in>set ticks. g \<and> sat_sub (ev_now ev) (cx_last_heartbeat c) > 5)" for c
  proof (induction ticks arbitrary: c)
    case (Cons t ticks)
    obtain ev g where t: "t = (ev, g)" by (cases t)
    show ?case unfolding t using Cons.IH [of "fst (peer_tick ev g c)"]
      by (cases "g \<and> sat_sub (ev_now ev) (cx_last_heartbeat c) > 5") (simp add: tick_role, simp add: tick_role, blast)
  qed simp
  then show ?thesis using assms by simp
qed

definition follower_ctx :: controller_ctx where
  "follower_ctx = sample_ctx ((sample_state [] [] [])\<lparr>gs_role := Follower\<rparr>)"

theorem silence_promotes_witness:
  "gs_role (cx_state follower_ctx) = Follower \<and>
   gs_role (cx_state (fold (\<lambda>(ev, g) c. fst (peer_tick ev g c)) [(sample_env, False), (sample_env, True)] follower_ctx)) = Leader"
proof -
  have r: "gs_role (cx_state follower_ctx) = Follower" by (simp add: follower_ctx_def sample_ctx_def)
  have "\<exists>(ev, g)\<in>set [(sample_env, False), (sample_env, True)]. g \<and> sat_sub (ev_now ev) (cx_last_heartbeat follower_ctx) > 5"
    by (simp add: follower_ctx_def sample_ctx_def sample_env_def sat_sub_def)
  with silence_promotes [OF r] r show ?thesis by blast
qed

section \<open>Replication and failover\<close>

lemma persisted_update [simp]:
  "persisted_of (s\<lparr>gs_jobs := pe_jobs p, gs_queue := pe_queue p, gs_next_job_id := pe_next_job_id p,
     gs_usage_tracker := pe_usage_tracker p, gs_steps := pe_steps p, gs_next_step_id := pe_next_step_id p,
     gs_reservations := pe_reservations p\<rparr>) = p"
  by (simp add: persisted_of_def)

lemma persisted_ghosts [simp]:
  "persisted_of (s\<lparr>gs_disk := d\<rparr>) = persisted_of s" "persisted_of (notify_one s) = persisted_of s"
  "persisted_of (send_state_sync p s) = persisted_of s" "persisted_of (save store s) = persisted_of s"
proof -
  show d: "persisted_of (s\<lparr>gs_disk := d\<rparr>) = persisted_of s" for s d by (simp add: persisted_of_def)
  show "persisted_of (notify_one s) = persisted_of s" by (simp add: persisted_of_def notify_one_def)
  show p: "persisted_of (send_state_sync p s) = persisted_of s" for p by (simp add: send_state_sync_def)
  show "persisted_of (save store s) = persisted_of s" by (simp add: save_def save_state_def Let_def d p)
qed

lemma sync_persisted [simp]: "persisted_of (cx_state (peer_state_sync ev store p ctx)) = p"
  by (simp add: peer_state_sync_def Let_def)

lemma tick_persisted [simp]: "persisted_of (cx_state (fst (peer_tick ev g ctx))) = persisted_of (cx_state ctx)"
proof -
  have "persisted_of (s\<lparr>gs_role := r\<rparr>) = persisted_of s" for s r by (simp add: persisted_of_def)
  then show ?thesis by (simp add: peer_tick_def Let_def)
qed

lemma posted_by_fold:
  "gs_outbox (fold (\<lambda>tx. try_send tx e) xs s) =
     gs_outbox s @ map (\<lambda>tx. (tx, e)) (filter (\<lambda>tx. tx \<notin> set (gs_closed s)) xs)"
  by (induction xs arbitrary: s) (simp_all add: try_send_def post_def)

lemma save_posts:
  assumes "gs_role s = Leader"
  shows "gs_outbox (save store s) = gs_outbox s @
    map (\<lambda>tx. (tx, StateSync (persisted_of s))) (filter (\<lambda>tx. tx \<notin> set (gs_closed s)) (hm_values (gs_peers s)))"
  using assms by (simp add: save_def save_state_def Let_def send_state_sync_def posted_by_fold)



text \<open>
  C22: After a failover job ids are reused. A state sync carries the leader's id counter, but the counter
  that \<open>Submit\<close> draws from is not set: a controller that synchronises, is promoted and accepts a job gives
  it the id its own counter had before, and when the replicated table holds a job under that id, entering
  the new job replaces it.
\<close>

theorem failover_reuses_id:
  assumes "hm_get (pe_jobs p) (cx_next_job_id ctx) = Some old" and "cx_submissions ctx = []"
    and "gs_role (cx_state (fst (peer_tick ev True (peer_state_sync ev' store p ctx)))) = Leader"
    and "submit ev sv caller q (fst (peer_tick ev True (peer_state_sync ev' store p ctx))) = (ctx2, JobId i)"
  shows "hm_get (gs_jobs (cx_state ctx2)) i = Some old \<and>
    (\<exists>job. hm_get (gs_jobs (cx_state (process_batch 100 ctx2))) i = Some job \<and> ji_status job = Pending \<and>
       resolve_user_id caller (sq_user_id q) = Inr (ji_user_id job)) \<and>
    gs_next_job_id (cx_state (process_batch 100 ctx2)) = cx_next_job_id ctx + 1"
proof -
  let ?c = "fst (peer_tick ev True (peer_state_sync ev' store p ctx))"
  have n: "cx_next_job_id ?c = cx_next_job_id ctx" "cx_submissions ?c = []"
    using assms(2) by (simp_all add: peer_tick_def peer_state_sync_def Let_def)
  have "pe_jobs (persisted_of (cx_state ?c)) = pe_jobs p" by simp
  then have j: "gs_jobs (cx_state ?c) = pe_jobs p" by (simp add: persisted_of_def)
  show ?thesis
  proof (cases rule: submit_cases [of q ev sv caller ?c])
    case (accepted user r x)
    then have q: "sq_array_indices q = None" "i = cx_next_job_id ctx" using assms(4) n by (auto split: option.splits)
    define job where "job = hd (submitted_jobs ev sv q user (cx_next_job_id ctx))"
    have b: "submitted_jobs ev sv q user (cx_next_job_id ctx) = [job]" "ji_id job = i" "ji_status job = Pending" "ji_user_id job = user"
      using q by (simp_all add: job_def submitted_jobs_def new_job_def)
    have c: "ctx2 = ?c\<lparr>cx_next_job_id := cx_next_job_id ctx + 1, cx_submissions := [job]\<rparr>"
      using accepted(6) assms(4) n b(1) by simp
    have s: "cx_state ctx2 = cx_state ?c" "cx_submissions ctx2 = [job]" "cx_next_job_id ctx2 = cx_next_job_id ctx + 1"
      by (simp_all add: c)
    have "hm_get (gs_jobs (cx_state (process_batch 100 ctx2))) i = Some job \<and>
        gs_next_job_id (cx_state (process_batch 100 ctx2)) = cx_next_job_id ctx + 1"
      using assms(3) s b(2) by (simp add: process_batch_state enter_jobs_def)
    then show ?thesis using assms(1) j s(1) q(2) b accepted(1) by simp
  qed (use assms(4) in simp)
qed

text \<open>
  The leader accepted job 10 of alice and moved its counter to 11; the follower's counter is still 10 when
  bob submits after the promotion.
\<close>

definition replicated :: persisted_state where
  "replicated = persisted_of ((sample_state [] [(10, sample_job 10)] [10])\<lparr>gs_next_job_id := 11\<rparr>)"

theorem failover_reuses_id_witness:
  "\<exists>ctx2. submit sample_env sample_submit_env sample_caller sample_request
       (fst (peer_tick sample_env True (peer_state_sync (sample_env\<lparr>ev_now := 900\<rparr>) sample_store replicated follower_ctx))) = (ctx2, JobId 10) \<and>
     map_option ji_user_id (hm_get (gs_jobs (cx_state ctx2)) 10) = Some ''alice'' \<and>
     map_option ji_user_id (hm_get (gs_jobs (cx_state (process_batch 100 ctx2))) 10) = Some ''bob''"
proof -
  let ?c = "fst (peer_tick sample_env True (peer_state_sync (sample_env\<lparr>ev_now := 900\<rparr>) sample_store replicated follower_ctx))"
  have g: "hm_get (pe_jobs replicated) (cx_next_job_id follower_ctx) = Some (sample_job 10)" "cx_submissions follower_ctx = []"
    by (simp_all add: replicated_def persisted_of_def sample_state_def follower_ctx_def sample_ctx_def)
  have f: "cx_next_job_id ?c = 10" "cx_submission_open ?c"
    by (simp_all add: peer_tick_def peer_state_sync_def Let_def follower_ctx_def sample_ctx_def sync_active_state_to_dashmaps_def split_def)
  have r: "gs_role (cx_state ?c) = Leader"
    by (simp add: tick_role) (simp add: peer_state_sync_def Let_def sample_env_def sat_sub_def sync_active_state_to_dashmaps_def split_def)
  obtain ctx2 where s: "submit sample_env sample_submit_env sample_caller sample_request ?c = (ctx2, JobId 10)"
    using sample_submit_job [OF f(2)] f(1) by (metis (no_types))
  have u: "resolve_user_id sample_caller (sq_user_id sample_request) = Inr ''bob''"
    by (simp add: resolve_user_id_def sample_caller_def sample_request_def)
  from failover_reuses_id [OF g r s] obtain job where
    "hm_get (gs_jobs (cx_state ctx2)) 10 = Some (sample_job 10)"
    "hm_get (gs_jobs (cx_state (process_batch 100 ctx2))) 10 = Some job" "ji_user_id job = ''bob''"
    using u by auto
  moreover have "ji_user_id (sample_job 10) = ''alice''" by (simp add: sample_job_def)
  ultimately show ?thesis using s by (intro exI [of _ ctx2]) simp
qed

end
