(* ===== verification/CliArgs.thy ===== *)
theory CliArgs
  imports Submission
begin

text \<open>
  The command line client's treatment of its arguments (\<open>cli/src/main.rs\<close>): the value parsers, the array
  ranges, the dependency argument, and the \<open>Submit\<close> message it sends. \<open>submit_args\<close> holds the fields of the
  \<open>Submit\<close> command with the defaults the argument parser (a library) fills in. Environment variables are
  arguments. Reading a CWL file, packing an input directory and the connection are not modelled.
\<close>

datatype cli_error = Refused string | Panicked panic

section \<open>Values\<close>

definition parse_gres_req :: "string \<Rightarrow> string + string \<times> u64" where
  "parse_gres_req s = (let parts = split_on CHR '':'' s in
     if length parts \<noteq> 2 then Inl ''GRES must be in format name:count''
     else case parse_u64 (parts ! 1) of Some n \<Rightarrow> Inr (parts ! 0, n) | None \<Rightarrow> Inl ''Invalid count'')"

definition parse_env_var :: "string \<Rightarrow> string + string \<times> string" where
  "parse_env_var s = (case split_once CHR ''='' s of Some (k, v) \<Rightarrow> Inr (k, v)
     | None \<Rightarrow> Inl ''Environment variables must be in format KEY=VALUE'')"

definition parse_qos :: "string \<Rightarrow> string + qos_level" where
  "parse_qos s = (let q = to_lowercase s in
     if q = ''interactive'' then Inr Interactive else if q = ''production'' then Inr Production
     else if q = ''preemptible'' then Inr Preemptible else if q = ''background'' then Inr Background
     else Inl (''Invalid QoS level '' @ quoted s @ ''. Expected interactive, production, preemptible, background''))"

definition normalize_optional_text :: "string option \<Rightarrow> string \<Rightarrow> string + string option" where
  "normalize_optional_text v field_name = (case v of None \<Rightarrow> Inr None
     | Some s \<Rightarrow> if trim s = [] then Inl (field_name @ '' cannot be empty'') else Inr (Some (trim s)))"

text \<open>The values of \<open>USER\<close>, \<open>LOGNAME\<close> and \<open>USERNAME\<close>\<close>

definition default_submitter_identity :: "string option list \<Rightarrow> string + string" where
  "default_submitter_identity vars =
     (case filter (\<lambda>s. s \<noteq> []) (map trim (List.map_filter (\<lambda>v. v) vars)) of
        u # _ \<Rightarrow> Inr u | [] \<Rightarrow> Inl ''Unable to determine current user; pass --user explicitly'')"

definition split_command :: "string list \<Rightarrow> string \<Rightarrow> string + string \<times> string list" where
  "split_command command context = (case command of [] \<Rightarrow> Inl (context @ '' executable is required'') | b # as \<Rightarrow> Inr (b, as))"

definition parse_controller_list :: "string option \<Rightarrow> string \<Rightarrow> string + string list" where
  "parse_controller_list controllers controller =
     (let cs = filter (\<lambda>a. a \<noteq> []) (map trim (split_on CHR '','' (case controllers of Some c \<Rightarrow> c | None \<Rightarrow> controller)))
      in if cs = [] then Inl ''No controller addresses configured'' else Inr cs)"

definition full_status :: "job_status \<Rightarrow> string" where
  "full_status status = (case status of Pending \<Rightarrow> ''Pending'' | Running \<Rightarrow> ''Running''
     | Completed code \<Rightarrow> ''Completed('' @ show_int code @ '')'' | Failed err \<Rightarrow> ''Failed('' @ err @ '')'' | Killed \<Rightarrow> ''Cancelled'')"

definition format_job_status :: "job_status \<Rightarrow> panic + string" where
  "format_job_status status = (let s = full_status status in
     if length s > 22 then (if is_char_boundary s 19 then Inr (take 19 s @ ''...'') else Inl NotCharBoundary) else Inr s)"

definition format_duration_secs :: "u64 \<Rightarrow> string" where
  "format_duration_secs n =
     (if n = 0 then ''-'' else if n < 60 then show_u64 n @ ''s''
      else if n < 3600 then show_u64 (n div 60) @ ''m '' @ show_u64 (n mod 60) @ ''s''
      else show_u64 (n div 3600) @ ''h '' @ show_u64 (n mod 3600 div 60) @ ''m '' @ show_u64 (n mod 60) @ ''s'')"

definition format_string_list :: "string list \<Rightarrow> string" where
  "format_string_list vs = (if vs = [] then ''-'' else join '', '' vs)"

section \<open>Array ranges\<close>

text \<open>\<open>str::parse::<i32>\<close>, the type that is inferred for the step.\<close>

definition parse_i32 :: "string \<Rightarrow> int option" where
  "parse_i32 s = (case s of [] \<Rightarrow> None | c # t \<Rightarrow>
     (let neg = (c = CHR ''-''); ds = (if neg \<or> c = CHR ''+'' then t else s)
      in if ds = [] \<or> \<not> list_all is_ascii_digit ds then None
         else (let v = (if neg then - int (digits_value ds) else int (digits_value ds))
               in if - (2 ^ 31) \<le> v \<and> v < 2 ^ 31 then Some v else None)))"

text \<open>\<open>step as usize\<close>\<close>

definition i32_as_usize :: "int \<Rightarrow> usize" where
  "i32_as_usize k = nat (k mod 2 ^ 64)"

definition stepped :: "u32 \<Rightarrow> u32 \<Rightarrow> usize \<Rightarrow> u32 list" where
  "stepped start_at end_at step = map of_nat (filter (\<lambda>i. (i - unat start_at) mod step = 0) [unat start_at..<Suc (unat end_at)])"

definition array_part :: "string \<Rightarrow> cli_error + u32 list" where
  "array_part part =
     (if CHR ''-'' \<in> set part then
        (let inner_parts = split_on CHR '':'' part in
         case (if length inner_parts > 1 then parse_i32 (inner_parts ! 1) else Some 1) of
           None \<Rightarrow> Inl (Refused ''Invalid array step size'')
         | Some step \<Rightarrow>
            (case split_on CHR ''-'' (inner_parts ! 0) of
               [a, b] \<Rightarrow>
                 (case parse_u32 a of None \<Rightarrow> Inl (Refused ''Invalid array start'')
                  | Some start_at \<Rightarrow>
                     (case parse_u32 b of None \<Rightarrow> Inl (Refused ''Invalid array end'')
                      | Some end_at \<Rightarrow>
                         (if i32_as_usize step = 0 then Inl (Panicked StepByZero)
                          else Inr (stepped start_at end_at (i32_as_usize step)))))
             | _ \<Rightarrow> Inl (Refused (''Invalid array range: '' @ inner_parts ! 0))))
      else (case parse_u32 part of Some v \<Rightarrow> Inr [v] | None \<Rightarrow> Inl (Refused ''Invalid array discrete single value'')))"

fun array_parts :: "string list \<Rightarrow> cli_error + u32 list" where
  "array_parts [] = Inr []"
| "array_parts (p # ps) = (case array_part p of Inl e \<Rightarrow> Inl e
     | Inr xs \<Rightarrow> (case array_parts ps of Inl e \<Rightarrow> Inl e | Inr ys \<Rightarrow> Inr (xs @ ys)))"

definition parse_array_range :: "string \<Rightarrow> cli_error + u32 list" where
  "parse_array_range array_str =
     (case array_parts (split_on CHR '','' array_str) of Inl e \<Rightarrow> Inl e
      | Inr xs \<Rightarrow>
         (let indices = remdups_adj (sort xs) in
          if indices = [] then Inl (Refused ''Array range is empty'')
          else if length indices > 10000 then Inl (Refused ''Array range is too large (max 10000 tasks)'')
          else Inr indices))"

section \<open>The submit command\<close>

definition cli_pieces :: "string \<Rightarrow> string list" where
  "cli_pieces dep_str = filter (\<lambda>p. p \<noteq> []) (map trim (split_on CHR '','' dep_str))"

definition cli_dependencies :: "string option \<Rightarrow> u64 list option \<times> string list option" where
  "cli_dependencies dependency = (case dependency of None \<Rightarrow> (None, None)
     | Some dep_str \<Rightarrow> (let specs = cli_pieces dep_str; ids = List.map_filter spec_parent specs
         in (if ids = [] then None else Some ids, if specs = [] then None else Some specs)))"

record submit_args =
  sa_job_name :: "string option"
  sa_job_comment :: "string option"
  sa_nodes :: usize
  sa_cores :: u32
  sa_mem :: u64
  sa_walltime :: u64
  sa_estimated_walltime :: "u64 option"
  sa_priority :: u32
  sa_as_user :: "string option"
  sa_array :: "string option"
  sa_gres :: "(string \<times> u64) list"
  sa_env :: "(string \<times> string) list"
  sa_dependency :: "string option"
  sa_qos :: qos_level
  sa_image :: "string option"
  sa_vnc :: bool
  sa_command :: "string list"

definition refuse :: "string + 'a \<Rightarrow> cli_error + 'a" where
  "refuse r = (case r of Inl e \<Rightarrow> Inl (Refused e) | Inr x \<Rightarrow> Inr x)"

definition submitter :: "string option list \<Rightarrow> string option \<Rightarrow> string + string" where
  "submitter vars as_user = (case as_user of
     Some user \<Rightarrow> (if trim user \<noteq> [] then Inr user else Inl ''--user cannot be empty'')
   | None \<Rightarrow> default_submitter_identity vars)"

text \<open>\<open>inputs\<close>: the handle of the uploaded input directory, if one was given.\<close>

definition cli_submit :: "string option list \<Rightarrow> string \<Rightarrow> file_handle list \<Rightarrow> submit_args \<Rightarrow> cli_error + submit_request" where
  "cli_submit vars working_directory inputs a =
     (case refuse (submitter vars (sa_as_user a)) of Inl e \<Rightarrow> Inl e | Inr user_id \<Rightarrow>
     (case refuse (normalize_optional_text (sa_job_name a) ''--name'') of Inl e \<Rightarrow> Inl e | Inr job_name \<Rightarrow>
     (case refuse (normalize_optional_text (sa_job_comment a) ''--comment'') of Inl e \<Rightarrow> Inl e | Inr job_comment \<Rightarrow>
     (case refuse (split_command (sa_command a) ''Submit'') of Inl e \<Rightarrow> Inl e | Inr (binary, args) \<Rightarrow>
     (case (case sa_array a of None \<Rightarrow> Inr None
              | Some arr_str \<Rightarrow> (case parse_array_range arr_str of Inl e \<Rightarrow> Inl e | Inr is \<Rightarrow> Inr (Some is))) of Inl e \<Rightarrow> Inl e | Inr indices \<Rightarrow>
       Inr \<lparr>sq_job_name = job_name, sq_job_comment = job_comment, sq_binary = binary, sq_args = args, sq_req_nodes = sa_nodes a,
         sq_req_cores = sa_cores a, sq_req_memory = sa_mem a, sq_walltime = sa_walltime a, sq_priority = sa_priority a,
         sq_user_id = user_id, sq_working_directory = working_directory, sq_array_indices = indices, sq_inputs = inputs,
         sq_gres_req = fold (\<lambda>(k, v). hm_insert k v) (sa_gres a) [], sq_env_vars = sa_env a, sq_wait_for_licenses = False,
         sq_estimated_walltime = sa_estimated_walltime a, sq_priority_offset = None,
         sq_dependencies = fst (cli_dependencies (sa_dependency a)), sq_dependency_specs = snd (cli_dependencies (sa_dependency a)),
         sq_qos = sa_qos a, sq_image_uri = sa_image a, sq_vnc_enabled = sa_vnc a, sq_inherit_host_env = False,
         sq_env_allowlist = None, sq_job_profile = None\<rparr>)))))"

section \<open>What a dependency argument asks for\<close>

lemma cli_requirements:
  assumes "cli_dependencies (Some dep) = (deps, specs)"
  shows "set (requirements (job\<lparr>ji_dependencies := deps, ji_dependency_specs := specs\<rparr>)) =
    raw_requirement ` set (List.map_filter spec_parent (cli_pieces dep)) \<union> spec_requirement ` set (cli_pieces dep)"
  using assms by (auto simp: cli_dependencies_def Let_def requirements_def sources_def split: if_splits)

text \<open>
  C39: A dependency given on the command line always means success of the parent. The client sends the
  parents of the specifications also as plain dependencies, so that the controller lets the job start
  only when every specification parses and every parent has completed with exit code 0: \<open>afterany\<close> waits
  for success, and a job with \<open>afternotok\<close> never starts.
\<close>

theorem cli_dependency_means_success:
  assumes "cli_dependencies (Some dep) = (deps, specs)"
  shows "are_dependencies_satisfied (job\<lparr>ji_dependencies := deps, ji_dependency_specs := specs\<rparr>) jobs db = Inr True \<longleftrightarrow>
    (\<forall>p\<in>set (cli_pieces dep). \<exists>d. dependency_spec_parse p = Inr d \<and> ds_condition d \<noteq> AfterNotOk \<and>
       known_status jobs db (ds_parent_id d) = Some (Completed 0))"
proof -
  let ?ok = "\<lambda>p. (\<forall>i. spec_parent p = Some i \<longrightarrow> requirement_met jobs db (raw_requirement i)) \<and>
    requirement_met jobs db (spec_requirement p)"
  have piece: "?ok p \<longleftrightarrow> (\<exists>d. dependency_spec_parse p = Inr d \<and> ds_condition d \<noteq> AfterNotOk \<and>
      known_status jobs db (ds_parent_id d) = Some (Completed 0))" for p
  proof (cases "dependency_spec_parse p")
    case (Inr d)
    then show ?thesis
      by (cases "ds_condition d"; cases "known_status jobs db (ds_parent_id d)"; cases "the (known_status jobs db (ds_parent_id d))")
        (auto simp: spec_parent_def requirement_met_def raw_requirement_def spec_requirement_def)
  qed (simp add: spec_requirement_def requirement_met_def)
  have "are_dependencies_satisfied (job\<lparr>ji_dependencies := deps, ji_dependency_specs := specs\<rparr>) jobs db = Inr True \<longleftrightarrow>
      (\<forall>p\<in>set (cli_pieces dep). ?ok p)"
  proof -
    have "set (List.map_filter spec_parent (cli_pieces dep)) = {i. \<exists>p\<in>set (cli_pieces dep). spec_parent p = Some i}"
      by (force simp: map_filter_def)
    then show ?thesis unfolding satisfied_iff_all_met cli_requirements [OF assms] by blast
  qed
  then show ?thesis unfolding piece .
qed

theorem cli_dependency_means_success_witness:
  "\<exists>deps specs. cli_dependencies (Some ''afternotok:4'') = (deps, specs) \<and>
     are_dependencies_satisfied (sample_job 5\<lparr>ji_dependencies := deps, ji_dependency_specs := specs\<rparr>) []
       [(4, Failed ''crash'')] \<noteq> Inr True"
proof -
  obtain deps specs where d: "cli_dependencies (Some ''afternotok:4'') = (deps, specs)"
    by (cases "cli_dependencies (Some ''afternotok:4'')")
  have "cli_pieces ''afternotok:4'' = [''afternotok:4'']" by code_simp
  moreover have "dependency_spec_parse ''afternotok:4'' = Inr \<lparr>ds_parent_id = 4, ds_condition = AfterNotOk\<rparr>"
    by (simp add: dependency_spec_parse_def parse_condition_def to_lowercase_def lower_char_def is_ascii_upper_def
        parse_u64_def parse_unsigned_def is_ascii_digit_def digits_value_def digit_val_def)
  ultimately show ?thesis using d cli_dependency_means_success [OF d, of "sample_job 5" "[]" "[(4, Failed ''crash'')]"] by auto
qed

section \<open>What an array argument asks for\<close>

text \<open>A range \<open>start-end:step\<close> as it is printed, and its indices.\<close>

type_synonym array_range = "u32 \<times> u32 \<times> nat"

definition show_range :: "array_range \<Rightarrow> string" where
  "show_range = (\<lambda>(a, b, k). show_u64 a @ ''-'' @ show_u64 b @ '':'' @ show_nat k)"

definition range_indices :: "array_range \<Rightarrow> u32 set" where
  "range_indices = (\<lambda>(a, b, k). {i. \<exists>j. unat i = unat a + j * k \<and> i \<le> b})"

definition range_ok :: "array_range \<Rightarrow> bool" where
  "range_ok = (\<lambda>(a, b, k). 0 < k \<and> k < 2 ^ 31)"

lemma set_stepped: "0 < k \<Longrightarrow> set (stepped a b k) = range_indices (a, b, k)"
proof -
  assume k: "0 < k"
  have all: "set (stepped a b k) = of_nat ` {n. unat a \<le> n \<and> n \<le> unat b \<and> (n - unat a) mod k = 0}"
    by (auto simp: stepped_def)
  have "i \<in> set (stepped a b k) \<longleftrightarrow> i \<in> range_indices (a, b, k)" for i
  proof
    assume "i \<in> set (stepped a b k)"
    then have "i \<in> of_nat ` {n. unat a \<le> n \<and> n \<le> unat b \<and> (n - unat a) mod k = 0}" unfolding all .
    then obtain n where n: "i = of_nat n" "unat a \<le> n" "n \<le> unat b" "(n - unat a) mod k = 0"
      by (elim imageE CollectE conjE)
    have "n < 2 ^ LENGTH(32)" using n(3) unsigned_less [where 'a = nat, of b] by (rule le_less_trans)
    then have "unat i = n" unfolding n(1) by (simp only: unat_of_nat mod_less)
    moreover obtain j where "n - unat a = j * k" using n(4) by (metis dvd_def mod_0_imp_dvd mult.commute)
    ultimately show "i \<in> range_indices (a, b, k)" using n by (auto simp: range_indices_def word_le_nat_alt intro!: exI [of _ j])
  next
    assume "i \<in> range_indices (a, b, k)"
    then obtain j where "unat i = unat a + j * k" "unat i \<le> unat b" by (auto simp: range_indices_def word_le_nat_alt)
    then have "unat i \<in> {n. unat a \<le> n \<and> n \<le> unat b \<and> (n - unat a) mod k = 0}" by simp
    moreover have "i = of_nat (unat i)" by simp
    ultimately show "i \<in> set (stepped a b k)" unfolding all by (rule rev_image_eqI)
  qed
  then show ?thesis by blast
qed

lemma parse_i32_show: "k < 2 ^ 31 \<Longrightarrow> parse_i32 (show_nat k) = Some (int k)"
proof -
  assume k: "k < 2 ^ 31"
  obtain c t where s: "show_nat k = c # t" by (cases "show_nat k") auto
  have "c \<in> set (show_nat k)" using s by simp
  then have "c \<noteq> CHR ''-''" "c \<noteq> CHR ''+''"
    using digit_not_in_show [of "CHR ''-''" k] digit_not_in_show [of "CHR ''+''" k] by (auto simp: is_ascii_digit_def)
  then show ?thesis using k s show_nat_digits [of k] digits_value_show_nat [of k] by (simp add: parse_i32_def)
qed

lemma array_part_range: "range_ok r \<Longrightarrow> \<exists>xs. array_part (show_range r) = Inr xs \<and> set xs = range_indices r"
proof -
  assume ok: "range_ok r"
  obtain a b k where r: "r = (a, b, k)" by (cases r)
  have k: "0 < k" "k < 2 ^ 31" using ok by (simp_all add: range_ok_def r)
  have sp: "split_on CHR '':'' (show_range r) = [show_u64 a @ ''-'' @ show_u64 b, show_nat k]"
    using split_on_append [of "CHR '':''" "show_u64 a @ ''-'' @ show_u64 b" "show_nat k"] digit_not_in_show [of "CHR '':''" k]
    by (simp add: show_range_def r split_on_no_sep is_ascii_digit_def)
  have sd: "split_on CHR ''-'' (show_u64 a @ ''-'' @ show_u64 b) = [show_u64 a, show_u64 b]"
    by (simp add: split_on_append split_on_no_sep)
  have "int k mod 2 ^ 64 = int k" by (rule mod_pos_pos_trivial) (use k in simp_all)
  then have "i32_as_usize (int k) = k" by (simp add: i32_as_usize_def)
  then have "array_part (show_range r) = Inr (stepped a b k)"
    using k by (simp add: array_part_def sp sd [simplified] parse_i32_show Let_def) (simp add: show_range_def r)
  then show ?thesis using set_stepped [OF k(1)] r by blast
qed

lemma array_parts_ranges:
  "\<forall>r\<in>set rs. range_ok r \<Longrightarrow> \<exists>xs. array_parts (map show_range rs) = Inr xs \<and> set xs = (\<Union>r\<in>set rs. range_indices r)"
proof (induction rs)
  case (Cons r rs)
  then obtain xs ys where "array_part (show_range r) = Inr xs" "set xs = range_indices r"
      "array_parts (map show_range rs) = Inr ys" "set ys = (\<Union>r\<in>set rs. range_indices r)"
    using array_part_range [of r] by auto
  then show ?case by simp
qed simp

lemma remdups_adj_sort: "remdups_adj (sort xs) = sorted_list_of_set (set xs)" for xs :: "'a :: linorder list"
proof (rule sorted_distinct_set_unique)
  have "sorted ys \<Longrightarrow> distinct (remdups_adj ys)" for ys :: "'a :: linorder list"
    by (induction ys rule: remdups_adj.induct) (auto simp: order.strict_iff_order)
  then show "distinct (remdups_adj (sort xs))" by simp
qed simp_all

text \<open>
  Array ranges are read exactly. A comma separated list of ranges with steps between 1 and the largest
  32-bit signed number yields the strictly increasing list of all indices the ranges denote, each once; it
  is refused exactly when there is no index or there are more than 10000. A step of zero is a panic.
\<close>

theorem array_range_exact:
  assumes "rs \<noteq> []" and "\<forall>r\<in>set rs. range_ok r"
  shows "let is = sorted_list_of_set (\<Union>r\<in>set rs. range_indices r) in
    parse_array_range (join '','' (map show_range rs)) =
      (if is = [] then Inl (Refused ''Array range is empty'')
       else if length is > 10000 then Inl (Refused ''Array range is too large (max 10000 tasks)'') else Inr is) \<and>
    parse_array_range (show_range (a, b, 0)) = Inl (Panicked StepByZero)"
proof -
  have comma: "CHR '','' \<notin> set (show_range r)" for r
  proof -
    obtain x y k where "r = (x, y, k)" by (cases r)
    then show ?thesis using digit_not_in_show [of "CHR '',''" k] show_no_char [of "CHR '',''" x] show_no_char [of "CHR '',''" y]
      by (simp add: show_range_def is_ascii_digit_def)
  qed
  have "split_on CHR '','' (join '','' (map show_range rs)) = map show_range rs"
    by (rule split_on_join) (use assms(1) comma in auto)
  moreover obtain xs where "array_parts (map show_range rs) = Inr xs" "set xs = (\<Union>r\<in>set rs. range_indices r)"
    using array_parts_ranges [OF assms(2)] by blast
  ultimately have "parse_array_range (join '','' (map show_range rs)) =
      (let is = sorted_list_of_set (\<Union>r\<in>set rs. range_indices r) in
       if is = [] then Inl (Refused ''Array range is empty'')
       else if length is > 10000 then Inl (Refused ''Array range is too large (max 10000 tasks)'') else Inr is)"
    by (simp add: parse_array_range_def remdups_adj_sort)
  moreover have "parse_array_range (show_range (a, b, 0)) = Inl (Panicked StepByZero)"
  proof -
    have "split_on CHR '':'' (show_range (a, b, 0)) = [show_u64 a @ ''-'' @ show_u64 b, ''0'']"
    proof -
      have "show_nat 0 = ''0''" by code_simp
      then show ?thesis using split_on_append [of "CHR '':''" "show_u64 a @ ''-'' @ show_u64 b" "''0''"]
        by (simp add: show_range_def)
    qed
    moreover have "split_on CHR ''-'' (show_u64 a @ CHR ''-'' # show_u64 b) = [show_u64 a, show_u64 b]"
      by (simp add: split_on_append split_on_no_sep)
    moreover have "parse_i32 ''0'' = Some 0" by code_simp
    ultimately have "array_part (show_range (a, b, 0)) = Inl (Panicked StepByZero)"
      by (simp add: array_part_def i32_as_usize_def Let_def) (simp add: show_range_def)
    then show ?thesis using comma [of "(a, b, 0)"] by (simp add: parse_array_range_def split_on_no_sep)
  qed
  ultimately show ?thesis by (simp add: Let_def)
qed

theorem array_range_exact_witness:
  "parse_array_range (join '','' (map show_range [(1, 7, 3), (4, 5, 1)])) = Inr [1, 4, 5, 7]"
proof -
  let ?rs = "[(1, 7, 3), (4, 5, 1)] :: array_range list"
  have ok: "?rs \<noteq> []" "\<forall>r\<in>set ?rs. range_ok r" by (simp_all add: range_ok_def)
  have "set (stepped 1 7 3) = {1, 4, 7}" "set (stepped 4 5 1) = {4, 5}" by code_simp+
  then have "(\<Union>r\<in>set ?rs. range_indices r) = {1, 4, 5, 7}"
    using set_stepped [of 3 1 7] set_stepped [of 1 4 5] by auto
  moreover have "sorted_list_of_set {1, 4, 5, 7 :: u32} = [1, 4, 5, 7]" by (simp add: insort_key_def)
  ultimately show ?thesis using array_range_exact [OF ok] by (simp add: Let_def)
qed

end
