(* ===== verification/GpuFilter.thy ===== *)
theory GpuFilter
  imports Strings
begin

unbundle bit_operations_syntax

text \<open>
  The device filter of a job's cgroup (\<open>worker/src/bpf_filter.rs\<close>): the program that the worker compiles
  for the GPUs a job was given. Loading and attaching it are system calls and not modelled. The meaning of
  a program is given by an interpreter for the instructions it uses, after the eBPF instruction set: a
  32-bit load from the context, the conditional jumps on a sign-extended immediate, a move and the exit.
\<close>

section \<open>The compiler\<close>

record bpf_insn =
  bi_code :: u8
  bi_dst_reg :: u8
  bi_off :: "16 word"
  bi_imm :: "32 word"

definition insn :: "u8 \<Rightarrow> u8 \<Rightarrow> u8 \<Rightarrow> 16 word \<Rightarrow> 32 word \<Rightarrow> bpf_insn" where
  "insn code dst src off imm = \<lparr>bi_code = code, bi_dst_reg = dst OR push_bit 4 src, bi_off = off, bi_imm = imm\<rparr>"

text \<open>The argument is the content of \<open>/proc/devices\<close>, if it can be read.\<close>

definition uvm_line :: "string \<Rightarrow> u32 option" where
  "uvm_line line = (case split_whitespace line of
     [a, b] \<Rightarrow> if b = ''nvidia-uvm'' then parse_u32 a else None | _ \<Rightarrow> None)"

definition get_uvm_major :: "string option \<Rightarrow> u32 option" where
  "get_uvm_major content = (case content of None \<Rightarrow> None
     | Some c \<Rightarrow> (case List.map_filter uvm_line (str_lines c) of [] \<Rightarrow> None | m # _ \<Rightarrow> Some m))"

definition push_jump :: "bpf_insn \<Rightarrow> bpf_insn list \<times> nat list \<Rightarrow> bpf_insn list \<times> nat list" where
  "push_jump i = (\<lambda>(insns, jumps_to_allow). (insns @ [i], jumps_to_allow @ [length insns]))"

definition patch :: "nat \<Rightarrow> nat \<Rightarrow> bpf_insn list \<Rightarrow> bpf_insn list" where
  "patch allow_idx idx insns = insns[idx := (insns ! idx)\<lparr>bi_off := of_nat allow_idx - of_nat idx - 1\<rparr>]"

definition compile_bpf_program :: "u32 option \<Rightarrow> u32 list \<Rightarrow> bpf_insn list" where
  "compile_bpf_program uvm gpu_ids =
     (let p0 = ([insn 0x61 2 1 4 0, insn 0x61 3 1 8 0], []);
          p1 = push_jump (insn 0x15 2 0 0 1) p0;
          p2 = push_jump (insn 0x15 2 0 0 5) p1;
          p3 = push_jump (insn 0x15 2 0 0 136) p2;
          p4 = (case uvm of Some uvm_major \<Rightarrow> push_jump (insn 0x15 2 0 0 uvm_major) p3 | None \<Rightarrow> p3);
          p5 = push_jump (insn 0x55 2 0 0 195) p4;
          p6 = push_jump (insn 0x15 3 0 0 255) p5;
          p7 = push_jump (insn 0x15 3 0 0 254) p6;
          (insns1, jumps_to_allow) = fold (\<lambda>gpu_id. push_jump (insn 0x15 3 0 0 gpu_id)) gpu_ids p7;
          insns2 = insns1 @ [insn 0xb7 0 0 0 0, insn 0x95 0 0 0 0];
          allow_idx = length insns2;
          insns3 = insns2 @ [insn 0xb7 0 0 0 1, insn 0x95 0 0 0 0]
      in fold (patch allow_idx) jumps_to_allow insns3)"

section \<open>The instruction set\<close>

text \<open>The context of a device access: its type, major and minor number at offsets 0, 4 and 8.\<close>

record bpf_ctx =
  bc_access_type :: u32
  bc_major :: u32
  bc_minor :: u32

definition ctx_load :: "bpf_ctx \<Rightarrow> 16 word \<Rightarrow> u32 option" where
  "ctx_load c off = (if off = 0 then Some (bc_access_type c) else if off = 4 then Some (bc_major c)
     else if off = 8 then Some (bc_minor c) else None)"

definition dst_of :: "bpf_insn \<Rightarrow> u8" where
  "dst_of i = bi_dst_reg i AND 15"

definition src_of :: "bpf_insn \<Rightarrow> u8" where
  "src_of i = drop_bit 4 (bi_dst_reg i)"

definition jump_target :: "nat \<Rightarrow> bpf_insn \<Rightarrow> nat" where
  "jump_target pc i = nat (int pc + 1 + sint (bi_off i))"

text \<open>
  Running from instruction \<open>pc\<close> with at most \<open>fuel\<close> instructions: \<open>None\<close> when an instruction is missing,
  unknown or reads outside the context, and when the fuel does not suffice; otherwise the final \<open>R0\<close>.
  Register 1 holds the address of the context.
\<close>

fun bpf_run :: "nat \<Rightarrow> bpf_insn list \<Rightarrow> bpf_ctx \<Rightarrow> nat \<Rightarrow> (u8 \<Rightarrow> u64) \<Rightarrow> u64 option" where
  "bpf_run 0 prog c pc r = None"
| "bpf_run (Suc fuel) prog c pc r =
     (if pc < length prog then
        (let i = prog ! pc; imm = (signed (bi_imm i) :: u64) in
         if bi_code i = 0x61 then
           (case (if src_of i = 1 then ctx_load c (bi_off i) else None) of
              Some v \<Rightarrow> bpf_run fuel prog c (pc + 1) (r(dst_of i := unsigned v)) | None \<Rightarrow> None)
         else if bi_code i = 0x15 then
           bpf_run fuel prog c (if r (dst_of i) = imm then jump_target pc i else pc + 1) r
         else if bi_code i = 0x55 then
           bpf_run fuel prog c (if r (dst_of i) \<noteq> imm then jump_target pc i else pc + 1) r
         else if bi_code i = 0xb7 then bpf_run fuel prog c (pc + 1) (r(dst_of i := imm))
         else if bi_code i = 0x95 then Some (r 0)
         else None)
      else None)"

declare bpf_run.simps [simp del]

section \<open>Shape of the compiled program\<close>

text \<open>The conditional jumps in order, before their offsets are known.\<close>

definition filter_jumps :: "u32 option \<Rightarrow> u32 list \<Rightarrow> bpf_insn list" where
  "filter_jumps uvm gpu_ids =
     [insn 0x15 2 0 0 1, insn 0x15 2 0 0 5, insn 0x15 2 0 0 136] @
     (case uvm of Some m \<Rightarrow> [insn 0x15 2 0 0 m] | None \<Rightarrow> []) @
     [insn 0x55 2 0 0 195, insn 0x15 3 0 0 255, insn 0x15 3 0 0 254] @ map (insn 0x15 3 0 0) gpu_ids"

definition head_insns :: "bpf_insn list" where
  "head_insns = [insn 0x61 2 1 4 0, insn 0x61 3 1 8 0]"

definition tail_insns :: "bpf_insn list" where
  "tail_insns = [insn 0xb7 0 0 0 0, insn 0x95 0 0 0 0, insn 0xb7 0 0 0 1, insn 0x95 0 0 0 0]"

definition patched :: "nat \<Rightarrow> nat \<Rightarrow> bpf_insn \<Rightarrow> bpf_insn" where
  "patched n k i = i\<lparr>bi_off := of_nat (n + 4) - of_nat (k + 2) - 1\<rparr>"

lemma fold_push_jump:
  "fold push_jump is (xs, js) = (xs @ is, js @ [length xs..<length xs + length is])"
  by (induction "is" arbitrary: xs js) (auto simp: push_jump_def upt_rec)

lemma fold_patch:
  assumes "a + length ms + length zs \<le> length xs + length ms + length zs" "length xs = a"
  shows "fold (patch m) [a..<a + length ms] (xs @ ms @ zs) =
    xs @ map (\<lambda>k. (ms ! k)\<lparr>bi_off := of_nat m - of_nat (a + k) - 1\<rparr>) [0..<length ms] @ zs"
  using assms
proof (induction ms arbitrary: xs a)
  case (Cons i ms)
  let ?i = "i\<lparr>bi_off := of_nat m - of_nat a - 1\<rparr>"
  have "[a..<a + length (i # ms)] = a # [Suc a..<Suc a + length ms]" by (simp add: upt_rec)
  moreover have "patch m a (xs @ (i # ms) @ zs) = (xs @ [?i]) @ ms @ zs"
    using Cons.prems by (simp add: patch_def list_update_append nth_append)
  moreover have "fold (patch m) [Suc a..<Suc a + length ms] ((xs @ [?i]) @ ms @ zs) =
      (xs @ [?i]) @ map (\<lambda>k. (ms ! k)\<lparr>bi_off := of_nat m - of_nat (Suc a + k) - 1\<rparr>) [0..<length ms] @ zs"
    by (rule Cons.IH) (use Cons.prems in auto)
  moreover have "map (\<lambda>k. ((i # ms) ! k)\<lparr>bi_off := of_nat m - of_nat (a + k) - 1\<rparr>) [0..<length (i # ms)] =
      ?i # map (\<lambda>k. (ms ! k)\<lparr>bi_off := of_nat m - of_nat (Suc a + k) - 1\<rparr>) [0..<length ms]"
    by (simp add: upt_conv_Cons map_Suc_upt [symmetric] comp_def del: upt_Suc of_nat_add)
  ultimately show ?case by simp
qed simp

lemma compile_shape:
  "compile_bpf_program uvm gpu_ids =
     (let js = filter_jumps uvm gpu_ids; n = length js
      in head_insns @ map (\<lambda>k. patched n k (js ! k)) [0..<n] @ tail_insns)"
proof -
  let ?js = "filter_jumps uvm gpu_ids"
  have f: "fold (\<lambda>gpu_id. push_jump (insn 0x15 3 0 0 gpu_id)) gpu_ids p = fold push_jump (map (insn 0x15 3 0 0) gpu_ids) p" for p
    by (simp add: fold_map comp_def)
  have c: "compile_bpf_program uvm gpu_ids =
    (let (insns1, js) = fold push_jump ?js (head_insns, []) in
     fold (patch (length insns1 + 2)) js (insns1 @ tail_insns))"
    by (simp add: compile_bpf_program_def filter_jumps_def head_insns_def tail_insns_def f split: option.splits)
  have h: "length head_insns = 2" by (simp add: head_insns_def)
  have "compile_bpf_program uvm gpu_ids = fold (patch (length ?js + 4)) [2..<2 + length ?js] (head_insns @ ?js @ tail_insns)"
  proof -
    have "length (head_insns @ ?js) + 2 = length ?js + 4" using h by simp
    then show ?thesis unfolding c fold_push_jump prod.case Let_def h by (simp only: append_assoc append_Nil)
  qed
  also have "\<dots> = head_insns @ map (\<lambda>k. (?js ! k)\<lparr>bi_off := of_nat (length ?js + 4) - of_nat (2 + k) - 1\<rparr>) [0..<length ?js] @ tail_insns"
    by (rule fold_patch) (use h in simp_all)
  finally show ?thesis by (simp add: Let_def patched_def add.commute)
qed

section \<open>Running the compiled program\<close>

definition filter_program :: "bpf_insn list \<Rightarrow> bpf_insn list" where
  "filter_program js = head_insns @ map (\<lambda>k. patched (length js) k (js ! k)) [0..<length js] @ tail_insns"

definition taken :: "(u8 \<Rightarrow> u64) \<Rightarrow> bpf_insn \<Rightarrow> bool" where
  "taken r i = (if bi_code i = 0x15 then r (dst_of i) = signed (bi_imm i) else r (dst_of i) \<noteq> signed (bi_imm i))"

definition is_jump :: "bpf_insn \<Rightarrow> bool" where
  "is_jump i = (bi_code i = 0x15 \<or> bi_code i = 0x55)"

lemma length_filter_program: "length (filter_program js) = length js + 6"
  by (simp add: filter_program_def head_insns_def tail_insns_def)

lemma filter_program_nth:
  "k < length js \<Longrightarrow> filter_program js ! (2 + k) = patched (length js) k (js ! k)"
  "filter_program js ! (2 + length js) = insn 0xb7 0 0 0 0" "filter_program js ! (3 + length js) = insn 0x95 0 0 0 0"
  "filter_program js ! (4 + length js) = insn 0xb7 0 0 0 1" "filter_program js ! (5 + length js) = insn 0x95 0 0 0 0"
  by (simp_all add: filter_program_def head_insns_def tail_insns_def nth_append)

lemma patched_target:
  assumes "k < n" "n < 2 ^ 15 - 1"
  shows "jump_target (2 + k) (patched n k i) = 4 + n"
proof -
  define m where "m = n + 1 - k"
  have "(of_nat (n + 4) - of_nat (k + 2) - 1 :: 16 word) = of_nat m" using assms(1) by (simp add: m_def of_nat_diff)
  moreover have "sint (of_nat m :: 16 word) = int m"
    using assms(2) by (simp add: signed_of_nat m_def [symmetric] signed_take_bit_int_eq_self m_def)
  ultimately have "sint (bi_off (patched n k i)) = int m" by (simp add: patched_def)
  then show ?thesis using assms(1) by (simp add: jump_target_def m_def)
qed

lemma insn_regs [simp]:
  "dst_of (insn code dst src off imm) = (dst OR push_bit 4 src) AND 15"
  "src_of (insn code dst src off imm) = drop_bit 4 (dst OR push_bit 4 src)"
  by (simp_all add: dst_of_def src_of_def insn_def)

lemma insn_fields [simp]:
  "bi_code (insn code dst src off imm) = code" "bi_off (insn code dst src off imm) = off"
  "bi_imm (insn code dst src off imm) = imm"
  by (simp_all add: insn_def)

lemma patched_fields [simp]:
  "bi_code (patched n k i) = bi_code i" "bi_imm (patched n k i) = bi_imm i" "dst_of (patched n k i) = dst_of i"
  by (simp_all add: patched_def dst_of_def)

lemma run_blocks:
  "bpf_run (Suc (Suc f)) (filter_program js) c (4 + length js) r = Some 1"
  "bpf_run (Suc (Suc f)) (filter_program js) c (2 + length js) r = Some 0"
proof -
  have p: "Suc (4 + length js) = 5 + length js" "Suc (2 + length js) = 3 + length js" by simp_all
  show "bpf_run (Suc (Suc f)) (filter_program js) c (4 + length js) r = Some 1"
    "bpf_run (Suc (Suc f)) (filter_program js) c (2 + length js) r = Some 0"
    unfolding bpf_run.simps(2) Let_def length_filter_program filter_program_nth
    by (simp_all add: p length_filter_program filter_program_nth del: add_Suc_right add_2_eq_Suc add_2_eq_Suc')
qed

lemma run_jumps:
  assumes "length js < 2 ^ 15 - 1" "\<forall>i\<in>set js. is_jump i" "k \<le> length js" "length js - k + 2 \<le> f"
  shows "bpf_run f (filter_program js) c (2 + k) r = Some (if \<exists>i\<in>set (drop k js). taken r i then 1 else 0)"
  using assms(3,4)
proof (induction "length js - k" arbitrary: k f)
  case 0
  then obtain f' where "f = Suc (Suc f')" by (metis add_2_eq_Suc' add_leE le_Suc_ex plus_nat.simps(2) add.commute)
  moreover have "k = length js" using 0 by simp
  ultimately show ?case using run_blocks(2) [of f' js c r] by simp
next
  case (Suc m)
  then have k: "k < length js" by simp
  obtain g where g: "f = Suc (Suc (Suc g))" using Suc by (cases f; cases "f - 1"; cases "f - 2") auto
  let ?i = "js ! k"
  have j: "is_jump ?i" using assms(2) k by simp
  have d: "drop k js = ?i # drop (Suc k) js" using k by (simp add: Cons_nth_drop_Suc)
  have target: "jump_target (Suc (Suc k)) (patched (length js) k ?i) = 4 + length js"
    using patched_target [OF k assms(1)] by simp
  have next_step: "bpf_run f (filter_program js) c (2 + k) r =
      bpf_run (Suc (Suc g)) (filter_program js) c (if taken r ?i then 4 + length js else 2 + Suc k) r"
    unfolding g bpf_run.simps(2) [of "Suc (Suc g)"] Let_def length_filter_program filter_program_nth(1) [OF k]
    using j k target by (auto simp: is_jump_def taken_def)
  show ?case
  proof (cases "taken r ?i")
    case True
    then show ?thesis unfolding next_step d by (simp only: if_True run_blocks(1)) simp
  next
    case False
    have "bpf_run (Suc (Suc g)) (filter_program js) c (2 + Suc k) r =
        Some (if \<exists>i\<in>set (drop (Suc k) js). taken r i then 1 else 0)"
      by (rule Suc.hyps(1)) (use Suc g in auto)
    then show ?thesis unfolding next_step d using False by (simp only: if_False) simp
  qed
qed

text \<open>A zero-extended 32-bit value equals a sign-extended immediate only if the immediate is not negative.\<close>

lemma zext_eq_sext: "(unsigned (x :: u32) :: u64) = signed (g :: u32) \<longleftrightarrow> x = g \<and> g < 2 ^ 31"
proof
  assume eq: "(unsigned x :: u64) = signed g"
  have x: "uint (unsigned x :: u64) = uint x"
    using uint_lt2p [of x] by (simp add: unsigned_ucast_eq take_bit_int_eq_self)
  have s: "uint (signed g :: u64) = take_bit 64 (sint g)" by (simp only: scast_eq unsigned_of_int) simp
  have ux: "uint x < 2 ^ 32" using uint_lt2p [of x] by simp
  have sg: "- (2 ^ 31) \<le> sint g" "sint g < 2 ^ 31" using sint_ge [of g] sint_lt [of g] by simp_all
  have nonneg: "0 \<le> sint g"
  proof (rule ccontr)
    assume "\<not> 0 \<le> sint g"
    then have "(sint g + 2 ^ 64) mod 2 ^ 64 = sint g + 2 ^ 64" using sg by (intro mod_pos_pos_trivial) simp_all
    then have "take_bit 64 (sint g) = sint g + 2 ^ 64" by (simp only: take_bit_eq_mod mod_add_self2)
    with eq x s ux sg show False by simp
  qed
  then have "take_bit 32 (sint g) = sint g" "take_bit 64 (sint g) = sint g"
    using sg by (simp_all add: take_bit_int_eq_self)
  then have "uint g = sint g" "uint x = sint g"
    using eq x s uint_sint [of g] by simp_all
  then show "x = g \<and> g < 2 ^ 31" using sg by (simp add: word_less_def word_eq_iff_unsigned [where 'a = int])
next
  assume "x = g \<and> g < 2 ^ 31"
  then have g: "x = g" "uint g < 2 ^ 31" by (simp_all add: word_less_def)
  have "signed_take_bit 31 (uint g) = uint g"
    by (rule signed_take_bit_int_eq_self) (use g uint_ge_0 [of g] in \<open>simp_all add: order.trans [of _ 0]\<close>)
  then have "sint g = uint g" by (simp add: sint_uint)
  then show "(unsigned x :: u64) = signed g" using g by (metis of_int_sint of_int_uint)
qed

definition device_allowed :: "u32 option \<Rightarrow> u32 list \<Rightarrow> u32 \<Rightarrow> u32 \<Rightarrow> bool" where
  "device_allowed uvm gpu_ids major minor =
     (major \<noteq> 195 \<or> uvm = Some 195 \<or> minor = 254 \<or> minor = 255 \<or> (minor \<in> set gpu_ids \<and> minor < 2 ^ 31))"

lemma jumps_decide:
  assumes "r 2 = unsigned major" "r 3 = unsigned minor"
  shows "(\<exists>i\<in>set (filter_jumps uvm gpu_ids). taken r i) = device_allowed uvm gpu_ids major minor"
proof -
  have t: "taken r (insn 0x15 2 0 0 g) \<longleftrightarrow> major = g \<and> g < 2 ^ 31" "taken r (insn 0x15 3 0 0 g) \<longleftrightarrow> minor = g \<and> g < 2 ^ 31"
    "taken r (insn 0x55 2 0 0 g) \<longleftrightarrow> \<not> (major = g \<and> g < 2 ^ 31)" for g
    using assms zext_eq_sext [of major g] zext_eq_sext [of minor g] by (simp_all add: taken_def)
  show ?thesis unfolding filter_jumps_def device_allowed_def
    by (cases uvm) (auto simp: t)
qed

text \<open>
  C8: The device filter is exact. For up to 32000 GPUs the compiled program ends within as many
  instructions as it has, reads nothing outside its context, and returns 1 exactly for the devices the job
  may open: every device that is not an Nvidia GPU, the control and mode-setting devices, and the GPUs the
  job was given; every other GPU gets 0.
\<close>

theorem gpu_filter_exact:
  assumes "length gpu_ids \<le> 32000"
  shows "let prog = compile_bpf_program (get_uvm_major content) gpu_ids in
    bpf_run (length prog) prog \<lparr>bc_access_type = a, bc_major = major, bc_minor = minor\<rparr> 0 r =
      Some (if device_allowed (get_uvm_major content) gpu_ids major minor then 1 else 0)"
proof -
  define uvm where "uvm = get_uvm_major content"
  let ?js = "filter_jumps uvm gpu_ids" and ?c = "\<lparr>bc_access_type = a, bc_major = major, bc_minor = minor\<rparr>"
  let ?r = "r(2 := unsigned major, 3 := unsigned minor)"
  have prog: "compile_bpf_program uvm gpu_ids = filter_program ?js"
    by (simp add: compile_shape filter_program_def Let_def)
  have len: "length ?js \<le> length gpu_ids + 7" by (simp add: filter_jumps_def split: option.splits)
  have jumps: "\<forall>i\<in>set ?js. is_jump i" by (auto simp: filter_jumps_def is_jump_def split: option.splits)
  have h: "filter_program ?js ! 0 = insn 0x61 2 1 4 0" "filter_program ?js ! Suc 0 = insn 0x61 3 1 8 0"
    by (simp_all add: filter_program_def head_insns_def)
  have l: "length (filter_program ?js) = Suc (Suc (length ?js + 4))" by (simp add: length_filter_program)
  have "bpf_run (Suc (Suc f)) (filter_program ?js) ?c 0 r = bpf_run f (filter_program ?js) ?c (2 + 0) ?r" for f
    by (simp add: bpf_run.simps(2) h l ctx_load_def Let_def) (simp add: eval_nat_numeral)
  then have "bpf_run (Suc (Suc (length ?js + 4))) (filter_program ?js) ?c 0 r =
      bpf_run (length ?js + 4) (filter_program ?js) ?c (2 + 0) ?r" .
  also have "\<dots> = Some (if \<exists>i\<in>set (drop 0 ?js). taken ?r i then 1 else 0)"
    by (rule run_jumps) (use len assms jumps in simp_all)
  also have "\<dots> = Some (if device_allowed uvm gpu_ids major minor then 1 else 0)"
    using jumps_decide [of ?r major minor] by simp
  finally show ?thesis unfolding Let_def uvm_def [symmetric] prog l .
qed

theorem gpu_filter_exact_witness:
  "let prog = compile_bpf_program (get_uvm_major (Some ''510 nvidia-uvm'')) [0, 2] in
   bpf_run (length prog) prog \<lparr>bc_access_type = 0, bc_major = 195, bc_minor = 1\<rparr> 0 (\<lambda>_. 0) = Some 0"
proof -
  have u: "get_uvm_major (Some ''510 nvidia-uvm'') \<noteq> Some 195"
    by (simp add: get_uvm_major_def uvm_line_def str_lines_def split_whitespace_def is_space_def map_filter_simps
        parse_u32_def parse_unsigned_def is_ascii_digit_def digits_value_def digit_val_def)
  have "length [0, 2 :: u32] \<le> 32000" by simp
  from gpu_filter_exact [OF this, of "Some ''510 nvidia-uvm''" 0 195 1 "\<lambda>_. 0"] u show ?thesis
    by (simp add: device_allowed_def Let_def)
qed

end
