(* ===== verification/RateLimit.thy ===== *)
theory RateLimit
  imports JobPolicy Strings
begin

text \<open>
  The per-minute request limiter of the HTTP interface (\<open>controller/src/rate_limit.rs\<close>). A check is one
  atomic step on the bucket of its key: the races the code allows between two requests of one user in the
  second in which a window is reset are not modelled. \<open>now\<close> is the time in seconds.
\<close>

datatype http_method = GET | POST | PUT | DELETE | PATCH | OtherMethod string

datatype request_class = Read | Mutation | Admin

record rate_bucket =
  rb_window_start :: u64
  rb_count :: u32

record api_rate_limiter =
  rl_buckets :: "(string, rate_bucket) hmap"
  rl_read_limit :: u32
  rl_mutation_limit :: u32
  rl_admin_limit :: u32

definition new_rate_limiter :: "u32 \<Rightarrow> u32 \<Rightarrow> u32 \<Rightarrow> api_rate_limiter" where
  "new_rate_limiter r m a = \<lparr>rl_buckets = [], rl_read_limit = r, rl_mutation_limit = m, rl_admin_limit = a\<rparr>"

text \<open>\<open>class as u8\<close>, printed\<close>

fun class_digit :: "request_class \<Rightarrow> char" where
  "class_digit Read = CHR ''0''"
| "class_digit Mutation = CHR ''1''"
| "class_digit Admin = CHR ''2''"

definition classify :: "http_method \<Rightarrow> string \<Rightarrow> principal \<Rightarrow> request_class" where
  "classify m path p =
     (if starts_with path ''/api/v1/admin'' \<or> is_admin_or_operator p \<and> contains_str path ''/admin'' then Admin
      else if m = POST \<or> m = PUT \<or> m = DELETE \<or> m = PATCH then Mutation else Read)"

fun limit_for :: "api_rate_limiter \<Rightarrow> request_class \<Rightarrow> u32" where
  "limit_for l Admin = rl_admin_limit l"
| "limit_for l Mutation = rl_mutation_limit l"
| "limit_for l Read = rl_read_limit l"

definition bucket_key :: "string \<Rightarrow> request_class \<Rightarrow> string" where
  "bucket_key user class = user @ '':'' @ [class_digit class]"

definition check :: "u64 \<Rightarrow> string \<Rightarrow> http_method \<Rightarrow> string \<Rightarrow> principal \<Rightarrow> api_rate_limiter \<Rightarrow>
    api_rate_limiter \<times> (u64 + unit)" where
  "check now user m path p l =
     (let class = classify m path p; limit = limit_for l class in
      if limit = 0 then (l, Inr ())
      else
        (let key = bucket_key user class;
             now_min = now div 60;
             b = (case hm_get (rl_buckets l) key of Some b \<Rightarrow> b | None \<Rightarrow> \<lparr>rb_window_start = now_min, rb_count = 0\<rparr>);
             b1 = (if rb_window_start b \<noteq> now_min then \<lparr>rb_window_start = now_min, rb_count = 0\<rparr> else b);
             prev = rb_count b1;
             b2 = b1\<lparr>rb_count := prev + 1\<rparr>
         in if prev \<ge> limit
            then (l\<lparr>rl_buckets := hm_insert key (b2\<lparr>rb_count := rb_count b2 - 1\<rparr>) (rl_buckets l)\<rparr>, Inl (60 - now mod 60))
            else (l\<lparr>rl_buckets := hm_insert key b2 (rl_buckets l)\<rparr>, Inr ())))"

text \<open>The environment variable's value, if it is set.\<close>

definition rate_limit_enabled :: "string option \<Rightarrow> bool" where
  "rate_limit_enabled v = (v = Some ''true'' \<or> v = Some ''1'')"

definition env_limit :: "string option \<Rightarrow> u32 \<Rightarrow> u32" where
  "env_limit v d = (case v of None \<Rightarrow> d | Some s \<Rightarrow> (case parse_u32 s of Some n \<Rightarrow> n | None \<Rightarrow> d))"

definition new_default_rate_limiter :: "string option \<Rightarrow> string option \<Rightarrow> string option \<Rightarrow> api_rate_limiter" where
  "new_default_rate_limiter r m a = new_rate_limiter (env_limit r 600) (env_limit m 60) (env_limit a 30)"

text \<open>
  The middleware: \<open>Some seconds\<close> when the request is answered with 429 and \<open>Retry-After: seconds\<close>, \<open>None\<close>
  when it is passed on.
\<close>

definition rate_limit_middleware :: "string option \<Rightarrow> u64 \<Rightarrow> http_method \<Rightarrow> string \<Rightarrow> principal \<Rightarrow> api_rate_limiter option \<Rightarrow>
    api_rate_limiter option \<times> u64 option" where
  "rate_limit_middleware var now m path p limiter =
     (if \<not> rate_limit_enabled var then (limiter, None)
      else case limiter of None \<Rightarrow> (None, None)
        | Some l \<Rightarrow> (case check now (pr_user_id p) m path p l of
             (l', Inr _) \<Rightarrow> (Some l', None) | (l', Inl retry_after) \<Rightarrow> (Some l', Some retry_after)))"

section \<open>Sequences of requests\<close>

record request =
  rq_now :: u64
  rq_method :: http_method
  rq_path :: string
  rq_principal :: principal

definition request_key :: "request \<Rightarrow> string" where
  "request_key r = bucket_key (pr_user_id (rq_principal r)) (classify (rq_method r) (rq_path r) (rq_principal r))"

definition check_request :: "request \<Rightarrow> api_rate_limiter \<Rightarrow> api_rate_limiter \<times> (u64 + unit)" where
  "check_request r l = check (rq_now r) (pr_user_id (rq_principal r)) (rq_method r) (rq_path r) (rq_principal r) l"

text \<open>How many requests under \<open>key\<close> are allowed in minute \<open>m\<close> of a sequence.\<close>

fun allowed_in :: "u64 \<Rightarrow> string \<Rightarrow> api_rate_limiter \<Rightarrow> request list \<Rightarrow> nat" where
  "allowed_in m key l [] = 0"
| "allowed_in m key l (r # rs) = (case check_request r l of (l', v) \<Rightarrow>
     (if v = Inr () \<and> request_key r = key \<and> rq_now r div 60 = m then 1 else 0) + allowed_in m key l' rs)"

text \<open>What the bucket of \<open>key\<close> has counted in minute \<open>m\<close>.\<close>

definition counted :: "u64 \<Rightarrow> string \<Rightarrow> api_rate_limiter \<Rightarrow> u32" where
  "counted m key l = (case hm_get (rl_buckets l) key of
     Some b \<Rightarrow> if rb_window_start b = m then rb_count b else 0 | None \<Rightarrow> 0)"

definition window_le :: "u64 \<Rightarrow> api_rate_limiter \<Rightarrow> bool" where
  "window_le t l = (\<forall>k b. hm_get (rl_buckets l) k = Some b \<longrightarrow> rb_window_start b \<le> t div 60)"

lemma bucket_key_inject: "bucket_key u c = bucket_key u' c' \<longleftrightarrow> u = u' \<and> c = c'"
  by (cases c; cases c') (auto simp: bucket_key_def)

lemma check_limits [simp]: "limit_for (fst (check now u m path p l)) c = limit_for l c"
  by (cases c) (auto simp: check_def Let_def)

lemma check_effect:
  fixes u :: string
  assumes "classify m path p = c" "limit_for l c \<noteq> 0" "check now u m path p l = (l', v)"
  shows "v = Inr () \<longleftrightarrow> counted (now div 60) (bucket_key u c) l < limit_for l c"
    and "counted (now div 60) (bucket_key u c) l' =
      (if v = Inr () then counted (now div 60) (bucket_key u c) l + 1 else counted (now div 60) (bucket_key u c) l)"
    and "k \<noteq> bucket_key u c \<Longrightarrow> hm_get (rl_buckets l') k = hm_get (rl_buckets l) k"
    and "\<exists>b. hm_get (rl_buckets l') (bucket_key u c) = Some b \<and> rb_window_start b = now div 60"
  using assms by (auto simp: check_def Let_def counted_def word_gt_0 split: if_splits option.splits)

lemma unat_increment:
  assumes "(x :: 'a::len word) < y" shows "unat (x + 1) = unat x + 1"
proof -
  have "unat y < 2 ^ LENGTH('a)" by (rule unsigned_less)
  moreover have "unat x < unat y" using assms by (simp only: word_less_nat_alt)
  ultimately have "unat x + 1 < 2 ^ LENGTH('a)" by linarith
  then have "unat x + unat (1 :: 'a word) < 2 ^ LENGTH('a)" by (simp only: unat_1)
  then have "unat (x + 1) = unat x + unat (1 :: 'a word)" by (simp only: unat_add_lem)
  then show ?thesis by simp
qed

lemma div60_mono: "(a :: u64) \<le> b \<Longrightarrow> a div 60 \<le> b div 60"
  by (simp add: word_le_nat_alt unat_div div_le_mono)

lemma allowed_none: "\<forall>r\<in>set rs. rq_now r div 60 \<noteq> m \<Longrightarrow> allowed_in m key l rs = 0"
  by (induction rs arbitrary: l) (auto split: prod.splits)

text \<open>Without a limit for its class a request leaves the limiter alone.\<close>

lemma check_unlimited: "limit_for l (classify m path p) = 0 \<Longrightarrow> check now u m path p l = (l, Inr ())"
  by (simp add: check_def)

lemma check_windows:
  assumes "check_request r l = (l', v)" "window_le (rq_now r) l" "rq_now r \<le> t"
  shows "window_le t l'"
proof -
  let ?c = "classify (rq_method r) (rq_path r) (rq_principal r)"
  have t: "rq_now r div 60 \<le> t div 60" using assms(3) by (rule div60_mono)
  show ?thesis
  proof (cases "limit_for l ?c = 0")
    case True
    then have "l' = l" using assms(1) by (simp add: check_request_def check_unlimited)
    then show ?thesis using assms(2) t by (meson order.trans window_le_def)
  next
    case False
    note eff = check_effect(3,4) [OF refl False assms(1) [unfolded check_request_def]]
    show ?thesis unfolding window_le_def
    proof (intro allI impI)
      fix k b
      assume b: "hm_get (rl_buckets l') k = Some b"
      show "rb_window_start b \<le> t div 60"
      proof (cases "k = bucket_key (pr_user_id (rq_principal r)) ?c")
        case True
        then show ?thesis using eff(2) b t by auto
      next
        case k: False
        then have "rb_window_start b \<le> rq_now r div 60" using eff(1) [OF k] b assms(2) by (simp add: window_le_def)
        then show ?thesis using t by (rule order.trans)
      qed
    qed
  qed
qed

lemma allowed_bound:
  assumes "key = bucket_key u c" "limit_for l c \<noteq> 0" "sorted (map rq_now rs)"
    "\<forall>r\<in>set rs. window_le (rq_now r) l" "counted m key l \<le> limit_for l c"
  shows "allowed_in m key l rs + unat (counted m key l) \<le> unat (limit_for l c)"
  using assms(2-)
proof (induction rs arbitrary: l)
  case Nil
  then show ?case by (simp add: word_le_nat_alt)
next
  case (Cons r rs)
  obtain l' v where ch: "check_request r l = (l', v)" by (cases "check_request r l")
  let ?now = "rq_now r div 60"
  have lim: "limit_for l' c = limit_for l c"
    using check_limits [of "rq_now r" "pr_user_id (rq_principal r)"] ch unfolding check_request_def by (metis fst_conv)
  have later: "\<forall>q\<in>set rs. window_le (rq_now q) l'"
    using check_windows [OF ch] Cons.prems(2,3) by auto
  have srt: "sorted (map rq_now rs)" using Cons.prems(2) by simp
  have IH: "allowed_in m key l' rs + unat (counted m key l') \<le> unat (limit_for l c)" if "counted m key l' \<le> limit_for l c"
    using Cons.IH [of l'] Cons.prems(1) srt later that by (simp add: lim)
  show ?case
  proof (cases "request_key r = key")
    case False
    then have eq: "hm_get (rl_buckets l') key = hm_get (rl_buckets l) key"
      using ch check_effect(3) [OF refl _ ch [unfolded check_request_def]] check_unlimited
      by (cases "limit_for l (classify (rq_method r) (rq_path r) (rq_principal r)) = 0")
        (auto simp: request_key_def check_request_def)
    then have "counted m key l' = counted m key l" by (simp add: counted_def)
    then show ?thesis using IH Cons.prems(4) ch False by simp
  next
    case True
    then have rc: "pr_user_id (rq_principal r) = u" "classify (rq_method r) (rq_path r) (rq_principal r) = c"
      using assms(1) by (auto simp: request_key_def bucket_key_inject)
    note eff = check_effect [OF rc(2) Cons.prems(1) ch [unfolded check_request_def rc(1)], folded assms(1)]
    show ?thesis
    proof (cases "?now = m")
      case now: True
      show ?thesis
      proof (cases "v = Inr ()")
        case v: True
        then have lt: "counted m key l < limit_for l c" using eff(1) now by simp
        then have "counted m key l + 1 \<le> limit_for l c" "unat (counted m key l + 1) = unat (counted m key l) + 1"
          by (rule inc_le, rule unat_increment)
        then show ?thesis using IH eff(2) ch v now True by simp
      next
        case False
        then show ?thesis using IH eff(2) ch now Cons.prems(4) by simp
      qed
    next
      case now: False
      show ?thesis
      proof (cases "counted m key l = 0")
        case c0: True
        have "counted m key l' = 0" using eff(4) now by (auto simp: counted_def)
        then show ?thesis using IH c0 ch now by simp
      next
        case False
        then obtain b where b: "hm_get (rl_buckets l) key = Some b" "rb_window_start b = m"
          by (auto simp: counted_def split: option.splits if_splits)
        moreover have "window_le (rq_now r) l" using Cons.prems(3) by simp
        ultimately have "m \<le> ?now" by (auto simp: window_le_def)
        then have "m < ?now" using now by simp
        moreover have "\<forall>q\<in>set rs. ?now \<le> rq_now q div 60" using Cons.prems(2) by (auto intro: div60_mono)
        ultimately have "\<forall>q\<in>set rs. rq_now q div 60 \<noteq> m" by auto
        then show ?thesis using allowed_none ch now Cons.prems(4) by (simp add: word_le_nat_alt)
      qed
    qed
  qed
qed

text \<open>
  C10: The limiter bounds every minute. Starting from a new limiter and with a clock that does not run
  backwards, however many requests a user sends, at most the limit of their class is allowed in any one
  minute.
\<close>

theorem rate_limit_per_minute:
  assumes "limit_for (new_rate_limiter r m a) c \<noteq> 0" and "sorted (map rq_now rs)"
  shows "allowed_in minute (bucket_key user c) (new_rate_limiter r m a) rs \<le> unat (limit_for (new_rate_limiter r m a) c)"
  using allowed_bound [OF refl assms, of minute]
  by (simp add: window_le_def counted_def new_rate_limiter_def)

definition sample_posts :: "request list" where
  "sample_posts = replicate 3 \<lparr>rq_now = 1000, rq_method = POST, rq_path = ''/api/v1/jobs'',
     rq_principal = \<lparr>pr_user_id = ''u1'', pr_roles = [''submitter'']\<rparr>\<rparr>"

theorem rate_limit_per_minute_witness:
  "limit_for (new_rate_limiter 1000 2 1000) Mutation = 2 \<and> sorted (map rq_now sample_posts) \<and> length sample_posts = 3 \<and>
   allowed_in 16 (bucket_key ''u1'' Mutation) (new_rate_limiter 1000 2 1000) sample_posts \<le> 2"
proof -
  have l: "limit_for (new_rate_limiter 1000 2 1000) Mutation = 2" by (simp add: new_rate_limiter_def)
  have s: "sorted (map rq_now sample_posts)" "length sample_posts = 3" by (simp_all add: sample_posts_def)
  have "limit_for (new_rate_limiter 1000 2 1000) Mutation \<noteq> 0" unfolding l by simp
  from rate_limit_per_minute [OF this s(1), of 16 "''u1''"] l s show ?thesis by simp
qed

text \<open>
  The retry hint is right. A refused request is told to wait between 1 and 60 seconds; repeated after
  that time it falls into the next minute and is allowed, when the clock does not wrap and nothing else of
  the same user and class was checked in between.
\<close>

lemma retry_after_suffices:
  assumes "check now u m path p l = (l', Inl retry_after)" and "unat now + 60 < 2 ^ 64"
    and "hm_get (rl_buckets l'') (bucket_key u (classify m path p)) = hm_get (rl_buckets l') (bucket_key u (classify m path p))"
    and "limit_for l'' (classify m path p) = limit_for l (classify m path p)"
  shows "1 \<le> retry_after \<and> retry_after \<le> 60 \<and> (now + retry_after) div 60 = now div 60 + 1 \<and>
    snd (check (now + retry_after) u m path p l'') = Inr ()"
proof -
  let ?c = "classify m path p"
  have lim: "limit_for l ?c \<noteq> 0" using assms(1) check_unlimited [of l m path p now u] by auto
  have r: "retry_after = 60 - now mod 60"
    using assms(1) by (auto simp: check_def Let_def split: if_splits)
  have nm: "unat (now mod 60) = unat now mod 60" by (simp add: unat_mod)
  then have "now mod 60 \<le> 60" by (simp add: word_le_nat_alt)
  then have ur: "unat retry_after = 60 - unat now mod 60" unfolding r by (simp add: unat_sub nm)
  have us: "unat (now + retry_after) = unat now + (60 - unat now mod 60)"
  proof -
    have "unat now + unat retry_after < 2 ^ LENGTH(64)" using assms(2) ur by simp
    then show ?thesis unfolding ur [symmetric] by (simp only: unat_add_lem)
  qed
  also have "\<dots> = 60 * (unat now div 60 + 1)" by presburger
  finally have ud: "unat ((now + retry_after) div 60) = unat now div 60 + 1" by (simp add: unat_div)
  have ui: "unat (now div 60 + 1) = unat now div 60 + 1"
  proof -
    have d: "unat (now div 60) = unat now div 60" by (simp add: unat_div)
    have "unat (now div 60) + unat (1 :: u64) < 2 ^ LENGTH(64)" unfolding d using assms(2) by simp
    then have "unat (now div 60 + 1) = unat (now div 60) + unat (1 :: u64)" by (simp only: unat_add_lem)
    then show ?thesis unfolding d by simp
  qed
  have next_min: "(now + retry_after) div 60 = now div 60 + 1" by (rule unsigned_word_eqI [where 'a = nat]) (simp add: ud ui)
  obtain b where b: "hm_get (rl_buckets l'') (bucket_key u ?c) = Some b" "rb_window_start b = now div 60"
    using check_effect(4) [OF refl lim assms(1)] assms(3) by auto
  have "now div 60 \<noteq> now div 60 + 1" by simp
  then have z: "counted ((now + retry_after) div 60) (bucket_key u ?c) l'' = 0" using b next_min by (simp add: counted_def)
  obtain l3 v where c3: "check (now + retry_after) u m path p l'' = (l3, v)" by (cases "check (now + retry_after) u m path p l''")
  have "v = Inr ()" using check_effect(1) [OF refl _ c3] z lim assms(4) by (simp add: word_gt_0)
  moreover have "1 \<le> retry_after" "retry_after \<le> 60" using ur by (simp_all add: word_le_nat_alt)
  ultimately show ?thesis using next_min c3 by simp
qed

end
