(* ===== verification/Outputs.thy ===== *)
theory Outputs
  imports Types Strings "HOL-Library.List_Lexorder" "HOL-Library.Char_ord"
begin

text \<open>
  The declared outputs of a job (\<open>worker/src/outputs.rs\<close>): the glob matcher for the patterns of the
  container manifest, the check of a path that a client asks for, the collection of the declared files of
  a working directory and the reading of a chunk. The file system is an argument: a tree for the
  directory scan, and for a single request what \<open>exists\<close>, \<open>canonicalize\<close> and reading a file answer. Paths are
  UTF-8. Packing the directory into an archive calls two libraries and is not modelled.
\<close>

section \<open>Glob patterns\<close>

fun class_matches :: "string \<Rightarrow> char \<Rightarrow> bool" where
  "class_matches [] t = False"
| "class_matches (a # x # b # rest) t =
     (if x = CHR ''-'' then ((of_char a :: nat) \<le> of_char t \<and> (of_char t :: nat) \<le> of_char b) \<or> class_matches rest t
      else a = t \<or> class_matches (x # b # rest) t)"
| "class_matches (a # rest) t = (a = t \<or> class_matches rest t)"

definition match_char_class :: "string \<Rightarrow> string \<Rightarrow> (string \<times> string) option" where
  "match_char_class pattern text = (case text of [] \<Rightarrow> None
     | t # ts \<Rightarrow>
        (if t = CHR ''/'' then None
         else (let e = length (takeWhile (\<lambda>c. c \<noteq> CHR '']'') pattern) in
               if e = length pattern \<or> e \<le> 1 then None
               else if class_matches (drop 1 (take e pattern)) t then Some (drop (e + 1) pattern, ts) else None)))"

lemma match_char_class_shorter:
  "match_char_class p t = Some (p', t') \<Longrightarrow> length p' < length p \<and> length t' < length t"
  by (cases p) (auto simp: match_char_class_def Let_def split: list.splits if_splits)

function glob_matches :: "string \<Rightarrow> string \<Rightarrow> bool" where
  "glob_matches pattern text = (case pattern of [] \<Rightarrow> text = []
     | c # p \<Rightarrow>
        (if c = CHR ''*'' then
           glob_matches p text \<or>
           (case text of [] \<Rightarrow> False | t # ts \<Rightarrow> t \<noteq> CHR ''/'' \<and> glob_matches pattern ts)
         else if c = CHR ''?'' then
           (case text of [] \<Rightarrow> False | t # ts \<Rightarrow> t \<noteq> CHR ''/'' \<and> glob_matches p ts)
         else if c = CHR ''['' then
           (case match_char_class pattern text of Some (pattern_rest, text_rest) \<Rightarrow> glob_matches pattern_rest text_rest
             | None \<Rightarrow> False)
         else (case text of [] \<Rightarrow> False | t # ts \<Rightarrow> c = t \<and> glob_matches p ts)))"
  by pat_completeness auto
termination
  by (relation "measure (\<lambda>(p, t). length p + length t)")
    (auto dest: match_char_class_shorter)

declare glob_matches.simps [simp del]

definition output_pattern_matches :: "string \<Rightarrow> string \<Rightarrow> bool" where
  "output_pattern_matches pattern0 rel_path0 =
     (let pattern = trim_start_matches ''./'' pattern0; rel_path = trim_start_matches ''./'' rel_path0 in
      if ends_with pattern ''/'' then glob_matches (trim_end_matches CHR ''/'' pattern) (hd (split_on CHR ''/'' rel_path))
      else glob_matches pattern rel_path)"

section \<open>Patterns as languages\<close>

text \<open>
  A pattern is a sequence of tokens, and a text matches when it can be cut into one word per token. Only
  a literal slash matches a slash. A class that is not closed or is empty matches nothing.
\<close>

datatype glob_token = Lit char | AnyChar | Star | Class string | BadClass

function tokens :: "string \<Rightarrow> glob_token list" where
  "tokens [] = []"
| "tokens (c # p) =
     (if c = CHR ''*'' then Star # tokens p
      else if c = CHR ''?'' then AnyChar # tokens p
      else if c = CHR ''['' then
        (let cls = takeWhile (\<lambda>c. c \<noteq> CHR '']'') p in
         if cls = [] \<or> length cls = length p then [BadClass] else Class cls # tokens (drop (length cls + 1) p))
      else Lit c # tokens p)"
  by pat_completeness auto
termination by (relation "measure length") auto

fun token_word :: "glob_token \<Rightarrow> string \<Rightarrow> bool" where
  "token_word (Lit c) w = (w = [c])"
| "token_word AnyChar w = (\<exists>c. w = [c] \<and> c \<noteq> CHR ''/'')"
| "token_word Star w = (CHR ''/'' \<notin> set w)"
| "token_word (Class cls) w = (\<exists>c. w = [c] \<and> c \<noteq> CHR ''/'' \<and> class_matches cls c)"
| "token_word BadClass w = False"

definition glob_spec :: "glob_token list \<Rightarrow> string \<Rightarrow> bool" where
  "glob_spec ts text = (\<exists>ws. list_all2 token_word ts ws \<and> concat ws = text)"

lemma glob_spec_Nil [simp]: "glob_spec [] text = (text = [])"
  by (auto simp: glob_spec_def)

lemma glob_spec_Cons: "glob_spec (t # ts) text = (\<exists>w rest. text = w @ rest \<and> token_word t w \<and> glob_spec ts rest)"
proof
  assume "\<exists>w rest. text = w @ rest \<and> token_word t w \<and> glob_spec ts rest"
  then obtain w ws where "text = w @ concat ws" "token_word t w" "list_all2 token_word ts ws" by (auto simp: glob_spec_def)
  then show "glob_spec (t # ts) text" unfolding glob_spec_def by (intro exI [of _ "w # ws"]) simp
next
  assume "glob_spec (t # ts) text"
  then obtain w ws where "text = w @ concat ws" "token_word t w" "list_all2 token_word ts ws"
    by (auto simp: glob_spec_def list_all2_Cons1)
  then show "\<exists>w rest. text = w @ rest \<and> token_word t w \<and> glob_spec ts rest"
    by (intro exI [of _ w] exI [of _ "concat ws"]) (auto simp: glob_spec_def)
qed

lemma glob_spec_single:
  assumes "\<And>w. token_word t w \<longleftrightarrow> (\<exists>c. w = [c] \<and> P c)"
  shows "glob_spec (t # ts) text = (case text of [] \<Rightarrow> False | c # s \<Rightarrow> P c \<and> glob_spec ts s)"
proof (cases "text")
  case (Cons c s)
  have "(\<exists>w rest. c # s = w @ rest \<and> (\<exists>c. w = [c] \<and> P c) \<and> glob_spec ts rest) \<longleftrightarrow> P c \<and> glob_spec ts s"
    by (rule iffI) (auto intro: exI [of _ "[c]"])
  then show ?thesis using Cons by (simp add: glob_spec_Cons assms)
qed (auto simp: glob_spec_Cons assms)

lemma glob_spec_Star:
  "glob_spec (Star # ts) text = (glob_spec ts text \<or> (case text of [] \<Rightarrow> False | c # s \<Rightarrow> c \<noteq> CHR ''/'' \<and> glob_spec (Star # ts) s))"
proof (cases "text")
  case (Cons c s)
  have "(\<exists>w rest. c # s = w @ rest \<and> CHR ''/'' \<notin> set w \<and> glob_spec ts rest) \<longleftrightarrow>
      glob_spec ts (c # s) \<or> c \<noteq> CHR ''/'' \<and> (\<exists>w rest. s = w @ rest \<and> CHR ''/'' \<notin> set w \<and> glob_spec ts rest)"
    (is "?l \<longleftrightarrow> ?r")
  proof
    assume ?l
    then obtain w rest where "c # s = w @ rest" "CHR ''/'' \<notin> set w" "glob_spec ts rest" by blast
    then show ?r by (cases w) auto
  next
    assume ?r
    then show ?l
    proof (elim disjE conjE exE)
      fix w rest
      assume "c \<noteq> CHR ''/''" "s = w @ rest" "CHR ''/'' \<notin> set w" "glob_spec ts rest"
      then show ?l by (intro exI [of _ "c # w"] exI [of _ rest]) simp
    qed (intro exI [of _ "[]"] exI [of _ "c # s"], simp)
  qed
  then show ?thesis using Cons by (simp add: glob_spec_Cons)
qed (auto simp: glob_spec_Cons)

lemma glob_spec_Bad [simp]: "\<not> glob_spec (BadClass # ts) text"
  by (simp add: glob_spec_Cons)

lemma class_tokens:
  "(case match_char_class (CHR ''['' # q) text of Some (p', t') \<Rightarrow> glob_spec (tokens p') t' | None \<Rightarrow> False) =
     glob_spec (tokens (CHR ''['' # q)) text"
proof -
  define cls where "cls = takeWhile (\<lambda>c. c \<noteq> CHR '']'') q"
  have e: "takeWhile (\<lambda>c. c \<noteq> CHR '']'') (CHR ''['' # q) = CHR ''['' # cls" by (simp add: cls_def)
  have cls: "take (length cls) q = cls" unfolding cls_def by (rule takeWhile_eq_take [symmetric])
  have tk: "tokens (CHR ''['' # q) =
      (if cls = [] \<or> length cls = length q then [BadClass] else Class cls # tokens (drop (length cls + 1) q))"
    by (simp add: cls_def Let_def)
  have m: "match_char_class (CHR ''['' # q) text = (case text of [] \<Rightarrow> None | t # ts \<Rightarrow>
      if t = CHR ''/'' \<or> cls = [] \<or> length cls = length q \<or> \<not> class_matches cls t then None else Some (drop (length cls + 1) q, ts))"
    unfolding match_char_class_def e Let_def by (cases "text") (simp_all add: cls)
  have c: "glob_spec (Class cls # tokens (drop (length cls + 1) q)) text = (case text of [] \<Rightarrow> False
      | c # s \<Rightarrow> (c \<noteq> CHR ''/'' \<and> class_matches cls c) \<and> glob_spec (tokens (drop (length cls + 1) q)) s)"
    by (rule glob_spec_single) auto
  show ?thesis
  proof (cases "cls = [] \<or> length cls = length q")
    case True
    then show ?thesis unfolding tk m by (cases "text") auto
  next
    case False
    then show ?thesis unfolding tk m if_not_P [OF False] c by (cases "text") simp_all
  qed
qed

lemma glob_matches_Nil: "glob_matches [] text = (text = [])"
  by (subst glob_matches.simps) simp

lemma glob_matches_Cons:
  "glob_matches (c # p) text =
     (if c = CHR ''*'' then
        glob_matches p text \<or> (case text of [] \<Rightarrow> False | t # ts \<Rightarrow> t \<noteq> CHR ''/'' \<and> glob_matches (c # p) ts)
      else if c = CHR ''?'' then (case text of [] \<Rightarrow> False | t # ts \<Rightarrow> t \<noteq> CHR ''/'' \<and> glob_matches p ts)
      else if c = CHR ''['' then
        (case match_char_class (c # p) text of Some (p', t') \<Rightarrow> glob_matches p' t' | None \<Rightarrow> False)
      else (case text of [] \<Rightarrow> False | t # ts \<Rightarrow> c = t \<and> glob_matches p ts))"
  by (subst glob_matches.simps) simp

text \<open>
  The glob matcher decides its pattern. For every pattern and text it terminates and answers whether
  the text can be cut into words of the pattern's tokens, where a star is any word without a slash, a
  question mark any character but the slash and a class one of its characters.
\<close>

theorem glob_matches_exact: "glob_matches pattern text = glob_spec (tokens pattern) text"
proof (induction pattern "text" rule: glob_matches.induct)
  case (1 pattern "text")
  show ?case
  proof (cases pattern)
    case Nil
    then show ?thesis by (simp add: glob_matches_Nil)
  next
    case (Cons c p)
    note IH = 1 [OF Cons]
    consider (star) "c = CHR ''*''" | (any) "c = CHR ''?''" | (cls) "c = CHR ''[''"
      | (lit) "c \<noteq> CHR ''*''" "c \<noteq> CHR ''?''" "c \<noteq> CHR ''[''" by blast
    then show ?thesis unfolding Cons
    proof cases
      case star
      have "tokens (c # p) = Star # tokens p" using star by simp
      moreover have "glob_matches (c # p) text = (glob_matches p text \<or>
          (case text of [] \<Rightarrow> False | t # ts \<Rightarrow> t \<noteq> CHR ''/'' \<and> glob_matches (c # p) ts))"
        by (subst glob_matches_Cons) (simp add: star)
      ultimately show "glob_matches (c # p) text = glob_spec (tokens (c # p)) text"
        using IH(1,2) star Cons glob_spec_Star [of "tokens p" "text"] by (cases "text") simp_all
    next
      case any
      have "glob_spec (AnyChar # ts) text = (case text of [] \<Rightarrow> False | c # s \<Rightarrow> c \<noteq> CHR ''/'' \<and> glob_spec ts s)" for ts
        by (rule glob_spec_single) auto
      moreover have "glob_matches (c # p) text = (case text of [] \<Rightarrow> False | t # ts \<Rightarrow> t \<noteq> CHR ''/'' \<and> glob_matches p ts)"
        by (subst glob_matches_Cons) (simp add: any)
      ultimately show "glob_matches (c # p) text = glob_spec (tokens (c # p)) text"
        using IH(3) any by (cases "text") simp_all
    next
      case cls
      have "(case match_char_class (c # p) text of Some (p', t') \<Rightarrow> glob_matches p' t' | None \<Rightarrow> False) =
          (case match_char_class (c # p) text of Some (p', t') \<Rightarrow> glob_spec (tokens p') t' | None \<Rightarrow> False)"
        using IH(4) cls Cons by (auto split: option.splits)
      then show "glob_matches (c # p) text = glob_spec (tokens (c # p)) text"
        using class_tokens [of p "text"] cls by (subst glob_matches_Cons) simp
    next
      case lit
      have "glob_spec (Lit c # ts) text = (case text of [] \<Rightarrow> False | x # s \<Rightarrow> c = x \<and> glob_spec ts s)" for ts
        by (rule glob_spec_single) auto
      moreover have "glob_matches (c # p) text = (case text of [] \<Rightarrow> False | t # ts \<Rightarrow> c = t \<and> glob_matches p ts)"
        by (subst glob_matches_Cons) (simp add: lit)
      ultimately show "glob_matches (c # p) text = glob_spec (tokens (c # p)) text"
        using IH(5) lit by (cases "text") simp_all
    qed
  qed
qed

text \<open>Without a trailing slash in the pattern, a match keeps every slash where the pattern has one.\<close>

lemma glob_spec_slashes:
  "glob_spec ts text \<Longrightarrow> count_list text CHR ''/'' = count_list ts (Lit CHR ''/'')"
proof (induction ts arbitrary: "text")
  case (Cons t ts)
  then obtain w rest where w: "text = w @ rest" "token_word t w" "glob_spec ts rest" by (auto simp: glob_spec_Cons)
  have "count_list w CHR ''/'' = (if t = Lit CHR ''/'' then 1 else 0)"
    using w(2) by (cases t) (auto simp: count_list_0_iff)
  then show ?case using Cons.IH [OF w(3)] w(1) by (simp add: count_list_append)
qed simp

section \<open>Paths\<close>

text \<open>\<open>Path::components\<close>\<close>

datatype path_component = RootDir | CurDir | ParentDir | NormalC string

definition piece_component :: "bool \<Rightarrow> nat \<times> string \<Rightarrow> path_component option" where
  "piece_component absolute = (\<lambda>(k, s).
     if s = [] then None
     else if s = ''.'' then (if k = 0 \<and> \<not> absolute then Some CurDir else None)
     else if s = ''..'' then Some ParentDir else Some (NormalC s))"

definition is_absolute :: "string \<Rightarrow> bool" where
  "is_absolute p = starts_with p ''/''"

definition components :: "string \<Rightarrow> path_component list" where
  "components p = (if is_absolute p then [RootDir] else []) @
     List.map_filter (piece_component (is_absolute p)) (enumerate 0 (split_on CHR ''/'' p))"

fun normal_part :: "path_component \<Rightarrow> string option" where
  "normal_part (NormalC s) = Some s"
| "normal_part c = None"

text \<open>\<open>root.join(rel)\<close> for a relative path\<close>

definition path_join :: "string \<Rightarrow> string \<Rightarrow> string" where
  "path_join root_dir rel = (if root_dir = [] then rel else if ends_with root_dir ''/'' then root_dir @ rel else root_dir @ ''/'' @ rel)"

text \<open>\<open>Path::join\<close>: an absolute path replaces the base.\<close>

definition rust_join :: "string \<Rightarrow> string \<Rightarrow> string" where
  "rust_join base p = (if is_absolute p then p else path_join base p)"

definition path_starts_with :: "string \<Rightarrow> string \<Rightarrow> bool" where
  "path_starts_with p q = (take (length (components q)) (components p) = components q)"

section \<open>Requests for an output\<close>

definition output_type_for_path :: "container_asset \<Rightarrow> string \<Rightarrow> string option" where
  "output_type_for_path asset rel_path =
     map_option oc_output_type
       (find (\<lambda>output. output_pattern_matches (oc_path output) rel_path) (fhd_output_collection (sm_file_handling (ca_manifest asset))))"

text \<open>What the file system answers: existence, canonical path and content of a file.\<close>

record file_system =
  fs_exists :: "string \<Rightarrow> bool"
  fs_canonicalize :: "string \<Rightarrow> string option"
  fs_read :: "string \<Rightarrow> string option"

datatype output_error =
    NotRelative
  | ForbiddenComponent
  | EmptyPath
  | NotDeclared
  | CanonicalizeFailed string
  | OutsideWorkingDirectory
  | NoManifest
  | OpenFailed

definition validate_output_request :: "file_system \<Rightarrow> string \<Rightarrow> container_asset \<Rightarrow> string \<Rightarrow> output_error + string \<times> string \<times> string" where
  "validate_output_request fs root_dir asset requested_path =
     (if is_absolute requested_path then Inl NotRelative
      else if list_ex (\<lambda>c. normal_part c = None \<and> c \<noteq> CurDir) (components requested_path) then Inl ForbiddenComponent
      else
        (let normalized = join ''/'' (List.map_filter normal_part (components requested_path)) in
         if normalized = [] then Inl EmptyPath
         else case output_type_for_path asset normalized of
             None \<Rightarrow> Inl NotDeclared
           | Some output_type \<Rightarrow>
              (let candidate = path_join root_dir normalized in
               if fs_exists fs candidate then
                 (case fs_canonicalize fs root_dir of
                    None \<Rightarrow> Inl (CanonicalizeFailed root_dir)
                  | Some root_canon \<Rightarrow>
                     (case fs_canonicalize fs candidate of
                        None \<Rightarrow> Inl (CanonicalizeFailed candidate)
                      | Some candidate_canon \<Rightarrow>
                         (if \<not> path_starts_with candidate_canon root_canon then Inl OutsideWorkingDirectory
                          else Inr (candidate_canon, normalized, output_type))))
               else Inr (candidate, normalized, output_type))))"

definition read_declared_output_chunk :: "file_system \<Rightarrow> string \<Rightarrow> container_asset option \<Rightarrow> string \<Rightarrow> u64 \<Rightarrow> u64 option \<Rightarrow>
    output_error + string \<times> string \<times> u64 option" where
  "read_declared_output_chunk fs root_dir asset requested_path offset len =
     (case asset of None \<Rightarrow> Inl NoManifest
      | Some asset \<Rightarrow>
         (case validate_output_request fs root_dir asset requested_path of
            Inl e \<Rightarrow> Inl e
          | Inr (path, normalized, _) \<Rightarrow>
             (if \<not> fs_exists fs path then Inr (normalized, [], None)
              else case fs_read fs path of
                  None \<Rightarrow> Inl OpenFailed
                | Some content \<Rightarrow>
                   (let rest = drop (unat offset) content
                    in Inr (normalized, (case len of Some n \<Rightarrow> take (unat n) rest | None \<Rightarrow> rest), Some (of_nat (length content)))))))"

section \<open>Collecting the declared files\<close>

text \<open>
  A directory entry as the scan sees it: a file with its size and modification time, a directory (\<open>None\<close>
  when it cannot be read), a symbolic link, something else, or an entry whose metadata cannot be read.
\<close>

datatype fs_node =
    Regular u64 "u64 option"
  | Directory "(string \<times> fs_node) list option"
  | Symlink
  | Special
  | NoMetadata

fun collect_entries :: "container_asset \<Rightarrow> string list \<Rightarrow> (string \<times> fs_node) list \<Rightarrow> job_output_artifact list \<Rightarrow>
    unit + job_output_artifact list"
  and collect_node :: "container_asset \<Rightarrow> string list \<Rightarrow> fs_node \<Rightarrow> job_output_artifact list \<Rightarrow>
    unit + job_output_artifact list" where
  "collect_entries asset dir [] artifacts = Inr artifacts"
| "collect_entries asset dir ((name, node) # es) artifacts =
     (case collect_node asset (dir @ [name]) node artifacts of
        Inl e \<Rightarrow> Inl e | Inr artifacts' \<Rightarrow> collect_entries asset dir es artifacts')"
| "collect_node asset path NoMetadata artifacts = Inl ()"
| "collect_node asset path Symlink artifacts = Inr artifacts"
| "collect_node asset path (Directory None) artifacts = Inl ()"
| "collect_node asset path (Directory (Some es)) artifacts = collect_entries asset path es artifacts"
| "collect_node asset path Special artifacts = Inr artifacts"
| "collect_node asset path (Regular len mtime) artifacts =
     (case output_type_for_path asset (join ''/'' path) of
        None \<Rightarrow> Inr artifacts
      | Some t \<Rightarrow> Inr (artifacts @ [\<lparr>oa_path = join ''/'' path, oa_output_type = t, oa_file_id = None,
                                 oa_size = Some len, oa_updated_at = mtime\<rparr>]))"

fun dedup_paths :: "job_output_artifact list \<Rightarrow> job_output_artifact list" where
  "dedup_paths (a # b # as) = (if oa_path a = oa_path b then dedup_paths (a # as) else a # dedup_paths (b # as))"
| "dedup_paths as = as"

text \<open>\<open>None\<close> for the tree: the working directory does not exist.\<close>

definition collect_declared_output_artifacts :: "container_asset option \<Rightarrow> bool \<Rightarrow> (string \<times> fs_node) list option option \<Rightarrow>
    unit + job_output_artifact list" where
  "collect_declared_output_artifacts asset canonicalizes tree =
     (case asset of None \<Rightarrow> Inr []
      | Some asset \<Rightarrow>
         (if fhd_output_collection (sm_file_handling (ca_manifest asset)) = [] then Inr []
          else case tree of None \<Rightarrow> Inr []
            | Some es \<Rightarrow>
               (if \<not> canonicalizes then Inl ()
                else case collect_node asset [] (Directory es) [] of
                    Inl e \<Rightarrow> Inl e
                  | Inr artifacts \<Rightarrow> Inr (dedup_paths (sort_key oa_path artifacts)))))"

section \<open>Confinement\<close>

lemma output_type_declared:
  assumes "output_type_for_path asset rel = Some t"
  shows "\<exists>output\<in>set (fhd_output_collection (sm_file_handling (ca_manifest asset))).
    oc_output_type output = t \<and> output_pattern_matches (oc_path output) rel"
  using assms by (auto simp: output_type_for_path_def dest!: find_SomeD)

lemma normal_parts_clean:
  assumes "x \<in> set (List.map_filter normal_part (components p))"
  shows "x \<noteq> [] \<and> x \<noteq> ''.'' \<and> x \<noteq> ''..'' \<and> CHR ''/'' \<notin> set x"
proof -
  obtain k s where "(k, s) \<in> set (enumerate 0 (split_on CHR ''/'' p))" "piece_component (is_absolute p) (k, s) = Some (NormalC x)"
  proof -
    obtain c where c: "c \<in> set (components p)" "normal_part c = Some x" using assms by (auto simp: map_filter_def)
    have "c = NormalC x" using c(2) by (cases c) auto
    with c(1) that show ?thesis by (auto simp: components_def map_filter_def split: if_splits)
  qed
  then show ?thesis
    by (auto simp: piece_component_def dest!: set_zip_rightD [of _ _ "[0..<length (split_on CHR ''/'' p)]"] split_on_pieces
        simp: enumerate_eq_zip split: if_splits)
qed

lemma parent_component:
  assumes "''..'' \<in> set (split_on CHR ''/'' p)" shows "ParentDir \<in> set (components p)"
proof -
  obtain k where "k < length (split_on CHR ''/'' p)" "split_on CHR ''/'' p ! k = ''..''"
    using assms by (auto simp: in_set_conv_nth)
  then have "(k, ''..'') \<in> set (enumerate 0 (split_on CHR ''/'' p))" by (auto simp: in_set_enumerate_eq)
  then show ?thesis
    by (force simp: components_def map_filter_def piece_component_def intro!: image_eqI [of _ _ "(k, ''..'')"])
qed

text \<open>
  C9: An output request stays inside the job's directory. A path with a parent component or an absolute
  path is refused; an accepted one is a sequence of proper names, matches a pattern of the container
  manifest, and when the file exists the path that is opened is its canonical path and lies under the
  canonical working directory, so that no symbolic link leads out of it.
\<close>

theorem output_request_confined:
  "(\<forall>path normalized t. validate_output_request fs root_dir asset requested_path = Inr (path, normalized, t) \<longrightarrow>
      (\<forall>part\<in>set (split_on CHR ''/'' normalized). part \<noteq> [] \<and> part \<noteq> ''.'' \<and> part \<noteq> ''..'') \<and>
      (\<exists>output\<in>set (fhd_output_collection (sm_file_handling (ca_manifest asset))).
         oc_output_type output = t \<and> output_pattern_matches (oc_path output) normalized) \<and>
      (if fs_exists fs (path_join root_dir normalized)
       then \<exists>root_canon. fs_canonicalize fs root_dir = Some root_canon \<and>
              fs_canonicalize fs (path_join root_dir normalized) = Some path \<and> path_starts_with path root_canon
       else path = path_join root_dir normalized)) \<and>
   (is_absolute requested_path \<or> ''..'' \<in> set (split_on CHR ''/'' requested_path) \<longrightarrow>
      (\<exists>e. validate_output_request fs root_dir asset requested_path = Inl e))"
proof (intro conjI allI impI)
  fix path normalized t
  let ?ps = "List.map_filter normal_part (components requested_path)"
  assume v: "validate_output_request fs root_dir asset requested_path = Inr (path, normalized, t)"
  then have n: "normalized = join ''/'' ?ps" "normalized \<noteq> []" "output_type_for_path asset normalized = Some t"
    by (auto simp: validate_output_request_def Let_def split: if_splits option.splits)
  then have "?ps \<noteq> []" by auto
  then have "split_on CHR ''/'' normalized = ?ps" unfolding n(1)
    by (rule split_on_join) (use normal_parts_clean in auto)
  then show "\<forall>part\<in>set (split_on CHR ''/'' normalized). part \<noteq> [] \<and> part \<noteq> ''.'' \<and> part \<noteq> ''..''"
    using normal_parts_clean by auto
  show "\<exists>output\<in>set (fhd_output_collection (sm_file_handling (ca_manifest asset))).
      oc_output_type output = t \<and> output_pattern_matches (oc_path output) normalized"
    using n(3) by (rule output_type_declared)
  show "if fs_exists fs (path_join root_dir normalized)
      then \<exists>root_canon. fs_canonicalize fs root_dir = Some root_canon \<and>
             fs_canonicalize fs (path_join root_dir normalized) = Some path \<and> path_starts_with path root_canon
      else path = path_join root_dir normalized"
    using v by (auto simp: validate_output_request_def Let_def split: if_splits option.splits)
next
  assume "is_absolute requested_path \<or> ''..'' \<in> set (split_on CHR ''/'' requested_path)"
  then have "is_absolute requested_path \<or>
      list_ex (\<lambda>c. normal_part c = None \<and> c \<noteq> CurDir) (components requested_path)"
    using parent_component by (auto simp: list_ex_iff intro!: bexI [of _ ParentDir])
  then show "\<exists>e. validate_output_request fs root_dir asset requested_path = Inl e"
    by (auto simp: validate_output_request_def)
qed

text \<open>A file system whose directory \<open>/w/7\<close> holds \<open>a.vtk\<close>, and a link \<open>b.vtk\<close> that leads out of it.\<close>

definition sample_fs :: file_system where
  "sample_fs = \<lparr>fs_exists = (\<lambda>p. p = ''/w/7/a.vtk'' \<or> p = ''/w/7/b.vtk''),
     fs_canonicalize = (\<lambda>p. if p = ''/w/7/b.vtk'' then Some ''/etc/passwd'' else Some p), fs_read = (\<lambda>p. Some ''xy'')\<rparr>"

definition sample_asset :: container_asset where
  "sample_asset = \<lparr>ca_id = [], ca_name = [], ca_image_uri = [], ca_manifest = \<lparr>sm_manifest_version = [],
     sm_solver_identity = \<lparr>sid_vendor = [], sid_product = [], sid_version = [], sid_capabilities = []\<rparr>, sm_execution = \<lparr>ex_entrypoint = [], ex_launch_wrapper = None, ex_command_template = [], ex_environment_vars = []\<rparr>,
     sm_file_handling = \<lparr>fhd_working_dir = [], fhd_input_mapping = [],
       fhd_output_collection = [\<lparr>oc_path = ''*.vtk'', oc_output_type = ''mesh''\<rparr>]\<rparr>,
     sm_parameter_mapping = [], sm_vnc_enabled = False\<rparr>\<rparr>"

theorem output_request_confined_witness:
  "validate_output_request sample_fs ''/w/7'' sample_asset ''./a.vtk'' = Inr (''/w/7/a.vtk'', ''a.vtk'', ''mesh'') \<and>
   path_starts_with ''/w/7/a.vtk'' ''/w/7'' \<and>
   validate_output_request sample_fs ''/w/7'' sample_asset ''b.vtk'' = Inl OutsideWorkingDirectory \<and>
   (\<exists>e. validate_output_request sample_fs ''/w/7'' sample_asset ''../8/a.vtk'' = Inl e)"
proof (intro conjI)
  show v: "validate_output_request sample_fs ''/w/7'' sample_asset ''./a.vtk'' = Inr (''/w/7/a.vtk'', ''a.vtk'', ''mesh'')"
    by code_simp
  have "fs_exists sample_fs (path_join ''/w/7'' ''a.vtk'')" "fs_canonicalize sample_fs ''/w/7'' = Some ''/w/7''"
    by code_simp+
  then show "path_starts_with ''/w/7/a.vtk'' ''/w/7''"
    using output_request_confined [THEN conjunct1, rule_format, OF v] by simp
  show "validate_output_request sample_fs ''/w/7'' sample_asset ''b.vtk'' = Inl OutsideWorkingDirectory"
    by code_simp
  show "\<exists>e. validate_output_request sample_fs ''/w/7'' sample_asset ''../8/a.vtk'' = Inl e"
    by (rule output_request_confined [THEN conjunct2, rule_format]) simp
qed

section \<open>What is collected\<close>

inductive file_at :: "fs_node \<Rightarrow> string list \<Rightarrow> bool" where
  here: "file_at (Regular len mtime) []"
| below: "(name, node) \<in> set es \<Longrightarrow> file_at node path \<Longrightarrow> file_at (Directory (Some es)) (name # path)"

inductive_simps file_at_simps: "file_at (Regular len mtime) path" "file_at (Directory (Some es)) path"
  "file_at Symlink path" "file_at Special path"

definition declared :: "container_asset \<Rightarrow> string list \<Rightarrow> bool" where
  "declared asset path = (output_type_for_path asset (join ''/'' path) \<noteq> None)"

lemma collect_paths:
  "collect_entries asset dir es acc = Inr as \<Longrightarrow> oa_path ` set as = oa_path ` set acc \<union>
     {join ''/'' (dir @ p) | p. file_at (Directory (Some es)) p \<and> declared asset (dir @ p)}"
  "collect_node asset dir node acc = Inr as \<Longrightarrow> oa_path ` set as = oa_path ` set acc \<union>
     {join ''/'' (dir @ p) | p. file_at node p \<and> declared asset (dir @ p)}"
proof (induction asset dir es acc and asset dir node acc arbitrary: as and as rule: collect_entries_collect_node.induct)
  case (2 asset dir name node es acc)
  then obtain mid where m: "collect_node asset (dir @ [name]) node acc = Inr mid" "collect_entries asset dir es mid = Inr as"
    by (auto split: sum.splits)
  have "file_at (Directory (Some ((name, node) # es))) p \<longleftrightarrow>
      (\<exists>q. p = name # q \<and> file_at node q) \<or> file_at (Directory (Some es)) p" for p
    by (auto simp: file_at_simps)
  then have "{join ''/'' (dir @ p) | p. file_at (Directory (Some ((name, node) # es))) p \<and> declared asset (dir @ p)} =
      {join ''/'' ((dir @ [name]) @ q) | q. file_at node q \<and> declared asset ((dir @ [name]) @ q)} \<union>
      {join ''/'' (dir @ p) | p. file_at (Directory (Some es)) p \<and> declared asset (dir @ p)}"
    by auto
  then show ?case using 2(1) [OF m(1)] 2(2) [OF m(1) m(2)] by auto
next
  case (8 asset path len mtime acc)
  then show ?case by (auto simp: file_at_simps declared_def split: option.splits)
qed (auto simp: file_at_simps)

lemma dedup_paths_hd: "dedup_paths (a # as) = a' # as' \<Longrightarrow> a' = a"
  by (induction "a # as" arbitrary: as rule: dedup_paths.induct) (auto split: if_splits)

lemma dedup_paths_set: "oa_path ` set (dedup_paths as) = oa_path ` set as"
  by (induction as rule: dedup_paths.induct) auto

lemma dedup_paths_sorted:
  "sorted (map oa_path as) \<Longrightarrow> sorted_wrt (<) (map oa_path (dedup_paths as))"
proof (induction as rule: dedup_paths.induct)
  case (1 a b as)
  then show ?case
  proof (cases "oa_path a = oa_path b")
    case False
    have IH: "sorted_wrt (<) (map oa_path (dedup_paths (b # as)))" using 1 False by auto
    have "oa_path a < oa_path x" if "x \<in> set (dedup_paths (b # as))" for x
    proof -
      have "oa_path x \<in> oa_path ` set (b # as)" using that dedup_paths_set [of "b # as"] by blast
      then have "oa_path b \<le> oa_path x" using 1(3) by auto
      moreover have "oa_path a < oa_path b" using 1(3) False by (simp add: order.strict_iff_order)
      ultimately show ?thesis by simp
    qed
    then show ?thesis using IH False by simp
  qed auto
qed simp_all

text \<open>
  The scan reports exactly the declared files. When it succeeds on an existing directory whose
  manifest declares outputs, the paths it reports are strictly increasing (so none is reported twice)
  and are those of the regular files under the directory, reached without following a symbolic link,
  whose relative path matches a declared pattern.
\<close>

theorem collected_outputs:
  assumes "fhd_output_collection (sm_file_handling (ca_manifest asset)) \<noteq> []"
    and "collect_declared_output_artifacts (Some asset) True (Some (Some es)) = Inr as"
  shows "sorted_wrt (<) (map oa_path as) \<and>
    oa_path ` set as = {join ''/'' p | p. file_at (Directory (Some es)) p \<and> declared asset p}"
proof -
  obtain xs where x: "collect_node asset [] (Directory (Some es)) [] = Inr xs" "as = dedup_paths (sort_key oa_path xs)"
    using assms by (auto simp: collect_declared_output_artifacts_def split: sum.splits)
  have "sorted_wrt (<) (map oa_path as)" unfolding x(2) by (rule dedup_paths_sorted) simp
  moreover have "oa_path ` set as = {join ''/'' p | p. file_at (Directory (Some es)) p \<and> declared asset p}"
    using collect_paths(2) [OF x(1)] by (simp add: x(2) dedup_paths_set)
  ultimately show ?thesis by blast
qed

theorem collected_outputs_witness:
  "\<exists>as. collect_declared_output_artifacts (Some sample_asset) True
       (Some (Some [(''b.vtk'', Regular 5 None), (''log'', Symlink), (''a.vtk'', Regular 3 (Some 9))])) = Inr as \<and>
     map oa_path as = [''a.vtk'', ''b.vtk''] \<and> sorted_wrt (<) (map oa_path as)"
proof -
  let ?es = "[(''b.vtk'', Regular 5 None), (''log'', Symlink), (''a.vtk'', Regular 3 (Some 9))]"
  have ne: "fhd_output_collection (sm_file_handling (ca_manifest sample_asset)) \<noteq> []" by (simp add: sample_asset_def)
  have c: "collect_declared_output_artifacts (Some sample_asset) True (Some (Some ?es)) = Inr
      [\<lparr>oa_path = ''a.vtk'', oa_output_type = ''mesh'', oa_file_id = None, oa_size = Some 3, oa_updated_at = Some 9\<rparr>,
       \<lparr>oa_path = ''b.vtk'', oa_output_type = ''mesh'', oa_file_id = None, oa_size = Some 5, oa_updated_at = None\<rparr>]"
    by code_simp
  from collected_outputs [OF ne c] c show ?thesis by simp
qed

end
