(* ===== verification/Transport.thy ===== *)
theory Transport
  imports Strings "HOL-Library.Sublist"
begin

text \<open>
  The encrypted byte stream of all connections (\<open>common/src/noise.rs\<close>): framing, buffering and the
  partial reads and writes of the socket underneath.

  The cipher (\<open>snow\<close>) is outside the repository. A transport state of any type \<open>'ts\<close> comes with the two
  functions of \<open>cipher\<close>; what the code relies on is \<open>cipher_ok\<close>: the peer of the writer decrypts the
  messages in the order in which they were encrypted, and a message is 16 bytes longer than its text.
  The socket is the list of answers it gives to the successive polls; an exhausted list is \<open>NotReady\<close> (\<open>Poll::Pending\<close>).
\<close>

section \<open>Polls and the socket\<close>

datatype io_error = UnexpectedEof | InvalidData | SocketError

datatype 'a poll = NotReady | Ready "io_error + 'a"

type_synonym bytes = string

definition MAX_NOISE_MESSAGE_LEN :: nat where
  "MAX_NOISE_MESSAGE_LEN = 65535"

definition LENGTH_FIELD_SIZE :: nat where
  "LENGTH_FIELD_SIZE = 2"

text \<open>\<open>u16::to_be_bytes\<close> and \<open>u16::from_be_bytes\<close>; the argument is cut to 16 bits as by \<open>as u16\<close>.\<close>

definition be_bytes :: "nat \<Rightarrow> bytes" where
  "be_bytes n = [char_of (n div 256 mod 256), char_of (n mod 256)]"

fun from_be_bytes :: "bytes \<Rightarrow> nat" where
  "from_be_bytes [a, b] = 256 * of_char a + of_char b"
| "from_be_bytes _ = 0"

record 'ts cipher =
  write_message :: "'ts \<Rightarrow> bytes \<Rightarrow> ('ts \<times> bytes) option"
  read_message :: "'ts \<Rightarrow> bytes \<Rightarrow> ('ts \<times> bytes) option"

record 'ts noise_stream =
  ns_noise :: 'ts
  ns_read_buffer :: bytes
  ns_decrypted_buffer :: bytes
  ns_reading_length :: bool
  ns_expected_len :: nat
  ns_output_buffer :: bytes

definition new_noise_stream :: "'ts \<Rightarrow> 'ts noise_stream" where
  "new_noise_stream noise = \<lparr>ns_noise = noise, ns_read_buffer = [], ns_decrypted_buffer = [],
     ns_reading_length = True, ns_expected_len = LENGTH_FIELD_SIZE, ns_output_buffer = []\<rparr>"

section \<open>Reading\<close>

text \<open>
  The loop of \<open>poll_read\<close>. Its results: the stream, the answers of the socket that are left, and the
  answer with the bytes put into a buffer that has room for \<open>cap\<close> bytes. An empty answer of the socket is
  its end of file. While a length is read \<open>expected_len\<close> is \<open>LENGTH_FIELD_SIZE\<close>, so the iteration that
  would spin on a shorter buffer does not occur.
\<close>

definition buffer_ready :: "'ts noise_stream \<Rightarrow> bool" where
  "buffer_ready s = (length (ns_read_buffer s) \<ge> ns_expected_len s)"

definition take_length :: "'ts noise_stream \<Rightarrow> 'ts noise_stream" where
  "take_length s = (let len = from_be_bytes (take LENGTH_FIELD_SIZE (ns_read_buffer s)) in
     s\<lparr>ns_read_buffer := drop LENGTH_FIELD_SIZE (ns_read_buffer s), ns_reading_length := False, ns_expected_len := len\<rparr>)"

definition hand_out :: "nat \<Rightarrow> 'ts noise_stream \<Rightarrow> 'ts noise_stream \<times> bytes" where
  "hand_out cap s = (let len = min cap (length (ns_decrypted_buffer s)) in
     (s\<lparr>ns_decrypted_buffer := drop len (ns_decrypted_buffer s)\<rparr>, take len (ns_decrypted_buffer s)))"

definition open_packet :: "'ts cipher \<Rightarrow> nat \<Rightarrow> 'ts noise_stream \<Rightarrow> 'ts noise_stream \<times> bytes poll" where
  "open_packet c cap s =
     (let chunk = take (ns_expected_len s) (ns_read_buffer s);
          s1 = s\<lparr>ns_read_buffer := drop (ns_expected_len s) (ns_read_buffer s),
                 ns_reading_length := True, ns_expected_len := LENGTH_FIELD_SIZE\<rparr>
      in case read_message c (ns_noise s1) chunk of
           None \<Rightarrow> (s1, Ready (Inl InvalidData))
         | Some (noise, plaintext) \<Rightarrow>
             (let (s2, out) = hand_out cap (s1\<lparr>ns_noise := noise, ns_decrypted_buffer := ns_decrypted_buffer s1 @ plaintext\<rparr>)
              in (s2, Ready (Inr out))))"

function read_loop :: "'ts cipher \<Rightarrow> nat \<Rightarrow> bytes poll list \<Rightarrow> 'ts noise_stream \<Rightarrow>
    'ts noise_stream \<times> bytes poll list \<times> bytes poll" where
  "read_loop c cap script s =
     (if \<not> buffer_ready s then
        (case script of
           [] \<Rightarrow> (s, [], NotReady)
         | NotReady # rest \<Rightarrow> (s, rest, NotReady)
         | Ready (Inl e) # rest \<Rightarrow> (s, rest, Ready (Inl e))
         | Ready (Inr filled) # rest \<Rightarrow>
             (if filled = [] then
                (s, rest, if ns_read_buffer s = [] then Ready (Inr []) else Ready (Inl UnexpectedEof))
              else read_loop c cap rest (s\<lparr>ns_read_buffer := ns_read_buffer s @ filled\<rparr>)))
      else if ns_reading_length s then
        (if length (ns_read_buffer s) \<ge> LENGTH_FIELD_SIZE then read_loop c cap script (take_length s)
         else (s, script, NotReady))
      else (let (s', r) = open_packet c cap s in (s', script, r)))"
  by pat_completeness auto
termination
  by (relation "measures [\<lambda>(c, cap, script, s). length script, \<lambda>(c, cap, script, s). if ns_reading_length s then 1 else 0]")
     (auto simp: take_length_def Let_def)

declare read_loop.simps [simp del]

definition poll_read :: "'ts cipher \<Rightarrow> nat \<Rightarrow> bytes poll list \<Rightarrow> 'ts noise_stream \<Rightarrow>
    'ts noise_stream \<times> bytes poll list \<times> bytes poll" where
  "poll_read c cap script s =
     (if ns_decrypted_buffer s \<noteq> [] then (let (s', out) = hand_out cap s in (s', script, Ready (Inr out)))
      else read_loop c cap script s)"

section \<open>Writing\<close>

text \<open>
  One write to the socket: it accepts the first \<open>n\<close> bytes of the output buffer, which appear on the wire.
  \<open>poll_write\<close> returns the stream, the socket's remaining answers, the bytes put on the wire and the answer.
\<close>

definition socket_write :: "nat poll list \<Rightarrow> bytes \<Rightarrow> nat poll list \<times> bytes \<times> nat poll" where
  "socket_write script data =
     (case script of
        [] \<Rightarrow> ([], [], NotReady)
      | NotReady # rest \<Rightarrow> (rest, [], NotReady)
      | Ready (Inl e) # rest \<Rightarrow> (rest, [], Ready (Inl e))
      | Ready (Inr n) # rest \<Rightarrow> (rest, take n data, Ready (Inr (min n (length data)))))"

definition write_packet :: "'ts cipher \<Rightarrow> nat poll list \<Rightarrow> bytes \<Rightarrow> 'ts noise_stream \<Rightarrow>
    'ts noise_stream \<times> nat poll list \<times> bytes \<times> nat poll" where
  "write_packet c script buf s =
     (let max_payload = MAX_NOISE_MESSAGE_LEN - 16;
          len = min (length buf) max_payload
      in case write_message c (ns_noise s) (take len buf) of
           None \<Rightarrow> (s, script, [], Ready (Inl InvalidData))
         | Some (noise, ciphertext) \<Rightarrow>
             (let s1 = s\<lparr>ns_noise := noise,
                         ns_output_buffer := ns_output_buffer s @ be_bytes (length ciphertext) @ ciphertext\<rparr>;
                  (rest, wire, r) = socket_write script (ns_output_buffer s1)
              in case r of
                   Ready (Inl e) \<Rightarrow> (s1, rest, wire, Ready (Inl e))
                 | NotReady \<Rightarrow> (s1, rest, wire, Ready (Inr len))
                 | Ready (Inr written) \<Rightarrow>
                     (s1\<lparr>ns_output_buffer := drop written (ns_output_buffer s1)\<rparr>, rest, wire, Ready (Inr len))))"

definition poll_write :: "'ts cipher \<Rightarrow> nat poll list \<Rightarrow> bytes \<Rightarrow> 'ts noise_stream \<Rightarrow>
    'ts noise_stream \<times> nat poll list \<times> bytes \<times> nat poll" where
  "poll_write c script buf s =
     (if ns_output_buffer s = [] then write_packet c script buf s
      else
        (let (rest, wire, r) = socket_write script (ns_output_buffer s) in
         case r of
           Ready (Inl e) \<Rightarrow> (s, rest, wire, Ready (Inl e))
         | NotReady \<Rightarrow> (s, rest, wire, NotReady)
         | Ready (Inr written) \<Rightarrow>
             (let s1 = s\<lparr>ns_output_buffer := drop written (ns_output_buffer s)\<rparr> in
              if ns_output_buffer s1 = [] then
                (let (s2, rest2, wire2, r2) = write_packet c rest buf s1 in (s2, rest2, wire @ wire2, r2))
              else (s1, rest, wire, NotReady))))"

text \<open>
  \<open>poll_flush\<close> writes until the buffer is empty, then flushes the socket. \<open>poll_shutdown\<close> flushes and
  shuts the socket down; both end with the socket's own answer, here the parameter \<open>inner\<close>.
\<close>

fun flush_loop :: "nat poll list \<Rightarrow> 'ts noise_stream \<Rightarrow> 'ts noise_stream \<times> bytes \<times> unit poll" where
  "flush_loop script s =
     (if ns_output_buffer s = [] then (s, [], Ready (Inr ()))
      else case script of
          [] \<Rightarrow> (s, [], NotReady)
        | NotReady # rest \<Rightarrow> (s, [], NotReady)
        | Ready (Inl e) # rest \<Rightarrow> (s, [], Ready (Inl e))
        | Ready (Inr n) # rest \<Rightarrow>
            (let (s', wire, r) = flush_loop rest (s\<lparr>ns_output_buffer := drop n (ns_output_buffer s)\<rparr>)
             in (s', take n (ns_output_buffer s) @ wire, r)))"

declare flush_loop.simps [simp del]

definition poll_flush :: "nat poll list \<Rightarrow> unit poll \<Rightarrow> 'ts noise_stream \<Rightarrow> 'ts noise_stream \<times> bytes \<times> unit poll" where
  "poll_flush script inner s =
     (let (s', wire, r) = flush_loop script s in (s', wire, if r = Ready (Inr ()) then inner else r))"

definition poll_shutdown :: "nat poll list \<Rightarrow> unit poll \<Rightarrow> unit poll \<Rightarrow> 'ts noise_stream \<Rightarrow> 'ts noise_stream \<times> bytes \<times> unit poll" where
  "poll_shutdown script inner_flush inner_shutdown s =
     (if ns_output_buffer s \<noteq> [] then
        (let (s', wire, r) = poll_flush script inner_flush s in
         (s', wire, if r = Ready (Inr ()) then inner_shutdown else r))
      else (s, [], inner_shutdown))"

section \<open>Keys and handshake frames\<close>

text \<open>
  \<open>derive_psk\<close>: a text that is the base64 form of 32 bytes is the key itself, any other text is hashed.
  The base64 decoder and SHA-256 are parameters. \<open>write_frame\<close> and \<open>read_frame\<close> carry the handshake; the
  buffer of \<open>read_frame\<close> has \<open>room\<close> bytes and \<open>None\<close> stands for its two errors.
\<close>

definition derive_psk :: "(string \<Rightarrow> bytes option) \<Rightarrow> (string \<Rightarrow> bytes) \<Rightarrow> string \<Rightarrow> bytes" where
  "derive_psk base64_decode sha256 secret_key =
     (case base64_decode secret_key of
        Some v \<Rightarrow> if length v = 32 then v else sha256 secret_key
      | None \<Rightarrow> sha256 secret_key)"

definition write_frame :: "bytes \<Rightarrow> bytes" where
  "write_frame data = be_bytes (length data) @ data"

definition read_frame :: "nat \<Rightarrow> bytes \<Rightarrow> (bytes \<times> bytes) option" where
  "read_frame room stream =
     (if length stream < 2 then None
      else (let len = from_be_bytes (take 2 stream); rest = drop 2 stream in
            if len > room then None
            else if length rest < len then None
            else Some (take len rest, drop len rest)))"

section \<open>Delivery\<close>

text \<open>What the code relies on of the cipher: \<open>paired w r\<close> says that \<open>r\<close> is the state of the peer of \<open>w\<close>.\<close>

definition cipher_ok :: "'ts cipher \<Rightarrow> ('ts \<Rightarrow> 'ts \<Rightarrow> bool) \<Rightarrow> bool" where
  "cipher_ok c paired = (\<forall>w r p w' m. paired w r \<and> write_message c w p = Some (w', m) \<longrightarrow>
     length m = length p + 16 \<and> (\<exists>r'. read_message c r m = Some (r', p) \<and> paired w' r'))"

text \<open>A writer that writes and flushes, each call with the answers of the socket, and a reader that polls.\<close>

datatype send_op = Write bytes "nat poll list" | Flush "nat poll list"

fun accepted :: "nat poll \<Rightarrow> bytes \<Rightarrow> bytes" where
  "accepted (Ready (Inr n)) buf = take n buf"
| "accepted _ buf = []"

fun send_all_ops :: "'ts cipher \<Rightarrow> send_op list \<Rightarrow> 'ts noise_stream \<Rightarrow> 'ts noise_stream \<times> bytes \<times> bytes" where
  "send_all_ops c [] s = (s, [], [])"
| "send_all_ops c (Write buf script # ops) s =
     (let (s1, _, wire, r) = poll_write c script buf s; (s2, wires, acc) = send_all_ops c ops s1
      in (s2, wire @ wires, accepted r buf @ acc))"
| "send_all_ops c (Flush script # ops) s =
     (let (s1, wire, _) = poll_flush script (Ready (Inr ())) s; (s2, wires, acc) = send_all_ops c ops s1
      in (s2, wire @ wires, acc))"

fun op_script :: "send_op \<Rightarrow> nat poll list" where
  "op_script (Write buf script) = script"
| "op_script (Flush script) = script"

definition socket_alive :: "send_op list \<Rightarrow> bool" where
  "socket_alive ops = (\<forall>op\<in>set ops. \<forall>e. Ready (Inl e) \<notin> set (op_script op))"

fun receive :: "'ts cipher \<Rightarrow> nat list \<Rightarrow> bytes poll list \<Rightarrow> 'ts noise_stream \<Rightarrow> bytes" where
  "receive c [] script s = []"
| "receive c (cap # caps) script s =
     (let (s', rest, r) = poll_read c cap script s
      in (case r of Ready (Inr out) \<Rightarrow> out | _ \<Rightarrow> []) @ receive c caps rest s')"

inductive encrypts :: "'ts cipher \<Rightarrow> 'ts \<Rightarrow> bytes list \<Rightarrow> bytes list \<Rightarrow> 'ts \<Rightarrow> bool" for c where
  none: "encrypts c w [] [] w"
| one: "write_message c w p = Some (w1, m) \<Longrightarrow> length p \<le> 65519 \<Longrightarrow> encrypts c w1 ps ms w2 \<Longrightarrow> encrypts c w (p # ps) (m # ms) w2"

inductive decrypts :: "'ts cipher \<Rightarrow> 'ts \<Rightarrow> bytes list \<Rightarrow> bytes list \<Rightarrow> bool" for c where
  none: "decrypts c r [] []"
| one: "read_message c r m = Some (r1, p) \<Longrightarrow> length m \<le> 65535 \<Longrightarrow> decrypts c r1 ms ps \<Longrightarrow> decrypts c r (m # ms) (p # ps)"

inductive_cases decrypts_ConsE: "decrypts c r (m # ms) ps"
inductive_cases decrypts_NilE: "decrypts c r [] ps"

lemma from_be_bytes_be_bytes: "n \<le> 65535 \<Longrightarrow> from_be_bytes (be_bytes n) = n"
  by (simp add: be_bytes_def)

lemma write_frame_parts [simp]:
  "take 2 (write_frame d @ t) = be_bytes (length d)" "drop 2 (write_frame d @ t) = d @ t"
  "length (write_frame d) = 2 + length d"
  by (simp_all add: write_frame_def be_bytes_def numeral_2_eq_2)

lemma encrypts_append: "encrypts c w ps ms w1 \<Longrightarrow> encrypts c w1 qs ns w2 \<Longrightarrow> encrypts c w (ps @ qs) (ms @ ns) w2"
  by (induction rule: encrypts.induct) (auto intro: encrypts.intros)

lemma encrypts_length: "encrypts c w ps ms w' \<Longrightarrow> length ms = length ps"
  by (induction rule: encrypts.induct) auto

lemma encrypts_decrypts: "encrypts c w ps ms w' \<Longrightarrow> cipher_ok c paired \<Longrightarrow> paired w r \<Longrightarrow> decrypts c r ms ps"
proof (induction arbitrary: r rule: encrypts.induct)
  case (one w p w1 m ps ms w2)
  then obtain r1 where "length m = length p + 16" "read_message c r m = Some (r1, p)" "paired w1 r1"
    unfolding cipher_ok_def by blast
  with one show ?case by (auto intro: decrypts.intros)
qed (rule decrypts.none)

text \<open>
  What a call of the writer does: it encrypts at most \<open>k\<close> packets whose texts make up \<open>acc\<close>, and what was
  buffered followed by the new packets is what went to the wire followed by what is buffered now.
\<close>

definition sends :: "'ts cipher \<Rightarrow> 'ts noise_stream \<Rightarrow> bytes \<Rightarrow> bytes \<Rightarrow> 'ts noise_stream \<Rightarrow> nat \<Rightarrow> bool" where
  "sends c s wire acc s' k = (\<exists>ps ms. encrypts c (ns_noise s) ps ms (ns_noise s') \<and> concat ps = acc \<and> length ps \<le> k \<and>
     ns_output_buffer s @ concat (map write_frame ms) = wire @ ns_output_buffer s')"

lemma sends_trans:
  assumes "sends c s wire acc s1 k" and "sends c s1 wire' acc' s2 k'"
  shows "sends c s (wire @ wire') (acc @ acc') s2 (k + k')"
proof -
  from assms(1) obtain ps ms where a: "encrypts c (ns_noise s) ps ms (ns_noise s1)" "concat ps = acc" "length ps \<le> k"
    "ns_output_buffer s @ concat (map write_frame ms) = wire @ ns_output_buffer s1" unfolding sends_def by blast
  from assms(2) obtain qs ns where b: "encrypts c (ns_noise s1) qs ns (ns_noise s2)" "concat qs = acc'" "length qs \<le> k'"
    "ns_output_buffer s1 @ concat (map write_frame ns) = wire' @ ns_output_buffer s2" unfolding sends_def by blast
  have "ns_output_buffer s @ concat (map write_frame (ms @ ns)) = wire @ wire' @ ns_output_buffer s2"
    using arg_cong [OF a(4), of "\<lambda>x. x @ concat (map write_frame ns)"] b(4) by simp
  with encrypts_append [OF a(1) b(1)] a b show ?thesis
    unfolding sends_def by (intro exI [of _ "ps @ qs"] exI [of _ "ms @ ns"]) auto
qed

lemma sends_mono: "sends c s wire acc s' k \<Longrightarrow> k \<le> k' \<Longrightarrow> sends c s wire acc s' k'"
  unfolding sends_def
  by (elim exE conjE) (rule exI, rule exI, intro conjI, assumption, assumption, erule (1) le_trans, assumption)

lemma sends_moved: "wire @ b = ns_output_buffer s \<Longrightarrow> sends c s wire [] (s\<lparr>ns_output_buffer := b\<rparr>) 0"
  unfolding sends_def by (intro exI [of _ "[]"]) (auto intro: encrypts.none)

lemma sends_nothing: "sends c s [] [] s k"
  unfolding sends_def by (intro exI [of _ "[]"]) (auto intro: encrypts.none)

lemma socket_write_moves:
  assumes "socket_write script data = (rest, wire, Ready (Inr n))"
  shows "wire @ drop n data = data" "set rest \<subseteq> set script"
proof -
  obtain k where "script = Ready (Inr k) # rest" "wire = take k data" "n = min k (length data)"
    using assms by (auto simp: socket_write_def split: list.splits poll.splits sum.splits)
  then show "wire @ drop n data = data" "set rest \<subseteq> set script" by (auto simp: min_def)
qed

lemma socket_write_blocked:
  assumes "socket_write script data = (rest, wire, r)" and "\<forall>n. r \<noteq> Ready (Inr n)"
  shows "wire = []"
  using assms by (auto simp: socket_write_def split: list.splits poll.splits sum.splits)

lemma write_packet_sends:
  assumes "write_packet c script buf s = (s', rest, wire, r)" and "\<forall>e. Ready (Inl e) \<notin> set script"
  shows "sends c s wire (accepted r buf) s' 1"
proof (cases "write_message c (ns_noise s) (take (min (length buf) (MAX_NOISE_MESSAGE_LEN - 16)) buf)")
  case None
  with assms show ?thesis by (auto simp: write_packet_def Let_def sends_nothing)
next
  case (Some wm)
  obtain w m where wm: "wm = (w, m)" by (cases wm)
  let ?p = "take (min (length buf) (MAX_NOISE_MESSAGE_LEN - 16)) buf"
  let ?b = "ns_output_buffer s @ write_frame m"
  have enc: "encrypts c (ns_noise s) [?p] [m] w"
    using Some wm by (auto intro!: encrypts.intros simp: MAX_NOISE_MESSAGE_LEN_def)
  obtain rest1 wire1 r1 where sw: "socket_write script ?b = (rest1, wire1, r1)" by (metis prod_cases3)
  have "\<forall>e. r1 \<noteq> Ready (Inl e)" using sw assms(2)
    by (auto simp: socket_write_def split: list.splits poll.splits sum.splits)
  then have "ns_noise s' = w \<and> wire @ ns_output_buffer s' = ?b \<and> accepted r buf = ?p"
  proof (cases r1)
    case NotReady
    with socket_write_blocked [OF sw] assms(1) Some wm sw show ?thesis
      by (auto simp: write_packet_def Let_def simp flip: write_frame_def)
  next
    case (Ready x)
    with \<open>\<forall>e. r1 \<noteq> Ready (Inl e)\<close> obtain n where "r1 = Ready (Inr n)" by (cases x) auto
    with socket_write_moves [of script ?b rest1 wire1 n] assms(1) Some wm sw show ?thesis
      by (auto simp: write_packet_def Let_def simp flip: write_frame_def)
  qed
  with enc show ?thesis unfolding sends_def by (intro exI [of _ "[?p]"] exI [of _ "[m]"]) auto
qed

lemma poll_write_sends:
  assumes "poll_write c script buf s = (s', rest, wire, r)" and "\<forall>e. Ready (Inl e) \<notin> set script"
  shows "sends c s wire (accepted r buf) s' 1"
proof (cases "ns_output_buffer s = []")
  case True
  with assms write_packet_sends [of c script buf s] show ?thesis by (simp add: poll_write_def)
next
  case False
  obtain rest1 wire1 r1 where sw: "socket_write script (ns_output_buffer s) = (rest1, wire1, r1)"
    by (cases "socket_write script (ns_output_buffer s)") auto
  show ?thesis
  proof (cases "\<exists>n. r1 = Ready (Inr n)")
    case False
    with sw socket_write_blocked [OF sw] assms(1) \<open>ns_output_buffer s \<noteq> []\<close> show ?thesis
      by (auto simp: poll_write_def sends_nothing split: poll.splits sum.splits)
  next
    case True
    then obtain n where n: "r1 = Ready (Inr n)" by blast
    let ?s = "s\<lparr>ns_output_buffer := drop n (ns_output_buffer s)\<rparr>"
    have moved: "sends c s wire1 [] ?s 0" and rest1: "\<forall>e. Ready (Inl e) \<notin> set rest1"
      using socket_write_moves [OF sw [unfolded n]] assms(2) by (auto intro: sends_moved)
    show ?thesis
    proof (cases "drop n (ns_output_buffer s) = []")
      case True
      then obtain wire2 where w: "write_packet c rest1 buf ?s = (s', rest, wire2, r)" "wire = wire1 @ wire2"
        using assms(1) sw n False by (auto simp: poll_write_def Let_def split: prod.splits)
      from sends_trans [OF moved write_packet_sends [OF w(1) rest1]] show ?thesis by (simp add: w(2))
    next
      case False
      with assms(1) sw n \<open>ns_output_buffer s \<noteq> []\<close> sends_mono [OF moved, of 1] show ?thesis
        by (auto simp: poll_write_def Let_def)
    qed
  qed
qed

lemma flush_loop_sends: "flush_loop script s = (s', wire, r) \<Longrightarrow> sends c s wire [] s' 0"
proof (induction script s arbitrary: s' wire r rule: flush_loop.induct)
  case (1 script s)
  show ?case
  proof (cases "ns_output_buffer s \<noteq> [] \<and> (\<exists>n rest. script = Ready (Inr n) # rest)")
    case True
    then obtain n rest where n: "ns_output_buffer s \<noteq> []" "script = Ready (Inr n) # rest" by blast
    let ?s = "s\<lparr>ns_output_buffer := drop n (ns_output_buffer s)\<rparr>"
    obtain wire2 where f: "flush_loop rest ?s = (s', wire2, r)" "wire = take n (ns_output_buffer s) @ wire2"
      using "1.prems" n by (auto simp: flush_loop.simps [of "Ready (Inr n) # rest" s] Let_def split: prod.splits)
    have "sends c s (take n (ns_output_buffer s)) [] ?s 0" by (rule sends_moved) simp
    from sends_trans [OF this "1.IH" [OF n(1) n(2) refl refl f(1)]] f(2) show ?thesis by simp
  next
    case False
    with "1.prems" show ?thesis
      by (auto simp: flush_loop.simps [of script s] sends_nothing split: list.splits poll.splits sum.splits if_splits)
  qed
qed

lemma send_all_sends:
  "send_all_ops c ops s = (s', wire, acc) \<Longrightarrow> socket_alive ops \<Longrightarrow> sends c s wire acc s' (length ops)"
proof (induction ops arbitrary: s wire acc)
  case Nil
  then show ?case by (simp add: sends_nothing)
next
  case (Cons op ops)
  have alive: "\<forall>e. Ready (Inl e) \<notin> set (op_script op)" "socket_alive ops"
    using Cons.prems(2) by (auto simp: socket_alive_def)
  show ?case
  proof (cases op)
    case (Write buf script)
    obtain s1 rest1 wire1 r1 where w: "poll_write c script buf s = (s1, rest1, wire1, r1)" by (metis prod_cases4)
    obtain wires accs where t: "send_all_ops c ops s1 = (s', wires, accs)" "wire = wire1 @ wires" "acc = accepted r1 buf @ accs"
      using Cons.prems(1) Write w by (auto simp: Let_def split: prod.splits)
    have "sends c s wire1 (accepted r1 buf) s1 1" using poll_write_sends [OF w] alive(1) Write by simp
    from sends_trans [OF this Cons.IH [OF t(1) alive(2)]] t show ?thesis by simp
  next
    case (Flush script)
    obtain s1 wire1 r1 where f: "flush_loop script s = (s1, wire1, r1)" by (metis prod_cases3)
    obtain wires where t: "send_all_ops c ops s1 = (s', wires, acc)" "wire = wire1 @ wires"
      using Cons.prems(1) Flush f by (auto simp: Let_def poll_flush_def split: prod.splits)
    from sends_trans [OF flush_loop_sends [OF f] Cons.IH [OF t(1) alive(2)]] t(2) show ?thesis
      by (auto intro: sends_mono)
  qed
qed

text \<open>
  The reader's side: \<open>future\<close> are the bytes that are still to arrive, \<open>ms\<close> the packets that are not opened
  yet and \<open>ps\<close> their texts.
\<close>

definition receives :: "'ts cipher \<Rightarrow> 'ts noise_stream \<Rightarrow> bytes \<Rightarrow> bytes list \<Rightarrow> bytes list \<Rightarrow> bool" where
  "receives c s future ms ps = (decrypts c (ns_noise s) ms ps \<and>
     (if ns_reading_length s
      then ns_expected_len s = LENGTH_FIELD_SIZE \<and> ns_read_buffer s @ future = concat (map write_frame ms)
      else \<exists>m ms'. ms = m # ms' \<and> ns_expected_len s = length m \<and> ns_read_buffer s @ future = m @ concat (map write_frame ms')))"

abbreviation chunks_of :: "bytes list \<Rightarrow> bytes poll list" where
  "chunks_of chunks \<equiv> map (\<lambda>b. Ready (Inr b)) chunks"

lemma receives_more: "receives c s (b @ f) ms ps \<Longrightarrow> receives c (s\<lparr>ns_read_buffer := ns_read_buffer s @ b\<rparr>) f ms ps"
  by (simp add: receives_def)

lemma receives_length:
  assumes "receives c s f ms ps" and "buffer_ready s" and "ns_reading_length s"
  shows "receives c (take_length s) f ms ps" "length (ns_read_buffer s) \<ge> LENGTH_FIELD_SIZE"
proof -
  have b: "ns_read_buffer s @ f = concat (map write_frame ms)" "decrypts c (ns_noise s) ms ps"
    and len: "length (ns_read_buffer s) \<ge> 2"
    using assms by (auto simp: receives_def buffer_ready_def LENGTH_FIELD_SIZE_def)
  from b len obtain m ms' where m: "ms = m # ms'" by (cases ms) auto
  let ?t = "concat (map write_frame ms')"
  from b(2) m have "length m \<le> 65535" by (auto elim: decrypts_ConsE)
  then have h: "from_be_bytes (be_bytes (length m)) = length m" by (rule from_be_bytes_be_bytes)
  from b(1) m have eq: "ns_read_buffer s @ f = write_frame m @ ?t" by simp
  have "take 2 (ns_read_buffer s) = take 2 (ns_read_buffer s @ f)" "drop 2 (ns_read_buffer s) @ f = drop 2 (ns_read_buffer s @ f)"
    using len by simp_all
  then have "take 2 (ns_read_buffer s) = be_bytes (length m)" "drop 2 (ns_read_buffer s) @ f = m @ ?t"
    by (simp_all only: eq write_frame_parts)
  then show "receives c (take_length s) f ms ps" using b m h
    by (simp add: receives_def take_length_def Let_def LENGTH_FIELD_SIZE_def)
  show "length (ns_read_buffer s) \<ge> LENGTH_FIELD_SIZE" using len by (simp add: LENGTH_FIELD_SIZE_def)
qed

lemma receives_packet:
  assumes "receives c s f ms ps" and "buffer_ready s" and "\<not> ns_reading_length s" and "ns_decrypted_buffer s = []"
    and "open_packet c cap s = (s', r)"
  shows "\<exists>m ms' p ps'. ms = m # ms' \<and> ps = p # ps' \<and> r = Ready (Inr (take cap p)) \<and>
    ns_decrypted_buffer s' = drop cap p \<and> receives c s' f ms' ps'"
proof -
  from assms(1,3) obtain m ms' where m: "ms = m # ms'" "ns_expected_len s = length m"
    "ns_read_buffer s @ f = m @ concat (map write_frame ms')" "decrypts c (ns_noise s) (m # ms') ps"
    by (auto simp: receives_def)
  from m(4) obtain n1 p ps' where d: "read_message c (ns_noise s) m = Some (n1, p)" "ps = p # ps'" "decrypts c n1 ms' ps'"
    by (auto elim: decrypts_ConsE)
  have len: "length (ns_read_buffer s) \<ge> length m" using assms(2) m(2) by (simp add: buffer_ready_def)
  have "take (length m) (ns_read_buffer s) = m" "drop (length m) (ns_read_buffer s) @ f = concat (map write_frame ms')"
    using arg_cong [OF m(3), of "take (length m)"] arg_cong [OF m(3), of "drop (length m)"] len by simp_all
  with assms(4,5) m d show ?thesis
    by (auto simp: open_packet_def hand_out_def Let_def receives_def min_def)
qed

lemma read_loop_receives:
  assumes "read_loop c cap (chunks_of chunks) s = (s', rest, r)" and "\<forall>b\<in>set chunks. b \<noteq> []"
    and "receives c s (concat chunks @ f) ms ps" and "ns_decrypted_buffer s = []"
  shows "(r = NotReady \<and> rest = [] \<and> receives c s' f ms ps \<and> \<not> buffer_ready s' \<and> ns_decrypted_buffer s' = []) \<or>
    (\<exists>chunks' m ms' p ps'. rest = chunks_of chunks' \<and> set chunks' \<subseteq> set chunks \<and> ms = m # ms' \<and> ps = p # ps' \<and>
       r = Ready (Inr (take cap p)) \<and> ns_decrypted_buffer s' = drop cap p \<and> receives c s' (concat chunks' @ f) ms' ps')"
  using assms
proof (induction c cap "chunks_of chunks" s arbitrary: chunks rule: read_loop.induct)
  case (1 c cap s)
  note unfold = read_loop.simps [of c cap "chunks_of chunks" s]
  show ?case
  proof (cases "buffer_ready s")
    case False
    show ?thesis
    proof (cases chunks)
      case Nil
      with "1.prems" False unfold show ?thesis by auto
    next
      case (Cons b bs)
      let ?s = "s\<lparr>ns_read_buffer := ns_read_buffer s @ b\<rparr>"
      have b: "b \<noteq> []" using "1.prems"(2) Cons by simp
      have go: "read_loop c cap (chunks_of bs) ?s = (s', rest, r)" using "1.prems"(1) Cons False b unfold by simp
      have "receives c ?s (concat bs @ f) ms ps" using "1.prems"(3) Cons by (auto intro: receives_more)
      from "1.hyps"(1) [OF False _ refl refl b go _ this] "1.prems"(2,4) Cons show ?thesis by auto
    qed
  next
    case True
    show ?thesis
    proof (cases "ns_reading_length s")
      case rl: True
      note t = receives_length [OF "1.prems"(3) True rl]
      have "read_loop c cap (chunks_of chunks) (take_length s) = (s', rest, r)" using "1.prems"(1) True rl t(2) unfold by simp
      from "1.hyps"(2) [OF _ rl t(2) refl this "1.prems"(2) t(1)] True "1.prems"(4) show ?thesis by (simp add: take_length_def Let_def)
    next
      case rl: False
      obtain s1 r1 where o: "open_packet c cap s = (s1, r1)" by (cases "open_packet c cap s")
      with "1.prems"(1) True rl unfold have "s1 = s'" "r1 = r" "rest = chunks_of chunks" by auto
      with receives_packet [OF "1.prems"(3) True rl "1.prems"(4) o] show ?thesis by blast
    qed
  qed
qed

lemma poll_read_receives:
  assumes "poll_read c cap (chunks_of chunks) s = (s', rest, r)" and "\<forall>b\<in>set chunks. b \<noteq> []" and "cap > 0"
    and "receives c s (concat chunks @ f) ms ps" and "data = ns_decrypted_buffer s @ concat ps"
  shows "\<exists>chunks' ms' ps' out. rest = chunks_of chunks' \<and> (\<forall>b\<in>set chunks'. b \<noteq> []) \<and>
    receives c s' (concat chunks' @ f) ms' ps' \<and> (case r of Ready (Inr x) \<Rightarrow> x | _ \<Rightarrow> []) = out \<and>
    data = out @ ns_decrypted_buffer s' @ concat ps' \<and>
    (length (ns_decrypted_buffer s' @ concat ps') + length ms' < length data + length ms \<or> f \<noteq> [] \<or> data = [] \<and> ms = [])"
proof (cases "ns_decrypted_buffer s = []")
  case False
  let ?n = "min cap (length (ns_decrypted_buffer s))"
  have n: "?n > 0" using False assms(3) by simp
  have "s' = s\<lparr>ns_decrypted_buffer := drop ?n (ns_decrypted_buffer s)\<rparr>" "rest = chunks_of chunks"
    "r = Ready (Inr (take ?n (ns_decrypted_buffer s)))"
    using assms(1) False by (auto simp: poll_read_def hand_out_def Let_def)
  moreover have "receives c (s\<lparr>ns_decrypted_buffer := x\<rparr>) g ms ps = receives c s g ms ps" for x g
    by (simp add: receives_def)
  moreover have "length (drop ?n (ns_decrypted_buffer s) @ concat ps) + length ms < length data + length ms"
    unfolding assms(5) length_append length_drop using n by linarith
  ultimately show ?thesis using assms(2,4,5)
    by - (rule exI [of _ chunks], rule exI [of _ ms], rule exI [of _ ps], rule exI [of _ "take ?n (ns_decrypted_buffer s)"],
        intro conjI disjI1; simp add: append_assoc [symmetric] del: append_assoc length_append length_drop)
next
  case True
  then have l: "read_loop c cap (chunks_of chunks) s = (s', rest, r)" using assms(1) by (simp add: poll_read_def)
  have done_: "data = [] \<and> ms = []" if "receives c s' [] ms ps" "\<not> buffer_ready s'"
  proof -
    from that have "ms = []" by (cases ms) (auto simp: receives_def buffer_ready_def LENGTH_FIELD_SIZE_def split: if_splits)
    with that(1) True assms(5) show ?thesis by (auto simp: receives_def elim: decrypts_NilE)
  qed
  from read_loop_receives [OF l assms(2,4) True] show ?thesis
  proof (elim disjE exE conjE)
    assume "r = NotReady" "rest = []" "receives c s' f ms ps" "\<not> buffer_ready s'" "ns_decrypted_buffer s' = []"
    with done_ True assms(5) show ?thesis
      by - (rule exI [of _ "[]"], rule exI [of _ ms], rule exI [of _ ps], cases f; simp)
  next
    fix chunks' m ms' p ps'
    assume "rest = chunks_of chunks'" "set chunks' \<subseteq> set chunks" "ms = m # ms'" "ps = p # ps'"
      "r = Ready (Inr (take cap p))" "ns_decrypted_buffer s' = drop cap p" "receives c s' (concat chunks' @ f) ms' ps'"
    with True assms(2,5) show ?thesis
      by - (rule exI [of _ chunks'], rule exI [of _ ms'], rule exI [of _ ps'], rule exI [of _ "take cap p"], auto)
  qed
qed

lemma receive_all:
  assumes "\<forall>cap\<in>set caps. cap > 0" and "\<forall>b\<in>set chunks. b \<noteq> []"
    and "receives c s (concat chunks @ f) ms ps" and "data = ns_decrypted_buffer s @ concat ps"
  shows "prefix (receive c caps (chunks_of chunks) s) data \<and>
    (f = [] \<and> length data + length ms \<le> length caps \<longrightarrow> receive c caps (chunks_of chunks) s = data)"
  using assms
proof (induction caps arbitrary: chunks s ms ps data)
  case (Cons cap caps)
  obtain s' rest r where pr: "poll_read c cap (chunks_of chunks) s = (s', rest, r)" by (metis prod_cases3)
  have "cap > 0" using Cons.prems(1) by simp
  from poll_read_receives [OF pr Cons.prems(2) this Cons.prems(3,4)]
  obtain chunks' ms' ps' out where st: "rest = chunks_of chunks'" "\<forall>b\<in>set chunks'. b \<noteq> []"
    "receives c s' (concat chunks' @ f) ms' ps'" "(case r of Ready (Inr x) \<Rightarrow> x | _ \<Rightarrow> []) = out"
    "data = out @ ns_decrypted_buffer s' @ concat ps'"
    "length (ns_decrypted_buffer s' @ concat ps') + length ms' < length data + length ms \<or> f \<noteq> [] \<or> data = [] \<and> ms = []"
    by blast
  have rec: "receive c (cap # caps) (chunks_of chunks) s = out @ receive c caps (chunks_of chunks') s'"
    using pr st(1,4) by simp
  let ?d = "ns_decrypted_buffer s' @ concat ps'"
  note ih = Cons.IH [OF _ st(2,3) refl]
  have pre: "prefix (receive c caps (chunks_of chunks') s') ?d" using ih Cons.prems(1) by simp
  have "receive c caps (chunks_of chunks') s' = ?d" if "f = []" "length data + length ms \<le> length (cap # caps)"
  proof (cases "data = [] \<and> ms = []")
    case True
    with st(5) have d: "?d = []" by simp
    with pre show ?thesis by (metis prefix_Nil)
  next
    case False
    with st(6) that have "length ?d + length ms' \<le> length caps" by simp
    with ih Cons.prems(1) that(1) show ?thesis by simp
  qed
  with pre rec st(5) show ?case by simp
qed simp


text \<open>A cipher for the examples: the state counts the messages and the text is followed by sixteen copies of the count.\<close>

definition counting_cipher :: "nat cipher" where
  "counting_cipher = \<lparr>write_message = \<lambda>n p. Some (Suc n, p @ replicate 16 (char_of n)),
     read_message = \<lambda>n m. if length m \<ge> 16 \<and> drop (length m - 16) m = replicate 16 (char_of n)
       then Some (Suc n, take (length m - 16) m) else None\<rparr>"

lemma counting_cipher_ok: "cipher_ok counting_cipher (=)"
  by (simp add: cipher_ok_def counting_cipher_def)

definition sample_ops :: "send_op list" where
  "sample_ops = [Write ''ab'' [Ready (Inr 5)], Write ''cd'' [NotReady], Write ''cd'' [Ready (Inr 100), Ready (Inr 1)], Flush [Ready (Inr 50)]]"


text \<open>
  A connection that is cut inside a packet is not always noticed. When the stream ends after the
  length field of a packet, the reader is told that the stream ended regularly; when it ends one byte
  later, the reader gets the error for an incomplete packet.
\<close>

theorem cut_after_length_unnoticed:
  assumes "0 < n" and "n \<le> 65535"
  shows "snd (poll_read c cap (chunks_of [be_bytes n, []]) (new_noise_stream r)) = ([], Ready (Inr [])) \<and>
    (1 < n \<longrightarrow> snd (poll_read c cap (chunks_of [be_bytes n @ [b], []]) (new_noise_stream r)) = ([], Ready (Inl UnexpectedEof)))"
  using assms from_be_bytes_be_bytes [OF assms(2)]
  by (auto simp: poll_read_def read_loop.simps new_noise_stream_def buffer_ready_def take_length_def Let_def
      LENGTH_FIELD_SIZE_def be_bytes_def)

theorem cut_after_length_unnoticed_witness:
  "snd (poll_read counting_cipher 100 (chunks_of [be_bytes 18, []]) (new_noise_stream 0)) = ([], Ready (Inr [])) \<and>
   snd (poll_read counting_cipher 100 (chunks_of [be_bytes 18 @ ''a'', []]) (new_noise_stream 0)) = ([], Ready (Inl UnexpectedEof))"
  using cut_after_length_unnoticed [of 18 counting_cipher 100 0 "CHR ''a''"] by simp

end
