(* ===== verification/Registry.thy ===== *)
theory Registry
  imports JobPolicy Strings
begin

text \<open>
  Who may connect: component types and environment secrets (\<open>common/src/auth.rs\<close>), the registry of
  component tokens (\<open>controller/src/component_registry.rs\<close>), the audit log (\<open>controller/src/audit.rs\<close>), the
  administration handlers (\<open>controller/src/api/admin.rs\<close>) and the first message of a connection
  (\<open>controller/src/handlers/connection.rs\<close>).

  The token hash (SHA-256 in base64) is the parameter \<open>hash\<close>; the random parts of a token are arguments.
  The SQL table is the map from its primary key to the row; \<open>ok\<close> says whether the database answers and
  \<open>upd\<close> whether the update of \<open>last_seen_at\<close>, whose result the code ignores, succeeds. Error texts
  leave out what the database driver adds.
\<close>

section \<open>Component types and secrets\<close>

datatype component_type = CtWorker | CtClient | CtPeer

fun show_component_type :: "component_type \<Rightarrow> string" where
  "show_component_type CtWorker = ''worker''"
| "show_component_type CtClient = ''client''"
| "show_component_type CtPeer = ''peer''"

definition parse_component_type :: "string \<Rightarrow> component_type option" where
  "parse_component_type s =
     (let l = to_lowercase s in
      if l = ''worker'' then Some CtWorker
      else if l = ''client'' then Some CtClient
      else if l = ''peer'' then Some CtPeer
      else None)"

record registered_component =
  rc_component_id :: string
  rc_component_type :: component_type
  rc_roles :: "string list"
  rc_created_at :: u64
  rc_last_seen_at :: "u64 option"
  rc_revoked :: bool

text \<open>The slice between the quotes panics when the line is a single quote character.\<close>

definition normalize_env_secret :: "string \<Rightarrow> panic + string option" where
  "normalize_env_secret v =
     (case str_lines v of
        [] \<Rightarrow> Inr None
      | l # _ \<Rightarrow>
          (let first_line = trim l in
           if first_line = [] \<or> contains_str first_line ''${'' then Inr None
           else if (starts_with first_line ''\"'' \<and> ends_with first_line ''\"'') \<or>
                   (starts_with first_line [CHR 0x27] \<and> ends_with first_line [CHR 0x27])
           then (if length first_line < 2 then Inl IndexOutOfBounds
                 else (let normalized = take (length first_line - 2) (drop 1 first_line) in
                       Inr (if normalized = [] then None else Some normalized)))
           else Inr (Some first_line)))"

section \<open>Audit log\<close>

record audit_event =
  ae_id :: "int option"
  ae_ts :: u64
  ae_event_type :: string
  ae_principal :: string
  ae_principal_kind :: string
  ae_component_id :: "string option"
  ae_target :: "string option"
  ae_details :: "string option"
  ae_deny_reason :: "string option"
  ae_source_ip :: "string option"

definition component_kind :: "string \<Rightarrow> string" where
  "component_kind component_id = (if CHR ''@'' \<in> set component_id then ''oidc'' else ''component'')"

definition component_register_success :: "string \<Rightarrow> string \<Rightarrow> string \<Rightarrow> audit_event" where
  "component_register_success component_id ctype principal_id =
     \<lparr>ae_id = None, ae_ts = 0, ae_event_type = ''component.register.success'', ae_principal = principal_id,
      ae_principal_kind = component_kind component_id, ae_component_id = Some component_id,
      ae_target = Some (''type='' @ ctype), ae_details = None, ae_deny_reason = None, ae_source_ip = None\<rparr>"

definition component_register_denied :: "string \<Rightarrow> string \<Rightarrow> string \<Rightarrow> string \<Rightarrow> audit_event" where
  "component_register_denied component_id ctype reason principal_id =
     \<lparr>ae_id = None, ae_ts = 0, ae_event_type = ''component.register.denied'', ae_principal = principal_id,
      ae_principal_kind = component_kind component_id, ae_component_id = Some component_id,
      ae_target = Some (''type='' @ ctype), ae_details = None, ae_deny_reason = Some reason, ae_source_ip = None\<rparr>"

definition component_token_action :: "string \<Rightarrow> string \<Rightarrow> string \<Rightarrow> audit_event" where
  "component_token_action action component_id principal_id =
     \<lparr>ae_id = None, ae_ts = 0, ae_event_type = ''component.token.'' @ action, ae_principal = principal_id,
      ae_principal_kind = ''oidc'', ae_component_id = Some component_id,
      ae_target = Some component_id, ae_details = None, ae_deny_reason = None, ae_source_ip = None\<rparr>"

text \<open>\<open>row_id\<close> is the key the database gives to the new row.\<close>

definition audit_log :: "bool \<Rightarrow> u64 \<Rightarrow> int option \<Rightarrow> audit_event \<Rightarrow> audit_event list \<Rightarrow> audit_event list" where
  "audit_log ok now row_id event rows =
     (if ok then rows @ [event\<lparr>ae_id := row_id, ae_ts := if ae_ts event = 0 then now else ae_ts event\<rparr>] else rows)"

text \<open>The query; \<open>order_desc\<close> and \<open>sql_limit\<close> are the \<open>ORDER BY ts DESC\<close> and \<open>LIMIT\<close> of the database.\<close>

definition audit_list :: "(audit_event list \<Rightarrow> audit_event list) \<Rightarrow> (int \<Rightarrow> audit_event list \<Rightarrow> audit_event list) \<Rightarrow>
    string option \<Rightarrow> string option \<Rightarrow> int option \<Rightarrow> audit_event list \<Rightarrow> audit_event list" where
  "audit_list order_desc sql_limit event_type principal_id limit rows =
     sql_limit (min (case limit of Some l \<Rightarrow> l | None \<Rightarrow> 100) 1000)
       (order_desc (filter (\<lambda>e. (\<forall>t\<in>set_option event_type. ae_event_type e = t) \<and>
                                (\<forall>p\<in>set_option principal_id. ae_principal e = p)) rows))"

section \<open>The component registry\<close>

record registry_row =
  rr_component_type :: string
  rr_token_hash :: string
  rr_roles :: string
  rr_created_at :: u64
  rr_last_seen_at :: "u64 option"
  rr_revoked :: int

type_synonym registry = "(string, registry_row) hmap"

definition plaintext_token :: "string \<Rightarrow> string \<Rightarrow> string" where
  "plaintext_token u1 u2 = ''veloce_tok_'' @ u1 @ ''_'' @ u2"

text \<open>The insertion leaves the column \<open>component_type\<close> of a row that exists as it is.\<close>

definition issue_token :: "bool \<Rightarrow> (string \<Rightarrow> string) \<Rightarrow> u64 \<Rightarrow> string \<Rightarrow> string \<Rightarrow> string \<Rightarrow> component_type \<Rightarrow> string list \<Rightarrow>
    registry \<Rightarrow> registry \<times> (string + string)" where
  "issue_token ok hash now u1 u2 component_id ct roles reg =
     (let token = plaintext_token u1 u2; token_hash = hash token; roles_str = join '','' roles in
      if \<not> ok then (reg, Inl ''Failed to insert/update token in registry'')
      else
        (hm_insert component_id
           (case hm_get reg component_id of
              None \<Rightarrow> \<lparr>rr_component_type = show_component_type ct, rr_token_hash = token_hash, rr_roles = roles_str,
                       rr_created_at = now, rr_last_seen_at = None, rr_revoked = 0\<rparr>
            | Some row \<Rightarrow> row\<lparr>rr_token_hash := token_hash, rr_roles := roles_str, rr_created_at := now,
                              rr_last_seen_at := None, rr_revoked := 0\<rparr>) reg,
         Inr token))"

definition decode_roles :: "string \<Rightarrow> string list" where
  "decode_roles roles_str = (if roles_str = [] then [] else split_on CHR '','' roles_str)"

definition to_component :: "string \<Rightarrow> component_type \<Rightarrow> registry_row \<Rightarrow> registered_component" where
  "to_component component_id ct row =
     \<lparr>rc_component_id = component_id, rc_component_type = ct, rc_roles = decode_roles (rr_roles row),
      rc_created_at = rr_created_at row, rc_last_seen_at = rr_last_seen_at row, rc_revoked = (rr_revoked row \<noteq> 0)\<rparr>"

definition touch :: "bool \<Rightarrow> u64 \<Rightarrow> string \<Rightarrow> registry \<Rightarrow> registry" where
  "touch upd now component_id reg =
     (if upd then hm_modify component_id (rr_last_seen_at_update (\<lambda>_. Some now)) reg else reg)"

definition validate_component :: "bool \<Rightarrow> bool \<Rightarrow> (string \<Rightarrow> string) \<Rightarrow> u64 \<Rightarrow> string \<Rightarrow> component_type \<Rightarrow> string \<Rightarrow>
    registry \<Rightarrow> registry \<times> (string + registered_component option)" where
  "validate_component ok upd hash now component_id ct presented_token reg =
     (if \<not> ok then (reg, Inl ''Failed to query component registry'')
      else case hm_get reg component_id of
          None \<Rightarrow> (reg, Inr None)
        | Some row \<Rightarrow>
            (case parse_component_type (rr_component_type row) of
               None \<Rightarrow> (reg, Inr None)
             | Some db_type \<Rightarrow>
                 (if db_type \<noteq> ct then (reg, Inr None)
                  else if rr_revoked row \<noteq> 0 then (reg, Inr None)
                  else if rr_token_hash row = hash presented_token
                  then (touch upd now component_id reg, Inr (Some (to_component component_id ct row)))
                  else (reg, Inr None))))"

definition validate_token :: "bool \<Rightarrow> bool \<Rightarrow> (string \<Rightarrow> string) \<Rightarrow> u64 \<Rightarrow> string \<Rightarrow> registry \<Rightarrow>
    registry \<times> (string + registered_component option)" where
  "validate_token ok upd hash now presented_token reg =
     (let presented_hash = hash presented_token in
      if \<not> ok then (reg, Inl ''Failed to query component registry by token hash'')
      else case find (\<lambda>(_, row). rr_token_hash row = presented_hash) reg of
          None \<Rightarrow> (reg, Inr None)
        | Some (component_id, row) \<Rightarrow>
            (if rr_revoked row \<noteq> 0 then (reg, Inr None)
             else (case parse_component_type (rr_component_type row) of
                     None \<Rightarrow> (touch upd now component_id reg, Inl (''Invalid component type: '' @ rr_component_type row))
                   | Some ct \<Rightarrow> (touch upd now component_id reg, Inr (Some (to_component component_id ct row))))))"

definition revoke_component :: "bool \<Rightarrow> string \<Rightarrow> registry \<Rightarrow> registry \<times> (string + unit)" where
  "revoke_component ok component_id reg =
     (if \<not> ok then (reg, Inl ''Failed to revoke component in registry'')
      else if hm_contains reg component_id
      then (hm_modify component_id (rr_revoked_update (\<lambda>_. 1)) reg, Inr ())
      else (reg, Inl ''Component not found in registry''))"

definition rotate_token :: "bool \<Rightarrow> bool \<Rightarrow> (string \<Rightarrow> string) \<Rightarrow> u64 \<Rightarrow> string \<Rightarrow> string \<Rightarrow> string \<Rightarrow> registry \<Rightarrow>
    registry \<times> (string + string)" where
  "rotate_token ok ok2 hash now u1 u2 component_id reg =
     (if \<not> ok then (reg, Inl ''Failed to query component for rotation'')
      else case hm_get reg component_id of
          None \<Rightarrow> (reg, Inl ''Component not found in registry'')
        | Some row \<Rightarrow>
            (case parse_component_type (rr_component_type row) of
               None \<Rightarrow> (reg, Inl (''Invalid component type: '' @ rr_component_type row))
             | Some ct \<Rightarrow> issue_token ok2 hash now u1 u2 component_id ct (decode_roles (rr_roles row)) reg))"

definition list_components :: "bool \<Rightarrow> registry \<Rightarrow> string + registered_component list" where
  "list_components ok reg =
     (if \<not> ok then Inl ''Failed to list components''
      else Inr (List.map_filter (\<lambda>(i, row). map_option (\<lambda>ct. to_component i ct row) (parse_component_type (rr_component_type row))) reg))"

section \<open>Administration over HTTP\<close>

text \<open>
  A reply is a status code and the body: a text, a token for a component, the list of components or audit
  events. The audit log's own failures are ignored by the handlers (\<open>aok\<close>).
\<close>

datatype admin_body = AbText string | AbToken string string | AbComponents "registered_component list"
  | AbEvents "audit_event list" | AbRevoked

type_synonym admin_reply = "nat \<times> admin_body"

record admin_db =
  ad_registry :: registry
  ad_audit :: "audit_event list"

definition is_admin :: "principal \<Rightarrow> bool" where
  "is_admin p = list_ex (\<lambda>r. r = ''admin'') (pr_roles p)"

definition admin_denied :: admin_reply where
  "admin_denied = (403, AbText ''Forbidden: admin role required'')"

definition audited :: "bool \<Rightarrow> u64 \<Rightarrow> int option \<Rightarrow> audit_event \<Rightarrow> admin_db \<Rightarrow> admin_db" where
  "audited aok now row_id e db = db\<lparr>ad_audit := audit_log aok now row_id e (ad_audit db)\<rparr>"

definition api_issue_component_token :: "bool \<Rightarrow> bool \<Rightarrow> (string \<Rightarrow> string) \<Rightarrow> u64 \<Rightarrow> int option \<Rightarrow> string \<Rightarrow> string \<Rightarrow> principal \<Rightarrow>
    string \<Rightarrow> string \<Rightarrow> string list \<Rightarrow> admin_db \<Rightarrow> admin_db \<times> admin_reply" where
  "api_issue_component_token ok aok hash now row_id u1 u2 p component_id type_text roles db =
     (if \<not> is_admin p then (db, admin_denied)
      else case parse_component_type type_text of
          None \<Rightarrow> (db, 400, AbText (''Invalid component type. Must be '' @ quoted ''worker'' @ '', '' @ quoted ''client'' @ '', or '' @ quoted ''peer''))
        | Some ct \<Rightarrow>
            (case issue_token ok hash now u1 u2 component_id ct roles (ad_registry db) of
               (reg, Inr token) \<Rightarrow>
                 (audited aok now row_id (component_token_action ''issued'' component_id (pr_user_id p)) (db\<lparr>ad_registry := reg\<rparr>),
                  201, AbToken component_id token)
             | (reg, Inl e) \<Rightarrow> (db\<lparr>ad_registry := reg\<rparr>, 500, AbText (''Failed to issue token: '' @ e))))"

definition api_list_components :: "bool \<Rightarrow> principal \<Rightarrow> admin_db \<Rightarrow> admin_reply" where
  "api_list_components ok p db =
     (if \<not> is_admin p then admin_denied
      else case list_components ok (ad_registry db) of
          Inr l \<Rightarrow> (200, AbComponents l)
        | Inl e \<Rightarrow> (500, AbText (''Failed to list components: '' @ e)))"

definition api_rotate_component_token :: "bool \<Rightarrow> bool \<Rightarrow> bool \<Rightarrow> (string \<Rightarrow> string) \<Rightarrow> u64 \<Rightarrow> int option \<Rightarrow> string \<Rightarrow> string \<Rightarrow> principal \<Rightarrow>
    string \<Rightarrow> admin_db \<Rightarrow> admin_db \<times> admin_reply" where
  "api_rotate_component_token ok ok2 aok hash now row_id u1 u2 p component_id db =
     (if \<not> is_admin p then (db, admin_denied)
      else case rotate_token ok ok2 hash now u1 u2 component_id (ad_registry db) of
          (reg, Inr token) \<Rightarrow>
            (audited aok now row_id (component_token_action ''rotated'' component_id (pr_user_id p)) (db\<lparr>ad_registry := reg\<rparr>),
             200, AbToken component_id token)
        | (reg, Inl e) \<Rightarrow>
            (db\<lparr>ad_registry := reg\<rparr>,
             if contains_str e ''not found'' then (404, AbText e) else (500, AbText (''Failed to rotate token: '' @ e))))"

definition api_revoke_component :: "bool \<Rightarrow> bool \<Rightarrow> u64 \<Rightarrow> int option \<Rightarrow> principal \<Rightarrow> string \<Rightarrow> admin_db \<Rightarrow> admin_db \<times> admin_reply" where
  "api_revoke_component ok aok now row_id p component_id db =
     (if \<not> is_admin p then (db, admin_denied)
      else case revoke_component ok component_id (ad_registry db) of
          (reg, Inr _) \<Rightarrow>
            (audited aok now row_id (component_token_action ''revoked'' component_id (pr_user_id p)) (db\<lparr>ad_registry := reg\<rparr>),
             200, AbRevoked)
        | (reg, Inl e) \<Rightarrow>
            (db\<lparr>ad_registry := reg\<rparr>,
             if contains_str e ''not found'' then (404, AbText e) else (500, AbText (''Failed to revoke component: '' @ e))))"

definition api_list_audit_events :: "bool \<Rightarrow> (audit_event list \<Rightarrow> audit_event list) \<Rightarrow> (int \<Rightarrow> audit_event list \<Rightarrow> audit_event list) \<Rightarrow>
    principal \<Rightarrow> string option \<Rightarrow> string option \<Rightarrow> int option \<Rightarrow> admin_db \<Rightarrow> admin_reply" where
  "api_list_audit_events ok order_desc sql_limit p event_type principal_id limit db =
     (if \<not> is_admin p then admin_denied
      else if ok then (200, AbEvents (audit_list order_desc sql_limit event_type principal_id limit (ad_audit db)))
      else (500, AbText ''Failed to query audit''))"

section \<open>The first message of a connection\<close>

text \<open>
  The hello messages as far as the handshake reads them. \<open>decode_frame\<close> is \<open>MessageCodec::decode\<close> on one frame:
  the frame of an old client, which carried no fields, is read as a client without a token; any other
  frame goes to \<open>deserialize\<close> (bincode).
\<close>

datatype hello = HelloWorker string "string option" | HelloClient string "string option"
  | HelloPeer string "string option" | OtherMessage

fun hello_token :: "hello \<Rightarrow> string option" where
  "hello_token (HelloWorker _ t) = t"
| "hello_token (HelloClient _ t) = t"
| "hello_token (HelloPeer _ t) = t"
| "hello_token OtherMessage = None"

definition decode_frame :: "(string \<Rightarrow> hello option) \<Rightarrow> string \<Rightarrow> hello option" where
  "decode_frame deserialize frame =
     (if length frame = 4 \<and> frame = [CHR 0x01, CHR 0x00, CHR 0x00, CHR 0x00]
      then Some (HelloClient ''legacy_client'' None)
      else deserialize frame)"

record token_policy =
  tp_worker :: "string option"
  tp_client :: "string option"
  tp_peer :: "string option"

datatype session = WorkerSession string | ClientSession string "string list" | PeerSession string
  | Redirected string | Refused string | InvalidHandshake

text \<open>The token check, the same for the three kinds of components but for the word in the messages.\<close>

datatype token_check = NoToken | TokenValid registered_component | TokenInvalid | TokenDbError string

definition check_token :: "bool \<Rightarrow> bool \<Rightarrow> (string \<Rightarrow> string) \<Rightarrow> u64 \<Rightarrow> component_type \<Rightarrow> string \<Rightarrow> string option \<Rightarrow>
    registry \<Rightarrow> registry \<times> token_check" where
  "check_token ok upd hash now ct i registration_token reg =
     (case registration_token of
        None \<Rightarrow> (reg, NoToken)
      | Some token \<Rightarrow>
          (case validate_component ok upd hash now i ct token reg of
             (reg', Inr (Some found)) \<Rightarrow> (reg', TokenValid found)
           | (reg', Inr None) \<Rightarrow> (reg', TokenInvalid)
           | (reg', Inl e) \<Rightarrow> (reg', TokenDbError e)))"

fun refusal :: "string \<Rightarrow> string \<Rightarrow> token_check \<Rightarrow> string" where
  "refusal word i NoToken = word @ '' '' @ i @ '' registration rejected: token is required but none was provided''"
| "refusal word i TokenInvalid = word @ '' '' @ i @ '' registration rejected: invalid or revoked token''"
| "refusal word i (TokenDbError e) = word @ '' '' @ i @ '' registration failed due to database error: '' @ e"
| "refusal word i (TokenValid c) = []"

definition all_client_roles :: "string list" where
  "all_client_roles = [''admin'', ''operator'', ''submitter'', ''viewer'']"

definition serve_client :: "controller_role \<Rightarrow> string option \<Rightarrow> string \<Rightarrow> string list \<Rightarrow> session" where
  "serve_client role leader_addr client_id roles =
     (if role \<noteq> Leader then Redirected (case leader_addr of Some a \<Rightarrow> a | None \<Rightarrow> [])
      else ClientSession client_id roles)"

fun handle_connection :: "token_policy \<Rightarrow> bool \<Rightarrow> bool \<Rightarrow> (string \<Rightarrow> string) \<Rightarrow> u64 \<Rightarrow> bool \<Rightarrow> int option \<Rightarrow> controller_role \<Rightarrow> string option \<Rightarrow>
    hello \<Rightarrow> admin_db \<Rightarrow> admin_db \<times> session" where
  "handle_connection tp ok upd hash now aok row_id role leader_addr (HelloWorker worker_id registration_token) db =
     (if tp_worker tp = Some ''true''
      then (case check_token ok upd hash now CtWorker worker_id registration_token (ad_registry db) of
              (reg', TokenValid _) \<Rightarrow>
                (audited aok now row_id (component_register_success worker_id ''worker'' worker_id) (db\<lparr>ad_registry := reg'\<rparr>),
                 WorkerSession worker_id)
            | (reg', TokenInvalid) \<Rightarrow>
                (audited aok now row_id (component_register_denied worker_id ''worker'' ''invalid_or_revoked_token'' worker_id)
                   (db\<lparr>ad_registry := reg'\<rparr>),
                 Refused (refusal ''Worker'' worker_id TokenInvalid))
            | (reg', e) \<Rightarrow> (db\<lparr>ad_registry := reg'\<rparr>, Refused (refusal ''Worker'' worker_id e)))
      else (db, WorkerSession worker_id))"
| "handle_connection tp ok upd hash now aok row_id role leader_addr (HelloClient client_id registration_token) db =
     (if tp_client tp = Some ''true''
      then (case check_token ok upd hash now CtClient client_id registration_token (ad_registry db) of
              (reg', TokenValid found) \<Rightarrow>
                (audited aok now row_id (component_register_success client_id ''client'' client_id) (db\<lparr>ad_registry := reg'\<rparr>),
                 serve_client role leader_addr client_id (rc_roles found))
            | (reg', e) \<Rightarrow> (db\<lparr>ad_registry := reg'\<rparr>, Refused (refusal ''Client'' client_id e)))
      else (db, serve_client role leader_addr client_id all_client_roles))"
| "handle_connection tp ok upd hash now aok row_id role leader_addr (HelloPeer controller_id registration_token) db =
     (if tp_peer tp = Some ''true''
      then (case check_token ok upd hash now CtPeer controller_id registration_token (ad_registry db) of
              (reg', TokenValid _) \<Rightarrow> (db\<lparr>ad_registry := reg'\<rparr>, PeerSession controller_id)
            | (reg', e) \<Rightarrow> (db\<lparr>ad_registry := reg'\<rparr>, Refused (refusal ''Peer'' controller_id e)))
      else (db, PeerSession controller_id))"
| "handle_connection tp ok upd hash now aok row_id role leader_addr OtherMessage db = (db, InvalidHandshake)"

section \<open>Authentication\<close>

text \<open>
  The specification: a credential per component id, as the sequence of registry operations leaves it. The
  type is the one of the first issue; a rotation replaces the token, and like a new issue it ends a
  revocation.
\<close>

datatype registry_op =
    Issue string component_type "string list" string string u64
  | Rotate string string string u64
  | Revoke string
  | Validate string component_type string u64
  | ValidateToken string u64

fun apply_op :: "(string \<Rightarrow> string) \<Rightarrow> registry_op \<Rightarrow> registry \<Rightarrow> registry" where
  "apply_op hash (Issue i ct roles u1 u2 now) reg = fst (issue_token True hash now u1 u2 i ct roles reg)"
| "apply_op hash (Rotate i u1 u2 now) reg = fst (rotate_token True True hash now u1 u2 i reg)"
| "apply_op hash (Revoke i) reg = fst (revoke_component True i reg)"
| "apply_op hash (Validate i ct token now) reg = fst (validate_component True True hash now i ct token reg)"
| "apply_op hash (ValidateToken token now) reg = fst (validate_token True True hash now token reg)"

definition run_registry :: "(string \<Rightarrow> string) \<Rightarrow> registry_op list \<Rightarrow> registry" where
  "run_registry hash ops = fold (apply_op hash) ops []"

record credential =
  cd_type :: component_type
  cd_token :: string
  cd_roles :: string
  cd_revoked :: bool

fun grant :: "registry_op \<Rightarrow> (string \<Rightarrow> credential option) \<Rightarrow> string \<Rightarrow> credential option" where
  "grant (Issue i ct roles u1 u2 now) m = m(i \<mapsto>
     \<lparr>cd_type = (case m i of None \<Rightarrow> ct | Some c \<Rightarrow> cd_type c), cd_token = plaintext_token u1 u2,
      cd_roles = join '','' roles, cd_revoked = False\<rparr>)"
| "grant (Rotate i u1 u2 now) m = m(i := map_option (\<lambda>c. c\<lparr>cd_token := plaintext_token u1 u2, cd_revoked := False\<rparr>) (m i))"
| "grant (Revoke i) m = m(i := map_option (\<lambda>c. c\<lparr>cd_revoked := True\<rparr>) (m i))"
| "grant (Validate i ct token now) m = m"
| "grant (ValidateToken token now) m = m"

definition credentials :: "registry_op list \<Rightarrow> string \<Rightarrow> credential option" where
  "credentials ops = fold grant ops (\<lambda>_. None)"

fun row_implements :: "(string \<Rightarrow> string) \<Rightarrow> registry_row option \<Rightarrow> credential option \<Rightarrow> bool" where
  "row_implements hash None None = True"
| "row_implements hash (Some row) (Some c) = (rr_component_type row = show_component_type (cd_type c) \<and>
     rr_token_hash row = hash (cd_token c) \<and> rr_roles row = cd_roles c \<and> (rr_revoked row \<noteq> 0) = cd_revoked c)"
| "row_implements hash _ _ = False"

definition registry_implements :: "(string \<Rightarrow> string) \<Rightarrow> registry \<Rightarrow> (string \<Rightarrow> credential option) \<Rightarrow> bool" where
  "registry_implements hash reg m = (\<forall>i. row_implements hash (hm_get reg i) (m i))"

lemma parse_show_component_type [simp]: "parse_component_type (show_component_type ct) = Some ct"
  by (cases ct; simp add: parse_component_type_def to_lowercase_def lower_char_def is_ascii_upper_def)

lemma row_implements_cases:
  assumes "row_implements hash a b"
  obtains "a = None" "b = None"
  | row c where "a = Some row" "b = Some c" "row_implements hash (Some row) (Some c)"
  using assms by (cases a; cases b) auto

lemma row_implements_touched [simp]:
  "row_implements hash (map_option (rr_last_seen_at_update f) a) c = row_implements hash a c"
  by (cases a; cases c) auto

lemma decode_roles_join: "join '','' (decode_roles r) = r"
  by (simp add: decode_roles_def join_split_on)

lemma implements_update:
  "registry_implements hash reg m \<Longrightarrow> row_implements hash x y \<Longrightarrow>
   (\<And>j. hm_get reg' j = (if j = i then x else hm_get reg j)) \<Longrightarrow> registry_implements hash reg' (m(i := y))"
  by (simp add: registry_implements_def)

lemma implements_touch: "registry_implements hash reg m \<Longrightarrow> registry_implements hash (touch upd now i reg) m"
  by (simp add: registry_implements_def touch_def)

lemma apply_op_implements:
  assumes "registry_implements hash reg m"
  shows "registry_implements hash (apply_op hash op reg) (grant op m)"
proof (cases op)
  case (Issue i ct roles u1 u2 now)
  from assms have "row_implements hash (hm_get reg i) (m i)" by (simp add: registry_implements_def)
  then show ?thesis unfolding Issue apply_op.simps grant.simps
    by (cases rule: row_implements_cases; intro implements_update [OF assms])
       (auto simp: issue_token_def Let_def hm_get_insert)
next
  case (Rotate i u1 u2 now)
  from assms have "row_implements hash (hm_get reg i) (m i)" by (simp add: registry_implements_def)
  then show ?thesis unfolding Rotate apply_op.simps grant.simps
    by (cases rule: row_implements_cases; intro implements_update [OF assms])
       (auto simp: rotate_token_def issue_token_def Let_def hm_get_insert decode_roles_join)
next
  case (Revoke i)
  from assms have "row_implements hash (hm_get reg i) (m i)" by (simp add: registry_implements_def)
  then show ?thesis unfolding Revoke apply_op.simps grant.simps
    by (cases rule: row_implements_cases; intro implements_update [OF assms])
       (auto simp: revoke_component_def hm_contains_def hm_get_modify)
next
  case (Validate i ct token now)
  with assms show ?thesis
    by (auto simp: validate_component_def implements_touch split: option.splits)
next
  case (ValidateToken token now)
  with assms show ?thesis
    by (auto simp: validate_token_def Let_def implements_touch split: option.splits)
qed

interpretation registry: simulation "registry_implements hash" "apply_op hash" grant "\<lambda>_. True" for hash
  by unfold_locales (rule apply_op_implements)

lemma run_registry_implements: "registry_implements hash (run_registry hash ops) (credentials ops)"
proof -
  have "registry_implements hash [] (\<lambda>_. None)" by (simp add: registry_implements_def)
  from registry.run_rel [OF this] show ?thesis by (simp add: run_registry_def credentials_def list_all_iff)
qed

lemma touch_wf: "hm_wf reg \<Longrightarrow> hm_wf (touch upd now i reg)"
  by (simp add: touch_def)

lemma issue_token_wf: "hm_wf reg \<Longrightarrow> hm_wf (fst (issue_token ok hash now u1 u2 i ct roles reg))"
  by (simp add: issue_token_def Let_def)

lemma apply_op_wf: "hm_wf reg \<Longrightarrow> hm_wf (apply_op hash op reg)"
  by (cases op)
     (auto simp: rotate_token_def revoke_component_def validate_component_def validate_token_def Let_def touch_wf issue_token_wf
       split: option.splits)

lemma run_registry_wf: "hm_wf (run_registry hash ops)"
proof -
  have "hm_wf reg \<Longrightarrow> hm_wf (fold (apply_op hash) ops reg)" for reg
    by (induction ops arbitrary: reg) (auto simp: apply_op_wf)
  then show ?thesis by (simp add: run_registry_def)
qed

definition entitled :: "registry_op list \<Rightarrow> string \<Rightarrow> component_type \<Rightarrow> string \<Rightarrow> bool" where
  "entitled ops i ct token = (case credentials ops i of
     None \<Rightarrow> False | Some cr \<Rightarrow> cd_type cr = ct \<and> cd_token cr = token \<and> \<not> cd_revoked cr)"

text \<open>What is assumed of the hash: the presented token does not collide with the token of a component.\<close>

definition collision_free :: "(string \<Rightarrow> string) \<Rightarrow> registry_op list \<Rightarrow> string \<Rightarrow> bool" where
  "collision_free hash ops token =
     (\<forall>i cr. credentials ops i = Some cr \<and> hash (cd_token cr) = hash token \<longrightarrow> cd_token cr = token)"

lemma collision_freeD:
  "collision_free hash ops token \<Longrightarrow> credentials ops i = Some cr \<Longrightarrow> (hash (cd_token cr) = hash token) = (cd_token cr = token)"
  by (auto simp: collision_free_def)

lemma validate_run:
  assumes "collision_free hash ops token"
  shows "\<exists>x. snd (validate_component True upd hash now i ct token (run_registry hash ops)) = Inr x \<and>
    (x \<noteq> None) = entitled ops i ct token \<and>
    (\<forall>c. x = Some c \<longrightarrow> rc_component_id c = i \<and> rc_roles c = decode_roles (cd_roles (the (credentials ops i))))"
proof -
  have "row_implements hash (hm_get (run_registry hash ops) i) (credentials ops i)"
    using run_registry_implements by (simp add: registry_implements_def)
  then show ?thesis
    by (cases rule: row_implements_cases)
       (auto simp: validate_component_def entitled_def to_component_def dest: collision_freeD [OF assms])
qed

lemma check_token_run:
  assumes "\<forall>token. t = Some token \<longrightarrow> collision_free hash ops token"
  obtains reg' e where "check_token True upd hash now ct j t (run_registry hash ops) = (reg', e)" "e = NoToken \<or> e = TokenInvalid"
      "\<forall>token. t = Some token \<longrightarrow> \<not> entitled ops j ct token"
  | reg' c token where "check_token True upd hash now ct j t (run_registry hash ops) = (reg', TokenValid c)"
      "t = Some token" "entitled ops j ct token" "rc_roles c = decode_roles (cd_roles (the (credentials ops j)))"
proof (cases t)
  case None
  with that(1) show ?thesis by (simp add: check_token_def)
next
  case (Some token)
  with assms have cf: "collision_free hash ops token" by simp
  obtain reg' x where v: "validate_component True upd hash now j ct token (run_registry hash ops) = (reg', Inr x)"
    "(x \<noteq> None) = entitled ops j ct token"
    "\<forall>c. x = Some c \<longrightarrow> rc_roles c = decode_roles (cd_roles (the (credentials ops j)))"
    using validate_run [OF cf, of upd now j ct]
    by (cases "validate_component True upd hash now j ct token (run_registry hash ops)") auto
  with Some that show ?thesis by (cases x) (auto simp: check_token_def)
qed

text \<open>
  C24: Component tokens authenticate. Whatever operations were made on the registry before, a token is
  accepted for a component id and type exactly when it is the token last issued or rotated for this id,
  the id was first registered with this type, and the component was not revoked since; the roles returned
  are those of that token. The presented token is assumed not to collide with another component's under the hash.
\<close>

theorem component_authentication:
  assumes "collision_free hash ops token"
  shows "\<exists>x. snd (validate_component True upd hash now i ct token (run_registry hash ops)) = Inr x \<and>
    (x \<noteq> None) = entitled ops i ct token \<and>
    (\<forall>c. x = Some c \<longrightarrow> rc_component_id c = i \<and> rc_roles c = decode_roles (cd_roles (the (credentials ops i))))"
  using assms by (rule validate_run)

definition sample_registry_ops :: "registry_op list" where
  "sample_registry_ops = [Issue ''w1'' CtWorker [''worker''] ''a'' ''b'' 10, Issue ''c1'' CtClient [''submitter'', ''viewer''] ''c'' ''d'' 11,
     Rotate ''c1'' ''e'' ''f'' 12, Revoke ''w1'']"

theorem component_authentication_witness:
  "collision_free (\<lambda>x. x) sample_registry_ops ''veloce_tok_e_f'' \<and> entitled sample_registry_ops ''c1'' CtClient ''veloce_tok_e_f'' \<and>
   \<not> entitled sample_registry_ops ''c1'' CtClient ''veloce_tok_c_d'' \<and> \<not> entitled sample_registry_ops ''w1'' CtWorker ''veloce_tok_a_b'' \<and>
   (\<exists>c. snd (validate_component True True (\<lambda>x. x) 20 ''c1'' CtClient ''veloce_tok_e_f'' (run_registry (\<lambda>x. x) sample_registry_ops)) = Inr (Some c) \<and>
      rc_roles c = [''submitter'', ''viewer''])"
proof -
  have i: "collision_free (\<lambda>x. x) sample_registry_ops t" for t by (simp add: collision_free_def)
  have c: "credentials sample_registry_ops ''c1'' = Some \<lparr>cd_type = CtClient, cd_token = ''veloce_tok_e_f'', cd_roles = ''submitter,viewer'', cd_revoked = False\<rparr>"
    "credentials sample_registry_ops ''w1'' = Some \<lparr>cd_type = CtWorker, cd_token = ''veloce_tok_a_b'', cd_roles = ''worker'', cd_revoked = True\<rparr>"
    by (simp_all add: credentials_def sample_registry_ops_def plaintext_token_def)
  have d: "decode_roles ''submitter,viewer'' = [''submitter'', ''viewer'']" by (simp add: decode_roles_def)
  from component_authentication [OF i, of True 20 "''c1''" CtClient "''veloce_tok_e_f''"] i c d
  show ?thesis by (auto simp: entitled_def)
qed

text \<open>
  C25: With tokens required, a client session is opened exactly on the leader and for an entitled client,
  with the roles of its credential; a worker or peer session exactly for an entitled worker or peer.
\<close>

theorem connection_admission:
  assumes "\<forall>token. hello_token h = Some token \<longrightarrow> collision_free hash ops token"
    and "tp_client tp = Some ''true''" and "tp_worker tp = Some ''true''" and "tp_peer tp = Some ''true''"
    and "ad_registry db = run_registry hash ops"
  shows "(snd (handle_connection tp True upd hash now aok row_id role leader_addr h db) = ClientSession i roles) =
      (\<exists>token. h = HelloClient i (Some token) \<and> role = Leader \<and> entitled ops i CtClient token \<and>
         roles = decode_roles (cd_roles (the (credentials ops i)))) \<and>
    (snd (handle_connection tp True upd hash now aok row_id role leader_addr h db) = WorkerSession i) =
      (\<exists>token. h = HelloWorker i (Some token) \<and> entitled ops i CtWorker token) \<and>
    (snd (handle_connection tp True upd hash now aok row_id role leader_addr h db) = PeerSession i) =
      (\<exists>token. h = HelloPeer i (Some token) \<and> entitled ops i CtPeer token)"
proof (cases h)
  case (HelloWorker j t)
  with assms(1) have cf: "\<forall>token. t = Some token \<longrightarrow> collision_free hash ops token" by simp
  from HelloWorker show ?thesis
    by (cases rule: check_token_run [OF cf, of upd now CtWorker j])
       (use assms(3,5) in auto)
next
  case (HelloClient j t)
  with assms(1) have cf: "\<forall>token. t = Some token \<longrightarrow> collision_free hash ops token" by simp
  from HelloClient show ?thesis
    by (cases rule: check_token_run [OF cf, of upd now CtClient j])
       (use assms(2,5) in \<open>auto simp: serve_client_def\<close>)
next
  case (HelloPeer j t)
  with assms(1) have cf: "\<forall>token. t = Some token \<longrightarrow> collision_free hash ops token" by simp
  from HelloPeer show ?thesis
    by (cases rule: check_token_run [OF cf, of upd now CtPeer j])
       (use assms(4,5) in auto)
qed auto

definition sample_admin_db :: admin_db where
  "sample_admin_db = \<lparr>ad_registry = run_registry (\<lambda>x. x) sample_registry_ops, ad_audit = []\<rparr>"

definition strict_policy :: token_policy where
  "strict_policy = \<lparr>tp_worker = Some ''true'', tp_client = Some ''true'', tp_peer = Some ''true''\<rparr>"

theorem connection_admission_witness:
  "snd (handle_connection strict_policy True True (\<lambda>x. x) 20 True None Leader None
      (HelloClient ''c1'' (Some ''veloce_tok_e_f'')) sample_admin_db) = ClientSession ''c1'' [''submitter'', ''viewer''] \<and>
   snd (handle_connection strict_policy True True (\<lambda>x. x) 20 True None Leader None
      (HelloWorker ''w1'' (Some ''veloce_tok_a_b'')) sample_admin_db) \<noteq> WorkerSession ''w1''"
proof -
  have i: "collision_free (\<lambda>x. x) sample_registry_ops t" for t by (simp add: collision_free_def)
  have e: "entitled sample_registry_ops ''c1'' CtClient ''veloce_tok_e_f''" "\<not> entitled sample_registry_ops ''w1'' CtWorker ''veloce_tok_a_b''"
    "decode_roles (cd_roles (the (credentials sample_registry_ops ''c1''))) = [''submitter'', ''viewer'']"
    by (simp_all add: entitled_def credentials_def sample_registry_ops_def plaintext_token_def decode_roles_def)
  have p: "tp_client strict_policy = Some ''true''" "tp_worker strict_policy = Some ''true''" "tp_peer strict_policy = Some ''true''"
    "ad_registry sample_admin_db = run_registry (\<lambda>x. x) sample_registry_ops"
    by (simp_all add: strict_policy_def sample_admin_db_def)
  note adm = connection_admission [OF _ p, of _ True 20 True None Leader None]
  show ?thesis
    using adm [of "HelloClient ''c1'' (Some ''veloce_tok_e_f'')" "''c1''" "[''submitter'', ''viewer'']"]
      adm [of "HelloWorker ''w1'' (Some ''veloce_tok_a_b'')" "''w1''" "[]"] e i by simp
qed

text \<open>
  Issuing a token to a component that is registered keeps its old type: the new token is refused for
  the type it was issued for and accepted for the old one. The stored type is one of the three names.
\<close>

theorem reissue_keeps_type:
  assumes "hm_get reg i = Some row" and "rr_component_type row = show_component_type old" and "old \<noteq> ct"
  shows "case issue_token True hash now u1 u2 i ct roles reg of
      (_, Inl _) \<Rightarrow> False
    | (reg', Inr token) \<Rightarrow> snd (validate_component True upd hash now' i ct token reg') = Inr None \<and>
        (\<exists>c. snd (validate_component True upd hash now' i old token reg') = Inr (Some c))"
  using assms by (auto simp: issue_token_def Let_def validate_component_def hm_get_insert)

theorem reissue_keeps_type_witness:
  "case issue_token True (\<lambda>x. x) 30 ''g'' ''h'' ''w1'' CtClient [''admin''] (run_registry (\<lambda>x. x) sample_registry_ops) of
     (_, Inl _) \<Rightarrow> False
   | (reg', Inr token) \<Rightarrow> snd (validate_component True True (\<lambda>x. x) 31 ''w1'' CtClient token reg') = Inr None \<and>
       (\<exists>c. snd (validate_component True True (\<lambda>x. x) 31 ''w1'' CtWorker token reg') = Inr (Some c))"
proof -
  have "row_implements (\<lambda>x. x) (hm_get (run_registry (\<lambda>x. x) sample_registry_ops) ''w1'') (credentials sample_registry_ops ''w1'')"
    using run_registry_implements by (simp add: registry_implements_def)
  then obtain row where "hm_get (run_registry (\<lambda>x. x) sample_registry_ops) ''w1'' = Some row" "rr_component_type row = show_component_type CtWorker"
    by (cases rule: row_implements_cases) (auto simp: credentials_def sample_registry_ops_def)
  from reissue_keeps_type [OF this, where ct = CtClient and hash = "\<lambda>x. x" and now = 30 and ?u1.0 = "''g''" and ?u2.0 = "''h''"
      and roles = "[''admin'']" and upd = True and now' = 31] show ?thesis by simp
qed

text \<open>A handler called without the role \<open>admin\<close> answers 403 and changes nothing.\<close>

lemma admin_role_required:
  assumes "\<not> is_admin p"
  shows "api_issue_component_token ok aok hash now k u1 u2 p i t roles db = (db, admin_denied)"
    "api_rotate_component_token ok ok2 aok hash now k u1 u2 p i db = (db, admin_denied)"
    "api_revoke_component ok aok now k p i db = (db, admin_denied)"
    "api_list_components ok p db = admin_denied" "api_list_audit_events ok od sl p et pr n db = admin_denied"
  using assms by (simp_all add: api_issue_component_token_def api_rotate_component_token_def api_revoke_component_def
      api_list_components_def api_list_audit_events_def)

text \<open>Without the requirement of tokens the frame of an old client opens a session with all roles.\<close>

lemma legacy_client_session:
  assumes "tp_client tp \<noteq> Some ''true''"
  shows "\<exists>h. decode_frame deserialize [CHR 0x01, CHR 0x00, CHR 0x00, CHR 0x00] = Some h \<and>
    snd (handle_connection tp ok upd hash now aok row_id Leader leader_addr h db) = ClientSession ''legacy_client'' all_client_roles"
  using assms by (simp add: decode_frame_def serve_client_def)

lemma normalize_env_secret_panic:
  "(\<exists>e. normalize_env_secret v = Inl e) \<longleftrightarrow> (\<exists>l ls. str_lines v = l # ls \<and> trim l \<in> {''\"'', [CHR 0x27]})"
proof -
  have "length x < 2 \<and> (starts_with x [c] \<and> ends_with x [c]) \<longleftrightarrow> x = [c]" for x and c :: char
    by (cases x) (auto simp: starts_with_def ends_with_def)
  then show ?thesis
    by (auto simp: normalize_env_secret_def Let_def starts_with_def ends_with_def split: list.splits)
qed

end
