(* ===== verification/HttpAuth.thy ===== *)
theory HttpAuth
  imports Registry Samples
begin

text \<open>
  Authentication of HTTP requests (\<open>controller/src/api/api_middleware.rs\<close>, \<open>get_cookie\<close> and \<open>verify_jwt\<close>'s
  caller in \<open>controller/src/auth.rs\<close>) and the tickets for WebSocket connections (\<open>controller/src/api/ws.rs\<close>).

  Parameters: \<open>verify\<close> is \<open>verify_jwt\<close> (the JWT library and the identity provider), \<open>url_decode\<close> is the
  percent decoder, \<open>hash\<close> the token hash. A header is present when it has a text value. The feature
  \<open>insecure-query-auth\<close> is off, as in the default build.
\<close>

section \<open>Requests and configuration\<close>

datatype auth_method = Jwt | ApiKey | FromTicket

record static_api_key =
  sk_id :: string
  sk_key_hash :: string
  sk_roles :: "string list"
  sk_linked_component_id :: "string option"

record http_config =
  hc_cluster_secret :: "string option"
  hc_api_key :: "string option"
  hc_api_keys :: "static_api_key list option"
  hc_allow_insecure :: "string option"

record http_request =
  hr_path :: string
  hr_query :: "string option"
  hr_upgrade :: "string option"
  hr_authorization :: "string option"
  hr_cookie :: "string option"
  hr_api_key :: "string option"

record ws_ticket =
  wt_scope :: string
  wt_job_id :: "u64 option"
  wt_expires_at :: u64
  wt_user_id :: string
  wt_roles :: "string list"

type_synonym tickets = "(string, ws_ticket) hmap"

definition get_cookie :: "string option \<Rightarrow> string \<Rightarrow> string option" where
  "get_cookie cookie name =
     (case cookie of None \<Rightarrow> None
      | Some s \<Rightarrow> map_option (drop (length name + 1))
          (find (\<lambda>p. starts_with p (name @ ''='')) (map trim (split_on CHR '';'' s))))"

section \<open>The middleware\<close>

definition query_ticket :: "(string \<Rightarrow> string option) \<Rightarrow> string \<Rightarrow> string option" where
  "query_ticket url_decode q =
     (case find (\<lambda>p. starts_with p ''ticket='') (split_on CHR ''&'' q) of
        None \<Rightarrow> None
      | Some p \<Rightarrow> (case split_on CHR ''='' p of
            _ # v # _ \<Rightarrow> Some (case url_decode v of Some d \<Rightarrow> d | None \<Rightarrow> v)
          | _ \<Rightarrow> None))"

definition ticket_principal :: "(string \<Rightarrow> string option) \<Rightarrow> u64 \<Rightarrow> http_request \<Rightarrow> tickets \<Rightarrow> (principal \<times> auth_method) option" where
  "ticket_principal url_decode now r tickets =
     (case hr_query r of None \<Rightarrow> None
      | Some q \<Rightarrow> (case query_ticket url_decode q of None \<Rightarrow> None
          | Some t \<Rightarrow> (case hm_get tickets t of None \<Rightarrow> None
              | Some ticket \<Rightarrow>
                  (if wt_expires_at ticket \<ge> now
                   then Some (\<lparr>pr_user_id = wt_user_id ticket, pr_roles = wt_roles ticket\<rparr>, FromTicket) else None))))"

definition bearer_token :: "http_request \<Rightarrow> string option" where
  "bearer_token r =
     (case hr_authorization r of
        Some s \<Rightarrow> if starts_with s ''Bearer '' then Some (trim (drop 7 s)) else get_cookie (hr_cookie r) ''veloce_session_token''
      | None \<Rightarrow> get_cookie (hr_cookie r) ''veloce_session_token'')"

definition jwt_principal :: "(string \<Rightarrow> principal option) \<Rightarrow> http_request \<Rightarrow> (principal \<times> auth_method) option" where
  "jwt_principal verify r =
     (case bearer_token r of None \<Rightarrow> None
      | Some token \<Rightarrow> map_option (\<lambda>p. (p, Jwt)) (verify token))"

definition static_principal :: "static_api_key \<Rightarrow> principal" where
  "static_principal k = \<lparr>pr_user_id = (case sk_linked_component_id k of Some i \<Rightarrow> i | None \<Rightarrow> sk_id k), pr_roles = sk_roles k\<rparr>"

definition key_principal :: "(string \<Rightarrow> string) \<Rightarrow> bool \<Rightarrow> bool \<Rightarrow> u64 \<Rightarrow> http_config \<Rightarrow> string \<Rightarrow> registry \<Rightarrow>
    registry \<times> (principal \<times> auth_method) option" where
  "key_principal hash ok upd now cfg key reg =
     (if hc_api_key cfg = Some key then (reg, Some (\<lparr>pr_user_id = ''admin'', pr_roles = [''admin'']\<rparr>, ApiKey))
      else case find (\<lambda>k. sk_key_hash k = hash key) (case hc_api_keys cfg of Some ks \<Rightarrow> ks | None \<Rightarrow> []) of
          Some k \<Rightarrow> (reg, Some (static_principal k, ApiKey))
        | None \<Rightarrow>
            (case validate_token ok upd hash now key reg of
               (reg', Inr (Some c)) \<Rightarrow> (reg', Some (\<lparr>pr_user_id = rc_component_id c, pr_roles = rc_roles c\<rparr>, ApiKey))
             | (reg', _) \<Rightarrow> (reg', None)))"

datatype auth_outcome = PassOn | PassAs principal auth_method | Unauthorized

definition finish_auth :: "http_config \<Rightarrow> (principal \<times> auth_method) option \<Rightarrow> auth_outcome" where
  "finish_auth cfg found =
     (case (if found = None \<and> hc_api_key cfg = None then Some (\<lparr>pr_user_id = ''anonymous'', pr_roles = [''admin'']\<rparr>, ApiKey) else found) of
        Some (p, m) \<Rightarrow> PassAs p m
      | None \<Rightarrow> Unauthorized)"

definition auth_middleware :: "(string \<Rightarrow> string option) \<Rightarrow> (string \<Rightarrow> principal option) \<Rightarrow> (string \<Rightarrow> string) \<Rightarrow> bool \<Rightarrow> bool \<Rightarrow> u64 \<Rightarrow>
    http_config \<Rightarrow> controller_role \<Rightarrow> tickets \<Rightarrow> http_request \<Rightarrow> registry \<Rightarrow> registry \<times> auth_outcome" where
  "auth_middleware url_decode verify hash ok upd now cfg role tickets r reg =
     (if hr_path r = ''/api/v1/internal/launch'' then (reg, PassOn)
      else
        (let is_websocket = (case hr_upgrade r of Some s \<Rightarrow> to_lowercase s = ''websocket'' | None \<Rightarrow> False);
             is_follower = (role = Follower)
         in if is_follower \<and> is_websocket then (reg, PassOn)
            else
              (let p1 = ticket_principal url_decode now r tickets;
                   p2 = (if p1 = None then jwt_principal verify r else p1)
               in if p2 \<noteq> None then (reg, finish_auth cfg p2)
                  else case hr_api_key r of
                      None \<Rightarrow> (reg, finish_auth cfg None)
                    | Some key \<Rightarrow>
                        (if hc_cluster_secret cfg = Some key \<and> hc_allow_insecure cfg \<noteq> Some ''true'' then (reg, Unauthorized)
                         else (case key_principal hash ok upd now cfg key reg of
                                 (reg', p3) \<Rightarrow> (reg', finish_auth cfg p3))))))"

text \<open>\<open>leader_only_middleware\<close>: the status 503, or \<open>None\<close> when the request is passed on.\<close>

definition leader_only_middleware :: "controller_role \<Rightarrow> nat option" where
  "leader_only_middleware role = (if role \<noteq> Leader then Some 503 else None)"

section \<open>Tickets\<close>

datatype ticket_reply = TicketCreated string u64 | TicketRefused nat string

definition has_elevated :: "principal \<Rightarrow> bool" where
  "has_elevated p = list_ex (\<lambda>r. r = ''admin'' \<or> r = ''operator'') (pr_roles p)"

definition may_have_ticket :: "principal \<Rightarrow> bool" where
  "may_have_ticket p = list_ex (\<lambda>r. r = ''admin'' \<or> r = ''operator'' \<or> r = ''submitter'' \<or> r = ''viewer'') (pr_roles p)"

definition is_restricted :: "principal \<Rightarrow> bool" where
  "is_restricted p = ((''submitter'' \<in> set (pr_roles p) \<and> \<not> has_elevated p) \<or>
     (''viewer'' \<in> set (pr_roles p) \<and> \<not> list_ex (\<lambda>r. r = ''admin'' \<or> r = ''operator'' \<or> r = ''submitter'') (pr_roles p)))"

definition ticket_check :: "principal \<Rightarrow> string \<Rightarrow> u64 option \<Rightarrow> (u64, job_info) hmap \<Rightarrow> (nat \<times> string) option" where
  "ticket_check p scope job_id jobs =
     (if scope = ''events'' then
        (if \<not> may_have_ticket p then Some (403, ''Forbidden: insufficient role'') else None)
      else if scope = ''terminal'' \<or> scope = ''vnc'' then
        (if \<not> may_have_ticket p then Some (403, ''Forbidden: insufficient role'')
         else if is_restricted p then
           (case job_id of
              None \<Rightarrow> Some (400, ''Job ID required for terminal/vnc tickets'')
            | Some jid \<Rightarrow>
                (case hm_get jobs jid of
                   None \<Rightarrow> Some (404, ''Job not found'')
                 | Some job \<Rightarrow> if ji_user_id job \<noteq> pr_user_id p then Some (403, ''Forbidden: not the job owner'') else None))
         else None)
      else Some (400, ''Invalid ticket scope''))"

definition api_create_ws_ticket :: "u64 \<Rightarrow> string \<Rightarrow> principal \<Rightarrow> string \<Rightarrow> u64 option \<Rightarrow> (u64, job_info) hmap \<Rightarrow> tickets \<Rightarrow>
    tickets \<times> ticket_reply" where
  "api_create_ws_ticket now ticket_str p scope job_id jobs tickets =
     (case ticket_check p scope job_id jobs of
        Some (status, msg) \<Rightarrow> (tickets, TicketRefused status msg)
      | None \<Rightarrow>
          (let expires_at = now + 90 in
           (hm_insert ticket_str \<lparr>wt_scope = scope, wt_job_id = job_id, wt_expires_at = expires_at,
              wt_user_id = pr_user_id p, wt_roles = pr_roles p\<rparr> tickets,
            TicketCreated ticket_str expires_at)))"

definition validate_and_redeem_ticket :: "u64 \<Rightarrow> (string, string) hmap \<Rightarrow> string \<Rightarrow> u64 option \<Rightarrow> tickets \<Rightarrow>
    tickets \<times> (string + unit)" where
  "validate_and_redeem_ticket now params expected_scope expected_job_id tickets =
     (case hm_get params ''ticket'' of
        None \<Rightarrow> (tickets, Inr ())
      | Some t \<Rightarrow>
          (case hm_get tickets t of
             None \<Rightarrow> (tickets, Inl ''Invalid or already redeemed ticket'')
           | Some ticket \<Rightarrow>
               (hm_remove t tickets,
                if wt_expires_at ticket < now then Inl ''Ticket expired''
                else if wt_scope ticket \<noteq> expected_scope then Inl ''Ticket scope mismatch''
                else if wt_job_id ticket \<noteq> expected_job_id then Inl ''Ticket job ID mismatch''
                else Inr ())))"

section \<open>What a request is let through as\<close>

lemma validate_token_entitled:
  assumes "collision_free hash ops token" and "validate_token True upd hash now token (run_registry hash ops) = (reg', Inr (Some c))"
  shows "\<exists>ct. entitled ops (rc_component_id c) ct token \<and> rc_roles c = decode_roles (cd_roles (the (credentials ops (rc_component_id c))))"
proof -
  from assms(2) obtain i row ct where f: "find (\<lambda>(_, row). rr_token_hash row = hash token) (run_registry hash ops) = Some (i, row)"
    "rr_revoked row = 0" "c = to_component i ct row"
    by (auto simp: validate_token_def Let_def split: option.splits if_splits)
  from f(1) have m: "(i, row) \<in> set (run_registry hash ops)" "rr_token_hash row = hash token"
    using find_SomeD [OF f(1)] by auto
  have "hm_get (run_registry hash ops) i = Some row" using m(1) run_registry_wf by (simp add: hm_get_iff)
  moreover have "row_implements hash (hm_get (run_registry hash ops) i) (credentials ops i)"
    using run_registry_implements by (simp add: registry_implements_def)
  ultimately obtain cr where "credentials ops i = Some cr" "row_implements hash (Some row) (Some cr)"
    by (auto elim: row_implements_cases)
  with f m(2) show ?thesis by (auto simp: entitled_def to_component_def dest: collision_freeD [OF assms(1)])
qed

lemma key_principal_reason:
  assumes "collision_free hash ops key" and "key_principal hash True upd now cfg key (run_registry hash ops) = (reg1, Some (p, m))"
  shows "hc_api_key cfg = Some key \<and> pr_user_id p = ''admin'' \<or>
    (\<exists>sk\<in>set (case hc_api_keys cfg of Some ks \<Rightarrow> ks | None \<Rightarrow> []). sk_key_hash sk = hash key \<and> p = static_principal sk) \<or>
    (\<exists>ct. entitled ops (pr_user_id p) ct key \<and> pr_roles p = decode_roles (cd_roles (the (credentials ops (pr_user_id p)))))"
proof (cases "hc_api_key cfg = Some key")
  case True
  with assms(2) show ?thesis by (auto simp: key_principal_def)
next
  case no_global: False
  let ?keys = "case hc_api_keys cfg of Some ks \<Rightarrow> ks | None \<Rightarrow> []"
  show ?thesis
  proof (cases "find (\<lambda>k. sk_key_hash k = hash key) ?keys")
    case (Some sk)
    with find_SomeD [OF Some] no_global assms(2) show ?thesis by (auto simp: key_principal_def)
  next
    case None
    obtain reg2 x where v: "validate_token True upd hash now key (run_registry hash ops) = (reg2, x)"
      by (cases "validate_token True upd hash now key (run_registry hash ops)")
    with None no_global assms(2) obtain c where c: "x = Inr (Some c)" "p = \<lparr>pr_user_id = rc_component_id c, pr_roles = rc_roles c\<rparr>"
      by (auto simp: key_principal_def split: sum.splits option.splits)
    from validate_token_entitled [OF assms(1) v [unfolded c(1)]] c(2) show ?thesis by auto
  qed
qed


definition sample_http_config :: http_config where
  "sample_http_config = \<lparr>hc_cluster_secret = Some ''mesh'', hc_api_key = Some ''key'', hc_api_keys = None, hc_allow_insecure = None\<rparr>"

definition sample_http_request :: http_request where
  "sample_http_request = \<lparr>hr_path = ''/api/v1/jobs'', hr_query = None, hr_upgrade = None, hr_authorization = None,
     hr_cookie = None, hr_api_key = Some ''veloce_tok_e_f''\<rparr>"


section \<open>Tickets\<close>

text \<open>
  C27: A terminal or VNC session that is opened with a ticket is authorized: the ticket has not expired, and
  the user who created it is an administrator or operator or owned the job for which the session is opened.
  The ticket cannot be redeemed again.
\<close>

theorem ticket_session_authorized:
  assumes "api_create_ws_ticket now t p scope job_id jobs tickets = (tickets1, TicketCreated t e)"
    and "hm_get params ''ticket'' = Some t" and "session \<in> {''terminal'', ''vnc''}"
    and "validate_and_redeem_ticket now1 params session (Some j) tickets1 = (tickets2, Inr ())"
  shows "now1 \<le> e \<and> (has_elevated p \<or> (\<exists>job. hm_get jobs j = Some job \<and> ji_user_id job = pr_user_id p)) \<and>
    (\<exists>msg. validate_and_redeem_ticket now2 params session' j' tickets2 = (tickets2, Inl msg))"
proof -
  have c: "ticket_check p scope job_id jobs = None" "e = now + 90" "hm_get tickets1 t =
      Some \<lparr>wt_scope = scope, wt_job_id = job_id, wt_expires_at = now + 90, wt_user_id = pr_user_id p, wt_roles = pr_roles p\<rparr>"
    using assms(1) by (auto simp: api_create_ws_ticket_def Let_def hm_get_insert split: option.splits)
  with assms(2,4) have m: "now1 \<le> now + 90" "scope = session" "job_id = Some j" "tickets2 = hm_remove t tickets1"
    by (auto simp: validate_and_redeem_ticket_def not_less split: if_splits)
  have "has_elevated p \<or> (\<exists>job. hm_get jobs j = Some job \<and> ji_user_id job = pr_user_id p)"
    using c(1) m(2,3) assms(3)
    by (auto simp: ticket_check_def may_have_ticket_def is_restricted_def has_elevated_def list_ex_iff split: if_splits option.splits)
  with m(1,4) c(2) assms(2) show ?thesis by (simp add: validate_and_redeem_ticket_def hm_get_remove)
qed

theorem ticket_session_authorized_witness:
  "case api_create_ws_ticket 100 ''t1'' \<lparr>pr_user_id = ''ann'', pr_roles = [''submitter'']\<rparr> ''terminal'' (Some 7)
      [(7, (sample_job 7)\<lparr>ji_user_id := ''ann''\<rparr>)] [] of (tickets1, reply) \<Rightarrow>
    reply = TicketCreated ''t1'' 190 \<and> snd (validate_and_redeem_ticket 150 [(''ticket'', ''t1'')] ''terminal'' (Some 7) tickets1) = Inr () \<and>
    (\<exists>job. hm_get [(7, (sample_job 7)\<lparr>ji_user_id := ''ann''\<rparr>)] (7 :: u64) = Some job \<and> ji_user_id job = ''ann'')"
proof -
  let ?p = "\<lparr>pr_user_id = ''ann'', pr_roles = [''submitter'']\<rparr>" and ?jobs = "[(7, (sample_job 7)\<lparr>ji_user_id := ''ann''\<rparr>)]"
  let ?c = "api_create_ws_ticket 100 ''t1'' ?p ''terminal'' (Some 7) ?jobs []"
  let ?v = "validate_and_redeem_ticket 150 [(''ticket'', ''t1'')] ''terminal'' (Some 7) (fst ?c)"
  have c: "?c = (fst ?c, TicketCreated ''t1'' 190)"
    by (simp add: api_create_ws_ticket_def ticket_check_def may_have_ticket_def is_restricted_def has_elevated_def Let_def)
  have v: "?v = (fst ?v, Inr ())"
    by (simp add: validate_and_redeem_ticket_def api_create_ws_ticket_def ticket_check_def may_have_ticket_def
        is_restricted_def has_elevated_def Let_def)
  have "has_elevated ?p \<or> (\<exists>job. hm_get ?jobs 7 = Some job \<and> ji_user_id job = pr_user_id ?p)"
    using ticket_session_authorized [OF c _ _ v, of 0 "[]" None] by simp
  moreover have "snd ?v = Inr ()" using v by (metis snd_conv)
  ultimately show ?thesis by (subst c) (simp add: has_elevated_def)
qed

text \<open>
  The middleware accepts a ticket for every path, with all roles of the user who created it, whatever
  its scope, and it does not redeem it: a request with the ticket in the query passes as that user until
  the ticket expires.
\<close>

theorem ticket_opens_every_path:
  assumes "api_create_ws_ticket now t p scope job_id jobs tickets = (tickets1, TicketCreated t e)"
    and "CHR ''&'' \<notin> set t" and "CHR ''='' \<notin> set t" and "url_decode t = Some t" and "now1 \<le> e"
    and "hr_query r = Some (''ticket='' @ t)" and "hr_path r \<noteq> ''/api/v1/internal/launch''" and "role = Leader"
  shows "auth_middleware url_decode verify hash ok upd now1 cfg role tickets1 r reg =
    (reg, PassAs \<lparr>pr_user_id = pr_user_id p, pr_roles = pr_roles p\<rparr> FromTicket)"
proof -
  have c: "e = now + 90" "hm_get tickets1 t =
      Some \<lparr>wt_scope = scope, wt_job_id = job_id, wt_expires_at = now + 90, wt_user_id = pr_user_id p, wt_roles = pr_roles p\<rparr>"
    using assms(1) by (auto simp: api_create_ws_ticket_def Let_def hm_get_insert split: option.splits)
  have "split_on CHR ''&'' (''ticket='' @ t) = [''ticket='' @ t]" using assms(2) by (intro split_on_no_sep) auto
  moreover have "split_on CHR ''='' (''ticket='' @ t) = [''ticket'', t]"
    using split_on_append [of "CHR ''=''" "''ticket''" t] split_on_no_sep [OF assms(3)] by simp
  ultimately have "query_ticket url_decode (''ticket='' @ t) = Some t"
    using assms(4) by (simp add: query_ticket_def starts_with_def)
  then show ?thesis using c assms(5-8)
    by (simp add: auth_middleware_def Let_def ticket_principal_def finish_auth_def)
qed

theorem ticket_opens_every_path_witness:
  "snd (auth_middleware Some (\<lambda>_. None) (\<lambda>x. x) True True 150 sample_http_config Leader
     (fst (api_create_ws_ticket 100 ''t1'' \<lparr>pr_user_id = ''ann'', pr_roles = [''operator'']\<rparr> ''events'' None [] []))
     (sample_http_request\<lparr>hr_path := ''/api/v1/reservations'', hr_query := Some ''ticket=t1''\<rparr>) []) =
   PassAs \<lparr>pr_user_id = ''ann'', pr_roles = [''operator'']\<rparr> FromTicket"
proof -
  let ?p = "\<lparr>pr_user_id = ''ann'', pr_roles = [''operator'']\<rparr>"
  let ?c = "api_create_ws_ticket 100 ''t1'' ?p ''events'' None [] []"
  let ?r = "sample_http_request\<lparr>hr_path := ''/api/v1/reservations'', hr_query := Some ''ticket=t1''\<rparr>"
  have c: "?c = (fst ?c, TicketCreated ''t1'' 190)"
    by (simp add: api_create_ws_ticket_def ticket_check_def may_have_ticket_def Let_def)
  have "auth_middleware Some (\<lambda>_. None) (\<lambda>x. x) True True 150 sample_http_config Leader (fst ?c) ?r [] = ([], PassAs ?p FromTicket)"
    using ticket_opens_every_path [OF c, of Some 150 ?r Leader "\<lambda>_. None" "\<lambda>x. x" True True sample_http_config "[]"]
    by simp
  then show ?thesis by simp
qed

end
