(* ===== verification/SlurmParse.thy ===== *)
theory SlurmParse
  imports Strings
begin

text \<open>
  The argument parser of the Slurm front end (\<open>veloce-slurm/src/timeparse.rs\<close>, \<open>gres.rs\<close> and \<open>parse.rs\<close>):
  time limits, generic resources, the options of \<open>sbatch\<close>, \<open>srun\<close>, \<open>squeue\<close>, \<open>scancel\<close> and \<open>sinfo\<close>, and the
  \<open>#SBATCH\<close> lines of a batch script. An index into the arguments is the list of the arguments from there
  on. Errors are the messages. The only floating-point number is the amount of memory; \<open>rnd\<close> rounds a
  real number to the nearest one that is representable.
\<close>

section \<open>Time limits\<close>

definition time_u64 :: "string \<Rightarrow> string \<Rightarrow> string + u64" where
  "time_u64 s field = (case parse_u64 s of Some n \<Rightarrow> Inr n
     | None \<Rightarrow> Inl (''invalid '' @ field @ '' in time value '' @ quoted s))"

fun bind :: "'e + 'a \<Rightarrow> ('a \<Rightarrow> 'e + 'b) \<Rightarrow> 'e + 'b" where
  "bind (Inl e) f = Inl e"
| "bind (Inr x) f = f x"

lemma bind_Inr [simp]: "bind x f = Inr y \<longleftrightarrow> (\<exists>z. x = Inr z \<and> f z = Inr y)"
  by (cases x) auto

definition parse_slurm_time :: "string \<Rightarrow> string + u64" where
  "parse_slurm_time raw =
     (let s = trim raw in
      if s = [] then Inl ''empty time value''
      else bind (case split_once CHR ''-'' s of
             Some (d, r) \<Rightarrow> bind (time_u64 d ''days'') (\<lambda>days. Inr (days, r))
           | None \<Rightarrow> Inr (0, s)) (\<lambda>(days, rest).
         bind (case split_on CHR '':'' rest of
             [m] \<Rightarrow> (if days = 0 then bind (time_u64 m ''minutes'') (\<lambda>m. Inr (0, m, 0))
                     else bind (time_u64 m ''hours'') (\<lambda>h. Inr (h, 0, 0)))
           | [a, b] \<Rightarrow> (if days = 0 then bind (time_u64 a ''minutes'') (\<lambda>m. bind (time_u64 b ''seconds'') (\<lambda>sec. Inr (0, m, sec)))
                        else bind (time_u64 a ''hours'') (\<lambda>h. bind (time_u64 b ''minutes'') (\<lambda>m. Inr (h, m, 0))))
           | [h, m, sec] \<Rightarrow> bind (time_u64 h ''hours'') (\<lambda>h. bind (time_u64 m ''minutes'') (\<lambda>m.
               bind (time_u64 sec ''seconds'') (\<lambda>sec. Inr (h, m, sec))))
           | _ \<Rightarrow> Inl (''invalid time value '' @ quoted raw)) (\<lambda>(hours, minutes, seconds).
         Inr (sat_add (sat_add (sat_add (sat_mul days 86400) (sat_mul hours 3600)) (sat_mul minutes 60)) seconds))))"

section \<open>Generic resources\<close>

record skip =
  sk_option :: string
  sk_reason :: string

definition parse_count :: "string \<Rightarrow> string \<Rightarrow> string + u64" where
  "parse_count s piece = (case parse_u64 s of Some n \<Rightarrow> Inr n | None \<Rightarrow> Inl (''invalid --gres count in '' @ quoted piece))"

definition gres_piece :: "string \<Rightarrow> (string \<times> u64) list \<times> skip list \<Rightarrow> string + (string \<times> u64) list \<times> skip list" where
  "gres_piece raw = (\<lambda>(honored, skips).
     (let piece = trim raw in
      if piece = [] then Inr (honored, skips)
      else case split_on CHR '':'' piece of
          [name, cnt] \<Rightarrow> bind (parse_count cnt piece) (\<lambda>n. Inr (honored @ [(name, n)], skips))
        | [name, kind, cnt] \<Rightarrow> bind (parse_count cnt piece) (\<lambda>_. Inr (honored, skips @
            [\<lparr>sk_option = ''--gres='' @ piece,
              sk_reason = ''typed GRES '' @ quoted (name @ '':'' @ kind) @ '' is not a Veloce GRES key; use --gres '' @ name @ '':N''\<rparr>]))
        | [cnt] \<Rightarrow> (if list_all is_ascii_digit cnt
            then bind (parse_count cnt piece) (\<lambda>n. Inr (honored @ [(''gpu'', n)], skips))
            else Inl (''invalid --gres value '' @ quoted piece))
        | _ \<Rightarrow> Inl (''invalid --gres value '' @ quoted piece)))"

fun gres_pieces :: "string list \<Rightarrow> (string \<times> u64) list \<times> skip list \<Rightarrow> string + (string \<times> u64) list \<times> skip list" where
  "gres_pieces [] acc = Inr acc"
| "gres_pieces (p # ps) acc = bind (gres_piece p acc) (gres_pieces ps)"

definition parse_gres :: "string \<Rightarrow> string + (string \<times> u64) list \<times> skip list" where
  "parse_gres raw = gres_pieces (split_on CHR '','' raw) ([], [])"

section \<open>Parsed commands\<close>

datatype tool = Sbatch | Srun | Squeue | Scancel | Sinfo

text \<open>\<open>Path::file_name\<close>, or the whole name when there is none.\<close>

definition file_name_of :: "string \<Rightarrow> string" where
  "file_name_of p = (case rev (filter (\<lambda>x. x \<noteq> [] \<and> x \<noteq> ''.'') (split_on CHR ''/'' p)) of
     [] \<Rightarrow> p | x # _ \<Rightarrow> if x = ''..'' then p else x)"

definition tool_of_name :: "string \<Rightarrow> tool option" where
  "tool_of_name n = (if n = ''sbatch'' then Some Sbatch else if n = ''srun'' then Some Srun
     else if n = ''squeue'' then Some Squeue else if n = ''scancel'' then Some Scancel
     else if n = ''sinfo'' then Some Sinfo else None)"

definition from_argv0 :: "string \<Rightarrow> tool option" where
  "from_argv0 argv0 = tool_of_name (file_name_of argv0)"

record submit_spec =
  ss_job_name :: "string option"
  ss_comment :: "string option"
  ss_nodes :: "usize option"
  ss_cores :: "u32 option"
  ss_mem_mb :: "u64 option"
  ss_walltime_secs :: "u64 option"
  ss_gres :: "(string \<times> u64) list"
  ss_array :: "string option"
  ss_dependency :: "string option"
  ss_qos :: "string option"
  ss_extra_env :: "(string \<times> string) list"

record parsed_batch =
  pb_spec :: submit_spec
  pb_skips :: "skip list"
  pb_wrap :: "string option"
  pb_script :: "string option"
  pb_script_args :: "string list"

record parsed_queue =
  pq_user :: "string option"
  pq_skips :: "skip list"

record parsed_cancel =
  pc_job_ids :: "string list"
  pc_skips :: "skip list"

definition default_spec :: submit_spec where
  "default_spec = \<lparr>ss_job_name = None, ss_comment = None, ss_nodes = None, ss_cores = None, ss_mem_mb = None,
     ss_walltime_secs = None, ss_gres = [], ss_array = None, ss_dependency = None, ss_qos = None, ss_extra_env = []\<rparr>"

definition default_batch :: parsed_batch where
  "default_batch = \<lparr>pb_spec = default_spec, pb_skips = [], pb_wrap = None, pb_script = None, pb_script_args = []\<rparr>"

section \<open>Options\<close>

text \<open>\<open>take_opt\<close> for one name, then for a list of names; the second component is what follows.\<close>

definition take_opt_name :: "string list \<Rightarrow> string \<Rightarrow> string + (string \<times> string list) option" where
  "take_opt_name args name =
     (let a = hd args in
      case strip_prefix a (name @ ''='') of
        Some v \<Rightarrow> Inr (Some (v, tl args))
      | None \<Rightarrow>
         (if a = name then
            (case tl args of
               [] \<Rightarrow> Inl (''missing value for '' @ name)
             | v # rest \<Rightarrow> (if starts_with v ''-'' \<and> name \<noteq> ''--comment'' then Inl (''missing value for '' @ name)
                           else Inr (Some (v, rest))))
          else if length name = 2 \<and> starts_with name ''-'' \<and> \<not> starts_with name ''--'' then
            (case strip_prefix a name of
               Some rest \<Rightarrow> (if rest \<noteq> [] \<and> \<not> starts_with rest ''-'' then Inr (Some (rest, tl args)) else Inr None)
             | None \<Rightarrow> Inr None)
          else Inr None))"

fun take_opt :: "string list \<Rightarrow> string list \<Rightarrow> string + (string \<times> string list) option" where
  "take_opt args [] = Inr None"
| "take_opt args (name # names) =
     (case take_opt_name args name of
        Inl e \<Rightarrow> Inl e
      | Inr (Some r) \<Rightarrow> Inr (Some r)
      | Inr None \<Rightarrow> take_opt args names)"

definition take_raw_value :: "string list \<Rightarrow> string \<Rightarrow> string + string \<times> string list" where
  "take_raw_value args name =
     (case strip_prefix (hd args) (name @ ''='') of
        Some v \<Rightarrow> Inr (v, tl args)
      | None \<Rightarrow> (case tl args of [] \<Rightarrow> Inl (''missing value for '' @ name) | v # rest \<Rightarrow> Inr (v, rest)))"

definition next_is_value :: "string list \<Rightarrow> bool" where
  "next_is_value args = (case tl args of [] \<Rightarrow> False | v # _ \<Rightarrow> \<not> starts_with v ''-'')"

definition skip_unknown_flag :: "string list \<Rightarrow> skip \<times> nat" where
  "skip_unknown_flag args =
     (let a = hd args;
          consumed = (if CHR ''='' \<in> set a then 1
                      else if starts_with a ''--'' then (if next_is_value args then 2 else 1) else 1)
      in (\<lparr>sk_option = join ''='' (take consumed args), sk_reason = ''unknown Slurm option (not mapped to veloce submit)''\<rparr>, consumed))"

definition skip_unknown_positionals :: "string list \<Rightarrow> skip list" where
  "skip_unknown_positionals args = map (\<lambda>a. \<lparr>sk_option = a, sk_reason = ''ignored extra argument''\<rparr>) args"

definition known_skips :: "(string list \<times> string) list" where
  "known_skips = [
     ([''--account'', ''-A''], ''Slurm accounts are not a Veloce object''),
     ([''--constraint'', ''-C''], ''node features/constraints are not mapped''),
     ([''--nodelist'', ''-w''], ''explicit nodelist is not mapped''),
     ([''--exclude'', ''-x''], ''node exclude lists are not mapped''),
     ([''--exclusive''], ''exclusive node allocation is not a Veloce submit flag''),
     ([''--oversubscribe''], ''oversubscribe is not a Veloce submit flag''),
     ([''--contiguous''], ''contiguous allocation is not a Veloce submit flag''),
     ([''--switches''], ''topology/switches are intentionally out of scope''),
     ([''--cpu-bind'', ''--cpu_bind''], ''CPU bind is not mapped''),
     ([''--mem-bind'', ''--mem_bind''], ''memory bind is not mapped''),
     ([''--hint''], ''CPU hint is not mapped''),
     ([''--ntasks-per-socket''], ''socket topology is not mapped''),
     ([''--ntasks-per-node''], ''ntasks-per-node is not mapped''),
     ([''-n'', ''--ntasks''], ''ntasks is not mapped; use -N/-c''),
     ([''--mem-per-cpu''], ''mem-per-cpu is not mapped; use --mem''),
     ([''--mail-user''], ''mail is not mapped''),
     ([''--mail-type''], ''mail is not mapped''),
     ([''--begin''], ''deferred start (--begin) is not mapped''),
     ([''--requeue''], ''requeue is not mapped''),
     ([''--signal''], ''job signals are not mapped''),
     ([''--open-mode''], ''log open-mode is not mapped''),
     ([''-o'', ''--output''], ''stdout path is not mapped''),
     ([''-e'', ''--error''], ''stderr path is not mapped''),
     ([''-i'', ''--input''], ''stdin path is not mapped''),
     ([''--get-user-env''], ''host env import is not mapped''),
     ([''--network''], ''network hints are not mapped''),
     ([''--mpi''], ''MPI plugin selection is not mapped''),
     ([''--spank''], ''SPANK plugins are not supported''),
     ([''-D'', ''--chdir''], ''chdir is not mapped''),
     ([''--gpus'', ''--gpus-per-node''], ''use --gres gpu:N''),
     ([''--tmp''], ''tmp disk GRES is not mapped''),
     ([''--profile''], ''Slurm acct_gather profile is not mapped'')]"

definition known_skip_flag :: "string \<Rightarrow> (string \<times> string) option" where
  "known_skip_flag a =
     (let key = (case split_once CHR ''='' a of Some (k, _) \<Rightarrow> k | None \<Rightarrow> a)
      in map_option (\<lambda>(names, reason). (hd names, reason)) (find (\<lambda>(names, reason). key \<in> set names) known_skips))"

definition skip_flag_arity :: "string list \<Rightarrow> string \<Rightarrow> nat" where
  "skip_flag_arity args canonical =
     (if CHR ''='' \<in> set (hd args) then 1
      else if canonical \<in> set [''--exclusive'', ''--oversubscribe'', ''--contiguous'', ''--requeue'', ''--get-user-env'', ''--spank''] then 1
      else if next_is_value args then 2 else 1)"

definition display_skipped :: "string list \<Rightarrow> nat \<Rightarrow> string" where
  "display_skipped args consumed = replace_str ''=='' ''='' (join ''='' (take consumed args))"

section \<open>Values\<close>

definition is_ascii_alphabetic :: "char \<Rightarrow> bool" where
  "is_ascii_alphabetic c = (is_ascii_upper c \<or> is_ascii_lower c)"

definition veloce_qos :: "string \<Rightarrow> string option" where
  "veloce_qos v = (if to_lowercase v \<in> set [''interactive'', ''production'', ''preemptible'', ''background'']
     then Some (to_lowercase v) else None)"

definition validate_array :: "string \<Rightarrow> string + unit" where
  "validate_array v =
     (if v = [] then Inl ''empty --array value''
      else if list_all (\<lambda>c. is_ascii_digit c \<or> c \<in> set ''-,:%'') v then Inr ()
      else Inl (''malformed --array value '' @ quoted v))"

definition dependency_piece :: "string \<Rightarrow> string + unit" where
  "dependency_piece raw =
     (let piece = trim raw in
      if piece = [] then Inr ()
      else case split_once CHR '':'' piece of
          None \<Rightarrow> Inl (''malformed --dependency '' @ quoted piece)
        | Some (kind, rest) \<Rightarrow>
           (if kind \<in> set [''afterok'', ''afterany'', ''afternotok''] then
              (if rest = [] \<or> \<not> list_all (\<lambda>c. is_ascii_digit c \<or> c = CHR '':'') rest
               then Inl (''malformed --dependency '' @ quoted piece) else Inr ())
            else Inl (''unsupported --dependency kind '' @ quoted kind @ '' (honor afterok, afterany, afternotok only)'')))"

fun dependency_pieces :: "string list \<Rightarrow> string + unit" where
  "dependency_pieces [] = Inr ()"
| "dependency_pieces (p # ps) = bind (dependency_piece p) (\<lambda>_. dependency_pieces ps)"

definition validate_dependency :: "string \<Rightarrow> string + unit" where
  "validate_dependency v = dependency_pieces (split_on CHR '','' v)"

text \<open>
  \<open>str::parse::<f64>\<close> on a text without letters: an optional sign, digits, and optionally a point and more
  digits, with at least one digit.
\<close>

definition parse_decimal :: "string \<Rightarrow> real option" where
  "parse_decimal s =
     (let (neg, t) = (case s of [] \<Rightarrow> (False, []) | c # u \<Rightarrow> if c = CHR ''-'' then (True, u) else if c = CHR ''+'' then (False, u) else (False, s));
          whole = takeWhile is_ascii_digit t;
          rest = dropWhile is_ascii_digit t;
          frac = (case rest of [] \<Rightarrow> [] | _ # f \<Rightarrow> f)
      in if (rest = [] \<or> hd rest = CHR ''.'') \<and> list_all is_ascii_digit frac \<and> whole @ frac \<noteq> []
         then Some ((if neg then -1 else 1) * (real (digits_value whole) + real (digits_value frac) / 10 ^ length frac))
         else None)"

text \<open>\<open>x as u64\<close>\<close>

definition real_to_u64 :: "real \<Rightarrow> u64" where
  "real_to_u64 x = of_nat (min (2 ^ 64 - 1) (nat (floor x)))"

definition parse_mem_mb :: "(real \<Rightarrow> real) \<Rightarrow> string \<Rightarrow> string + u64" where
  "parse_mem_mb rnd raw =
     (let s = trim raw;
          num = takeWhile (\<lambda>c. \<not> is_ascii_alphabetic c) s;
          suffix = trim_end_matches CHR ''B'' (to_uppercase (drop (length num) s))
      in case parse_decimal num of
           None \<Rightarrow> Inl (''invalid --mem value '' @ quoted raw)
         | Some d \<Rightarrow>
            (let n = rnd d in
             if suffix = [] \<or> suffix = ''M'' then Inr (real_to_u64 (of_int (ceiling n)))
             else if suffix = ''K'' then Inr (real_to_u64 (of_int (ceiling (rnd (n / 1024)))))
             else if suffix = ''G'' then Inr (real_to_u64 (of_int (ceiling (rnd (n * 1024)))))
             else if suffix = ''T'' then Inr (real_to_u64 (of_int (ceiling (rnd (rnd (n * 1024) * 1024)))))
             else Inl (''invalid --mem suffix in '' @ quoted raw)))"

definition parse_usize_opt :: "string \<Rightarrow> string \<Rightarrow> string + usize" where
  "parse_usize_opt v name = (case parse_unsigned (2 ^ 64 - 1) v of Some n \<Rightarrow> Inr n
     | None \<Rightarrow> Inl (''invalid '' @ name @ '' value '' @ quoted v))"

definition parse_u32_opt :: "string \<Rightarrow> string \<Rightarrow> string + u32" where
  "parse_u32_opt v name = (case parse_u32 v of Some n \<Rightarrow> Inr n
     | None \<Rightarrow> Inl (''invalid '' @ name @ '' value '' @ quoted v))"

definition add_skip :: "string \<Rightarrow> string \<Rightarrow> parsed_batch \<Rightarrow> parsed_batch" where
  "add_skip option reason out = out\<lparr>pb_skips := pb_skips out @ [\<lparr>sk_option = option, sk_reason = reason\<rparr>]\<rparr>"

definition export_piece :: "string \<Rightarrow> parsed_batch \<Rightarrow> parsed_batch" where
  "export_piece raw out =
     (let piece = trim raw in
      if piece = [] \<or> to_uppercase piece = ''NONE'' then out
      else if to_uppercase piece = ''ALL''
      then add_skip (''--export='' @ piece) ''Veloce does not inherit the submitter host environment'' out
      else case split_once CHR ''='' piece of
          Some (k, val) \<Rightarrow> out\<lparr>pb_spec := (pb_spec out)\<lparr>ss_extra_env := ss_extra_env (pb_spec out) @ [(k, val)]\<rparr>\<rparr>
        | None \<Rightarrow> add_skip (''--export='' @ piece) ''bare --export NAME is not mapped; use NAME=value'' out)"

definition apply_export :: "string \<Rightarrow> parsed_batch \<Rightarrow> parsed_batch" where
  "apply_export v out =
     (let upper = to_uppercase v in
      if upper = ''NONE'' \<or> upper = ''NONE,'' \<or> v = [] then out
      else if upper = ''ALL'' \<or> starts_with upper ''ALL,''
      then add_skip (''--export='' @ v) ''Veloce does not inherit the submitter host environment (--export=ALL)'' out
      else fold export_piece (split_on CHR '','' v) out)"

section \<open>The submit options\<close>

text \<open>
  One round of the loop on an argument that is not \<open>--\<close>: the result so far, the positional arguments and the
  arguments that remain.
\<close>

type_synonym flag_state = "parsed_batch \<times> string list \<times> string list"

definition on_opt :: "string list \<Rightarrow> string list \<Rightarrow> (string \<Rightarrow> string + parsed_batch) \<Rightarrow> string list \<Rightarrow> string + flag_state \<Rightarrow> string + flag_state" where
  "on_opt args names f positionals otherwise =
     (case take_opt args names of
        Inl e \<Rightarrow> Inl e
      | Inr (Some (v, rest)) \<Rightarrow> bind (f v) (\<lambda>out. Inr (out, positionals, rest))
      | Inr None \<Rightarrow> otherwise)"

definition set_spec :: "(submit_spec \<Rightarrow> submit_spec) \<Rightarrow> parsed_batch \<Rightarrow> parsed_batch" where
  "set_spec f out = out\<lparr>pb_spec := f (pb_spec out)\<rparr>"

definition set_qos :: "string \<Rightarrow> parsed_batch \<Rightarrow> string + parsed_batch" where
  "set_qos v out = (case veloce_qos v of
     Some q \<Rightarrow> Inr (set_spec (\<lambda>s. s\<lparr>ss_qos := Some q\<rparr>) out)
   | None \<Rightarrow> Inr (add_skip (''--qos='' @ v) ''not a Veloce QoS (interactive, production, preemptible, background)'' out))"

definition set_partition :: "string \<Rightarrow> parsed_batch \<Rightarrow> string + parsed_batch" where
  "set_partition v out = (case veloce_qos v of
     Some q \<Rightarrow> Inr (if ss_qos (pb_spec out) = None then set_spec (\<lambda>s. s\<lparr>ss_qos := Some q\<rparr>) out else out)
   | None \<Rightarrow> Inr (add_skip (''--partition='' @ v) ''Veloce has no Slurm partitions; use --qos'' out))"

definition skipped_flag :: "parsed_batch \<Rightarrow> string list \<Rightarrow> string list \<Rightarrow> flag_state" where
  "skipped_flag out positionals args =
     (case known_skip_flag (hd args) of
        Some (name, reason) \<Rightarrow>
          (let consumed = skip_flag_arity args name
           in (add_skip (display_skipped args consumed) reason out, positionals, drop consumed args))
      | None \<Rightarrow>
          (let (opt, consumed) = skip_unknown_flag args
           in (out\<lparr>pb_skips := pb_skips out @ [opt]\<rparr>, positionals, drop consumed args)))"

text \<open>The options with a value, in the order in which they are tried.\<close>

definition submit_options :: "(real \<Rightarrow> real) \<Rightarrow> parsed_batch \<Rightarrow> (string list \<times> (string \<Rightarrow> string + parsed_batch)) list" where
  "submit_options rnd out = [
     ([''-J'', ''--job-name''], \<lambda>v. Inr (set_spec (\<lambda>s. s\<lparr>ss_job_name := Some v\<rparr>) out)),
     ([''-N'', ''--nodes''], \<lambda>v. bind (parse_usize_opt v ''--nodes'') (\<lambda>n. Inr (set_spec (\<lambda>s. s\<lparr>ss_nodes := Some n\<rparr>) out))),
     ([''-c'', ''--cpus-per-task''], \<lambda>v. bind (parse_u32_opt v ''--cpus-per-task'') (\<lambda>n. Inr (set_spec (\<lambda>s. s\<lparr>ss_cores := Some n\<rparr>) out))),
     ([''--mem''], \<lambda>v. bind (parse_mem_mb rnd v) (\<lambda>n. Inr (set_spec (\<lambda>s. s\<lparr>ss_mem_mb := Some n\<rparr>) out))),
     ([''-t'', ''--time''], \<lambda>v. bind (parse_slurm_time v) (\<lambda>n. Inr (set_spec (\<lambda>s. s\<lparr>ss_walltime_secs := Some n\<rparr>) out))),
     ([''--gres''], \<lambda>v. bind (parse_gres v) (\<lambda>(g, skips). Inr (set_spec (\<lambda>s. s\<lparr>ss_gres := ss_gres s @ g\<rparr>) out\<lparr>pb_skips := pb_skips out @ skips\<rparr>))),
     ([''-a'', ''--array''], \<lambda>v. bind (validate_array v) (\<lambda>_. Inr (set_spec (\<lambda>s. s\<lparr>ss_array := Some v\<rparr>) out))),
     ([''-d'', ''--dependency''], \<lambda>v. bind (validate_dependency v) (\<lambda>_. Inr (set_spec (\<lambda>s. s\<lparr>ss_dependency := Some v\<rparr>) out))),
     ([''--comment''], \<lambda>v. Inr (set_spec (\<lambda>s. s\<lparr>ss_comment := Some v\<rparr>) out)),
     ([''--wrap''], \<lambda>v. Inr (out\<lparr>pb_wrap := Some v\<rparr>)),
     ([''--qos''], \<lambda>v. set_qos v out),
     ([''-p'', ''--partition''], \<lambda>v. set_partition v out),
     ([''--export''], \<lambda>v. Inr (apply_export v out))]"

definition other_flag :: "bool \<Rightarrow> parsed_batch \<Rightarrow> string list \<Rightarrow> string list \<Rightarrow> string + flag_state" where
  "other_flag allow_positionals out positionals args =
     (let a = hd args in
      if a = ''--licenses'' \<or> starts_with a ''--licenses='' \<or> a = ''-L'' then
        bind (take_raw_value args ''--licenses'') (\<lambda>(val, rest).
          Inr (add_skip (''--licenses='' @ val)
            ''Slurm license tokens are not FlexLM; use Veloce license wait when you want a real checkout'' out, positionals, rest))
      else if starts_with a ''-'' then Inr (skipped_flag out positionals args)
      else if allow_positionals then Inr (out, positionals @ [a], tl args)
      else Inl (''unexpected token '' @ quoted a @ '' in #SBATCH''))"

definition submit_flag :: "(real \<Rightarrow> real) \<Rightarrow> bool \<Rightarrow> parsed_batch \<Rightarrow> string list \<Rightarrow> string list \<Rightarrow> string + flag_state" where
  "submit_flag rnd allow_positionals out positionals args =
     foldr (\<lambda>(names, f) otherwise. on_opt args names f positionals otherwise) (submit_options rnd out)
       (other_flag allow_positionals out positionals args)"

text \<open>Every round consumes an argument, so the loop ends.\<close>

lemma take_opt_shorter: "args \<noteq> [] \<Longrightarrow> take_opt args names = Inr (Some (v, rest)) \<Longrightarrow> length rest < length args"
proof (induction names)
  case (Cons n names)
  have "take_opt_name args n = Inr (Some (v, rest)) \<Longrightarrow> length rest < length args"
    using Cons.prems(1) by (cases args) (auto simp: take_opt_name_def Let_def split: option.splits if_splits list.splits)
  then show ?case using Cons by (auto split: sum.splits option.splits)
qed simp

lemma on_opt_shorter:
  assumes "on_opt args names f ps k = Inr (out, ps', rest)" "args \<noteq> []"
    "\<And>out ps' rest. k = Inr (out, ps', rest) \<Longrightarrow> length rest < length args"
  shows "length rest < length args"
proof (cases "take_opt args names")
  case (Inr r)
  show ?thesis
  proof (cases r)
    case None
    then show ?thesis using Inr assms(1,3) by (simp add: on_opt_def)
  next
    case (Some p)
    then obtain v where "take_opt args names = Inr (Some (v, rest))" using Inr assms(1) by (cases p) (auto simp: on_opt_def)
    then show ?thesis by (rule take_opt_shorter [OF assms(2)])
  qed
qed (use assms(1) in \<open>simp add: on_opt_def\<close>)

lemma skipped_flag_shorter:
  assumes "args \<noteq> []" "skipped_flag out ps args = (out', ps', rest)" shows "length rest < length args"
proof -
  have "0 < snd (skip_unknown_flag args)" "0 < skip_flag_arity args name" for name
    by (simp_all add: skip_unknown_flag_def skip_flag_arity_def Let_def)
  then show ?thesis using assms
    by (auto simp: skipped_flag_def Let_def split: option.splits prod.splits)
qed

lemma take_raw_shorter: "args \<noteq> [] \<Longrightarrow> take_raw_value args name = Inr (v, rest) \<Longrightarrow> length rest < length args"
  by (cases args) (auto simp: take_raw_value_def split: option.splits list.splits)

lemma other_flag_shorter:
  "args \<noteq> [] \<Longrightarrow> other_flag allow out ps args = Inr (out', ps', rest) \<Longrightarrow> length rest < length args"
  by (auto simp: other_flag_def Let_def dest: take_raw_shorter skipped_flag_shorter split: if_splits prod.splits)

lemma submit_flag_shorter:
  assumes "args \<noteq> []" "submit_flag rnd allow out ps args = Inr (out', ps', rest)"
  shows "length rest < length args"
proof -
  have "foldr (\<lambda>(names, f) k. on_opt args names f ps k) opts (other_flag allow out ps args) = Inr (out', ps', rest) \<Longrightarrow>
      length rest < length args" for opts out' ps' rest
  proof (induction opts arbitrary: out' ps' rest)
    case Nil
    then show ?case using other_flag_shorter [OF assms(1)] by simp
  next
    case (Cons p opts)
    obtain names f where p: "p = (names, f)" by (cases p)
    show ?case by (rule on_opt_shorter [OF _ assms(1)]) (use Cons p in auto)
  qed
  then show ?thesis using assms(2) unfolding submit_flag_def by blast
qed

function flag_loop :: "(real \<Rightarrow> real) \<Rightarrow> bool \<Rightarrow> parsed_batch \<Rightarrow> string list \<Rightarrow> string list \<Rightarrow> string + parsed_batch \<times> string list" where
  "flag_loop rnd allow out positionals args =
     (case args of [] \<Rightarrow> Inr (out, positionals)
      | a # rest \<Rightarrow>
         (if a = ''--'' then Inr (out, positionals @ rest)
          else (case submit_flag rnd allow out positionals args of
              Inl e \<Rightarrow> Inl e
            | Inr (out', positionals', rest') \<Rightarrow> flag_loop rnd allow out' positionals' rest')))"
  by auto
termination
  by (relation "measure (\<lambda>(rnd, allow, out, positionals, args). length args)") (auto dest: submit_flag_shorter [rotated])

declare flag_loop.simps [simp del]

definition parse_submit_flags :: "(real \<Rightarrow> real) \<Rightarrow> string list \<Rightarrow> bool \<Rightarrow> string + parsed_batch" where
  "parse_submit_flags rnd args allow_positionals =
     bind (flag_loop rnd allow_positionals default_batch [] args) (\<lambda>(out, positionals).
       Inr (if allow_positionals \<and> positionals \<noteq> []
            then (if pb_wrap out \<noteq> None then out\<lparr>pb_script_args := positionals\<rparr>
                  else out\<lparr>pb_script := Some (hd positionals), pb_script_args := tl positionals\<rparr>)
            else out))"

section \<open>Batch scripts\<close>

text \<open>The state of the splitter: the tokens, the current token and the open quote.\<close>

definition shellish_char :: "char \<Rightarrow> string list \<times> string \<times> char option \<Rightarrow> string list \<times> string \<times> char option" where
  "shellish_char c = (\<lambda>(out, cur, quote).
     (case quote of
        Some q \<Rightarrow> (if c = q then (out, cur, None) else (out, cur @ [c], quote))
      | None \<Rightarrow> (if c = CHR 0x27 \<or> c = CHR 0x22 then (out, cur, Some c)
                 else if is_space c then (if cur \<noteq> [] then (out @ [cur], [], None) else (out, cur, None))
                 else (out, cur @ [c], None))))"

definition shellish_split :: "string \<Rightarrow> string list" where
  "shellish_split s = (case fold shellish_char s ([], [], None) of
     (out, cur, _) \<Rightarrow> if cur \<noteq> [] then out @ [cur] else out)"

fun sbatch_args :: "string list \<Rightarrow> string list" where
  "sbatch_args [] = []"
| "sbatch_args (line # ls) =
     (let trimmed = trim line in
      if trimmed = [] then sbatch_args ls
      else if starts_with trimmed ''#!'' then sbatch_args ls
      else case strip_prefix trimmed ''#SBATCH'' of
          Some rest \<Rightarrow> shellish_split (trim rest) @ sbatch_args ls
        | None \<Rightarrow> if starts_with trimmed ''#'' then sbatch_args ls else [])"

definition sbatch_lines_to_args :: "string \<Rightarrow> string list" where
  "sbatch_lines_to_args body = sbatch_args (str_lines body)"

definition or_else :: "'a option \<Rightarrow> 'a option \<Rightarrow> 'a option" where
  "or_else x y = (case x of Some _ \<Rightarrow> x | None \<Rightarrow> y)"

definition merge_batch :: "parsed_batch \<Rightarrow> parsed_batch \<Rightarrow> parsed_batch" where
  "merge_batch script cli =
     (let s = pb_spec script; c = pb_spec cli in
      \<lparr>pb_spec = \<lparr>ss_job_name = or_else (ss_job_name c) (ss_job_name s), ss_comment = or_else (ss_comment c) (ss_comment s),
         ss_nodes = or_else (ss_nodes c) (ss_nodes s), ss_cores = or_else (ss_cores c) (ss_cores s),
         ss_mem_mb = or_else (ss_mem_mb c) (ss_mem_mb s), ss_walltime_secs = or_else (ss_walltime_secs c) (ss_walltime_secs s),
         ss_gres = (if ss_gres c \<noteq> [] then ss_gres c else ss_gres s), ss_array = or_else (ss_array c) (ss_array s),
         ss_dependency = or_else (ss_dependency c) (ss_dependency s), ss_qos = or_else (ss_qos c) (ss_qos s),
         ss_extra_env = ss_extra_env s @ ss_extra_env c\<rparr>,
       pb_skips = pb_skips script @ pb_skips cli,
       pb_wrap = or_else (pb_wrap cli) (pb_wrap script),
       pb_script = or_else (pb_script cli) (pb_script script),
       pb_script_args = (if pb_script_args cli = [] then pb_script_args script else pb_script_args cli)\<rparr>)"

definition command_tokens :: "parsed_batch \<Rightarrow> string list" where
  "command_tokens p = (case pb_wrap p of
     Some wrap \<Rightarrow> [''/bin/sh'', ''-lc'', wrap]
   | None \<Rightarrow> (case pb_script p of Some script \<Rightarrow> script # pb_script_args p | None \<Rightarrow> pb_script_args p))"

definition parse_sbatch :: "(real \<Rightarrow> real) \<Rightarrow> string list \<Rightarrow> string option \<Rightarrow> string + parsed_batch" where
  "parse_sbatch rnd args script_body =
     bind (parse_submit_flags rnd args True) (\<lambda>parsed.
     bind (case script_body of
             Some body \<Rightarrow> bind (parse_submit_flags rnd (sbatch_lines_to_args body) False) (\<lambda>from_script. Inr (merge_batch from_script parsed))
           | None \<Rightarrow> Inr parsed) (\<lambda>parsed.
       if pb_wrap parsed \<noteq> None \<and> pb_script parsed \<noteq> None then Inl ''sbatch: cannot combine --wrap with a batch script''
       else if pb_wrap parsed = None \<and> pb_script parsed = None then Inl ''sbatch: missing batch script or --wrap''
       else Inr parsed))"

definition parse_srun :: "(real \<Rightarrow> real) \<Rightarrow> string list \<Rightarrow> string + parsed_batch" where
  "parse_srun rnd args = bind (parse_submit_flags rnd args True) (\<lambda>parsed.
     if command_tokens parsed = [] \<and> pb_wrap parsed = None then Inl ''srun: missing command'' else Inr parsed)"

section \<open>The other tools\<close>

lemma skip_unknown_pos: "0 < snd (skip_unknown_flag args)"
  by (simp add: skip_unknown_flag_def Let_def)

function queue_loop :: "parsed_queue \<Rightarrow> string list \<Rightarrow> string + parsed_queue" where
  "queue_loop out args =
     (case args of [] \<Rightarrow> Inr out
      | a # rest \<Rightarrow>
         (if a = ''--'' then Inr (out\<lparr>pq_skips := pq_skips out @ skip_unknown_positionals rest\<rparr>)
          else (case take_opt args [''-u'', ''--user''] of
              Inl e \<Rightarrow> Inl e
            | Inr (Some (v, rest')) \<Rightarrow> queue_loop (out\<lparr>pq_user := Some v\<rparr>) rest'
            | Inr None \<Rightarrow>
               (if a = ''--me'' then queue_loop (out\<lparr>pq_user := Some ''__mine__''\<rparr>) rest
                else if starts_with a ''-'' then
                  queue_loop (out\<lparr>pq_skips := pq_skips out @ [fst (skip_unknown_flag args)]\<rparr>) (drop (snd (skip_unknown_flag args)) args)
                else queue_loop (out\<lparr>pq_skips := pq_skips out @
                  [\<lparr>sk_option = a, sk_reason = ''squeue positional arguments are not used''\<rparr>]\<rparr>) rest))))"
  by auto
termination
  by (relation "measure (\<lambda>(out, args). length args)") (auto dest: take_opt_shorter [rotated] simp: skip_unknown_pos simp del: take_opt.simps)

definition parse_squeue :: "string list \<Rightarrow> string + parsed_queue" where
  "parse_squeue args = queue_loop \<lparr>pq_user = None, pq_skips = []\<rparr> args"

function cancel_loop :: "parsed_cancel \<Rightarrow> string list \<Rightarrow> parsed_cancel" where
  "cancel_loop out args =
     (case args of [] \<Rightarrow> out
      | a # rest \<Rightarrow>
         (if starts_with a ''-'' \<and> a \<noteq> ''--'' then
            cancel_loop (out\<lparr>pc_skips := pc_skips out @ [fst (skip_unknown_flag args)]\<rparr>) (drop (snd (skip_unknown_flag args)) args)
          else if a = ''--'' then cancel_loop out rest
          else cancel_loop (out\<lparr>pc_job_ids := pc_job_ids out @ [a]\<rparr>) rest))"
  by auto
termination
  by (relation "measure (\<lambda>(out, args). length args)") (auto simp: skip_unknown_pos)

definition parse_scancel :: "string list \<Rightarrow> string + parsed_cancel" where
  "parse_scancel args = (let out = cancel_loop \<lparr>pc_job_ids = [], pc_skips = []\<rparr> args
     in if pc_job_ids out = [] then Inl ''scancel: missing job id'' else Inr out)"

function parse_sinfo :: "string list \<Rightarrow> skip list" where
  "parse_sinfo args =
     (case args of [] \<Rightarrow> []
      | a # rest \<Rightarrow>
         (if starts_with a ''-'' then fst (skip_unknown_flag args) # parse_sinfo (drop (snd (skip_unknown_flag args)) args)
          else \<lparr>sk_option = a, sk_reason = ''sinfo positional arguments are not used''\<rparr> # parse_sinfo rest))"
  by auto
termination
  by (relation "measure length") (auto simp: skip_unknown_pos)

declare queue_loop.simps [simp del] cancel_loop.simps [simp del] parse_sinfo.simps [simp del]

section \<open>What the time forms mean\<close>

lemma trim_id:
  assumes "s \<noteq> []" "\<not> is_space (hd s)" "\<not> is_space (last s)" shows "trim s = s"
proof -
  have "trim_start s = s" using assms by (cases s) (auto simp: trim_start_def)
  moreover have "trim_end s = s" using assms by (cases s rule: rev_cases) (auto simp: trim_end_def)
  ultimately show ?thesis by (simp add: trim_def)
qed

lemma show_not_space: "c \<in> set (show_u64 n) \<Longrightarrow> \<not> is_space c"
  using show_nat_digits [of "unat n"] by (auto simp: show_u64_def list_all_iff is_ascii_digit_def is_space_def)

lemma trim_shown: "trim (show_u64 a @ mid @ show_u64 b) = show_u64 a @ mid @ show_u64 b"
  by (rule trim_id) (simp_all add: show_not_space [OF hd_in_set] show_not_space [OF last_in_set])

lemma trim_show: "trim (show_u64 a) = show_u64 a"
  by (rule trim_id) (simp_all add: show_not_space [OF hd_in_set] show_not_space [OF last_in_set])

lemma time_u64_show [simp]: "time_u64 (show_u64 (n :: u64)) f = Inr n"
  by (simp add: time_u64_def)

definition seconds :: "string + u64 \<Rightarrow> nat \<Rightarrow> bool" where
  "seconds r n = (\<exists>w. r = Inr w \<and> unat w = min n (2 ^ 64 - 1))"

lemma time_total:
  "seconds (Inr (sat_add (sat_add (sat_add (sat_mul d 86400) (sat_mul h 3600)) (sat_mul m 60)) s))
     (86400 * unat (d :: u64) + 3600 * unat h + 60 * unat m + unat s)"
  unfolding seconds_def by (simp add: sat_simps) linarith

lemmas time_parse_simps = parse_slurm_time_def trim_show trim_shown split_once_none split_once_append split_on_no_sep split_on_append

text \<open>
  Time limits mean what they say. Every printed form parses to its number of seconds, saturating at
  the largest 64-bit value: minutes, minutes and seconds, hours minutes and seconds, and with a number of
  days that is not zero also days and hours, with or without minutes and seconds. With zero days in front
  the shorter forms are read as minutes and seconds instead of hours and minutes.
\<close>

theorem slurm_time_forms:
  fixes d h m s :: u64
  shows "seconds (parse_slurm_time (show_u64 m)) (60 * unat m) \<and>
    seconds (parse_slurm_time (show_u64 m @ '':'' @ show_u64 s)) (60 * unat m + unat s) \<and>
    seconds (parse_slurm_time (show_u64 h @ '':'' @ show_u64 m @ '':'' @ show_u64 s)) (3600 * unat h + 60 * unat m + unat s) \<and>
    seconds (parse_slurm_time (show_u64 d @ ''-'' @ show_u64 h))
      (if d = 0 then 60 * unat h else 86400 * unat d + 3600 * unat h) \<and>
    seconds (parse_slurm_time (show_u64 d @ ''-'' @ show_u64 h @ '':'' @ show_u64 m))
      (if d = 0 then 60 * unat h + unat m else 86400 * unat d + 3600 * unat h + 60 * unat m) \<and>
    seconds (parse_slurm_time (show_u64 d @ ''-'' @ show_u64 h @ '':'' @ show_u64 m @ '':'' @ show_u64 s))
      (86400 * unat d + 3600 * unat h + 60 * unat m + unat s)"
proof (intro conjI)
  show "seconds (parse_slurm_time (show_u64 m)) (60 * unat m)"
    using time_total [of 0 0 m 0] by (simp add: time_parse_simps)
  show "seconds (parse_slurm_time (show_u64 m @ '':'' @ show_u64 s)) (60 * unat m + unat s)"
    using time_total [of 0 0 m s] trim_shown [of m "'':''" s] by (simp add: time_parse_simps)
  show "seconds (parse_slurm_time (show_u64 h @ '':'' @ show_u64 m @ '':'' @ show_u64 s)) (3600 * unat h + 60 * unat m + unat s)"
    using time_total [of 0 h m s] trim_shown [of h "'':'' @ show_u64 m @ '':''" s] by (simp add: time_parse_simps)
  show "seconds (parse_slurm_time (show_u64 d @ ''-'' @ show_u64 h))
      (if d = 0 then 60 * unat h else 86400 * unat d + 3600 * unat h)"
    using time_total [of 0 0 h 0] time_total [of d h 0 0] trim_shown [of d "''-''" h] by (simp add: time_parse_simps)
  show "seconds (parse_slurm_time (show_u64 d @ ''-'' @ show_u64 h @ '':'' @ show_u64 m))
      (if d = 0 then 60 * unat h + unat m else 86400 * unat d + 3600 * unat h + 60 * unat m)"
    using time_total [of 0 0 h m] time_total [of d h m 0] trim_shown [of d "''-'' @ show_u64 h @ '':''" m]
    by (simp add: time_parse_simps)
  show "seconds (parse_slurm_time (show_u64 d @ ''-'' @ show_u64 h @ '':'' @ show_u64 m @ '':'' @ show_u64 s))
      (86400 * unat d + 3600 * unat h + 60 * unat m + unat s)"
    using time_total [of d h m s] trim_shown [of d "''-'' @ show_u64 h @ '':'' @ show_u64 m @ '':''" s]
    by (simp add: time_parse_simps)
qed

section \<open>Options of a batch script and of the command line\<close>

lemma or_else_simps [simp]: "or_else (Some x) y = Some x" "or_else None y = y"
  by (simp_all add: or_else_def)

end
