(* ===== verification/SlurmFacade.thy ===== *)
theory SlurmFacade
  imports SlurmParse
begin

text \<open>
  The Slurm front end around its parser: the translation of a parsed call into arguments of \<open>veloce --json\<close>
  (\<open>veloce-slurm/src/invoke.rs\<close>, \<open>wrap.rs\<close>), the output in the form of Slurm (\<open>format.rs\<close>) and the five
  tools (\<open>lib.rs\<close>).

  The process runner is the parameter \<open>run\<close>, a function on a state \<open>'s\<close> that gives the outcome of running
  the \<open>veloce\<close> binary with given arguments. \<open>from_str\<close> is \<open>serde_json::from_str\<close>; an object is the list of its
  entries in the order of the map. Error texts leave out what the JSON library adds.
\<close>

section \<open>Calls of the client\<close>

definition slurm_env_export :: string where
  "slurm_env_export = concat [
     ''export SLURM_JOB_ID=\"${VELOCE_JOB_ID:-}\" '',
     ''SLURM_ARRAY_JOB_ID=\"${VELOCE_ARRAY_JOB_ID:-}\" '',
     ''SLURM_ARRAY_TASK_ID=\"${VELOCE_ARRAY_TASK_ID:-}\" '',
     ''SLURM_NODELIST=\"${VELOCE_NODES:-}\" '',
     ''SLURM_NNODES=\"${VELOCE_NODE_COUNT:-}\" '',
     ''SLURM_PROCID=\"${VELOCE_RANK:-}\"; exec \"$@\"'']"

definition wrap_command :: "string list \<Rightarrow> string list" where
  "wrap_command command = [''/bin/sh'', ''-c'', slurm_env_export, ''slurm-env''] @ command"

definition opt_arg :: "string \<Rightarrow> string option \<Rightarrow> string list" where
  "opt_arg flag v = (case v of Some x \<Rightarrow> [flag, x] | None \<Rightarrow> [])"

definition push_spec :: "submit_spec \<Rightarrow> string list" where
  "push_spec spec =
     opt_arg ''--name'' (ss_job_name spec) @
     opt_arg ''--comment'' (ss_comment spec) @
     opt_arg ''--nodes'' (map_option show_nat (ss_nodes spec)) @
     opt_arg ''--cores'' (map_option show_u64 (ss_cores spec)) @
     opt_arg ''--mem'' (map_option show_u64 (ss_mem_mb spec)) @
     opt_arg ''--walltime'' (map_option show_u64 (ss_walltime_secs spec)) @
     concat (map (\<lambda>(k, n). [''--gres'', k @ '':'' @ show_u64 n]) (ss_gres spec)) @
     opt_arg ''--array'' (ss_array spec) @
     opt_arg ''--dependency'' (ss_dependency spec) @
     opt_arg ''--qos'' (ss_qos spec) @
     concat (map (\<lambda>(k, v). [''-e'', k @ ''='' @ v]) (ss_extra_env spec))"

definition submit_invocation :: "submit_spec \<Rightarrow> string list \<Rightarrow> bool \<Rightarrow> string list" where
  "submit_invocation spec command wait =
     [''--json'', ''submit''] @ push_spec spec @ (if wait then [''--wait''] else []) @ wrap_command command"

definition step_invocation :: "submit_spec \<Rightarrow> string \<Rightarrow> string list \<Rightarrow> bool \<Rightarrow> string list" where
  "step_invocation spec job_id command wait =
     [''--json'', ''step''] @
     opt_arg ''--nodes'' (map_option show_nat (ss_nodes spec)) @
     opt_arg ''--cores'' (map_option show_u64 (ss_cores spec)) @
     concat (map (\<lambda>(k, n). [''--gres'', k @ '':'' @ show_u64 n]) (ss_gres spec)) @
     concat (map (\<lambda>(k, v). [''-e'', k @ ''='' @ v]) (ss_extra_env spec)) @
     [''--job-id'', job_id] @ (if wait then [''--wait''] else []) @ wrap_command command"

definition jobs_list :: "string option \<Rightarrow> string list" where
  "jobs_list user = [''--json'', ''jobs'', ''list''] @
     (case user of Some u \<Rightarrow> if u = ''__mine__'' then [''--mine''] else [''--user'', u] | None \<Rightarrow> [])"

definition jobs_kill :: "string \<Rightarrow> string list" where
  "jobs_kill job_id = [''--json'', ''jobs'', ''kill'', job_id]"

definition nodes_list :: "string list" where
  "nodes_list = [''--json'', ''nodes'', ''list'']"

section \<open>Output\<close>

datatype json = JNull | JBool bool | JInt int | JFloat | JString string | JArray "json list" | JObject "(string \<times> json) list"

fun json_get :: "json \<Rightarrow> string \<Rightarrow> json option" where
  "json_get (JObject m) k = map_of m k"
| "json_get _ k = None"

fun as_u64 :: "json \<Rightarrow> u64 option" where
  "as_u64 (JInt n) = (if 0 \<le> n \<and> n < 2 ^ 64 then Some (of_int n) else None)"
| "as_u64 _ = None"

fun as_i64 :: "json \<Rightarrow> int option" where
  "as_i64 (JInt n) = (if - (2 ^ 63) \<le> n \<and> n < 2 ^ 63 then Some n else None)"
| "as_i64 _ = None"

fun as_str :: "json \<Rightarrow> string option" where
  "as_str (JString s) = Some s"
| "as_str _ = None"

fun as_array :: "json \<Rightarrow> json list option" where
  "as_array (JArray a) = Some a"
| "as_array _ = None"

fun as_bool :: "json \<Rightarrow> bool option" where
  "as_bool (JBool b) = Some b"
| "as_bool _ = None"

fun as_object :: "json \<Rightarrow> (string \<times> json) list option" where
  "as_object (JObject m) = Some m"
| "as_object _ = None"

text \<open>\<open>as i32\<close> keeps the low 32 bits.\<close>

definition to_i32 :: "int \<Rightarrow> int" where
  "to_i32 n = (n + 2 ^ 31) mod 2 ^ 32 - 2 ^ 31"

definition get_field :: "json \<Rightarrow> string \<Rightarrow> (json \<Rightarrow> 'a option) \<Rightarrow> 'a option" where
  "get_field v k f = Option.bind (json_get v k) f"

fun json_str :: "json \<Rightarrow> string list \<Rightarrow> string option" where
  "json_str v [] = None"
| "json_str v (k # ks) = (case get_field v k as_str of Some s \<Rightarrow> Some s | None \<Rightarrow> json_str v ks)"

fun json_u64 :: "json \<Rightarrow> string list \<Rightarrow> u64 option" where
  "json_u64 v [] = None"
| "json_u64 v (k # ks) = (case get_field v k as_u64 of Some n \<Rightarrow> Some n | None \<Rightarrow> json_u64 v ks)"

definition default_to :: "'a \<Rightarrow> 'a option \<Rightarrow> 'a" where
  "default_to d x = (case x of Some v \<Rightarrow> v | None \<Rightarrow> d)"

text \<open>\<open>rsplit_once\<close>\<close>

definition rsplit_once :: "char \<Rightarrow> string \<Rightarrow> (string \<times> string) option" where
  "rsplit_once c s = (if c \<in> set s
     then Some (rev (drop 1 (dropWhile (\<lambda>x. x \<noteq> c) (rev s))), rev (takeWhile (\<lambda>x. x \<noteq> c) (rev s))) else None)"

definition strip_port :: "string \<Rightarrow> string" where
  "strip_port i = (case rsplit_once CHR '':'' i of
     Some (h, p) \<Rightarrow> if list_all is_ascii_digit p then h else i | None \<Rightarrow> i)"

definition status_code :: "json option \<Rightarrow> string" where
  "status_code status =
     (case status of
        Some (JString s) \<Rightarrow>
          (if s = ''Pending'' then ''PD'' else if s = ''Running'' then ''R'' else if s = ''Killed'' then ''CA'' else ''UK'')
      | Some (JObject m) \<Rightarrow>
          (if ''Completed'' \<in> fst ` set m then ''CD'' else if ''Failed'' \<in> fst ` set m then ''F'' else ''UK'')
      | _ \<Rightarrow> ''UK'')"

definition two_digits :: "u64 \<Rightarrow> string" where
  "two_digits n = (if n < 10 then ''0'' @ show_u64 n else show_u64 n)"

definition elapsed :: "u64 \<Rightarrow> u64 \<Rightarrow> string \<Rightarrow> string" where
  "elapsed start now st =
     (if st \<noteq> ''R'' \<or> start = 0 \<or> now < start then ''0:00''
      else
        (let secs = now - start; h = secs div 3600; m = secs mod 3600 div 60; s = secs mod 60
         in if h > 0 then show_u64 h @ '':'' @ two_digits m @ '':'' @ two_digits s
            else show_u64 m @ '':'' @ two_digits s))"

definition format_skip :: "skip \<Rightarrow> string" where
  "format_skip s = ''veloce-slurm: skipping unsupported option '' @ sk_option s @ '' ('' @ sk_reason s @ '')''"

definition format_sbatch_submitted :: "(string \<Rightarrow> json option) \<Rightarrow> string \<Rightarrow> string + string" where
  "format_sbatch_submitted from_str stdout =
     (case from_str (trim stdout) of
        None \<Rightarrow> Inl (''veloce submit did not return JSON; stdout was: '' @ stdout)
      | Some v \<Rightarrow>
          (case json_u64 v [''job_id'', ''base_job_id''] of
             Some i \<Rightarrow> Inr (''Submitted batch job '' @ show_u64 i)
           | None \<Rightarrow> Inl (''veloce submit JSON missing job_id: '' @ stdout)))"

definition format_srun_wait :: "(string \<Rightarrow> json option) \<Rightarrow> string \<Rightarrow> string + string \<times> int" where
  "format_srun_wait from_str stdout =
     (case from_str (trim stdout) of
        None \<Rightarrow> Inl (''veloce wait did not return JSON; stdout was: '' @ stdout)
      | Some v \<Rightarrow>
          (let i = Option.bind (case json_get v ''job_id'' of Some x \<Rightarrow> Some x | None \<Rightarrow> json_get v ''parent_job_id'') as_u64;
               status = default_to ''unknown'' (get_field v ''status'' as_str);
               exit = to_i32 (default_to 0 (get_field v ''exit_code'' as_i64));
               code = (if status = ''failed'' then (if exit = 0 then 1 else exit)
                       else if status = ''killed'' then 1 else exit);
               line = (case i of Some j \<Rightarrow> ''srun: job '' @ show_u64 j @ '' '' @ status | None \<Rightarrow> ''srun: '' @ status)
           in Inr (line, code)))"

definition squeue_line :: "u64 \<Rightarrow> json \<Rightarrow> string" where
  "squeue_line now_unix job =
     (let i = default_to 0 (json_u64 job [''id'', ''job_id'']);
          name = default_to ''unnamed'' (json_str job [''job_name'']);
          user = default_to ''-'' (json_str job [''user_id'']);
          qos = default_to ''-'' (json_str job [''qos'']);
          st = status_code (json_get job ''status'');
          start = default_to 0 (json_u64 job [''start_time'']);
          time = elapsed start now_unix st;
          workers = default_to [] (map_option (\<lambda>a. join '','' (map strip_port (List.map_filter as_str a)))
            (get_field job ''assigned_workers'' as_array));
          nodes = (case get_field job ''req_nodes'' as_u64 of Some n \<Rightarrow> n
            | None \<Rightarrow> of_nat (length (filter (\<lambda>s. s \<noteq> []) (split_on CHR '','' workers))))
      in join '' '' [show_u64 i, qos, name, user, st, time, show_u64 nodes, workers])"

definition format_squeue :: "json \<Rightarrow> u64 \<Rightarrow> string + string" where
  "format_squeue jobs now_unix =
     (case as_array jobs of
        None \<Rightarrow> Inl ''veloce jobs list JSON was not an array''
      | Some arr \<Rightarrow> Inr (join [CHR 0x0A] (''JOBID PARTITION NAME USER ST TIME NODES NODELIST'' # map (squeue_line now_unix) arr)))"

definition sinfo_line :: "json \<Rightarrow> string" where
  "sinfo_line n =
     (let host = default_to ''-'' (json_str n [''hostname'', ''id'']);
          online = default_to False (get_field n ''online'' as_bool);
          state = (if online then ''idle'' else ''down'');
          cpus = default_to 0 (json_u64 n [''total_cores'']);
          avail = default_to 0 (json_u64 n [''available_cores'']);
          mem_mb = default_to 0 (json_u64 n [''total_memory'']) div (1024 * 1024);
          gres = default_to [] (map_option (\<lambda>m. join '','' (map (\<lambda>(k, v). k @ '':'' @ show_u64 (default_to 0 (as_u64 v))) m))
            (get_field n ''gres'' as_object))
      in join '' '' [host, state, show_u64 cpus, show_u64 mem_mb, show_u64 avail, if gres = [] then ''(null)'' else gres])"

definition format_sinfo :: "json \<Rightarrow> string + string" where
  "format_sinfo nodes =
     (case as_array nodes of
        None \<Rightarrow> Inl ''veloce nodes list JSON was not an array''
      | Some arr \<Rightarrow> Inr (join [CHR 0x0A] (''NODELIST STATE CPUS MEMORY AVAIL_CPUS GRES'' # map sinfo_line arr)))"

definition format_scancel :: "(string \<Rightarrow> json option) \<Rightarrow> string \<Rightarrow> string + string" where
  "format_scancel from_str stdout =
     (case from_str (trim stdout) of
        None \<Rightarrow> Inl (''veloce kill did not return JSON; stdout was: '' @ stdout)
      | Some v \<Rightarrow> Inr (''scancel: Terminating job '' @ show_u64 (default_to 0 (json_u64 v [''job_id'']))))"

section \<open>The tools\<close>

record veloce_output =
  vo_status :: int
  vo_stdout :: string
  vo_stderr :: string

record facade_output =
  fo_stdout :: string
  fo_stderr :: string
  fo_exit_code :: int

text \<open>
  \<open>fr_read_script\<close> is what reading the file of a batch script gives: \<open>None\<close> when the path is no file,
  otherwise the text or the failure.
\<close>

record facade_request =
  fr_argv0 :: string
  fr_args :: "string list"
  fr_job_id_env :: "string option"
  fr_now_unix :: u64
  fr_script_body :: "string option"
  fr_read_script :: "string \<Rightarrow> (string + string) option"
  fr_round :: "real \<Rightarrow> real"

type_synonym 's runner = "'s \<Rightarrow> string list \<Rightarrow> 's \<times> (string + veloce_output)"

definition skip_stderr :: "skip list \<Rightarrow> string" where
  "skip_stderr skips = concat (map (\<lambda>s. format_skip s @ [CHR 0x0A]) skips)"

text \<open>What follows a run: a failing status is passed on with the client's own output.\<close>

definition after_run :: "string \<Rightarrow> (veloce_output \<Rightarrow> string + string \<times> int) \<Rightarrow> string + veloce_output \<Rightarrow> string + facade_output" where
  "after_run stderr fmt res =
     (case res of
        Inl e \<Rightarrow> Inl e
      | Inr out \<Rightarrow>
          (if vo_status out \<noteq> 0
           then Inr \<lparr>fo_stdout = vo_stdout out, fo_stderr = stderr @ vo_stderr out, fo_exit_code = vo_status out\<rparr>
           else (case fmt out of
                   Inl e \<Rightarrow> Inl e
                 | Inr (line, code) \<Rightarrow>
                     Inr \<lparr>fo_stdout = line @ [CHR 0x0A], fo_stderr = stderr @ vo_stderr out, fo_exit_code = code\<rparr>)))"

definition with_zero :: "string + string \<Rightarrow> string + string \<times> int" where
  "with_zero r = (case r of Inl e \<Rightarrow> Inl e | Inr line \<Rightarrow> Inr (line, 0))"

definition batch_body :: "facade_request \<Rightarrow> parsed_batch \<Rightarrow> string + string option" where
  "batch_body req parsed =
     (case fr_script_body req of
        Some body \<Rightarrow> Inr (Some body)
      | None \<Rightarrow>
          (if pb_wrap parsed = None then
             (case pb_script parsed of
                None \<Rightarrow> Inr None
              | Some p \<Rightarrow> (case fr_read_script req p of
                    None \<Rightarrow> Inr None
                  | Some (Inl e) \<Rightarrow> Inl ''failed to read batch script''
                  | Some (Inr text) \<Rightarrow> Inr (Some text)))
           else Inr None))"

definition run_sbatch :: "(string \<Rightarrow> json option) \<Rightarrow> 's runner \<Rightarrow> facade_request \<Rightarrow> string list \<Rightarrow> 's \<Rightarrow> 's \<times> (string + facade_output)" where
  "run_sbatch from_str run req args st =
     (case bind (parse_sbatch (fr_round req) args None) (\<lambda>parsed.
             bind (batch_body req parsed) (\<lambda>body.
               if body \<noteq> None then parse_sbatch (fr_round req) args body else Inr parsed)) of
        Inl e \<Rightarrow> (st, Inl e)
      | Inr parsed \<Rightarrow>
          (let (st', res) = run st (submit_invocation (pb_spec parsed) (command_tokens parsed) False)
           in (st', after_run (skip_stderr (pb_skips parsed)) (\<lambda>out. with_zero (format_sbatch_submitted from_str (vo_stdout out))) res)))"

definition srun_invocation :: "facade_request \<Rightarrow> parsed_batch \<Rightarrow> string list" where
  "srun_invocation req parsed =
     (let cmd = command_tokens parsed in
      case fr_job_id_env req of
        Some i \<Rightarrow> if i \<noteq> [] then step_invocation (pb_spec parsed) i cmd True
                 else submit_invocation (pb_spec parsed) cmd True
      | None \<Rightarrow> submit_invocation (pb_spec parsed) cmd True)"

definition run_srun :: "(string \<Rightarrow> json option) \<Rightarrow> 's runner \<Rightarrow> facade_request \<Rightarrow> string list \<Rightarrow> 's \<Rightarrow> 's \<times> (string + facade_output)" where
  "run_srun from_str run req args st =
     (case parse_srun (fr_round req) args of
        Inl e \<Rightarrow> (st, Inl e)
      | Inr parsed \<Rightarrow>
          (let (st', res) = run st (srun_invocation req parsed)
           in (st', after_run (skip_stderr (pb_skips parsed)) (\<lambda>out. format_srun_wait from_str (vo_stdout out)) res)))"

definition run_squeue :: "(string \<Rightarrow> json option) \<Rightarrow> 's runner \<Rightarrow> facade_request \<Rightarrow> string list \<Rightarrow> 's \<Rightarrow> 's \<times> (string + facade_output)" where
  "run_squeue from_str run req args st =
     (case parse_squeue args of
        Inl e \<Rightarrow> (st, Inl e)
      | Inr parsed \<Rightarrow>
          (let (st', res) = run st (jobs_list (pq_user parsed))
           in (st', after_run (skip_stderr (pq_skips parsed)) (\<lambda>out. with_zero
                (case from_str (trim (vo_stdout out)) of
                   None \<Rightarrow> Inl (''jobs list JSON: '' @ vo_stdout out)
                 | Some jobs \<Rightarrow> format_squeue jobs (fr_now_unix req))) res)))"

fun cancel_jobs :: "(string \<Rightarrow> json option) \<Rightarrow> 's runner \<Rightarrow> string list \<Rightarrow> string \<Rightarrow> string \<Rightarrow> 's \<Rightarrow> 's \<times> (string + facade_output)" where
  "cancel_jobs from_str run [] stdout stderr st = (st, Inr \<lparr>fo_stdout = stdout, fo_stderr = stderr, fo_exit_code = 0\<rparr>)"
| "cancel_jobs from_str run (i # ids) stdout stderr st =
     (case run st (jobs_kill i) of
        (st', Inl e) \<Rightarrow> (st', Inl e)
      | (st', Inr out) \<Rightarrow>
          (if vo_status out \<noteq> 0
           then (st', Inr \<lparr>fo_stdout = vo_stdout out, fo_stderr = stderr @ vo_stderr out, fo_exit_code = vo_status out\<rparr>)
           else (case format_scancel from_str (vo_stdout out) of
                   Inl e \<Rightarrow> (st', Inl e)
                 | Inr line \<Rightarrow> cancel_jobs from_str run ids (stdout @ line @ [CHR 0x0A]) (stderr @ vo_stderr out) st')))"

definition run_scancel :: "(string \<Rightarrow> json option) \<Rightarrow> 's runner \<Rightarrow> facade_request \<Rightarrow> string list \<Rightarrow> 's \<Rightarrow> 's \<times> (string + facade_output)" where
  "run_scancel from_str run req args st =
     (case parse_scancel args of
        Inl e \<Rightarrow> (st, Inl e)
      | Inr parsed \<Rightarrow> cancel_jobs from_str run (pc_job_ids parsed) [] (skip_stderr (pc_skips parsed)) st)"

definition run_sinfo :: "(string \<Rightarrow> json option) \<Rightarrow> 's runner \<Rightarrow> facade_request \<Rightarrow> string list \<Rightarrow> 's \<Rightarrow> 's \<times> (string + facade_output)" where
  "run_sinfo from_str run req args st =
     (let (st', res) = run st nodes_list
      in (st', after_run (skip_stderr (parse_sinfo args)) (\<lambda>out. with_zero
           (case from_str (trim (vo_stdout out)) of
              None \<Rightarrow> Inl (''nodes list JSON: '' @ vo_stdout out)
            | Some nodes \<Rightarrow> format_sinfo nodes)) res))"

definition dispatch_tool :: "string \<Rightarrow> string list \<Rightarrow> string + tool \<times> string list" where
  "dispatch_tool argv0 rest =
     (case from_argv0 argv0 of
        Some t \<Rightarrow> Inr (t, rest)
      | None \<Rightarrow>
          (let cmd = (case rest of c # _ \<Rightarrow> c | [] \<Rightarrow> []) in
           if cmd = ''sbatch'' then Inr (Sbatch, tl rest)
           else if cmd = ''srun'' then Inr (Srun, tl rest)
           else if cmd = ''squeue'' then Inr (Squeue, tl rest)
           else if cmd = ''scancel'' then Inr (Scancel, tl rest)
           else if cmd = ''sinfo'' then Inr (Sinfo, tl rest)
           else if cmd \<in> set [''-h'', ''--help'', ''help'', []] then Inl ''usage''
           else Inl (''unknown command '' @ quoted cmd @ '' (try sbatch, srun, squeue, scancel, sinfo)'')))"

text \<open>\<open>help\<close> is the constant \<open>HELP\<close>, the usage text.\<close>

definition run_facade :: "string \<Rightarrow> (string \<Rightarrow> json option) \<Rightarrow> 's runner \<Rightarrow> facade_request \<Rightarrow> 's \<Rightarrow> 's \<times> (string + facade_output)" where
  "run_facade help from_str run req st =
     (case dispatch_tool (fr_argv0 req) (fr_args req) of
        Inl e \<Rightarrow> (st, if e = ''usage'' then Inr \<lparr>fo_stdout = help, fo_stderr = [], fo_exit_code = 0\<rparr> else Inl e)
      | Inr (Sbatch, args) \<Rightarrow> run_sbatch from_str run req args st
      | Inr (Srun, args) \<Rightarrow> run_srun from_str run req args st
      | Inr (Squeue, args) \<Rightarrow> run_squeue from_str run req args st
      | Inr (Scancel, args) \<Rightarrow> run_scancel from_str run req args st
      | Inr (Sinfo, args) \<Rightarrow> run_sinfo from_str run req args st)"

section \<open>Properties\<close>

lemma to_i32_id: "- (2 ^ 31) \<le> n \<Longrightarrow> n < 2 ^ 31 \<Longrightarrow> to_i32 n = n"
  by (simp add: to_i32_def)

lemma srun_wait_code:
  "format_srun_wait from_str out = Inr (line, code) \<Longrightarrow>
   (code = 0) = (\<exists>v. from_str (trim out) = Some v \<and>
     get_field v ''status'' as_str \<noteq> Some ''failed'' \<and> get_field v ''status'' as_str \<noteq> Some ''killed'' \<and>
     to_i32 (default_to 0 (get_field v ''exit_code'' as_i64)) = 0)"
proof (cases "from_str (trim out)")
  case (Some v)
  let ?e = "to_i32 (default_to 0 (get_field v ''exit_code'' as_i64))" and ?s = "get_field v ''status'' as_str"
  assume "format_srun_wait from_str out = Inr (line, code)"
  then have c: "code = (if default_to ''unknown'' ?s = ''failed'' then (if ?e = 0 then 1 else ?e)
      else if default_to ''unknown'' ?s = ''killed'' then 1 else ?e)"
    using Some by (simp add: format_srun_wait_def Let_def)
  have "(default_to ''unknown'' ?s = ''failed'') = (?s = Some ''failed'')" "(default_to ''unknown'' ?s = ''killed'') = (?s = Some ''killed'')"
    by (cases ?s; simp add: default_to_def)+
  with c Some show ?thesis by simp
qed (simp add: format_srun_wait_def)

text \<open>
  C1: \<open>srun\<close> exits with 0 exactly when the client succeeded and reported a job that is neither failed nor
  killed and whose exit code, cut to 32 bits, is 0.
\<close>

theorem srun_exit_status:
  assumes "parse_srun (fr_round req) args = Inr parsed" and "run st (srun_invocation req parsed) = (st', Inr res)"
    and "run_srun from_str run req args st = (st', Inr out)"
  shows "fo_exit_code out = 0 \<longleftrightarrow>
    vo_status res = 0 \<and> (\<exists>v. from_str (trim (vo_stdout res)) = Some v \<and>
       get_field v ''status'' as_str \<noteq> Some ''failed'' \<and> get_field v ''status'' as_str \<noteq> Some ''killed'' \<and>
       to_i32 (default_to 0 (get_field v ''exit_code'' as_i64)) = 0)"
proof -
  have r: "after_run (skip_stderr (pb_skips parsed)) (\<lambda>out. format_srun_wait from_str (vo_stdout out)) (Inr res) = Inr out"
    using assms by (simp add: run_srun_def)
  show ?thesis
  proof (cases "vo_status res = 0")
    case True
    then obtain line code where f: "format_srun_wait from_str (vo_stdout res) = Inr (line, code)" "fo_exit_code out = code"
      using r by (auto simp: after_run_def split: sum.splits)
    with srun_wait_code [OF f(1)] True show ?thesis by simp
  next
    case False
    with r show ?thesis by (auto simp: after_run_def)
  qed
qed

definition sample_facade_request :: facade_request where
  "sample_facade_request = \<lparr>fr_argv0 = ''srun'', fr_args = [''hostname''], fr_job_id_env = None, fr_now_unix = 2000,
     fr_script_body = None, fr_read_script = \<lambda>_. None, fr_round = \<lambda>x. x\<rparr>"

definition sample_from_str :: "string \<Rightarrow> json option" where
  "sample_from_str s = (if s = ''F'' then Some (JObject [(''job_id'', JInt 9), (''status'', JString ''failed''), (''exit_code'', JInt 0)])
     else if s = ''K'' then Some (JObject [(''job_id'', JInt 7)]) else None)"

definition sample_run :: "string list list runner" where
  "sample_run st call = (st @ [call], Inr \<lparr>vo_status = (if last call = ''8'' then 1 else 0),
     vo_stdout = (if ''kill'' \<in> set call then ''K'' else ''F''), vo_stderr = []\<rparr>)"

theorem srun_exit_status_witness:
  "\<exists>st' out. run_srun sample_from_str sample_run sample_facade_request [''--'', ''hostname''] [] = (st', Inr out) \<and> fo_exit_code out \<noteq> 0"
proof -
  let ?b = "default_batch\<lparr>pb_script := Some ''hostname'', pb_script_args := []\<rparr>"
  have p: "parse_srun (fr_round sample_facade_request) [''--'', ''hostname''] = Inr ?b"
    by (simp add: parse_srun_def parse_submit_flags_def flag_loop.simps command_tokens_def default_batch_def)
  obtain st' res where q: "sample_run [] (srun_invocation sample_facade_request ?b) = (st', Inr res)" "vo_stdout res = ''F''" "vo_status res = 0"
    by (simp add: sample_run_def srun_invocation_def sample_facade_request_def submit_invocation_def wrap_command_def
        command_tokens_def default_batch_def default_spec_def push_spec_def opt_arg_def slurm_env_export_def)
  have t: "trim ''F'' = ''F''" by code_simp
  with p q obtain out where o: "run_srun sample_from_str sample_run sample_facade_request [''--'', ''hostname''] [] = (st', Inr out)"
    by (simp add: run_srun_def after_run_def format_srun_wait_def sample_from_str_def Let_def)
  from srun_exit_status [OF p q(1) o] q(2) t o show ?thesis by (auto simp: sample_from_str_def get_field_def)
qed

text \<open>A client whose answers depend on the arguments only, with the list of calls as its state.\<close>

definition logging_runner :: "(string list \<Rightarrow> string + veloce_output) \<Rightarrow> string list list runner" where
  "logging_runner answer calls call = (calls @ [call], answer call)"

definition kill_succeeds :: "(string \<Rightarrow> json option) \<Rightarrow> (string list \<Rightarrow> string + veloce_output) \<Rightarrow> string \<Rightarrow> bool" where
  "kill_succeeds from_str answer i = (case answer (jobs_kill i) of
     Inl _ \<Rightarrow> False | Inr out \<Rightarrow> vo_status out = 0 \<and> from_str (trim (vo_stdout out)) \<noteq> None)"

text \<open>
  C2: \<open>scancel\<close> calls the client once for each of a prefix of the given ids, in order. The prefix ends with
  the first call that fails and is the whole list when none does; the exit code is 0 exactly in that case.
\<close>

theorem scancel_kills_in_order:
  "fst (cancel_jobs from_str (logging_runner answer) ids stdout stderr calls) =
     calls @ map jobs_kill (takeWhile (kill_succeeds from_str answer) ids @ take 1 (dropWhile (kill_succeeds from_str answer) ids)) \<and>
   ((\<exists>out. snd (cancel_jobs from_str (logging_runner answer) ids stdout stderr calls) = Inr out \<and> fo_exit_code out = 0) =
    list_all (kill_succeeds from_str answer) ids)"
proof (induction ids arbitrary: stdout stderr calls)
  case (Cons i ids)
  show ?case
  proof (cases "answer (jobs_kill i)")
    case (Inl e)
    then show ?thesis by (simp add: logging_runner_def kill_succeeds_def)
  next
    case (Inr out)
    with Cons show ?thesis
      by (auto simp: logging_runner_def kill_succeeds_def format_scancel_def split: option.splits)
  qed
qed simp

end
