(* ===== verification/Recovery.thy ===== *)
theory Recovery
  imports Accounting
begin

text \<open>
  What a worker keeps across a restart (\<open>worker/src/recovery.rs\<close>): the file of running jobs, the file of
  working directories, and what becomes of a job that is found in the file.

  The two files hold length-prefixed records. \<open>bincode\<close> is given by the functions \<open>serialize\<close> and
  \<open>deserialize\<close>; a file is its text, or \<open>None\<close> when it does not exist. Opening, writing, syncing and renaming
  are assumed to succeed. The operating system's process table is the parameter \<open>proc\<close>.
\<close>

section \<open>The record files\<close>

record persisted_job =
  pj_job_id :: u64
  pj_pid :: u32
  pj_pgid :: u32
  pj_binary :: string
  pj_args :: "string list"
  pj_env_vars :: "(string \<times> string) list"
  pj_working_directory :: string
  pj_req_cores :: u32
  pj_req_memory :: u64
  pj_user_id :: string
  pj_walltime :: u64
  pj_submission_time :: u64
  pj_array_id :: "u64 option"
  pj_array_task_id :: "u32 option"
  pj_gres_req :: "(string, u64) hmap"
  pj_secret :: string
  pj_wait_for_licenses :: bool
  pj_estimated_walltime :: "u64 option"
  pj_priority_offset :: "i32 option"
  pj_dependencies :: "u64 list option"
  pj_dependency_specs :: "string list option"
  pj_qos :: qos_level
  pj_container_asset :: "container_asset option"
  pj_inherit_host_env :: bool
  pj_env_allowlist :: "string list option"
  pj_job_profile :: "string option"
  pj_output_artifacts :: "job_output_artifact list"

text \<open>
  The reading loop: it ends at a short length field, at a length of 0 and at a record that does not
  deserialize; a record that is shorter than its length is an error.
\<close>

function load_records :: "(string \<Rightarrow> 'a option) \<Rightarrow> string \<Rightarrow> string + 'a list" where
  "load_records deserialize file =
     (if length file < 8 then Inr []
      else (let len = from_le_bytes (take 8 file); rest = drop 8 file in
            if len = 0 then Inr []
            else if length rest < len then Inl ''Failed to read job data from persistence file''
            else (case deserialize (take len rest) of
                    None \<Rightarrow> Inr []
                  | Some job \<Rightarrow> (case load_records deserialize (drop len rest) of Inl e \<Rightarrow> Inl e | Inr jobs \<Rightarrow> Inr (job # jobs)))))"
  by auto
termination by (relation "measure (\<lambda>(d, file). length file)") auto

declare load_records.simps [simp del]

definition load_persisted_job_states :: "(string \<Rightarrow> persisted_job option) \<Rightarrow> string option \<Rightarrow> string + persisted_job list" where
  "load_persisted_job_states deserialize file =
     (case file of None \<Rightarrow> Inr [] | Some f \<Rightarrow> load_records deserialize f)"

definition append_record :: "('a \<Rightarrow> string option) \<Rightarrow> 'a \<Rightarrow> string option \<Rightarrow> string option \<times> (string + unit)" where
  "append_record serialize x file =
     (let content = (case file of Some f \<Rightarrow> f | None \<Rightarrow> []) in
      case serialize x of
        None \<Rightarrow> (Some content, Inl ''Failed to serialize job state'')
      | Some text_of \<Rightarrow> (Some (content @ le_bytes 8 (length text_of) @ text_of), Inr ()))"

definition persist_job_state :: "(persisted_job \<Rightarrow> string option) \<Rightarrow> persisted_job \<Rightarrow> string option \<Rightarrow> string option \<times> (string + unit)" where
  "persist_job_state serialize job file = append_record serialize job file"

fun write_records :: "('a \<Rightarrow> string option) \<Rightarrow> 'a list \<Rightarrow> string option" where
  "write_records serialize [] = Some []"
| "write_records serialize (x # xs) =
     (case serialize x of None \<Rightarrow> None
      | Some text_of \<Rightarrow> map_option (\<lambda>t. le_bytes 8 (length text_of) @ text_of @ t) (write_records serialize xs))"

definition remove_persisted_job_state :: "(persisted_job \<Rightarrow> string option) \<Rightarrow> (string \<Rightarrow> persisted_job option) \<Rightarrow> u64 \<Rightarrow> string option \<Rightarrow>
    string option \<times> (string + unit)" where
  "remove_persisted_job_state serialize deserialize job_id_to_remove file =
     (case load_persisted_job_states deserialize file of
        Inl e \<Rightarrow> (file, Inl e)
      | Inr jobs \<Rightarrow>
          (let kept = filter (\<lambda>job. pj_job_id job \<noteq> job_id_to_remove) jobs in
           if length kept = length jobs then (file, Inr ())
           else (case write_records serialize kept of
                   None \<Rightarrow> (file, Inl ''Failed to serialize job state for rewriting'')
                 | Some t \<Rightarrow> (Some t, Inr ()))))"

definition load_persisted_job_wds :: "(string \<Rightarrow> (u64 \<times> string) option) \<Rightarrow> string option \<Rightarrow> string + (u64, string) hmap" where
  "load_persisted_job_wds deserialize file =
     (case file of None \<Rightarrow> Inr []
      | Some f \<Rightarrow> (case load_records deserialize f of
            Inl e \<Rightarrow> Inl e
          | Inr ws \<Rightarrow> Inr (fold (\<lambda>(i, wd). hm_insert i wd) ws [])))"

definition persist_job_wd :: "(u64 \<times> string \<Rightarrow> string option) \<Rightarrow> u64 \<Rightarrow> string \<Rightarrow> string option \<Rightarrow> string option \<times> (string + unit)" where
  "persist_job_wd serialize job_id wd file = append_record serialize (job_id, wd) file"

section \<open>Recovering a job\<close>

datatype kill_signal = Cancel | Preempt

datatype posix_signal = SIGKILL | SIGTERM

text \<open>What ends the monitoring: a signal on the kill channel (\<open>None\<close>: the channel was dropped), the timer, or the end of the process group.\<close>

datatype recovery_event = SignalReceived "kill_signal option" | TimerElapsed | GroupGone

datatype worker_report = JobDone u64 i32 | JobError u64 string | JobKilled u64

record recovery_result =
  rv_reports :: "worker_report list"
  rv_signals :: "(int \<times> posix_signal) list"
  rv_removed :: bool
  rv_monitored :: bool

definition process_matches :: "persisted_job \<Rightarrow> string list option \<Rightarrow> bool" where
  "process_matches p cmdline =
     (case cmdline of
        None \<Rightarrow> False
      | Some cmd \<Rightarrow>
          (if cmd = [] then False
           else contains_str (hd cmd) (pj_binary p) \<or>
             contains_str (join '' '' cmd) (pj_binary p @ '' '' @ join '' '' (pj_args p))))"

definition expired :: "u64 \<Rightarrow> persisted_job \<Rightarrow> bool" where
  "expired now p = (pj_walltime p > 0 \<and> pj_submission_time p \<le> now \<and> now - pj_submission_time p > pj_walltime p)"

definition target_group :: "persisted_job \<Rightarrow> int" where
  "target_group p = (if pj_pgid p \<noteq> 0 then sint (pj_pgid p) else sint (pj_pid p))"

definition recover_and_monitor_job :: "u64 \<Rightarrow> (u32 \<Rightarrow> string list option) \<Rightarrow> recovery_event \<Rightarrow> persisted_job \<Rightarrow> recovery_result" where
  "recover_and_monitor_job now proc event p =
     (let job_id = pj_job_id p in
      if expired now p
      then \<lparr>rv_reports = [], rv_signals = [], rv_removed = True, rv_monitored = False\<rparr>
      else if \<not> process_matches p (proc (pj_pid p))
      then \<lparr>rv_reports = [JobError job_id ''Job process not found or PID reused after restart.''], rv_signals = [],
            rv_removed = True, rv_monitored = False\<rparr>
      else
        (case event of
           SignalReceived res \<Rightarrow>
             (let signal = (case res of Some s \<Rightarrow> s | None \<Rightarrow> Cancel) in
              \<lparr>rv_reports = [JobDone job_id (-9)],
               rv_signals = [(- target_group p, case signal of Cancel \<Rightarrow> SIGKILL | Preempt \<Rightarrow> SIGTERM)],
               rv_removed = True, rv_monitored = True\<rparr>)
         | TimerElapsed \<Rightarrow>
             \<lparr>rv_reports = [JobError job_id ''Walltime exceeded''], rv_signals = [(- target_group p, SIGKILL)],
              rv_removed = True, rv_monitored = True\<rparr>
         | GroupGone \<Rightarrow>
             \<lparr>rv_reports = [JobDone job_id (-100)], rv_signals = [], rv_removed = True, rv_monitored = True\<rparr>))"

section \<open>The file of running jobs\<close>

text \<open>What the code relies on of \<open>bincode\<close>, for one record: it serializes to a text that is not empty and deserializes to the record.\<close>

definition storable_record :: "('a \<Rightarrow> string option) \<Rightarrow> (string \<Rightarrow> 'a option) \<Rightarrow> 'a \<Rightarrow> bool" where
  "storable_record serialize deserialize x = (case serialize x of
     None \<Rightarrow> False | Some b \<Rightarrow> b \<noteq> [] \<and> length b < 2 ^ 64 \<and> deserialize b = Some x)"

definition record_text :: "('a \<Rightarrow> string option) \<Rightarrow> 'a \<Rightarrow> string" where
  "record_text serialize x = (case serialize x of Some b \<Rightarrow> le_bytes 8 (length b) @ b | None \<Rightarrow> [])"

lemma storable_recordE:
  assumes "storable_record serialize deserialize x"
  obtains b where "serialize x = Some b" "b \<noteq> []" "from_le_bytes (le_bytes 8 (length b)) = length b" "deserialize b = Some x"
proof -
  from assms obtain b where b: "serialize x = Some b" "b \<noteq> []" "length b < 2 ^ 64" "deserialize b = Some x"
    by (auto simp: storable_record_def split: option.splits)
  then have "from_le_bytes (le_bytes 8 (length b)) = length b" by (intro from_le_bytes_le_bytes) simp
  with b that show ?thesis by blast
qed

lemma load_record:
  assumes "storable_record serialize deserialize x"
  shows "load_records deserialize (record_text serialize x @ rest) =
    (case load_records deserialize rest of Inl e \<Rightarrow> Inl e | Inr xs \<Rightarrow> Inr (x # xs))"
  using assms by (elim storable_recordE, subst load_records.simps) (simp add: record_text_def Let_def)

lemma load_records_all:
  "list_all (storable_record serialize deserialize) xs \<Longrightarrow>
   load_records deserialize (concat (map (record_text serialize) xs) @ rest) =
     (case load_records deserialize rest of Inl e \<Rightarrow> Inl e | Inr ys \<Rightarrow> Inr (xs @ ys))"
  by (induction xs) (auto simp: load_record split: sum.splits)

lemma load_records_Nil: "load_records deserialize [] = Inr []"
  by (subst load_records.simps) simp

lemma write_records_text:
  "list_all (storable_record serialize deserialize) xs \<Longrightarrow> write_records serialize xs = Some (concat (map (record_text serialize) xs))"
  by (induction xs) (auto simp: record_text_def elim!: storable_recordE)

text \<open>The operations on the file and, as the specification, on the list of jobs it stands for.\<close>

datatype file_op = Persist persisted_job | Remove u64

fun apply_file_op :: "(persisted_job \<Rightarrow> string option) \<Rightarrow> (string \<Rightarrow> persisted_job option) \<Rightarrow> file_op \<Rightarrow> string option \<Rightarrow> string option" where
  "apply_file_op serialize deserialize (Persist job) file = fst (persist_job_state serialize job file)"
| "apply_file_op serialize deserialize (Remove i) file = fst (remove_persisted_job_state serialize deserialize i file)"

fun apply_job_op :: "file_op \<Rightarrow> persisted_job list \<Rightarrow> persisted_job list" where
  "apply_job_op (Persist job) jobs = jobs @ [job]"
| "apply_job_op (Remove i) jobs = filter (\<lambda>job. pj_job_id job \<noteq> i) jobs"

fun storable_op :: "(persisted_job \<Rightarrow> string option) \<Rightarrow> (string \<Rightarrow> persisted_job option) \<Rightarrow> file_op \<Rightarrow> bool" where
  "storable_op serialize deserialize (Persist job) = storable_record serialize deserialize job"
| "storable_op serialize deserialize (Remove i) = True"

definition holds_jobs :: "(persisted_job \<Rightarrow> string option) \<Rightarrow> (string \<Rightarrow> persisted_job option) \<Rightarrow> string option \<Rightarrow> persisted_job list \<Rightarrow> bool" where
  "holds_jobs serialize deserialize file jobs = (list_all (storable_record serialize deserialize) jobs \<and> (case file of
     None \<Rightarrow> jobs = [] | Some f \<Rightarrow> f = concat (map (record_text serialize) jobs)))"

lemma holds_jobs_load:
  assumes "holds_jobs serialize deserialize file jobs"
  shows "load_persisted_job_states deserialize file = Inr jobs"
  using assms load_records_all [of serialize deserialize jobs "[]"]
  by (auto simp: holds_jobs_def load_persisted_job_states_def load_records_Nil split: option.splits)

lemma holds_jobs_step:
  assumes "holds_jobs serialize deserialize file jobs" and "storable_op serialize deserialize op"
  shows "holds_jobs serialize deserialize (apply_file_op serialize deserialize op file) (apply_job_op op jobs)"
proof (cases op)
  case (Persist job)
  with assms(2) obtain b where "serialize job = Some b" by (auto elim: storable_recordE)
  with Persist assms show ?thesis
    by (auto simp: persist_job_state_def append_record_def Let_def holds_jobs_def record_text_def split: option.splits)
next
  case (Remove i)
  let ?k = "filter (\<lambda>job. pj_job_id job \<noteq> i) jobs"
  have k: "list_all (storable_record serialize deserialize) ?k" using assms(1) by (auto simp: holds_jobs_def list_all_iff)
  show ?thesis
  proof (cases "length ?k = length jobs")
    case True
    then have "?k = jobs" by (metis filter_id_conv length_filter_less less_irrefl)
    with Remove True assms(1) show ?thesis by (simp add: remove_persisted_job_state_def holds_jobs_load [OF assms(1)])
  next
    case False
    with Remove k show ?thesis
      by (simp add: remove_persisted_job_state_def holds_jobs_load [OF assms(1)] Let_def write_records_text [OF k] holds_jobs_def)
  qed
qed

interpretation job_file: simulation "holds_jobs serialize deserialize" "apply_file_op serialize deserialize" apply_job_op
    "storable_op serialize deserialize" for serialize deserialize
  by unfold_locales (rule holds_jobs_step)

text \<open>
  C28: The file implements the list of running jobs. After any sequence of writes and removals from an
  absent file, loading it returns exactly the jobs that were written and not removed since, in order.
\<close>

theorem job_file_roundtrip:
  assumes "list_all (storable_op serialize deserialize) ops"
  shows "load_persisted_job_states deserialize (fold (apply_file_op serialize deserialize) ops None) = Inr (fold apply_job_op ops [])"
proof -
  have "holds_jobs serialize deserialize None []" by (simp add: holds_jobs_def)
  from job_file.run_rel [OF this assms] show ?thesis by (rule holds_jobs_load)
qed

text \<open>A codec for the examples: it stores the id of a job in one byte and knows the other fields.\<close>

definition sample_persisted :: "u64 \<Rightarrow> persisted_job" where
  "sample_persisted i = \<lparr>pj_job_id = i, pj_pid = 100, pj_pgid = 100, pj_binary = ''/bin/sleep'', pj_args = [''5''], pj_env_vars = [],
     pj_working_directory = ''/w'', pj_req_cores = 1, pj_req_memory = 512, pj_user_id = ''ann'', pj_walltime = 60,
     pj_submission_time = 1000, pj_array_id = None, pj_array_task_id = None, pj_gres_req = [], pj_secret = [],
     pj_wait_for_licenses = False, pj_estimated_walltime = None, pj_priority_offset = None, pj_dependencies = None,
     pj_dependency_specs = None, pj_qos = Production, pj_container_asset = None, pj_inherit_host_env = False,
     pj_env_allowlist = None, pj_job_profile = None, pj_output_artifacts = []\<rparr>"

definition byte_serialize :: "persisted_job \<Rightarrow> string option" where
  "byte_serialize p = Some [char_of (unat (pj_job_id p))]"

definition byte_deserialize :: "string \<Rightarrow> persisted_job option" where
  "byte_deserialize s = (case s of [c] \<Rightarrow> Some (sample_persisted (of_nat (of_char c))) | _ \<Rightarrow> None)"

lemma byte_codec: "storable_record byte_serialize byte_deserialize (sample_persisted i) \<longleftrightarrow> unat i < 256"
proof -
  have "unat i < 256" if "(of_nat (unat i mod 256) :: u64) = i"
    using that by (metis mod_less_divisor unat_of_nat_le le_less_trans zero_less_numeral)
  moreover have "(of_nat (unat i mod 256) :: u64) = i" if "unat i < 256" using that by simp
  ultimately show ?thesis
    by (auto simp: storable_record_def byte_serialize_def byte_deserialize_def sample_persisted_def of_char_of)
qed

theorem job_file_roundtrip_witness:
  "load_persisted_job_states byte_deserialize (fold (apply_file_op byte_serialize byte_deserialize)
     [Persist (sample_persisted 3), Persist (sample_persisted 4), Remove 3] None) = Inr [sample_persisted 4]"
  using job_file_roundtrip [of byte_serialize byte_deserialize "[Persist (sample_persisted 3), Persist (sample_persisted 4), Remove 3]"]
  by (simp add: byte_codec) (simp add: sample_persisted_def)

text \<open>
  A record that was only partly written hides all jobs of the file. When the worker is stopped after the
  length field and before the end of a record, the next start reads an error instead of the jobs before
  it, and no job can be removed from the file any more; when it is stopped inside the length field, nothing
  is lost.
\<close>

theorem torn_record_hides_jobs:
  assumes "list_all (storable_record serialize deserialize) (job # jobs)" and "k < length (record_text serialize job)"
    and "torn = concat (map (record_text serialize) jobs) @ take k (record_text serialize job)"
  shows "(8 \<le> k \<longrightarrow> (\<exists>e. load_persisted_job_states deserialize (Some torn) = Inl e \<and>
       remove_persisted_job_state serialize deserialize i (Some torn) = (Some torn, Inl e))) \<and>
    (k < 8 \<longrightarrow> load_persisted_job_states deserialize (Some torn) = Inr jobs)"
proof -
  from assms(1) obtain b where b: "serialize job = Some b" "b \<noteq> []" "from_le_bytes (le_bytes 8 (length b)) = length b"
    by (auto elim: storable_recordE)
  have "load_records deserialize (take k (record_text serialize job)) = Inr []" if "k < 8"
    using that by (subst load_records.simps) (simp add: min_def)
  moreover have "\<exists>e. load_records deserialize (take k (record_text serialize job)) = Inl e" if "8 \<le> k"
  proof -
    have "take k (record_text serialize job) = le_bytes 8 (length b) @ take (k - 8) b" using b(1) that by (simp add: record_text_def)
    moreover have "k - 8 < length b" using assms(2) b(1) that by (simp add: record_text_def)
    ultimately show ?thesis using b(2,3) by (subst load_records.simps) (simp add: Let_def)
  qed
  ultimately show ?thesis using assms(1,3)
    by (auto simp: remove_persisted_job_state_def load_persisted_job_states_def load_records_all)
qed

theorem torn_record_hides_jobs_witness:
  "\<exists>e. load_persisted_job_states byte_deserialize
     (Some (record_text byte_serialize (sample_persisted 3) @ take 8 (record_text byte_serialize (sample_persisted 4)))) = Inl e"
proof -
  have "list_all (storable_record byte_serialize byte_deserialize) [sample_persisted 4, sample_persisted 3]"
    and "8 < length (record_text byte_serialize (sample_persisted 4))"
    by (simp_all add: byte_codec record_text_def byte_serialize_def)
  from torn_record_hides_jobs [OF this refl, of 0] show ?thesis by auto
qed



end
