(* ===== verification/JobRunner.thy ===== *)
theory JobRunner
  imports JobPolicy Outputs Recovery
begin

text \<open>
  What a worker makes of a job or a step before and after the process runs (\<open>worker/src/job_runner.rs\<close>,
  \<open>apptainer.rs\<close>, \<open>inputs.rs\<close>, \<open>cgroups.rs\<close>, \<open>config.rs\<close>): the command and its environment, the container
  command line, the files of a control group, and the report at the end.

  Parameters: \<open>shell_split\<close> and \<open>shell_join\<close> are the functions of the crate \<open>shell_words\<close>, \<open>to_json\<close> is
  \<open>serde_json::to_string\<close>, \<open>host\<close> is the worker's own environment. The system calls themselves (fork, exec,
  setuid, kill) are not modelled.
\<close>

section \<open>Command and environment\<close>

definition shell_parts :: "(string \<Rightarrow> string list option) \<Rightarrow> string \<Rightarrow> string list" where
  "shell_parts shell_split s = (case shell_split s of Some ws \<Rightarrow> ws | None \<Rightarrow> split_whitespace s)"

text \<open>\<open>Path::file_name\<close>, or the whole text when there is none\<close>

definition file_name_or :: "string \<Rightarrow> string" where
  "file_name_or p = (case components p of [] \<Rightarrow> p
     | cs \<Rightarrow> (case normal_part (last cs) of Some n \<Rightarrow> n | None \<Rightarrow> p))"

fun strip_duplicates :: "(string \<Rightarrow> string list option) \<Rightarrow> string \<Rightarrow> string list \<Rightarrow> string list" where
  "strip_duplicates shell_split bin_path [] = []"
| "strip_duplicates shell_split bin_path (arg # args) =
     (case shell_parts shell_split arg of
        [] \<Rightarrow> strip_duplicates shell_split bin_path args
      | first_word # others \<Rightarrow>
          (if first_word = bin_path \<or> first_word = file_name_or bin_path \<or> file_name_or first_word = file_name_or bin_path
           then others @ strip_duplicates shell_split bin_path args
           else arg # strip_duplicates shell_split bin_path args))"

definition canonicalize_command :: "(string \<Rightarrow> string list option) \<Rightarrow> string \<Rightarrow> string list \<Rightarrow> string \<times> string list" where
  "canonicalize_command shell_split binary args =
     (case shell_parts shell_split binary of
        [] \<Rightarrow> (binary, args)
      | bin_path # bin_extra_args \<Rightarrow>
          (let new_args = strip_duplicates shell_split bin_path args;
               matches_start = (take (length bin_extra_args) new_args = bin_extra_args)
           in (bin_path, bin_extra_args @ (if matches_start then drop (length bin_extra_args) new_args else new_args))))"

definition prepare_job_env :: "((string, u32 list) hmap \<Rightarrow> string option) \<Rightarrow> u64 \<Rightarrow> string list \<Rightarrow> string \<Rightarrow> string \<Rightarrow> u64 option \<Rightarrow> u32 option \<Rightarrow>
    string \<Rightarrow> (string, u32 list) hmap \<Rightarrow> (string, string) hmap" where
  "prepare_job_env to_json job_id node_list working_directory hostfile array_id array_task_id user_id allocated_gres =
     (let e1 = fold (\<lambda>(k, v). hm_insert k v)
            [(''VELOCE_NODES'', join '','' node_list),
             (''VELOCE_JOB_ID'', show_u64 job_id),
             (''VELOCE_NODE_COUNT'', show_nat (length node_list)),
             (''VELOCE_MASTER_ADDR'', case node_list of [] \<Rightarrow> [] | n # _ \<Rightarrow> n),
             (''VELOCE_WORKING_DIR'', working_directory),
             (''VELOCE_HOSTFILE'', hostfile),
             (''OMPI_MCA_orte_default_hostfile'', hostfile),
             (''HYDRA_HOST_FILE'', hostfile),
             (''VELOCE_SUBMITTING_USER'', user_id)] [];
          e2 = (if allocated_gres \<noteq> [] then (case to_json allocated_gres of Some j \<Rightarrow> hm_insert ''VELOCE_ALLOCATED_GRES'' j e1 | None \<Rightarrow> e1) else e1);
          e3 = (case array_id of Some i \<Rightarrow> hm_insert ''VELOCE_ARRAY_JOB_ID'' (show_u64 i) e2 | None \<Rightarrow> e2)
      in (case array_task_id of Some t \<Rightarrow> hm_insert ''VELOCE_ARRAY_TASK_ID'' (show_u64 t) e3 | None \<Rightarrow> e3))"

text \<open>\<open>worker_env_policy\<close> and \<open>filtered_host_env_for_launch\<close> read three environment variables.\<close>

definition flag_set :: "string option \<Rightarrow> bool" where
  "flag_set v = (v = Some ''true'' \<or> v = Some ''1'')"

definition worker_env_policy :: "string option \<Rightarrow> string option \<Rightarrow> string option \<Rightarrow> bool \<times> string list \<times> bool" where
  "worker_env_policy allowlist_var defaults_var impersonation_var =
     (flag_set allowlist_var,
      parse_env_defaults (case defaults_var of Some d \<Rightarrow> d | None \<Rightarrow> ''PATH,LANG,LC_ALL,TMPDIR''),
      flag_set impersonation_var)"

definition filtered_host_env_for_launch :: "bool \<times> string list \<times> bool \<Rightarrow> (string \<times> string) list \<Rightarrow> job_execution_options \<Rightarrow> bool \<Rightarrow>
    (string, string) hmap" where
  "filtered_host_env_for_launch policy host exec impersonating =
     (case policy of (allowlist_enabled, defaults, _) \<Rightarrow> filter_host_env_for_job host allowlist_enabled defaults exec impersonating)"

text \<open>The later variables of \<open>Command::envs\<close> replace earlier ones.\<close>

definition overlay :: "(string \<times> string) list \<Rightarrow> (string, string) hmap \<Rightarrow> (string, string) hmap" where
  "overlay vars env = fold (\<lambda>(k, v). hm_insert k v) vars env"

definition position_of :: "string \<Rightarrow> string list \<Rightarrow> nat" where
  "position_of x xs = (if x \<in> set xs then length (takeWhile (\<lambda>y. y \<noteq> x) xs) else 0)"

definition parse_usize :: "string \<Rightarrow> nat option" where
  "parse_usize s = parse_unsigned (2 ^ 64 - 1) s"

definition job_rank :: "(string, string) hmap \<Rightarrow> string list \<Rightarrow> string \<Rightarrow> nat" where
  "job_rank env node_list worker_id =
     (case Option.bind (hm_get env ''VELOCE_RANK'') parse_usize of Some n \<Rightarrow> n | None \<Rightarrow> position_of worker_id node_list)"

definition job_size :: "(string, string) hmap \<Rightarrow> string list \<Rightarrow> nat" where
  "job_size env node_list = (case Option.bind (hm_get env ''VELOCE_SIZE'') parse_usize of Some n \<Rightarrow> n | None \<Rightarrow> length node_list)"

record service_urls =
  su_controller_url :: string
  su_fileserver_url :: string
  su_fileserver_key :: string

definition job_launch_env :: "(string, string) hmap \<Rightarrow> (string, string) hmap \<Rightarrow> (string \<times> string) list \<Rightarrow> u64 \<Rightarrow> string list \<Rightarrow> string \<Rightarrow>
    string \<Rightarrow> service_urls \<Rightarrow> (string, string) hmap" where
  "job_launch_env host_env env_vars execution_env_vars job_id node_list worker_id secret urls =
     overlay [(''VELOCE_JOB_ID'', show_u64 job_id),
              (''VELOCE_RANK'', show_nat (job_rank env_vars node_list worker_id)),
              (''VELOCE_SIZE'', show_nat (job_size env_vars node_list)),
              (''VELOCE_SECRET'', secret),
              (''VELOCE_CONTROLLER_URL'', su_controller_url urls),
              (''VELOCE_CA_CERT'', ''/app/certs/ca.pem''),
              (''VELOCE_FILESERVER_URL'', su_fileserver_url urls),
              (''VELOCE_FILESERVER_KEY'', su_fileserver_key urls)]
       (overlay execution_env_vars (overlay env_vars host_env))"

definition host_part :: "string \<Rightarrow> string" where
  "host_part node = (if CHR '':'' \<in> set node then rev (drop 1 (dropWhile (\<lambda>x. x \<noteq> CHR '':'') (rev node))) else node)"

definition job_hostfile :: "string list \<Rightarrow> usize list option \<Rightarrow> string" where
  "job_hostfile node_list assigned_cores =
     (let slots = (case assigned_cores of Some c \<Rightarrow> length c | None \<Rightarrow> 1)
      in concat (map (\<lambda>node. host_part node @ '' slots='' @ show_nat slots @ [CHR 0x0A]) node_list))"

section \<open>Steps\<close>

text \<open>
  \<open>parse_shell_prefix_command\<close>: a binary with semicolons is read as assignments and a command. \<open>var\<close> looks
  up a variable of the worker.
\<close>

definition expand_var :: "(string \<Rightarrow> string option) \<Rightarrow> string \<Rightarrow> string \<Rightarrow> string" where
  "expand_var var key val =
     (let sys = (case var key of Some v \<Rightarrow> v | None \<Rightarrow> [])
      in replace_str (''${'' @ key @ '':-}'') sys (replace_str (''$'' @ key) sys val))"

definition prefix_part :: "(string \<Rightarrow> string option) \<Rightarrow> string \<Rightarrow> string \<times> string list \<times> (string, string) hmap \<Rightarrow>
    string \<times> string list \<times> (string, string) hmap" where
  "prefix_part var part st =
     (case st of (real_binary, real_args, extra_env) \<Rightarrow>
       if part = [] then st
       else if starts_with part ''export '' then st
       else (case split_once CHR ''='' part of
               Some (k, v) \<Rightarrow>
                 (let key = trim k; val = trim v;
                      val' = (if key \<in> set [''PATH'', ''LD_LIBRARY_PATH'', ''DYLD_LIBRARY_PATH''] then expand_var var key val else val)
                  in (real_binary, real_args, hm_insert key val' extra_env))
             | None \<Rightarrow>
                 (case split_whitespace part of
                    [] \<Rightarrow> st
                  | c # cs \<Rightarrow> (c, cs @ real_args, extra_env))))"

definition parse_shell_prefix_command :: "(string \<Rightarrow> string option) \<Rightarrow> string \<Rightarrow> string list \<Rightarrow> string \<times> string list \<times> (string, string) hmap" where
  "parse_shell_prefix_command var binary args =
     (if CHR '';'' \<in> set binary
      then fold (prefix_part var) (map trim (split_on CHR '';'' binary)) (binary, args, [])
      else (binary, args, []))"

definition step_rank_env :: "(string, string) hmap \<Rightarrow> u64 \<Rightarrow> u32 \<Rightarrow> u16 \<Rightarrow> u32 \<Rightarrow> u32 \<Rightarrow> (string, string) hmap" where
  "step_rank_env job_env parent_job_id step_id pmi_port total_ranks rank =
     overlay [(''VELOCE_STEP_ID'', show_u64 step_id),
              (''PMI_PORT'', ''127.0.0.1:'' @ show_u64 pmi_port),
              (''PMI_SIZE'', show_u64 total_ranks),
              (''PMI2_PORT'', ''127.0.0.1:'' @ show_u64 pmi_port),
              (''PMI_VERSION'', ''2''),
              (''PMI_SUBVERSION'', ''0''),
              (''PMI_ID'', show_u64 rank),
              (''PMI_RANK'', show_u64 rank),
              (''VELOCE_RANK'', show_u64 rank),
              (''VELOCE_SIZE'', show_u64 total_ranks)] job_env"

definition step_launch_env :: "(string, string) hmap \<Rightarrow> (string, string) hmap \<Rightarrow> (string, string) hmap \<Rightarrow> u64 \<Rightarrow> u32 \<Rightarrow> string \<Rightarrow>
    service_urls \<Rightarrow> (string, string) hmap" where
  "step_launch_env host_env rank_env extra_env parent_job_id step_id secret urls =
     overlay [(''VELOCE_JOB_ID'', show_u64 parent_job_id),
              (''VELOCE_STEP_ID'', show_u64 step_id),
              (''VELOCE_SECRET'', secret),
              (''VELOCE_CONTROLLER_URL'', su_controller_url urls),
              (''VELOCE_CA_CERT'', ''/app/certs/ca.pem''),
              (''VELOCE_FILESERVER_URL'', su_fileserver_url urls),
              (''VELOCE_FILESERVER_KEY'', su_fileserver_key urls)]
       (overlay extra_env (overlay rank_env host_env))"

text \<open>
  The end of a step. Each rank's process either could not be started or ends in one of four ways while the
  loop waits for it; \<open>KillArrived\<close> is the kill signal. The result is the messages, and the ranks that were
  killed.
\<close>

datatype child_event = Exited i32 | DiedBySignal | WaitFailed | KillArrived

record step_end =
  se_success :: bool
  se_last_code :: i32
  se_killed :: bool
  se_killed_ranks :: "u32 list"

fun wait_children :: "(u32 \<times> child_event) list \<Rightarrow> step_end \<Rightarrow> step_end" where
  "wait_children [] e = e"
| "wait_children ((rank, ev) # cs) e =
     (case ev of
        KillArrived \<Rightarrow> e\<lparr>se_success := False, se_last_code := -1, se_killed := True, se_killed_ranks := [rank]\<rparr>
      | Exited code \<Rightarrow> wait_children cs (if code \<noteq> 0 then e\<lparr>se_success := False, se_last_code := code\<rparr> else e)
      | DiedBySignal \<Rightarrow> wait_children cs (e\<lparr>se_success := False, se_last_code := -1\<rparr>)
      | WaitFailed \<Rightarrow> wait_children cs (e\<lparr>se_success := False, se_last_code := -1\<rparr>))"

datatype step_report = StepStarted u64 u32 | StepDone u64 u32 i32

definition run_step_reports :: "u64 \<Rightarrow> u32 \<Rightarrow> (u32 \<times> child_event option) list \<Rightarrow> step_report list \<times> u32 list" where
  "run_step_reports parent_job_id step_id ranks =
     (let children = List.map_filter (\<lambda>(rank, ev). map_option (\<lambda>e. (rank, e)) ev) ranks;
          e = wait_children children \<lparr>se_success = True, se_last_code = 0, se_killed = False, se_killed_ranks = []\<rparr>
      in ([StepStarted parent_job_id step_id] @ (if children \<noteq> [] then [StepStarted parent_job_id step_id] else []) @
          [StepDone parent_job_id step_id (if se_killed e then -1 else if se_success e then 0 else se_last_code e)],
          se_killed_ranks e))"

section \<open>Containers\<close>

text \<open>\<open>Path::parent\<close> as a text: everything before the last component; \<open>None\<close> for the root and the empty path.\<close>

definition path_parent :: "string \<Rightarrow> string option" where
  "path_parent p =
     (let t = rev (dropWhile (\<lambda>c. c = CHR ''/'') (rev p)) in
      if t = [] then None
      else if CHR ''/'' \<notin> set t then Some []
      else (let d = rev (dropWhile (\<lambda>c. c = CHR ''/'') (dropWhile (\<lambda>c. c \<noteq> CHR ''/'') (rev t)))
            in Some (if d = [] then ''/'' else d)))"

text \<open>The command is one text for \<open>sh -c\<close>; none of its parts is quoted.\<close>

definition build_command :: "container_asset \<Rightarrow> string \<Rightarrow> string \<Rightarrow> string \<Rightarrow> string \<Rightarrow> u64 \<Rightarrow> string option \<Rightarrow> string \<times> string list" where
  "build_command asset job_scratch image_path custom_args input_file job_id pmix_socket_dir =
     (let wrapper = trim (case ex_launch_wrapper (sm_execution (ca_manifest asset)) of Some w \<Rightarrow> w | None \<Rightarrow> []);
          working_dir = fhd_working_dir (sm_file_handling (ca_manifest asset));
          cmd = (if wrapper = [] then ''apptainer exec '' else wrapper @ '' '') @
            ''--pid --ipc --uts --hostname veloce-job-'' @ show_u64 job_id @ '' '' @
            ''--bind '' @ job_scratch @ '':'' @ working_dir @ '' '' @
            ''--pwd '' @ working_dir @ '' '' @
            (case pmix_socket_dir of Some d \<Rightarrow> ''--bind '' @ d @ '':'' @ d @ '' '' | None \<Rightarrow> []) @
            (case path_parent input_file of
               Some p \<Rightarrow> if p \<noteq> [] \<and> p \<noteq> ''/'' then ''--bind '' @ p @ '':'' @ p @ '' '' else []
             | None \<Rightarrow> []) @
            image_path @ '' '' @ input_file;
          cmd' = (if custom_args \<noteq> [] then cmd @ (if ends_with cmd '' '' then [] else '' '') @ custom_args else cmd)
      in (''sh'', [''-c'', trim cmd']))"

definition build_environment_vars :: "container_asset \<Rightarrow> (string \<times> string) list" where
  "build_environment_vars asset =
     map (\<lambda>(k, v). (''APPTAINERENV_'' @ k, replace_str ''{{license_server}}'' ''1055@licserver'' v))
       (ex_environment_vars (sm_execution (ca_manifest asset)))"

definition image_file_name :: "string \<Rightarrow> string" where
  "image_file_name image_uri = replace_str '':'' ''_'' (replace_str ''/'' ''_'' image_uri)"

section \<open>Inputs\<close>

text \<open>Where \<open>process_inputs\<close> writes the inputs, in order.\<close>

definition input_destinations :: "file_handle list \<Rightarrow> string \<Rightarrow> string list" where
  "input_destinations inputs working_dir = map (\<lambda>i. rust_join working_dir (fh_original_name i)) inputs"

section \<open>Control groups\<close>

text \<open>
  The manager's operations as the writes they make. \<open>exists\<close> is the test for a file, \<open>ok\<close> tells which writes
  succeed; a failing write to \<open>memory.max\<close> or \<open>cpu.max\<close> ends \<open>set_limits\<close>.
\<close>

definition cgroup_root :: string where
  "cgroup_root = ''/sys/fs/cgroup/veloce''"

definition get_job_path :: "u64 \<Rightarrow> string" where
  "get_job_path job_id = cgroup_root @ ''/job-'' @ show_u64 job_id"

definition missing_controllers :: "string \<Rightarrow> string list" where
  "missing_controllers current = filter (\<lambda>c. \<not> contains_str current (tl c)) [''+cpu'', ''+memory'', ''+pids'']"

definition cgroup_init :: "(string \<Rightarrow> bool) \<Rightarrow> (string \<Rightarrow> string option) \<Rightarrow> (string \<Rightarrow> bool) \<Rightarrow> (string \<times> string) list \<times> bool" where
  "cgroup_init exists read_file ok =
     (if \<not> exists ''/sys/fs/cgroup/cgroup.controllers'' then ([], False)
      else
        (let w1 = (if exists ''/sys/fs/cgroup/worker/cgroup.procs'' then [(''/sys/fs/cgroup/worker/cgroup.procs'', ''0'')] else []);
             w2 = (if exists ''/sys/fs/cgroup/cgroup.subtree_control'' then
                     (case read_file ''/sys/fs/cgroup/cgroup.subtree_control'' of
                        None \<Rightarrow> []
                      | Some current \<Rightarrow>
                          (if missing_controllers current \<noteq> []
                           then [(''/sys/fs/cgroup/cgroup.subtree_control'', join '' '' (missing_controllers current))] else []))
                   else []);
             subtree = cgroup_root @ ''/cgroup.subtree_control''
         in if exists subtree
            then (w1 @ w2 @ [(subtree, ''+cpu +memory +pids'')], ok subtree)
            else (w1 @ w2, False)))"

definition set_limits :: "bool \<Rightarrow> (string \<Rightarrow> bool) \<Rightarrow> u64 \<Rightarrow> u64 \<Rightarrow> u32 \<Rightarrow> (string \<times> string) list \<times> bool" where
  "set_limits enabled ok job_id memory_mb cores =
     (if \<not> enabled then ([], True)
      else
        (let path = get_job_path job_id;
             mem = (if memory_mb > 0 then [(path @ ''/memory.max'', show_u64 (memory_mb * 1024 * 1024))] else []);
             cpu = (if cores > 0 then [(path @ ''/cpu.max'', show_u64 (cores * 100000) @ '' 100000'')] else []);
             pids = [(path @ ''/pids.max'', ''10000'')]
         in if mem \<noteq> [] \<and> \<not> ok (path @ ''/memory.max'') then (mem, False)
            else if cpu \<noteq> [] \<and> \<not> ok (path @ ''/cpu.max'') then (mem @ cpu, False)
            else (mem @ cpu @ pids, True)))"

text \<open>Removing the directory is tried five times; \<open>removed i\<close> tells whether attempt \<open>i\<close> succeeds. The result: whether the directory is left, and the attempts.\<close>

definition cleanup_job_cgroup :: "bool \<Rightarrow> bool \<Rightarrow> (nat \<Rightarrow> bool) \<Rightarrow> bool \<times> nat" where
  "cleanup_job_cgroup enabled path_exists removed =
     (if \<not> enabled \<or> \<not> path_exists then (path_exists, 0)
      else (case find removed [0..<5] of Some i \<Rightarrow> (False, Suc i) | None \<Rightarrow> (True, 5)))"

definition create_job_cgroup :: "bool \<Rightarrow> bool \<Rightarrow> (nat \<Rightarrow> bool) \<Rightarrow> bool \<Rightarrow> bool" where
  "create_job_cgroup enabled path_exists removed mkdir_ok =
     (if \<not> enabled then True
      else (let left = (if path_exists then fst (cleanup_job_cgroup enabled path_exists removed) else False)
            in \<not> left \<and> mkdir_ok))"

section \<open>The course of a job\<close>

datatype job_end = ChildExited "i32 option" | ChildWaitFailed string | KillReceived "kill_signal option" | WalltimeUp

record job_facts =
  jf_wd_exists :: bool
  jf_inputs_error :: "string option"
  jf_prolog_error :: "string option"
  jf_user_exists :: bool
  jf_start_error :: "string option"
  jf_end :: job_end
  jf_stdout_file_id :: "string option"
  jf_stderr_file_id :: "string option"
  jf_workdir_upload :: "string option"
  jf_output_artifacts :: "job_output_artifact list"
  jf_start_time :: u64
  jf_end_time :: u64
  jf_cpu_time_ms :: u64
  jf_max_memory_bytes :: u64
  jf_cgroup_active :: bool

datatype job_message = InteractivePort u64 u16 | UsageReport job_usage | Report worker_report

text \<open>Exit code, status and completion message for the way the job ended.\<close>

fun job_end_outcome :: "u64 \<Rightarrow> job_end \<Rightarrow> i32 option \<times> job_status \<times> worker_report" where
  "job_end_outcome job_id (ChildExited code) =
     (let c = (case code of Some c \<Rightarrow> c | None \<Rightarrow> -1) in (Some c, Completed c, JobDone job_id c))"
| "job_end_outcome job_id (ChildWaitFailed e) = (None, Failed e, JobError job_id e)"
| "job_end_outcome job_id (KillReceived _) = (Some (-9), Killed, JobKilled job_id)"
| "job_end_outcome job_id WalltimeUp = (None, Failed ''Walltime exceeded'', JobError job_id ''Walltime exceeded'')"

text \<open>The signals sent to the process group of \<open>pid\<close>; \<open>graceful\<close>: a preempted job ends within five seconds.\<close>

fun job_end_signals :: "bool \<Rightarrow> i32 \<Rightarrow> job_end \<Rightarrow> (i32 \<times> posix_signal) list" where
  "job_end_signals graceful pid (KillReceived (Some Preempt)) = (- pid, SIGTERM) # (if graceful then [] else [(- pid, SIGKILL)])"
| "job_end_signals graceful pid (KillReceived _) = [(- pid, SIGKILL)]"
| "job_end_signals graceful pid WalltimeUp = [(- pid, SIGKILL)]"
| "job_end_signals graceful pid _ = []"

definition keeps_workdir :: "string \<Rightarrow> bool" where
  "keeps_workdir working_directory =
     (let wd = trim_end_matches CHR ''/'' working_directory in wd \<noteq> ''/tmp'' \<and> wd \<noteq> [] \<and> working_directory \<noteq> ''/'')"

definition job_usage_report :: "(string \<Rightarrow> string list option) \<Rightarrow> run_job_msg \<Rightarrow> string \<Rightarrow> job_facts \<Rightarrow> i32 option \<Rightarrow> job_status \<Rightarrow> job_usage" where
  "job_usage_report shell_split m working_directory f exit_code status =
     (let (binary, args) = canonicalize_command shell_split (rj_binary m) (rj_args m) in
      \<lparr>ju_job_id = rj_job_id m, ju_job_name = None, ju_job_comment = None,
       ju_command_line = binary @ '' '' @ join '' '' args,
       ju_user_id = rj_user_id m, ju_submission_time = rj_submission_time m,
       ju_start_time = Some (jf_start_time f), ju_end_time = Some (jf_end_time f), ju_exit_code = exit_code, ju_status = status,
       ju_cpu_time_ms = jf_cpu_time_ms f, ju_max_memory_bytes = jf_max_memory_bytes f,
       ju_req_nodes = length (rj_node_list m),
       ju_req_cores = (case rj_assigned_cores m of Some c \<Rightarrow> of_nat (length c) | None \<Rightarrow> 0),
       ju_req_memory = rj_req_memory m, ju_array_id = rj_array_id m, ju_array_task_id = rj_array_task_id m,
       ju_assigned_workers = rj_node_list m, ju_gres_req = rj_gres_req m, ju_cgroup_active = jf_cgroup_active f,
       ju_secret = rj_secret m, ju_stdout_file_id = jf_stdout_file_id f, ju_stderr_file_id = jf_stderr_file_id f,
       ju_workdir_file_id = (if keeps_workdir working_directory then jf_workdir_upload f else None),
       ju_worker_log_files = [], ju_output_artifacts = jf_output_artifacts f, ju_wait_for_licenses = rj_wait_for_licenses m,
       ju_estimated_walltime = rj_estimated_walltime m, ju_priority_offset = rj_priority_offset m,
       ju_dependencies = rj_dependencies m, ju_dependency_specs = rj_dependency_specs m, ju_qos = rj_qos m,
       ju_container_asset = rj_container_asset m\<rparr>)"

text \<open>
  All messages of one job: those of \<open>run_job\<close>, and the error its caller reports when it fails. \<open>run_as_worker\<close>
  is the setting \<open>run_as_worker_user\<close>, \<open>temp\<close> the directory for temporary files.
\<close>

definition launch_error :: "bool \<Rightarrow> bool \<times> string list \<times> bool \<Rightarrow> run_job_msg \<Rightarrow> job_facts \<Rightarrow> string option" where
  "launch_error run_as_worker policy m f =
     (if \<not> run_as_worker \<and> \<not> jf_user_exists f \<and> must_fail_missing_user (snd (snd policy)) (rj_job_profile m) False
      then Some (''job.launch.user_not_found: User '' @ quoted (rj_user_id m) @ '' not found on worker node'')
      else jf_start_error f)"

definition interactive_port :: "run_job_msg \<Rightarrow> job_message list" where
  "interactive_port m =
     (case find (\<lambda>(k, _). k = ''VELOCE_INTERACTIVE_PORT'') (rj_env_vars m) of
        None \<Rightarrow> []
      | Some (_, v) \<Rightarrow> (case parse_unsigned (2 ^ 16 - 1) v of Some n \<Rightarrow> [InteractivePort (rj_job_id m) (of_nat n)] | None \<Rightarrow> []))"

definition run_job_messages :: "(string \<Rightarrow> string list option) \<Rightarrow> bool \<Rightarrow> string \<Rightarrow> bool \<times> string list \<times> bool \<Rightarrow> run_job_msg \<Rightarrow> job_facts \<Rightarrow>
    job_message list" where
  "run_job_messages shell_split run_as_worker temp policy m f =
     (let job_id = rj_job_id m; failed = (\<lambda>e. [Report (JobError job_id e)]) in
      if \<not> jf_wd_exists f then failed (''Working directory '' @ rj_working_directory m @ '' does not exist'')
      else case (if rj_inputs m \<noteq> [] then jf_inputs_error f else None) of
          Some e \<Rightarrow> failed e
        | None \<Rightarrow>
            (let working_directory = (if run_as_worker then temp else rj_working_directory m) in
             interactive_port m @
             (case jf_prolog_error f of
                Some e \<Rightarrow> failed (''Prolog failed: '' @ e)
              | None \<Rightarrow>
                  (case launch_error run_as_worker policy m f of
                     Some e \<Rightarrow> failed e
                   | None \<Rightarrow>
                       (let (exit_code, status, completion) = job_end_outcome job_id (jf_end f)
                        in [UsageReport (job_usage_report shell_split m working_directory f exit_code status),
                            Report completion])))))"

section \<open>Properties\<close>

fun report_matches :: "job_usage \<Rightarrow> worker_report \<Rightarrow> bool" where
  "report_matches u (JobDone i c) = (ju_job_id u = i \<and> ju_exit_code u = Some c \<and> ju_status u = Completed c)"
| "report_matches u (JobError i e) = (ju_job_id u = i \<and> ju_exit_code u = None \<and> ju_status u = Failed e)"
| "report_matches u (JobKilled i) = (ju_job_id u = i \<and> ju_exit_code u = Some (-9) \<and> ju_status u = Killed)"

lemma end_outcome_matches:
  assumes "job_end_outcome (rj_job_id m) e = (exit_code, status, x)"
  shows "report_matches (job_usage_report shell_split m wd f exit_code status) x"
  using assms
  by (cases e) (auto simp: job_usage_report_def Let_def split: prod.splits)

lemma interactive_port_plain: "Report y \<notin> set (interactive_port m)" "UsageReport u \<notin> set (interactive_port m)"
  by (auto simp: interactive_port_def split: option.splits)


lemma wait_children_code:
  "(let e' = wait_children cs e in se_killed e' \<or> \<not> se_success e') = (se_killed e \<or> \<not> se_success e \<or> (\<exists>c\<in>set cs. snd c \<noteq> Exited 0))"
  "(se_success e \<or> se_last_code e \<noteq> 0) \<Longrightarrow> se_success (wait_children cs e) \<or> se_last_code (wait_children cs e) \<noteq> 0"
  "length (se_killed_ranks e) \<le> 1 \<Longrightarrow> length (se_killed_ranks (wait_children cs e)) \<le> 1"
  by (induction cs e rule: wait_children.induct) (auto simp: Let_def split: child_event.splits)

text \<open>
  The exit code of a step is 0 exactly when every rank that was started exits with 0. So a step of which
  no rank can be started is reported as successful. A kill signal ends one rank's process only.
\<close>

theorem step_done_code:
  "\<exists>code. last (fst (run_step_reports parent_job_id step_id ranks)) = StepDone parent_job_id step_id code \<and>
     (code = 0) = list_all (\<lambda>(rank, ev). ev = None \<or> ev = Some (Exited 0)) ranks \<and>
     length (snd (run_step_reports parent_job_id step_id ranks)) \<le> 1"
proof -
  let ?cs = "List.map_filter (\<lambda>(rank, ev). map_option (\<lambda>e. (rank, e)) ev) ranks"
  let ?e0 = "\<lparr>se_success = True, se_last_code = 0, se_killed = False, se_killed_ranks = []\<rparr>"
  have "(\<exists>c\<in>set ?cs. snd c \<noteq> Exited 0) = (\<not> list_all (\<lambda>(rank, ev). ev = None \<or> ev = Some (Exited 0)) ranks)"
    by (induction ranks) (auto simp: map_filter_simps split: option.splits)
  with wait_children_code [where cs = ?cs and e = ?e0] show ?thesis by (auto simp: run_step_reports_def Let_def)
qed

lemma overlay_get: "hm_get (overlay vars env) k = (case map_of (rev vars) k of Some v \<Rightarrow> Some v | None \<Rightarrow> hm_get env k)"
  by (induction vars arbitrary: env) (auto simp: overlay_def hm_get_insert map_add_def split: option.splits)



text \<open>
  The limits of a control group are exact as long as they fit: for less than 2^44 megabytes and less than
  42950 cores the files get the requested number of bytes and 100000 microseconds per core. From there
  on the products wrap: 2^44 megabytes set the limit 0.
\<close>

theorem cgroup_limits_exact:
  assumes "0 < unat memory_mb" and "unat memory_mb < 2 ^ 44" and "0 < unat cores" and "unat cores < 42950"
  shows "set_limits True (\<lambda>_. True) job_id memory_mb cores =
      ([(get_job_path job_id @ ''/memory.max'', show_nat (unat memory_mb * 1048576)),
        (get_job_path job_id @ ''/cpu.max'', show_nat (unat cores * 100000) @ '' 100000''),
        (get_job_path job_id @ ''/pids.max'', ''10000'')], True) \<and>
    (get_job_path job_id @ ''/memory.max'', ''0'') \<in> set (fst (set_limits True (\<lambda>_. True) job_id (2 ^ 44) cores))"
proof -
  have "unat (memory_mb * 1024 * 1024) = unat memory_mb * 1048576"
  proof -
    have "memory_mb * 1024 * 1024 = memory_mb * 1048576" by simp
    moreover have "unat memory_mb * 1048576 < 2 ^ 64" using assms(2) by simp
    ultimately show ?thesis by (simp add: unat_word_ariths)
  qed
  moreover have "unat (cores * 100000) = unat cores * 100000" using assms(4) by (simp add: unat_word_ariths)
  moreover have "memory_mb > 0" "cores > 0" using assms(1,3) by (simp_all add: word_greater_zero_iff unat_gt_0)
  moreover have "show_nat 0 = ''0''" by code_simp
  ultimately show ?thesis
    by (simp add: set_limits_def Let_def show_u64_def)
qed

theorem cgroup_limits_exact_witness:
  "set_limits True (\<lambda>_. True) 7 512 4 = ([(get_job_path 7 @ ''/memory.max'', show_nat (512 * 1048576)),
     (get_job_path 7 @ ''/cpu.max'', show_nat (4 * 100000) @ '' 100000''), (get_job_path 7 @ ''/pids.max'', ''10000'')], True)"
  using cgroup_limits_exact [of 512 4 7] by simp

text \<open>
  How the arguments of a job with a one-word command are changed: blank arguments are dropped, and an
  argument whose first word names the same file as the command loses this word.
\<close>

lemma canonicalize_one_word:
  assumes "shell_split binary = Some [binary]"
  shows "canonicalize_command shell_split binary args = (binary, strip_duplicates shell_split binary args)"
  using assms by (simp add: canonicalize_command_def shell_parts_def)

lemma strip_duplicates_id:
  "\<forall>arg\<in>set args. \<exists>w ws. shell_parts shell_split arg = w # ws \<and> file_name_or w \<noteq> file_name_or bin_path \<and> w \<noteq> file_name_or bin_path \<Longrightarrow>
   strip_duplicates shell_split bin_path args = args"
  by (induction args) auto

lemma canonicalize_drops_argument:
  assumes "\<And>w. shell_split [w] = Some [[w]]"
  shows "canonicalize_command shell_split ''e'' [''e'', ''x''] = (''e'', [''x''])"
proof -
  have "file_name_or ''e'' = ''e''" "file_name_or ''x'' = ''x''" by code_simp+
  with assms show ?thesis by (simp add: canonicalize_command_def shell_parts_def)
qed

text \<open>A variable that the policy blocks can be set in the command of a step.\<close>

lemma step_command_sets_blocked_variable:
  "parse_shell_prefix_command var ''LD_PRELOAD=/tmp/x.so; /bin/true'' [] = (''/bin/true'', [], [(''LD_PRELOAD'', ''/tmp/x.so'')]) \<and>
   is_blocked_env_key ''LD_PRELOAD''"
proof -
  have t: "map trim (split_on CHR '';'' ''LD_PRELOAD=/tmp/x.so; /bin/true'') = [''LD_PRELOAD=/tmp/x.so'', ''/bin/true'']"
    "trim ''LD_PRELOAD'' = ''LD_PRELOAD''" "trim ''/tmp/x.so'' = ''/tmp/x.so''"
    "split_once CHR ''='' ''LD_PRELOAD=/tmp/x.so'' = Some (''LD_PRELOAD'', ''/tmp/x.so'')" "split_once CHR ''='' ''/bin/true'' = None"
    "split_whitespace ''/bin/true'' = [''/bin/true'']"
    by code_simp+
  then show ?thesis
    by (simp add: parse_shell_prefix_command_def prefix_part_def Let_def starts_with_def hm_insert_def is_blocked_env_key_def)
qed

text \<open>An input with an absolute name is written to that path, outside the working directory.\<close>

lemma input_escapes: "is_absolute (fh_original_name i) \<Longrightarrow> input_destinations [i] working_dir = [fh_original_name i]"
  by (simp add: input_destinations_def rust_join_def)

end
