(* ===== verification/ProcessStats.thy ===== *)
theory ProcessStats
  imports JobRunner CliArgs SlurmParse
begin

text \<open>
  What a worker measures: processes and control groups (\<open>worker/src/resources.rs\<close>), the process a terminal
  attaches to (\<open>worker/src/terminal.rs\<close>), and the sample of a job in the heartbeat with the detection of idle
  jobs (\<open>worker/src/connection.rs\<close>). The texts of the files under \<open>/proc\<close> and \<open>/sys\<close> and the process table are
  arguments; \<open>rnd\<close> rounds to an \<open>f32\<close>.
\<close>

section \<open>Texts of the kernel\<close>

definition read_cgroup_cpu_usec :: "string option \<Rightarrow> u64 option" where
  "read_cgroup_cpu_usec content =
     Option.bind content (\<lambda>c. List.find (\<lambda>_. True) (List.map_filter (\<lambda>line.
       (let parts = split_whitespace line in
        if length parts = 2 \<and> parts ! 0 = ''usage_usec'' then parse_u64 (parts ! 1) else None)) (str_lines c)))"

definition read_cgroup_memory_bytes :: "string option \<Rightarrow> u64 option" where
  "read_cgroup_memory_bytes content = Option.bind content (\<lambda>c. parse_u64 (trim c))"

text \<open>What follows the last closing parenthesis.\<close>

definition after_comm :: "string \<Rightarrow> string option" where
  "after_comm content =
     (if CHR '')'' \<in> set content then Some (rev (takeWhile (\<lambda>c. c \<noteq> CHR '')'') (rev content))) else None)"

definition read_process_group_id :: "string option \<Rightarrow> i32 option" where
  "read_process_group_id stat =
     Option.bind stat (\<lambda>content. Option.bind (after_comm content) (\<lambda>rest.
       case split_whitespace rest of _ # _ # pgrp # _ \<Rightarrow> parse_i32 pgrp | _ \<Rightarrow> None))"

definition stat_field :: "string list \<Rightarrow> nat \<Rightarrow> string option" where
  "stat_field fs i = (if i < length fs then Some (fs ! i) else None)"

definition parse_proc_stat_cpu_ticks :: "string \<Rightarrow> u64 option" where
  "parse_proc_stat_cpu_ticks content =
     Option.bind (after_comm content) (\<lambda>rest.
       (let fs = split_whitespace rest in
        Option.bind (Option.bind (stat_field fs 11) parse_u64) (\<lambda>utime.
        Option.bind (Option.bind (stat_field fs 12) parse_u64) (\<lambda>stime. Some (sat_add utime stime)))))"

text \<open>An entry of \<open>/proc/pid/root/proc\<close>: its name and, if they can be read, its files \<open>stat\<close> and \<open>statm\<close>.\<close>

record proc_entry =
  pe_name :: string
  pe_stat :: "string option"
  pe_statm :: "string option"

definition add_namespace_entry :: "u64 \<Rightarrow> proc_entry \<Rightarrow> u64 \<times> u64 \<times> bool \<Rightarrow> u64 \<times> u64 \<times> bool" where
  "add_namespace_entry page_size e = (\<lambda>(ticks, bytes, saw).
     if parse_u32 (pe_name e) = None then (ticks, bytes, saw)
     else
       (let (ticks1, saw1) = (case Option.bind (pe_stat e) parse_proc_stat_cpu_ticks of
              Some t \<Rightarrow> (sat_add ticks t, True) | None \<Rightarrow> (ticks, saw));
            bytes1 = (case Option.bind (pe_statm e) (\<lambda>s. Option.bind (stat_field (split_whitespace s) 1) parse_u64) of
              Some pages \<Rightarrow> sat_add bytes (sat_mul pages page_size) | None \<Rightarrow> bytes)
        in (ticks1, bytes1, saw1)))"

definition read_namespace_process_totals :: "u64 \<Rightarrow> proc_entry list option \<Rightarrow> (u64 \<times> u64) option" where
  "read_namespace_process_totals page_size entries =
     Option.bind entries (\<lambda>es.
       (let (ticks, bytes, saw) = fold (add_namespace_entry page_size) es (0, 0, False)
        in if saw then Some (ticks, bytes) else None))"

definition disk_line :: "string \<Rightarrow> u64 \<times> u64 \<Rightarrow> u64 \<times> u64" where
  "disk_line line = (\<lambda>(r, w).
     (let parts = split_whitespace line in
      if length parts \<ge> 13
      then (case (parse_u64 (parts ! 5), parse_u64 (parts ! 9)) of
              (Some r_sect, Some w_sect) \<Rightarrow> (r + r_sect * 512, w + w_sect * 512)
            | _ \<Rightarrow> (r, w))
      else (r, w)))"

definition get_disk_io :: "string option \<Rightarrow> u64 \<times> u64" where
  "get_disk_io diskstats = (case diskstats of Some c \<Rightarrow> fold disk_line (str_lines c) (0, 0) | None \<Rightarrow> (0, 0))"

section \<open>Processes\<close>

type_synonym pid = u32

record process =
  pr_parent :: "pid option"
  pr_cpu_usage :: real
  pr_memory :: u64
  pr_name :: string

type_synonym processes = "(pid, process) hmap"

definition add_process :: "(real \<Rightarrow> real) \<Rightarrow> process \<Rightarrow> real \<times> u64 \<Rightarrow> real \<times> u64" where
  "add_process rnd p = (\<lambda>(cpu, mem). (rnd (cpu + pr_cpu_usage p), mem + pr_memory p))"

definition add_pid :: "(real \<Rightarrow> real) \<Rightarrow> processes \<Rightarrow> pid \<Rightarrow> real \<times> u64 \<Rightarrow> real \<times> u64" where
  "add_pid rnd sys i acc = (case hm_get sys i of Some p \<Rightarrow> add_process rnd p acc | None \<Rightarrow> acc)"

text \<open>The control group of a job as a tree: the text of \<open>cgroup.procs\<close> and the directories below.\<close>

datatype cgroup_dir = CgroupDir "string option" "cgroup_dir list"

definition insert_pids :: "string option \<Rightarrow> pid list \<Rightarrow> pid list" where
  "insert_pids procs pids = (case procs of
     Some content \<Rightarrow> fold (\<lambda>line s. case parse_unsigned (2 ^ 64 - 1) (trim line) of Some n \<Rightarrow> hs_insert (of_nat n) s | None \<Rightarrow> s) (str_lines content) pids
   | None \<Rightarrow> pids)"

fun collect_cgroup_pids :: "cgroup_dir \<Rightarrow> pid list \<Rightarrow> pid list" where
  "collect_cgroup_pids (CgroupDir procs dirs) pids = fold collect_cgroup_pids dirs (insert_pids procs pids)"

definition get_cgroup_process_resources :: "(real \<Rightarrow> real) \<Rightarrow> cgroup_dir \<Rightarrow> processes \<Rightarrow> real \<times> u64" where
  "get_cgroup_process_resources rnd d sys = fold (add_pid rnd sys) (collect_cgroup_pids d []) (0, 0)"

definition get_process_group_resources :: "(real \<Rightarrow> real) \<Rightarrow> (pid \<Rightarrow> string option) \<Rightarrow> pid \<Rightarrow> processes \<Rightarrow> real \<times> u64" where
  "get_process_group_resources rnd stat launcher sys =
     (case read_process_group_id (stat launcher) of
        None \<Rightarrow> (0, 0)
      | Some target \<Rightarrow> fold (\<lambda>(i, p) acc. if read_process_group_id (stat i) = Some target then add_process rnd p acc else acc) sys (0, 0))"

section \<open>Descendants\<close>

definition parent_to_children :: "processes \<Rightarrow> (pid, pid list) hmap" where
  "parent_to_children sys = fold (\<lambda>(i, p) m. case pr_parent p of Some pp \<Rightarrow> hm_entry pp [] (\<lambda>cs. cs @ [i]) m | None \<Rightarrow> m) sys []"

text \<open>The children that were not visited yet join the queue.\<close>

fun enqueue_children :: "pid list \<Rightarrow> pid list \<Rightarrow> pid list \<Rightarrow> pid list \<times> pid list" where
  "enqueue_children [] queue visited = (queue, visited)"
| "enqueue_children (c # cs) queue visited =
     (if c \<in> set visited then enqueue_children cs queue visited else enqueue_children cs (queue @ [c]) (c # visited))"

definition children_in :: "(pid, pid list) hmap \<Rightarrow> pid \<Rightarrow> pid list" where
  "children_in kids i = (case hm_get kids i of Some cs \<Rightarrow> cs | None \<Rightarrow> [])"

lemma enqueue_children_spec:
  "\<exists>new. enqueue_children cs queue visited = (queue @ new, rev new @ visited) \<and> distinct new \<and>
     set new = set cs - set visited"
proof (induction cs arbitrary: queue visited)
  case (Cons c cs)
  show ?case
  proof (cases "c \<in> set visited")
    case True
    then show ?thesis using Cons [of queue visited] by auto
  next
    case False
    obtain new where n: "enqueue_children cs (queue @ [c]) (c # visited) = ((queue @ [c]) @ new, rev new @ c # visited)"
        "distinct new" "set new = set cs - set (c # visited)"
      using Cons [of "queue @ [c]" "c # visited"] by blast
    with False show ?thesis by (intro exI [of _ "c # new"]) auto
  qed
qed simp

text \<open>Each round takes the next process of the queue; every process joins the queue once.\<close>

definition unvisited :: "(pid, pid list) hmap \<Rightarrow> pid list \<Rightarrow> nat" where
  "unvisited kids visited = card (\<Union> (set ` set (hm_values kids)) - set visited)"

lemma children_in_universe: "set (children_in kids i) \<subseteq> \<Union> (set ` set (hm_values kids))"
proof (cases "hm_get kids i")
  case (Some cs)
  then have "cs \<in> set (hm_values kids)" by (auto simp: hm_get_def hm_values_def dest!: map_of_SomeD) force
  with Some show ?thesis by (auto simp: children_in_def)
qed (simp add: children_in_def)

lemma enqueue_children_measure:
  assumes "enqueue_children (children_in kids i) queue visited = (queue', visited')"
  shows "2 * unvisited kids visited' + length queue' \<le> 2 * unvisited kids visited + length queue"
proof -
  obtain new where n: "queue' = queue @ new" "visited' = rev new @ visited" "distinct new" "set new = set (children_in kids i) - set visited"
    using assms enqueue_children_spec [of "children_in kids i" queue visited] by auto
  let ?U = "\<Union> (set ` set (hm_values kids))"
  have "set new \<subseteq> ?U - set visited" using n(4) children_in_universe [of kids i] by blast
  then have "card (?U - set visited - set new) + card (set new) = card (?U - set visited)"
    by (subst card_Diff_subset) (auto simp: card_mono)
  moreover have "?U - set visited' = ?U - set visited - set new" using n(2) by auto
  ultimately have "unvisited kids visited' + length new = unvisited kids visited"
    using n(3) by (simp add: unvisited_def distinct_card)
  then show ?thesis using n(1) by simp
qed

function sum_descendants :: "(real \<Rightarrow> real) \<Rightarrow> processes \<Rightarrow> (pid, pid list) hmap \<Rightarrow> pid list \<Rightarrow> pid list \<Rightarrow> nat \<Rightarrow> real \<times> u64 \<Rightarrow> real \<times> u64" where
  "sum_descendants rnd sys kids queue visited idx acc =
     (if idx < length queue
      then (let current = queue ! idx; acc1 = add_pid rnd sys current acc;
                (queue1, visited1) = enqueue_children (children_in kids current) queue visited
            in sum_descendants rnd sys kids queue1 visited1 (idx + 1) acc1)
      else acc)"
  by pat_completeness auto
termination
  by (relation "measure (\<lambda>(rnd, sys, kids, queue, visited, idx, acc). 2 * unvisited kids visited + length queue - idx)")
    (auto dest!: sym [of "(_, _)"] enqueue_children_measure)

declare sum_descendants.simps [simp del]

definition get_process_descendants_resources :: "(real \<Rightarrow> real) \<Rightarrow> pid \<Rightarrow> processes \<Rightarrow> real \<times> u64" where
  "get_process_descendants_resources rnd launcher sys =
     sum_descendants rnd sys (parent_to_children sys) [launcher] [launcher] 0 (0, 0)"

text \<open>The specification: the launcher and all processes whose chain of parents leads to it.\<close>

definition child_of :: "processes \<Rightarrow> pid \<Rightarrow> pid \<Rightarrow> bool" where
  "child_of sys i c = (\<exists>p. (c, p) \<in> set sys \<and> pr_parent p = Some i)"

lemma children_in_parent_to_children: "set (children_in (parent_to_children sys) i) = {c. child_of sys i c}"
proof -
  have "set (children_in (fold (\<lambda>(i, p) m. case pr_parent p of Some pp \<Rightarrow> hm_entry pp [] (\<lambda>cs. cs @ [i]) m | None \<Rightarrow> m) ps m) i) =
      set (children_in m i) \<union> {c. child_of ps i c}" for ps m
  proof (induction ps arbitrary: m)
    case (Cons x ps)
    obtain c p where x: "x = (c, p)" by (cases x)
    have "set (children_in (case pr_parent p of Some pp \<Rightarrow> hm_entry pp [] (\<lambda>cs. cs @ [c]) m | None \<Rightarrow> m) i) =
        set (children_in m i) \<union> {d. d = c \<and> pr_parent p = Some i}"
      by (auto simp: children_in_def hm_entry_def split: option.splits)
    then show ?case using Cons x by (auto simp: child_of_def)
  qed (auto simp: child_of_def)
  from this [of sys "[]"] show ?thesis by (simp add: parent_to_children_def children_in_def hm_get_def)
qed

text \<open>What the loop keeps: the queue is the visited processes, all reached, and those before \<open>idx\<close> have their children in it.\<close>

lemma sum_descendants_visits:
  assumes "distinct queue" "set visited = set queue" "idx \<le> length queue" "root_pid \<in> set queue"
    and "\<And>q. q \<in> set queue \<Longrightarrow> (\<lambda>i c. c \<in> set (children_in kids i))\<^sup>*\<^sup>* root_pid q"
    and "\<And>i c. i < idx \<Longrightarrow> c \<in> set (children_in kids (queue ! i)) \<Longrightarrow> c \<in> set queue"
  shows "\<exists>rest. distinct (queue @ rest) \<and> set (queue @ rest) = {q. (\<lambda>i c. c \<in> set (children_in kids i))\<^sup>*\<^sup>* root_pid q} \<and>
    sum_descendants rnd sys kids queue visited idx acc = fold (add_pid rnd sys) (drop idx queue @ rest) acc"
  using assms
proof (induction rnd sys kids queue visited idx acc rule: sum_descendants.induct)
  case (1 rnd sys kids queue visited idx acc)
  let ?R = "\<lambda>i c. c \<in> set (children_in kids i)"
  show ?case
  proof (cases "idx < length queue")
    case False
    then have closed: "q \<in> set queue \<Longrightarrow> ?R q c \<Longrightarrow> c \<in> set queue" for q c
      using "1.prems"(3,6) by (metis in_set_conv_nth le_antisym not_less)
    have "?R\<^sup>*\<^sup>* root_pid q \<Longrightarrow> q \<in> set queue" for q
      by (induction rule: rtranclp_induct) (use "1.prems"(4) closed in auto)
    then show ?thesis using False "1.prems"(1,5) by (intro exI [of _ "[]"]) (auto simp: sum_descendants.simps)
  next
    case True
    let ?cur = "queue ! idx"
    obtain new where n: "enqueue_children (children_in kids ?cur) queue visited = (queue @ new, rev new @ visited)"
        "distinct new" "set new = set (children_in kids ?cur) - set visited"
      using enqueue_children_spec by blast
    have cur: "?R\<^sup>*\<^sup>* root_pid ?cur" using True "1.prems"(5) by simp
    have reach: "?R\<^sup>*\<^sup>* root_pid q" if "q \<in> set (queue @ new)" for q
      using that "1.prems"(5) n(3) cur by (auto intro: rtranclp.rtrancl_into_rtrancl)
    have closed: "c \<in> set (queue @ new)" if "i < idx + 1" "c \<in> set (children_in kids ((queue @ new) ! i))" for i c
    proof (cases "i = idx")
      case False
      with that True have "c \<in> set queue" by (intro "1.prems"(6) [of i]) (simp_all add: nth_append)
      then show ?thesis by simp
    qed (use that True "1.prems"(2) n(3) in \<open>auto simp: nth_append\<close>)
    obtain rest where r: "distinct ((queue @ new) @ rest)" "set ((queue @ new) @ rest) = {q. ?R\<^sup>*\<^sup>* root_pid q}"
        "sum_descendants rnd sys kids (queue @ new) (rev new @ visited) (idx + 1) (add_pid rnd sys ?cur acc) =
           fold (add_pid rnd sys) (drop (idx + 1) (queue @ new) @ rest) (add_pid rnd sys ?cur acc)"
      using "1.IH" [OF True refl refl n(1) [symmetric] refl] "1.prems" True n reach closed by auto
    have "drop idx queue = ?cur # drop (Suc idx) queue" using True by (simp add: Cons_nth_drop_Suc)
    with True r n show ?thesis by (subst sum_descendants.simps) (intro exI [of _ "new @ rest"], auto simp: Let_def)
  qed
qed

text \<open>
  C35: the resources of a job process are the sums over the launcher and all its descendants, each counted
  once, whatever the process table looks like (loops of parents included); the search always ends.
\<close>

theorem descendants_counted_once:
  "\<exists>ps. distinct ps \<and> set ps = {q. (child_of sys)\<^sup>*\<^sup>* launcher q} \<and>
     get_process_descendants_resources rnd launcher sys = fold (add_pid rnd sys) ps (0, 0)"
proof -
  have R: "(\<lambda>i c. c \<in> set (children_in (parent_to_children sys) i)) = child_of sys"
    by (simp add: fun_eq_iff children_in_parent_to_children)
  obtain rest where "distinct ([launcher] @ rest)" "set ([launcher] @ rest) = {q. (child_of sys)\<^sup>*\<^sup>* launcher q}"
      "sum_descendants rnd sys (parent_to_children sys) [launcher] [launcher] 0 (0, 0) = fold (add_pid rnd sys) (drop 0 [launcher] @ rest) (0, 0)"
    using sum_descendants_visits [of "[launcher]" "[launcher]" 0 launcher "parent_to_children sys" rnd sys "(0, 0)"] unfolding R by auto
  then show ?thesis unfolding get_process_descendants_resources_def by (intro exI [of _ "[launcher] @ rest"]) simp
qed

section \<open>The process a terminal attaches to\<close>

definition is_namespace_helper :: "string \<Rightarrow> bool" where
  "is_namespace_helper name =
     (let n = to_lowercase name in
      contains_str n ''xtigervnc'' \<or> contains_str n ''xvnc'' \<or> contains_str n ''xorg'' \<or> n = ''x'' \<or>
      contains_str n ''dbus-daemon'' \<or> contains_str n ''dbus-launch'' \<or> contains_str n ''dbus-broker'' \<or>
      starts_with n ''pipewire'' \<or> starts_with n ''wireplumber'' \<or> n = ''gpg-agent'' \<or> n = ''ssh-agent'')"

definition is_preferred_payload :: "string \<Rightarrow> bool" where
  "is_preferred_payload name =
     (let n = to_lowercase name in
      contains_str n ''bash'' \<or> contains_str n ''zsh'' \<or> contains_str n ''fish'' \<or> n = ''sh'' \<or> contains_str n ''xfce4-terminal'' \<or>
      contains_str n ''xfce4-session'' \<or> contains_str n ''startxfce'' \<or> contains_str n ''gnome-session'' \<or> contains_str n ''python'' \<or>
      contains_str n ''julia'' \<or> contains_str n ''matlab'' \<or> n = ''r'' \<or> contains_str n ''rscript'' \<or> contains_str n ''java'' \<or> contains_str n ''node'')"

text \<open>The non-helper children by pid, and of these the first preferred one, else the first.\<close>

definition attach_candidates :: "processes \<Rightarrow> pid \<Rightarrow> (pid \<times> process) list" where
  "attach_candidates sys current =
     (let children = sort_key fst (filter (\<lambda>(_, p). pr_parent p = Some current) sys);
          non_helpers = filter (\<lambda>(_, p). \<not> is_namespace_helper (pr_name p)) children
      in filter (\<lambda>(_, p). is_preferred_payload (pr_name p)) non_helpers @ filter (\<lambda>(_, p). \<not> is_preferred_payload (pr_name p)) non_helpers)"

fun attach_from :: "processes \<Rightarrow> nat \<Rightarrow> pid \<Rightarrow> pid" where
  "attach_from sys 0 current = current"
| "attach_from sys (Suc n) current = (case attach_candidates sys current of [] \<Rightarrow> current | (i, _) # _ \<Rightarrow> attach_from sys n i)"

definition find_attach_pid :: "processes \<Rightarrow> pid \<Rightarrow> pid" where
  "find_attach_pid sys root_pid = attach_from sys 10 root_pid"

definition terminal_command :: "processes \<Rightarrow> pid option \<Rightarrow> string list" where
  "terminal_command sys target =
     (case target of
        Some i \<Rightarrow> [''/usr/bin/nsenter'', ''--target'', show_u64 (find_attach_pid sys i), ''--mount'', ''--uts'', ''--ipc'', ''--net'', ''--pid'', ''/bin/bash'']
      | None \<Rightarrow> [''/bin/bash''])"

lemma attach_candidate: "(i, p) \<in> set (attach_candidates sys current) \<Longrightarrow> (i, p) \<in> set sys \<and> pr_parent p = Some current \<and> \<not> is_namespace_helper (pr_name p)"
  by (auto simp: attach_candidates_def Let_def)

text \<open>A terminal attaches to the job process itself or to a descendant that is no helper of the desktop.\<close>

lemma attach_target:
  "find_attach_pid sys root_pid = root_pid \<or>
   (child_of sys)\<^sup>+\<^sup>+ root_pid (find_attach_pid sys root_pid) \<and> (\<exists>p. (find_attach_pid sys root_pid, p) \<in> set sys \<and> \<not> is_namespace_helper (pr_name p))"
proof -
  have "attach_from sys n i = i \<or> (child_of sys)\<^sup>+\<^sup>+ i (attach_from sys n i) \<and> (\<exists>p. (attach_from sys n i, p) \<in> set sys \<and> \<not> is_namespace_helper (pr_name p))" for n i
  proof (induction n arbitrary: i)
    case (Suc n)
    show ?case
    proof (cases "attach_candidates sys i")
      case (Cons x xs)
      obtain j p where x: "x = (j, p)" by (cases x)
      then have j: "(j, p) \<in> set sys" "pr_parent p = Some i" "\<not> is_namespace_helper (pr_name p)"
        using attach_candidate [of j p sys i] Cons by auto
      then have "child_of sys i j" by (auto simp: child_of_def)
      then show ?thesis using Suc [of j] Cons x j by (auto intro: tranclp.r_into_trancl tranclp_into_tranclp2)
    qed simp
  qed simp
  then show ?thesis by (simp add: find_attach_pid_def)
qed

section \<open>The sample of a job\<close>

record job_stats_entry =
  je_start_time :: u64
  je_submission_time :: u64
  je_max_memory_bytes :: u64
  je_cpu_time_ms :: u64
  je_command_line :: string
  je_user_id :: string
  je_req_nodes :: usize
  je_req_cores :: u32
  je_req_memory :: u64
  je_array_id :: "u64 option"
  je_array_task_id :: "u32 option"
  je_assigned_workers :: "string list"
  je_last_active_at :: u64
  je_is_idle :: bool
  je_idle_duration :: u64
  je_gres_req :: "(string, u64) hmap"
  je_secret :: string
  je_wait_for_licenses :: bool
  je_estimated_walltime :: "u64 option"
  je_priority_offset :: "i32 option"
  je_dependencies :: "u64 list option"
  je_dependency_specs :: "string list option"
  je_qos :: qos_level
  je_cgroup_last_cpu_usec :: "u64 option"
  je_cgroup_last_measured_at :: "nat option"
  je_namespace_last_cpu_ticks :: "u64 option"
  je_namespace_last_measured_at :: "nat option"

text \<open>The entry \<open>run_job\<close> makes when the job starts at \<open>now\<close>.\<close>

definition new_stats_entry :: "run_job_msg \<Rightarrow> u64 \<Rightarrow> job_stats_entry" where
  "new_stats_entry m now =
     \<lparr>je_start_time = now, je_submission_time = rj_submission_time m, je_max_memory_bytes = 0, je_cpu_time_ms = 0,
      je_command_line = rj_binary m @ '' '' @ join '' '' (rj_args m), je_user_id = rj_user_id m, je_req_nodes = length (rj_node_list m),
      je_req_cores = (case rj_assigned_cores m of Some c \<Rightarrow> of_nat (length c) | None \<Rightarrow> 0), je_req_memory = rj_req_memory m,
      je_array_id = rj_array_id m, je_array_task_id = rj_array_task_id m, je_assigned_workers = rj_node_list m,
      je_last_active_at = now, je_is_idle = False, je_idle_duration = 0, je_gres_req = rj_gres_req m, je_secret = rj_secret m,
      je_wait_for_licenses = rj_wait_for_licenses m, je_estimated_walltime = rj_estimated_walltime m, je_priority_offset = rj_priority_offset m,
      je_dependencies = rj_dependencies m, je_dependency_specs = rj_dependency_specs m, je_qos = rj_qos m, je_cgroup_last_cpu_usec = None,
      je_cgroup_last_measured_at = None, je_namespace_last_cpu_ticks = None, je_namespace_last_measured_at = None\<rparr>"

text \<open>What the heartbeat reads; \<open>kv_instant\<close> is the monotonic clock in microseconds, \<open>kv_now\<close> the time in seconds.\<close>

record kernel_view =
  kv_processes :: processes
  kv_stat :: "pid \<Rightarrow> string option"
  kv_cpu_stat :: "u64 \<Rightarrow> string option"
  kv_memory_current :: "u64 \<Rightarrow> string option"
  kv_cgroup :: "u64 \<Rightarrow> cgroup_dir"
  kv_namespace :: "pid \<Rightarrow> proc_entry list option"
  kv_page_size :: u64
  kv_ticks_per_second :: u64
  kv_instant :: nat
  kv_now :: u64

definition quotient :: "(real \<Rightarrow> real) \<Rightarrow> u64 \<Rightarrow> u64 \<Rightarrow> real" where
  "quotient rnd a b = rnd (rnd (real (unat a)) / rnd (real (unat b)))"

text \<open>The control group of the job, if its files can be read.\<close>

definition cgroup_cpu :: "(real \<Rightarrow> real) \<Rightarrow> kernel_view \<Rightarrow> pid \<Rightarrow> u64 \<Rightarrow> job_stats_entry \<Rightarrow> real" where
  "cgroup_cpu rnd kv i curr_usec e =
     (case (je_cgroup_last_cpu_usec e, je_cgroup_last_measured_at e) of
        (Some last_usec, Some last_time) \<Rightarrow>
          (let delta_usec = sat_sub curr_usec last_usec; delta_time_usec = of_nat (kv_instant kv - last_time)
           in if delta_time_usec > 0 then rnd (quotient rnd delta_usec delta_time_usec * 100) else 0)
      | _ \<Rightarrow> fst (get_process_descendants_resources rnd i (kv_processes kv)))"

definition cgroup_sample :: "(real \<Rightarrow> real) \<Rightarrow> kernel_view \<Rightarrow> u64 \<Rightarrow> pid \<Rightarrow> job_stats_entry \<Rightarrow> (real \<times> u64 \<times> job_stats_entry) option" where
  "cgroup_sample rnd kv job_id i e =
     Option.bind (read_cgroup_memory_bytes (kv_memory_current kv job_id)) (\<lambda>cgroup_mem.
     Option.bind (read_cgroup_cpu_usec (kv_cpu_stat kv job_id)) (\<lambda>curr_usec.
       (let cpu = cgroup_cpu rnd kv i curr_usec e;
            e1 = e\<lparr>je_cgroup_last_cpu_usec := Some curr_usec, je_cgroup_last_measured_at := Some (kv_instant kv)\<rparr>;
            (tree_cpu, tree_mem) = get_cgroup_process_resources rnd (kv_cgroup kv job_id) (kv_processes kv);
            cpu1 = (if cpu = 0 \<and> tree_cpu > 0 then tree_cpu else cpu);
            mem1 = (if cgroup_mem = 0 \<and> tree_mem > 0 then tree_mem else cgroup_mem);
            (group_cpu, group_mem) = get_process_group_resources rnd (kv_stat kv) i (kv_processes kv)
        in Some (if cpu1 = 0 \<and> group_cpu > 0 then group_cpu else cpu1, max mem1 group_mem, e1))))"

definition process_sample :: "(real \<Rightarrow> real) \<Rightarrow> kernel_view \<Rightarrow> pid \<Rightarrow> real \<times> u64" where
  "process_sample rnd kv i =
     (let (tree_cpu, tree_mem) = get_process_descendants_resources rnd i (kv_processes kv);
          (group_cpu, group_mem) = get_process_group_resources rnd (kv_stat kv) i (kv_processes kv)
      in (max tree_cpu group_cpu, max tree_mem group_mem))"

definition namespace_sample :: "(real \<Rightarrow> real) \<Rightarrow> kernel_view \<Rightarrow> pid \<Rightarrow> real \<times> u64 \<times> job_stats_entry \<Rightarrow> real \<times> u64 \<times> job_stats_entry" where
  "namespace_sample rnd kv i = (\<lambda>(cpu, mem, e).
     case read_namespace_process_totals (kv_page_size kv) (kv_namespace kv i) of
       None \<Rightarrow> (cpu, mem, e)
     | Some (ticks, namespace_mem) \<Rightarrow>
         (let cpu1 = (case (je_namespace_last_cpu_ticks e, je_namespace_last_measured_at e) of
                (Some last_ticks, Some last_time) \<Rightarrow>
                  (let delta_time = rnd (real (kv_instant kv - last_time) / 1000000); tps = rnd (real (unat (kv_ticks_per_second kv)))
                   in if delta_time > 0 \<and> tps > 0
                      then max cpu (rnd (rnd (rnd (rnd (real (unat (sat_sub ticks last_ticks))) / tps) / delta_time) * 100))
                      else cpu)
              | _ \<Rightarrow> cpu)
          in (cpu1, max mem namespace_mem,
              e\<lparr>je_namespace_last_cpu_ticks := Some ticks, je_namespace_last_measured_at := Some (kv_instant kv)\<rparr>)))"

text \<open>Idle detection.\<close>

definition update_idle :: "u64 \<Rightarrow> real \<Rightarrow> u64 \<Rightarrow> real \<Rightarrow> job_stats_entry \<Rightarrow> job_stats_entry" where
  "update_idle timeout_secs scaled_threshold now cpu e =
     (if cpu < scaled_threshold
      then if \<not> je_is_idle e
           then if sat_sub now (je_last_active_at e) \<ge> timeout_secs
                then e\<lparr>je_is_idle := True, je_idle_duration := sat_sub now (je_last_active_at e)\<rparr> else e
           else e\<lparr>je_idle_duration := sat_sub now (je_last_active_at e)\<rparr>
      else e\<lparr>je_is_idle := False, je_idle_duration := 0, je_last_active_at := now\<rparr>)"

definition sample_entry :: "(real \<Rightarrow> real) \<Rightarrow> bool \<Rightarrow> real \<Rightarrow> u64 \<Rightarrow> kernel_view \<Rightarrow> u64 \<Rightarrow> pid \<Rightarrow> job_stats_entry \<Rightarrow> job_stats_entry \<times> job_stats" where
  "sample_entry rnd cgroup_enabled threshold_cpu timeout_secs kv job_id i e =
     (let (cpu0, mem0, e0) = (case (if cgroup_enabled then cgroup_sample rnd kv job_id i e else None) of
              Some s \<Rightarrow> s | None \<Rightarrow> (let (c, m) = process_sample rnd kv i in (c, m, e)));
          (cpu, mem, e1) = namespace_sample rnd kv i (cpu0, mem0, e0);
          e2 = e1\<lparr>je_max_memory_bytes := max (je_max_memory_bytes e1) mem, je_cpu_time_ms := je_cpu_time_ms e1 + real_to_u64 (rnd (cpu * 10))\<rparr>;
          e3 = update_idle timeout_secs (rnd (threshold_cpu * rnd (real (unat (max (je_req_cores e2) 1))))) (kv_now kv) cpu e2
      in (e3, \<lparr>jst_job_id = job_id, jst_cpu_usage_percent = cpu, jst_memory_usage_bytes = mem, jst_is_idle = je_is_idle e3,
               jst_idle_duration = je_idle_duration e3, jst_cgroup_active = cgroup_enabled\<rparr>))"

definition sample_jobs :: "(real \<Rightarrow> real) \<Rightarrow> bool \<Rightarrow> real \<Rightarrow> u64 \<Rightarrow> kernel_view \<Rightarrow> (u64, pid) hmap \<Rightarrow> (u64, job_stats_entry) hmap \<Rightarrow>
    (u64, job_stats_entry) hmap \<times> job_stats list" where
  "sample_jobs rnd cgroup_enabled threshold_cpu timeout_secs kv pids history =
     fold (\<lambda>(job_id, i) (h, stats).
       case hm_get h job_id of
         None \<Rightarrow> (h, stats)
       | Some e \<Rightarrow> (let (e1, s) = sample_entry rnd cgroup_enabled threshold_cpu timeout_secs kv job_id i e in (hm_insert job_id e1 h, stats @ [s])))
     pids (history, [])"

text \<open>What the host reports of itself.\<close>

record host_info =
  hi_cpu_brands :: "string list"
  hi_load :: "real list"
  hi_disks :: "(string \<times> u64 \<times> u64) list"
  hi_total_memory :: u64
  hi_free_memory :: u64
  hi_cpu_usage :: real
  hi_arch :: string
  hi_name :: "string option"
  hi_os_version :: "string option"
  hi_kernel_version :: "string option"
  hi_host_name :: "string option"
  hi_uptime :: u64
  hi_boot_time :: u64
  hi_process_count :: u32
  hi_total_swap :: u64
  hi_free_swap :: u64
  hi_gpus :: "u32 option"

definition or_unknown :: "string option \<Rightarrow> string" where
  "or_unknown v = (case v of Some s \<Rightarrow> s | None \<Rightarrow> ''Unknown'')"

definition root_disk :: "(string \<times> u64 \<times> u64) list \<Rightarrow> u64 \<times> u64" where
  "root_disk disks =
     (let (total, free) = (case List.find (\<lambda>(m, _). m = ''/'') disks of Some (_, t, f) \<Rightarrow> (t, f) | None \<Rightarrow> (0, 0))
      in if total = 0 then fold (\<lambda>(_, t, f) (a, b). (a + t, b + f)) disks (total, free) else (total, free))"

definition get_resources :: "string \<Rightarrow> (string, u64) hmap \<Rightarrow> bool \<Rightarrow> host_info \<Rightarrow> resources" where
  "get_resources version config_gres cgroup_enabled h =
     \<lparr>rs_cpu_cores = length (hi_cpu_brands h), rs_total_memory = hi_total_memory h, rs_free_memory = hi_free_memory h, rs_cpu_usage = hi_cpu_usage h,
      rs_cpu_model = (case hi_cpu_brands h of b # _ \<Rightarrow> b | [] \<Rightarrow> ''Unknown CPU''), rs_arch = hi_arch h,
      rs_os_name = or_unknown (hi_name h), rs_os_version = or_unknown (hi_os_version h), rs_kernel_version = or_unknown (hi_kernel_version h),
      rs_host_name = or_unknown (hi_host_name h), rs_load_avg = hi_load h, rs_disk_total = fst (root_disk (hi_disks h)),
      rs_disk_free = snd (root_disk (hi_disks h)), rs_uptime = hi_uptime h, rs_boot_time = hi_boot_time h, rs_process_count = hi_process_count h,
      rs_swap_total = hi_total_swap h, rs_swap_free = hi_free_swap h, rs_version = version,
      rs_gres = (case hi_gpus h of Some n \<Rightarrow> if n > 0 then hm_insert ''gpu'' (ucast n) config_gres else config_gres | None \<Rightarrow> config_gres),
      rs_cgroup_enabled = cgroup_enabled\<rparr>"

section \<open>Idle jobs\<close>

definition update_idle_all :: "u64 \<Rightarrow> real \<Rightarrow> (u64 \<times> real) list \<Rightarrow> job_stats_entry \<Rightarrow> job_stats_entry" where
  "update_idle_all timeout threshold samples e = fold (\<lambda>(now, cpu). update_idle timeout threshold now cpu) samples e"

lemma word_diff_mono: "a \<le> b \<Longrightarrow> b \<le> c \<Longrightarrow> b - a \<le> c - a" for a b c :: u64
  by (simp add: word_le_nat_alt unat_sub diff_le_mono)

text \<open>The time a job was last seen busy: the last sample at or above the threshold, else its start.\<close>

definition last_busy :: "real \<Rightarrow> u64 \<Rightarrow> (u64 \<times> real) list \<Rightarrow> u64" where
  "last_busy threshold start_at samples = (case rev (filter (\<lambda>(_, cpu). \<not> cpu < threshold) samples) of (t, _) # _ \<Rightarrow> t | [] \<Rightarrow> start_at)"

lemma last_busy_snoc: "last_busy threshold s (samples @ [(t, cpu)]) = (if cpu < threshold then last_busy threshold s samples else t)"
  by (simp add: last_busy_def)

lemma last_busy_le: "sorted (map fst (samples @ [(t, cpu)])) \<Longrightarrow> list_all (\<lambda>(u, _). s \<le> u) (samples @ [(t, cpu)]) \<Longrightarrow> last_busy threshold s samples \<le> t"
proof -
  assume a: "sorted (map fst (samples @ [(t, cpu)]))" "list_all (\<lambda>(u, _). s \<le> u) (samples @ [(t, cpu)])"
  show ?thesis
  proof (cases "rev (filter (\<lambda>(_, cpu). \<not> cpu < threshold) samples)")
    case (Cons x xs)
    then have "x \<in> set (rev (filter (\<lambda>(_, cpu). \<not> cpu < threshold) samples))" by simp
    then have "x \<in> set samples" by simp
    with a(1) Cons show ?thesis by (auto simp: last_busy_def sorted_append case_prod_beta)
  qed (use a(2) in \<open>simp add: last_busy_def\<close>)
qed

text \<open>
  C36: idle detection. Over any sequence of samples in the order of time, a job is reported idle exactly when the
  last sample lies below the threshold and at least the timeout has passed since the job was last seen busy
  (or started); the reported duration is that time, and 0 for a job that is not idle.
\<close>

theorem idle_detection:
  assumes "\<not> je_is_idle e" "je_idle_duration e = 0" "sorted (map fst samples)" "list_all (\<lambda>(t, _). je_last_active_at e \<le> t) samples"
    and "samples = before @ [(now, cpu)]"
  shows "let e' = update_idle_all timeout threshold samples e; active = last_busy threshold (je_last_active_at e) samples in
    je_last_active_at e' = active \<and> (je_is_idle e' \<longleftrightarrow> cpu < threshold \<and> timeout \<le> now - active) \<and>
    je_idle_duration e' = (if je_is_idle e' then now - active else 0)"
  using assms(3-)
proof (induction before arbitrary: samples now cpu rule: rev_induct)
  case Nil
  then show ?case using assms(1,2)
    by (auto simp: update_idle_all_def update_idle_def last_busy_def sat_sub_def Let_def)
next
  case (snoc x before)
  obtain now0 cpu0 where x: "x = (now0, cpu0)" by (cases x)
  let ?e = "update_idle_all timeout threshold (before @ [(now0, cpu0)]) e" and ?a = "last_busy threshold (je_last_active_at e) (before @ [(now0, cpu0)])"
  have IH: "je_last_active_at ?e = ?a \<and> (je_is_idle ?e \<longleftrightarrow> cpu0 < threshold \<and> timeout \<le> now0 - ?a) \<and>
      je_idle_duration ?e = (if je_is_idle ?e then now0 - ?a else 0)"
    using snoc.IH [of "before @ [(now0, cpu0)]" now0 cpu0] snoc.prems x by (auto simp: sorted_append Let_def)
  have le: "?a \<le> now0 \<and> now0 \<le> now" 
    using last_busy_le [of before now0 cpu0 "je_last_active_at e" threshold] snoc.prems x by (auto simp: sorted_append last_busy_snoc)
  have e: "update_idle_all timeout threshold samples e = update_idle timeout threshold now cpu ?e"
    using snoc.prems(3) x by (simp add: update_idle_all_def)
  have mono: "now0 - ?a \<le> now - ?a" using le word_diff_mono by blast
  have b: "last_busy threshold (je_last_active_at e) samples = (if cpu < threshold then ?a else now)"
    using snoc.prems(3) x by (simp add: last_busy_snoc [of _ _ "before @ [(now0, cpu0)]", simplified])
  have "?a \<le> now" using le by (meson order_trans)
  then have s: "sat_sub now ?a = now - ?a" by (simp add: sat_sub_def)
  show ?case unfolding e b Let_def using IH mono s le by (auto simp: update_idle_def)
qed

theorem idle_detection_witness:
  "\<exists>e :: job_stats_entry. je_is_idle (update_idle_all 600 50 [(100, 80), (400, 10), (700, 20)] e) \<and>
     je_idle_duration (update_idle_all 600 50 [(100, 80), (400, 10), (700, 20)] e) = 600"
proof -
  define e :: job_stats_entry where "e = undefined\<lparr>je_is_idle := False, je_idle_duration := 0, je_last_active_at := 0\<rparr>"
  have e: "\<not> je_is_idle e" "je_idle_duration e = 0" "je_last_active_at e = 0" by (simp_all add: e_def)
  have b: "last_busy 50 0 [(100, 80), (400, 10), (700, 20)] = 100" by (simp add: last_busy_def)
  have s: "sorted (map fst [(100 :: u64, 80 :: real), (400, 10), (700, 20)])" by simp
  have l: "list_all (\<lambda>(t, _). je_last_active_at e \<le> t) [(100 :: u64, 80 :: real), (400, 10), (700, 20)]" unfolding e(3) by simp
  have "[(100 :: u64, 80 :: real), (400, 10), (700, 20)] = [(100, 80), (400, 10)] @ [(700, 20)]" by simp
  note d = idle_detection [OF e(1,2) s l this, of 600 50, unfolded e(3) b Let_def]
  have t: "(20 :: real) < 50" "(600 :: u64) \<le> 700 - 100" "(700 :: u64) - 100 = 600" by simp_all
  from d t have i: "je_is_idle (update_idle_all 600 50 [(100, 80), (400, 10), (700, 20)] e)" by blast
  from d have "je_idle_duration (update_idle_all 600 50 [(100, 80), (400, 10), (700, 20)] e) = 700 - 100" unfolding if_P [OF i] by blast
  with i t(3) show ?thesis by metis
qed

end
