(* ===== verification/WorkerAgent.thy ===== *)
theory WorkerAgent
  imports ProcessStats "HOL-Library.Sublist"
begin

text \<open>
  The worker agent (\<open>worker/src/connection.rs\<close>): the command loop of a connection to the controller with the tables
  of running jobs, steps, terminals and VNC sessions it keeps, and the tasks it spawns.

  A task of a job or a step is an entry of a list and is named by its position, which stands for its kill
  channel: the table of running jobs holds the senders, the task the receiver. A sender that is replaced or
  dropped closes the channel, which the task sees as a signal of its own (\<open>Some None\<close>). What the tasks do is
  taken from \<open>JobRunner\<close> and \<open>Recovery\<close>; the tables change only in the steps below, one at a time, as the code
  changes them under their locks. Reading logs, running commands, terminals and VNC servers are given by
  the answers of the host.
\<close>

section \<open>State\<close>

record agent_config =
  gc_worker_id :: string
  gc_controller_addr :: string
  gc_run_as_worker_user :: bool
  gc_temp_dir :: string
  gc_simulate :: bool
  gc_env_policy :: "bool \<times> string list \<times> bool"
  gc_shell_split :: "string \<Rightarrow> string list option"
  gc_serialize_wd :: "u64 \<times> string \<Rightarrow> string option"

datatype job_spec = Launched run_job_msg | Recovered persisted_job | Simulated u64

datatype agent_message =
    JobStarted u64
  | FromJob job_message
  | FromStep step_report
  | StepError u64 u32 string
  | LogData u64 u64 string
  | JobOutputFiles u64 u64 "job_output_artifact list"
  | JobOutputFileChunk u64 u64 string string "u64 option"
  | AgentError string
  | ComponentLogs u64 string string string
  | SystemLogs u64 string string string
  | WorkerDraining string
  | TerminalClosed u64 string
  | VncClosed u64 string

record job_task =
  jt_job :: u64
  jt_spec :: job_spec
  jt_signal :: "kill_signal option option"
  jt_sent :: "agent_message list"
  jt_ended :: bool

record step_task =
  sk_id :: "u64 \<times> u32"
  sk_killed :: bool
  sk_inbox :: "message list"
  sk_ended :: bool

record agent =
  ag_running_jobs :: "(u64, nat) hmap"
  ag_running_pids :: "(u64, pid) hmap"
  ag_running_steps :: "(u64, nat list) hmap"
  ag_job_wds :: "(u64, string) hmap"
  ag_wds_file :: "string option"
  ag_pmi_routers :: "(u64 \<times> u32, nat) hmap"
  ag_terminals :: "(u64, string) hmap"
  ag_vnc_ports :: "(u64, u16) hmap"
  ag_vnc_sessions :: "(u64, string list) hmap"
  ag_pulse_interval :: real
  ag_draining :: bool
  ag_sent_draining :: bool
  ag_restarts :: nat
  ag_closed :: bool
  ag_job_tasks :: "job_task list"
  ag_step_tasks :: "step_task list"
  ag_out :: "agent_message list"

definition send :: "agent_message \<Rightarrow> agent \<Rightarrow> agent" where
  "send m ag = ag\<lparr>ag_out := ag_out ag @ [m]\<rparr>"

section \<open>Kill channels\<close>

text \<open>A oneshot channel delivers the first signal only, and only to a task that still waits.\<close>

definition deliver :: "nat \<Rightarrow> kill_signal option \<Rightarrow> agent \<Rightarrow> agent" where
  "deliver t sig ag =
     (if t < length (ag_job_tasks ag) \<and> \<not> jt_ended (ag_job_tasks ag ! t) \<and> jt_signal (ag_job_tasks ag ! t) = None
      then ag\<lparr>ag_job_tasks := (ag_job_tasks ag)[t := (ag_job_tasks ag ! t)\<lparr>jt_signal := Some sig\<rparr>]\<rparr> else ag)"

definition remove_sender :: "u64 \<Rightarrow> kill_signal option \<Rightarrow> agent \<Rightarrow> agent" where
  "remove_sender job_id sig ag =
     (case hm_get (ag_running_jobs ag) job_id of
        None \<Rightarrow> ag
      | Some t \<Rightarrow> deliver t sig (ag\<lparr>ag_running_jobs := hm_remove job_id (ag_running_jobs ag)\<rparr>))"

text \<open>A new task with its channel; inserting its sender drops the sender that was there.\<close>

definition spawn_job :: "u64 \<Rightarrow> job_spec \<Rightarrow> agent \<Rightarrow> agent" where
  "spawn_job job_id spec ag =
     (let ag1 = remove_sender job_id None ag
      in ag1\<lparr>ag_running_jobs := hm_insert job_id (length (ag_job_tasks ag1)) (ag_running_jobs ag1),
             ag_job_tasks := ag_job_tasks ag1 @ [\<lparr>jt_job = job_id, jt_spec = spec, jt_signal = None, jt_sent = [], jt_ended = False\<rparr>]\<rparr>)"

definition kill_step :: "nat \<Rightarrow> agent \<Rightarrow> agent" where
  "kill_step t ag =
     (if t < length (ag_step_tasks ag) \<and> \<not> sk_ended (ag_step_tasks ag ! t)
      then ag\<lparr>ag_step_tasks := (ag_step_tasks ag)[t := (ag_step_tasks ag ! t)\<lparr>sk_killed := True\<rparr>]\<rparr> else ag)"

definition kill_steps_of :: "u64 \<Rightarrow> agent \<Rightarrow> agent" where
  "kill_steps_of job_id ag =
     (case hm_get (ag_running_steps ag) job_id of
        None \<Rightarrow> ag
      | Some ts \<Rightarrow> fold kill_step ts (ag\<lparr>ag_running_steps := hm_remove job_id (ag_running_steps ag)\<rparr>))"

section \<open>Commands\<close>

definition local_controller_url :: "agent_config \<Rightarrow> string \<Rightarrow> string" where
  "local_controller_url cfg url = replace_str ''localhost'' (hd (split_on CHR '':'' (gc_controller_addr cfg))) url"

definition run_job_command :: "agent_config \<Rightarrow> run_job_msg \<Rightarrow> agent \<Rightarrow> agent" where
  "run_job_command cfg m ag =
     (let job_id = rj_job_id m;
          m1 = m\<lparr>rj_controller_url := local_controller_url cfg (rj_controller_url m)\<rparr>;
          effective_wd = (if gc_run_as_worker_user cfg then gc_temp_dir cfg else rj_working_directory m);
          ag1 = ag\<lparr>ag_job_wds := hm_insert job_id effective_wd (ag_job_wds ag),
                   ag_wds_file := fst (persist_job_wd (gc_serialize_wd cfg) job_id effective_wd (ag_wds_file ag))\<rparr>
      in spawn_job job_id (if gc_simulate cfg then Simulated job_id else Launched m1) ag1)"

definition run_step_command :: "run_step_msg \<Rightarrow> agent \<Rightarrow> agent" where
  "run_step_command m ag =
     (let step = (rst_parent_job_id m, rst_step_id m); t = length (ag_step_tasks ag)
      in ag\<lparr>ag_pmi_routers := hm_insert step t (ag_pmi_routers ag),
            ag_running_steps := hm_entry (rst_parent_job_id m) [] (\<lambda>ts. ts @ [t]) (ag_running_steps ag),
            ag_step_tasks := ag_step_tasks ag @ [\<lparr>sk_id = step, sk_killed = False, sk_inbox = [], sk_ended = False\<rparr>]\<rparr>)"

definition route_pmi :: "u64 \<times> u32 \<Rightarrow> message \<Rightarrow> agent \<Rightarrow> agent" where
  "route_pmi step m ag =
     (case hm_get (ag_pmi_routers ag) step of
        Some t \<Rightarrow> if t < length (ag_step_tasks ag) \<and> \<not> sk_ended (ag_step_tasks ag ! t)
          then ag\<lparr>ag_step_tasks := (ag_step_tasks ag)[t := (ag_step_tasks ag ! t)\<lparr>sk_inbox := sk_inbox (ag_step_tasks ag ! t) @ [m]\<rparr>]\<rparr> else ag
      | None \<Rightarrow> ag)"

fun controller_message :: "agent_config \<Rightarrow> message \<Rightarrow> agent \<Rightarrow> agent" where
  "controller_message cfg (RunJob m) ag = run_job_command cfg m ag"
| "controller_message cfg (RunStep m) ag = run_step_command m ag"
| "controller_message cfg (StepPMIGetResponse j s r q k v) ag = route_pmi (j, s) (StepPMIGetResponse j s r q k v) ag"
| "controller_message cfg (StepPMIBarrierRelease j s) ag = route_pmi (j, s) (StepPMIBarrierRelease j s) ag"
| "controller_message cfg (TerminateJob job_id) ag = kill_steps_of job_id (remove_sender job_id (Some Cancel) ag)"
| "controller_message cfg (PreemptJob job_id) ag = kill_steps_of job_id (remove_sender job_id (Some Preempt) ag)"
| "controller_message cfg (SetPulseInterval secs) ag = ag\<lparr>ag_pulse_interval := secs\<rparr>"

text \<open>The other requests, and what the host answers to them.\<close>

datatype controller_request =
    GetComponentLogs u64 nat
  | GetSystemLogs u64 string nat
  | GetLogs u64 u64 log_type u64 "u64 option" "string option"
  | ListJobOutputFiles u64 u64 "string option" "container_asset option"
  | GetJobOutputFileChunk u64 u64 string u64 "u64 option" "string option" "container_asset option"
  | Restart string
  | StartTerminalSession u64 u64
  | TerminalInput u64 string
  | TerminalResize u64 u16 u16
  | StopTerminalSession u64
  | StartVncSession u64 u64
  | VncInput u64 string
  | StopVncSession u64

datatype command_result = Ran bool string string string | NotRun string

record host =
  ho_hostname :: string
  ho_log_file :: "string option"
  ho_run :: "string list \<Rightarrow> command_result"
  ho_read :: "string \<Rightarrow> (string + string) option"
  ho_outputs :: file_system
  ho_tree :: "string \<Rightarrow> bool \<times> (string \<times> fs_node) list option option"
  ho_error_text :: "output_error \<Rightarrow> string"
  ho_terminal :: "string \<Rightarrow> pid option \<Rightarrow> string option"
  ho_vnc_connect :: "u16 \<Rightarrow> nat \<Rightarrow> string option"

definition tail_lines :: "nat \<Rightarrow> string \<Rightarrow> string" where
  "tail_lines n content = join [CHR 0x0A] (rev (take n (rev (str_lines content))))"

definition component_log :: "host \<Rightarrow> nat \<Rightarrow> string" where
  "component_log h lines = (case ho_log_file h of Some c \<Rightarrow> tail_lines lines c | None \<Rightarrow> ''Log file not found'')"

definition command_log :: "host \<Rightarrow> string list \<Rightarrow> (string \<Rightarrow> string) \<Rightarrow> string \<Rightarrow> string \<Rightarrow> string" where
  "command_log h cmd on_success failed not_run =
     (case ho_run h cmd of
        Ran True _ out _ \<Rightarrow> on_success out
      | Ran False status _ err \<Rightarrow> failed @ '' ('' @ status @ ''): '' @ err
      | NotRun e \<Rightarrow> not_run @ '': '' @ e)"

definition system_log :: "host \<Rightarrow> string \<Rightarrow> nat \<Rightarrow> string" where
  "system_log h log_source lines =
     (if log_source = ''dmesg'' then command_log h [''dmesg'', ''-T''] (tail_lines lines) ''dmesg failed'' ''Failed to run dmesg''
      else if log_source = ''syslog'' then command_log h [''tail'', ''-n'', show_nat lines, ''/var/log/syslog''] (\<lambda>out. out) ''Failed to read syslog'' ''Failed to read syslog''
      else if log_source = ''journal'' then command_log h [''journalctl'', ''-n'', show_nat lines, ''--no-pager''] (\<lambda>out. out) ''Failed to read journal'' ''Failed to read journal''
      else ''Unsupported log source: '' @ log_source)"

definition known_wd :: "agent \<Rightarrow> u64 \<Rightarrow> string option \<Rightarrow> string option" where
  "known_wd ag job_id provided_wd = (case hm_get (ag_job_wds ag) job_id of Some wd \<Rightarrow> Some wd | None \<Rightarrow> provided_wd)"

definition log_path :: "agent_config \<Rightarrow> string \<Rightarrow> u64 \<Rightarrow> log_type \<Rightarrow> string" where
  "log_path cfg wd job_id lt =
     rust_join wd (show_u64 job_id @ ''-'' @ gc_worker_id cfg @ (case lt of Stdout \<Rightarrow> ''-stdout.log'' | Stderr \<Rightarrow> ''-stderr.log''))"

definition log_content :: "agent_config \<Rightarrow> host \<Rightarrow> agent \<Rightarrow> u64 \<Rightarrow> log_type \<Rightarrow> u64 \<Rightarrow> u64 option \<Rightarrow> string option \<Rightarrow> string" where
  "log_content cfg h ag job_id lt offset len provided_wd =
     (case known_wd ag job_id provided_wd of
        None \<Rightarrow> ''Job working directory not found.''
      | Some wd \<Rightarrow>
          (case ho_read h (log_path cfg wd job_id lt) of
             None \<Rightarrow> []
           | Some (Inl e) \<Rightarrow> ''Error reading log: '' @ e
           | Some (Inr content) \<Rightarrow> (let rest = drop (unat offset) content in case len of Some n \<Rightarrow> take (unat n) rest | None \<Rightarrow> rest)))"

definition output_files :: "host \<Rightarrow> agent \<Rightarrow> u64 \<Rightarrow> string option \<Rightarrow> container_asset option \<Rightarrow> job_output_artifact list" where
  "output_files h ag job_id provided_wd asset =
     (case known_wd ag job_id provided_wd of
        None \<Rightarrow> []
      | Some wd \<Rightarrow> (case collect_declared_output_artifacts asset (fst (ho_tree h wd)) (snd (ho_tree h wd)) of Inr as \<Rightarrow> as | Inl _ \<Rightarrow> []))"

definition output_chunk :: "host \<Rightarrow> agent \<Rightarrow> u64 \<Rightarrow> u64 \<Rightarrow> string \<Rightarrow> u64 \<Rightarrow> u64 option \<Rightarrow> string option \<Rightarrow> container_asset option \<Rightarrow> agent_message" where
  "output_chunk h ag request_id job_id path offset len provided_wd asset =
     (case known_wd ag job_id provided_wd of
        None \<Rightarrow> AgentError (''Working directory for job '' @ show_u64 job_id @ '' not found'')
      | Some wd \<Rightarrow>
          (case read_declared_output_chunk (ho_outputs h) wd asset path offset len of
             Inr (normalized, content, sz) \<Rightarrow> JobOutputFileChunk request_id job_id normalized content sz
           | Inl e \<Rightarrow> AgentError (ho_error_text h e)))"

text \<open>Ten attempts to reach the VNC server; the error of the last one is reported.\<close>

function vnc_connect :: "(nat \<Rightarrow> string option) \<Rightarrow> nat \<Rightarrow> string option" where
  "vnc_connect try_connect attempt =
     (case try_connect attempt of
        None \<Rightarrow> None
      | Some e \<Rightarrow> if attempt \<ge> 10 then Some (''TCP connect refused: '' @ e) else vnc_connect try_connect (attempt + 1))"
  by pat_completeness auto
termination by (relation "measure (\<lambda>(_, attempt). 10 - attempt)") auto

declare vnc_connect.simps [simp del]

definition start_vnc :: "host \<Rightarrow> u64 \<Rightarrow> u64 \<Rightarrow> agent \<Rightarrow> agent" where
  "start_vnc h job_id session_id ag =
     (case hm_get (ag_vnc_ports ag) job_id of
        None \<Rightarrow> send (VncClosed session_id ''VNC port not found'') ag
      | Some port \<Rightarrow>
          (case vnc_connect (ho_vnc_connect h port) 1 of
             Some reason \<Rightarrow> send (VncClosed session_id reason) ag
           | None \<Rightarrow> ag\<lparr>ag_vnc_sessions := hm_insert session_id [] (ag_vnc_sessions ag)\<rparr>))"

definition start_terminal :: "host \<Rightarrow> u64 \<Rightarrow> u64 \<Rightarrow> agent \<Rightarrow> agent" where
  "start_terminal h job_id session_id ag =
     (let wd = (case hm_get (ag_job_wds ag) job_id of Some wd \<Rightarrow> wd | None \<Rightarrow> ''/tmp'')
      in case ho_terminal h wd (hm_get (ag_running_pids ag) job_id) of
           Some reason \<Rightarrow> send (TerminalClosed session_id reason) ag
         | None \<Rightarrow> ag\<lparr>ag_terminals := hm_insert session_id [] (ag_terminals ag)\<rparr>)"

fun agent_request :: "agent_config \<Rightarrow> host \<Rightarrow> controller_request \<Rightarrow> agent \<Rightarrow> agent" where
  "agent_request cfg h (GetComponentLogs request_id lines) ag =
     send (ComponentLogs request_id (gc_worker_id cfg) (ho_hostname h) (component_log h lines)) ag"
| "agent_request cfg h (GetSystemLogs request_id log_source lines) ag =
     send (SystemLogs request_id (gc_worker_id cfg) (ho_hostname h) (system_log h log_source lines)) ag"
| "agent_request cfg h (GetLogs request_id job_id lt offset len provided_wd) ag =
     send (LogData request_id job_id (log_content cfg h ag job_id lt offset len provided_wd)) ag"
| "agent_request cfg h (ListJobOutputFiles request_id job_id provided_wd asset) ag =
     send (JobOutputFiles request_id job_id (output_files h ag job_id provided_wd asset)) ag"
| "agent_request cfg h (GetJobOutputFileChunk request_id job_id path offset len provided_wd asset) ag =
     send (output_chunk h ag request_id job_id path offset len provided_wd asset) ag"
| "agent_request cfg h (Restart component) ag =
     (if component = ''worker'' then send (WorkerDraining (gc_worker_id cfg)) (ag\<lparr>ag_restarts := ag_restarts ag + 1\<rparr>) else ag)"
| "agent_request cfg h (StartTerminalSession job_id session_id) ag = start_terminal h job_id session_id ag"
| "agent_request cfg h (TerminalInput session_id data) ag =
     ag\<lparr>ag_terminals := hm_modify session_id (\<lambda>written. written @ data) (ag_terminals ag)\<rparr>"
| "agent_request cfg h (TerminalResize session_id rows cols) ag = ag"
| "agent_request cfg h (StopTerminalSession session_id) ag = ag\<lparr>ag_terminals := hm_remove session_id (ag_terminals ag)\<rparr>"
| "agent_request cfg h (StartVncSession job_id session_id) ag = start_vnc h job_id session_id ag"
| "agent_request cfg h (VncInput session_id data) ag =
     ag\<lparr>ag_vnc_sessions := hm_modify session_id (\<lambda>sent. sent @ [data]) (ag_vnc_sessions ag)\<rparr>"
| "agent_request cfg h (StopVncSession session_id) ag = ag\<lparr>ag_vnc_sessions := hm_remove session_id (ag_vnc_sessions ag)\<rparr>"

section \<open>Tasks\<close>

text \<open>
  The messages a job task can send in all, given the signal on its channel: a job ends by the kill branch
  only when a signal has arrived.
\<close>

inductive job_course :: "agent_config \<Rightarrow> job_spec \<Rightarrow> kill_signal option option \<Rightarrow> agent_message list \<Rightarrow> bool" for cfg where
  launched: "(\<And>s. jf_end f = KillReceived s \<Longrightarrow> sig = Some s) \<Longrightarrow>
    job_course cfg (Launched m) sig (map FromJob (run_job_messages (gc_shell_split cfg) (gc_run_as_worker_user cfg) (gc_temp_dir cfg) (gc_env_policy cfg) m f))"
| recovered: "(\<And>s. ev = SignalReceived s \<Longrightarrow> sig = Some s) \<Longrightarrow>
    job_course cfg (Recovered p) sig (map (\<lambda>r. FromJob (Report r)) (rv_reports (recover_and_monitor_job now proc ev p)))"
| simulated: "job_course cfg (Simulated j) sig [JobStarted j, FromJob (Report (JobDone j 0))]"

definition job_sends :: "nat \<Rightarrow> agent_message \<Rightarrow> agent \<Rightarrow> agent" where
  "job_sends t m ag =
     send m (ag\<lparr>ag_job_tasks := (ag_job_tasks ag)[t := (ag_job_tasks ag ! t)\<lparr>jt_sent := jt_sent (ag_job_tasks ag ! t) @ [m]\<rparr>]\<rparr>)"

text \<open>The cleanup after \<open>run_job\<close> or \<open>recover_and_monitor_job\<close> removes whatever sender the table holds for the job id.\<close>

definition end_job :: "nat \<Rightarrow> agent \<Rightarrow> agent" where
  "end_job t ag =
     (let task = ag_job_tasks ag ! t;
          ag1 = ag\<lparr>ag_job_tasks := (ag_job_tasks ag)[t := task\<lparr>jt_ended := True\<rparr>]\<rparr>;
          ag2 = remove_sender (jt_job task) None ag1
      in case jt_spec task of
           Simulated _ \<Rightarrow> ag2
         | Launched _ \<Rightarrow> ag2\<lparr>ag_running_pids := hm_remove (jt_job task) (ag_running_pids ag2), ag_vnc_ports := hm_remove (jt_job task) (ag_vnc_ports ag2)\<rparr>
         | Recovered _ \<Rightarrow> ag2\<lparr>ag_running_pids := hm_remove (jt_job task) (ag_running_pids ag2)\<rparr>)"

definition end_step :: "nat \<Rightarrow> agent \<Rightarrow> agent" where
  "end_step t ag =
     ag\<lparr>ag_step_tasks := (ag_step_tasks ag)[t := (ag_step_tasks ag ! t)\<lparr>sk_ended := True\<rparr>],
        ag_pmi_routers := hm_remove (sk_id (ag_step_tasks ag ! t)) (ag_pmi_routers ag)\<rparr>"

text \<open>The forced end of all jobs before a restart, in the order the table is drained.\<close>

definition kill_all :: "agent \<Rightarrow> agent" where
  "kill_all ag = (let ag1 = fold (\<lambda>(_, t). deliver t (Some Cancel)) (ag_running_jobs ag) ag in ag1\<lparr>ag_running_jobs := []\<rparr>)"

text \<open>The jobs of the persistence file are taken up when the connection starts.\<close>

definition recover_job :: "persisted_job \<Rightarrow> agent \<Rightarrow> agent" where
  "recover_job p ag =
     (let ag1 = spawn_job (pj_job_id p) (Recovered p) (ag\<lparr>ag_job_wds := hm_insert (pj_job_id p) (pj_working_directory p) (ag_job_wds ag)\<rparr>)
      in ag1\<lparr>ag_running_pids := hm_insert (pj_job_id p) (pj_pid p) (ag_running_pids ag1)\<rparr>)"

definition new_agent :: "(u64, string) hmap \<Rightarrow> string option \<Rightarrow> persisted_job list \<Rightarrow> agent" where
  "new_agent wds wds_file persisted_jobs =
     fold recover_job persisted_jobs
       \<lparr>ag_running_jobs = [], ag_running_pids = [], ag_running_steps = [], ag_job_wds = wds, ag_wds_file = wds_file, ag_pmi_routers = [],
        ag_terminals = [], ag_vnc_ports = [], ag_vnc_sessions = [], ag_pulse_interval = 2, ag_draining = False, ag_sent_draining = False,
        ag_restarts = 0, ag_closed = False, ag_job_tasks = [], ag_step_tasks = [], ag_out = []\<rparr>"

section \<open>Steps\<close>

datatype agent_event =
    Controller message
  | Request controller_request
  | JobSends nat agent_message
  | JobProcess nat pid
  | JobVncPort nat u16
  | JobEnds nat
  | StepSends nat agent_message
  | StepEnds nat
  | DrainSignal
  | DrainChanged
  | DrainTick
  | RestartNow
  | Disconnected

inductive agent_step :: "agent_config \<Rightarrow> host \<Rightarrow> agent_event \<Rightarrow> agent \<Rightarrow> agent \<Rightarrow> bool" for cfg where
  controller: "\<not> ag_closed ag \<Longrightarrow> agent_step cfg h (Controller m) ag (controller_message cfg m ag)"
| request: "\<not> ag_closed ag \<Longrightarrow> agent_step cfg h (Request q) ag (agent_request cfg h q ag)"
| job_sends: "t < length (ag_job_tasks ag) \<Longrightarrow> task = ag_job_tasks ag ! t \<Longrightarrow> \<not> jt_ended task \<Longrightarrow>
    job_course cfg (jt_spec task) (jt_signal task) ms \<Longrightarrow> prefix (jt_sent task @ [m]) ms \<Longrightarrow>
    agent_step cfg h (JobSends t m) ag (job_sends t m ag)"
| job_process: "t < length (ag_job_tasks ag) \<Longrightarrow> \<not> jt_ended (ag_job_tasks ag ! t) \<Longrightarrow> jt_spec (ag_job_tasks ag ! t) \<noteq> Simulated (jt_job (ag_job_tasks ag ! t)) \<Longrightarrow>
    agent_step cfg h (JobProcess t i) ag (ag\<lparr>ag_running_pids := hm_insert (jt_job (ag_job_tasks ag ! t)) i (ag_running_pids ag)\<rparr>)"
| job_vnc: "t < length (ag_job_tasks ag) \<Longrightarrow> \<not> jt_ended (ag_job_tasks ag ! t) \<Longrightarrow> jt_spec (ag_job_tasks ag ! t) = Launched m \<Longrightarrow> rj_vnc_enabled m \<Longrightarrow>
    agent_step cfg h (JobVncPort t port) ag (ag\<lparr>ag_vnc_ports := hm_insert (rj_job_id m) port (ag_vnc_ports ag)\<rparr>)"
| job_ends: "t < length (ag_job_tasks ag) \<Longrightarrow> task = ag_job_tasks ag ! t \<Longrightarrow> \<not> jt_ended task \<Longrightarrow>
    job_course cfg (jt_spec task) (jt_signal task) (jt_sent task) \<Longrightarrow> agent_step cfg h (JobEnds t) ag (end_job t ag)"
| step_sends: "t < length (ag_step_tasks ag) \<Longrightarrow> \<not> sk_ended (ag_step_tasks ag ! t) \<Longrightarrow> sk_id (ag_step_tasks ag ! t) = (j, s) \<Longrightarrow>
    (\<exists>c. m = FromStep (StepStarted j s) \<or> m = FromStep (StepDone j s c)) \<or> (\<exists>e. m = StepError j s e) \<Longrightarrow>
    agent_step cfg h (StepSends t m) ag (send m ag)"
| step_ends: "t < length (ag_step_tasks ag) \<Longrightarrow> \<not> sk_ended (ag_step_tasks ag ! t) \<Longrightarrow> agent_step cfg h (StepEnds t) ag (end_step t ag)"
| drain_signal: "agent_step cfg h DrainSignal ag (ag\<lparr>ag_draining := True\<rparr>)"
| drain_changed: "\<not> ag_closed ag \<Longrightarrow> ag_draining ag \<Longrightarrow> \<not> ag_sent_draining ag \<Longrightarrow>
    agent_step cfg h DrainChanged ag (send (WorkerDraining (gc_worker_id cfg)) (ag\<lparr>ag_sent_draining := True\<rparr>))"
| drain_tick: "\<not> ag_closed ag \<Longrightarrow> ag_draining ag \<Longrightarrow> ag_running_jobs ag = [] \<Longrightarrow> agent_step cfg h DrainTick ag (ag\<lparr>ag_closed := True\<rparr>)"
| restart_now: "ag_restarts ag > 0 \<Longrightarrow> agent_step cfg h RestartNow ag ((kill_all ag)\<lparr>ag_closed := True\<rparr>)"
| disconnected: "\<not> ag_closed ag \<Longrightarrow> agent_step cfg h Disconnected ag (ag\<lparr>ag_closed := True\<rparr>)"

inductive_cases agent_stepE: "agent_step cfg h e ag ag'"

text \<open>Runs of one connection, with the events so far.\<close>

inductive agent_run :: "agent_config \<Rightarrow> agent \<Rightarrow> agent_event list \<Rightarrow> agent \<Rightarrow> bool" for cfg start_agent where
  start: "agent_run cfg start_agent [] start_agent"
| step: "agent_run cfg start_agent es ag \<Longrightarrow> agent_step cfg h e ag ag' \<Longrightarrow> agent_run cfg start_agent (es @ [e]) ag'"

section \<open>The kill channels are consistent\<close>

text \<open>
  A registered sender belongs to a task of that job that has not ended and got no signal; a signal was asked
  for by the controller, or the channel was dropped because there is another task for the same job id; and a
  killed job is reported only by a task that got a signal.
\<close>

definition registered_ok :: "agent \<Rightarrow> bool" where
  "registered_ok ag = (hm_wf (ag_running_jobs ag) \<and> (\<forall>j t. hm_get (ag_running_jobs ag) j = Some t \<longrightarrow> t < length (ag_job_tasks ag) \<and>
     jt_job (ag_job_tasks ag ! t) = j \<and> \<not> jt_ended (ag_job_tasks ag ! t) \<and> jt_signal (ag_job_tasks ag ! t) = None))"

definition kill_requests :: "agent_event list \<Rightarrow> u64 \<Rightarrow> bool" where
  "kill_requests es j = (Controller (TerminateJob j) \<in> set es \<or> Controller (PreemptJob j) \<in> set es \<or> RestartNow \<in> set es)"

definition same_job :: "agent \<Rightarrow> nat \<Rightarrow> nat \<Rightarrow> bool" where
  "same_job ag t u = (t \<noteq> u \<and> u < length (ag_job_tasks ag) \<and> jt_job (ag_job_tasks ag ! u) = jt_job (ag_job_tasks ag ! t))"

definition cause :: "agent_event list \<Rightarrow> agent \<Rightarrow> nat \<Rightarrow> kill_signal option \<Rightarrow> bool" where
  "cause es ag t s = (case s of Some _ \<Rightarrow> kill_requests es (jt_job (ag_job_tasks ag ! t)) | None \<Rightarrow> (\<exists>u. same_job ag t u))"

definition signals_ok :: "agent_event list \<Rightarrow> agent \<Rightarrow> bool" where
  "signals_ok es ag = (\<forall>t<length (ag_job_tasks ag). \<forall>s. jt_signal (ag_job_tasks ag ! t) = Some s \<longrightarrow> cause es ag t s)"

lemma deliver_simps [simp]:
  "ag_running_jobs (deliver t s ag) = ag_running_jobs ag" "length (ag_job_tasks (deliver t s ag)) = length (ag_job_tasks ag)"
  "ag_out (deliver t s ag) = ag_out ag" "ag_running_steps (deliver t s ag) = ag_running_steps ag" "ag_step_tasks (deliver t s ag) = ag_step_tasks ag"
  "ag_pmi_routers (deliver t s ag) = ag_pmi_routers ag" "ag_closed (deliver t s ag) = ag_closed ag"
  by (simp_all add: deliver_def)

lemma deliver_task:
  "u < length (ag_job_tasks ag) \<Longrightarrow> ag_job_tasks (deliver t s ag) ! u =
     (if u = t \<and> \<not> jt_ended (ag_job_tasks ag ! t) \<and> jt_signal (ag_job_tasks ag ! t) = None
      then (ag_job_tasks ag ! u)\<lparr>jt_signal := Some s\<rparr> else ag_job_tasks ag ! u)"
  by (auto simp: deliver_def nth_list_update)

lemma remove_sender_simps [simp]:
  "length (ag_job_tasks (remove_sender j s ag)) = length (ag_job_tasks ag)" "ag_out (remove_sender j s ag) = ag_out ag"
  "ag_running_steps (remove_sender j s ag) = ag_running_steps ag" "ag_step_tasks (remove_sender j s ag) = ag_step_tasks ag"
  "ag_pmi_routers (remove_sender j s ag) = ag_pmi_routers ag" "ag_closed (remove_sender j s ag) = ag_closed ag"
  by (simp_all add: remove_sender_def split: option.split)

text \<open>Removing the sender of a job signals exactly the registered task.\<close>

lemma remove_sender_task:
  assumes "registered_ok ag" "u < length (ag_job_tasks ag)"
  shows "ag_job_tasks (remove_sender j s ag) ! u =
    (if hm_get (ag_running_jobs ag) j = Some u then (ag_job_tasks ag ! u)\<lparr>jt_signal := Some s\<rparr> else ag_job_tasks ag ! u)"
  using assms by (auto simp: remove_sender_def deliver_task registered_ok_def split: option.splits)

lemma remove_sender_table: "hm_wf (ag_running_jobs ag) \<Longrightarrow> hm_get (ag_running_jobs (remove_sender j s ag)) i = (if i = j then None else hm_get (ag_running_jobs ag) i)"
  by (auto simp: remove_sender_def split: option.split)

lemma spawn_job_task:
  assumes "registered_ok ag"
  shows "length (ag_job_tasks (spawn_job j spec ag)) = Suc (length (ag_job_tasks ag))"
    "u \<le> length (ag_job_tasks ag) \<Longrightarrow> ag_job_tasks (spawn_job j spec ag) ! u =
      (if u = length (ag_job_tasks ag) then \<lparr>jt_job = j, jt_spec = spec, jt_signal = None, jt_sent = [], jt_ended = False\<rparr>
       else if hm_get (ag_running_jobs ag) j = Some u then (ag_job_tasks ag ! u)\<lparr>jt_signal := Some None\<rparr> else ag_job_tasks ag ! u)"
    "hm_get (ag_running_jobs (spawn_job j spec ag)) i = (if i = j then Some (length (ag_job_tasks ag)) else hm_get (ag_running_jobs ag) i)"
  using assms by (auto simp: spawn_job_def Let_def nth_append remove_sender_task remove_sender_table registered_ok_def)

lemma end_job_simps [simp]:
  "length (ag_job_tasks (end_job t ag)) = length (ag_job_tasks ag)" "ag_out (end_job t ag) = ag_out ag"
  "ag_running_jobs (end_job t ag) = hm_remove (jt_job (ag_job_tasks ag ! t)) (ag_running_jobs ag)"
  by (auto simp: end_job_def Let_def remove_sender_def split: job_spec.split option.split)

lemma end_job_task:
  assumes "registered_ok ag" "t < length (ag_job_tasks ag)" "u < length (ag_job_tasks ag)"
  shows "ag_job_tasks (end_job t ag) ! u =
    (if u = t then (ag_job_tasks ag ! t)\<lparr>jt_ended := True\<rparr>
     else if hm_get (ag_running_jobs ag) (jt_job (ag_job_tasks ag ! t)) = Some u then (ag_job_tasks ag ! u)\<lparr>jt_signal := Some None\<rparr> else ag_job_tasks ag ! u)"
proof -
  let ?ag = "ag\<lparr>ag_job_tasks := (ag_job_tasks ag)[t := (ag_job_tasks ag ! t)\<lparr>jt_ended := True\<rparr>]\<rparr>"
  have "ag_job_tasks (end_job t ag) = ag_job_tasks (remove_sender (jt_job (ag_job_tasks ag ! t)) None ?ag)"
    by (auto simp: end_job_def Let_def split: job_spec.split)
  moreover have "hm_get (ag_running_jobs ag) j = Some v \<Longrightarrow> \<not> jt_ended (ag_job_tasks ag ! v) \<and> jt_signal (ag_job_tasks ag ! v) = None" for j v
    using assms(1) by (auto simp: registered_ok_def)
  ultimately show ?thesis using assms(2,3)
    by (cases "hm_get (ag_running_jobs ag) (jt_job (ag_job_tasks ag ! t))") (auto simp: remove_sender_def deliver_task nth_list_update)
qed

lemma fold_deliver [simp]:
  "length (ag_job_tasks (fold (\<lambda>(j, t). deliver t s) xs ag)) = length (ag_job_tasks ag)" "ag_out (fold (\<lambda>(j, t). deliver t s) xs ag) = ag_out ag"
  by (induction xs arbitrary: ag) auto

lemma fold_deliver_task:
  "u < length (ag_job_tasks ag) \<Longrightarrow> ag_job_tasks (fold (\<lambda>(j, t). deliver t s) xs ag) ! u =
     (if u \<in> snd ` set xs \<and> \<not> jt_ended (ag_job_tasks ag ! u) \<and> jt_signal (ag_job_tasks ag ! u) = None
      then (ag_job_tasks ag ! u)\<lparr>jt_signal := Some s\<rparr> else ag_job_tasks ag ! u)"
proof (induction xs arbitrary: ag)
  case (Cons x xs)
  obtain j t where x: "x = (j, t)" by (cases x)
  show ?case using Cons.IH [of "deliver t s ag"] Cons.prems x by (cases "u = t") (auto simp: deliver_task)
qed simp

lemma kill_all_simps [simp]:
  "length (ag_job_tasks (kill_all ag)) = length (ag_job_tasks ag)" "ag_out (kill_all ag) = ag_out ag" "ag_running_jobs (kill_all ag) = []"
  by (simp_all add: kill_all_def Let_def)

lemma kill_all_task:
  assumes "registered_ok ag" "u < length (ag_job_tasks ag)"
  shows "ag_job_tasks (kill_all ag) ! u =
    (if u \<in> snd ` set (ag_running_jobs ag) then (ag_job_tasks ag ! u)\<lparr>jt_signal := Some (Some Cancel)\<rparr> else ag_job_tasks ag ! u)"
proof -
  have "\<not> jt_ended (ag_job_tasks ag ! u) \<and> jt_signal (ag_job_tasks ag ! u) = None" if "(j, u) \<in> set (ag_running_jobs ag)" for j
    using assms(1) that hm_get_iff [of "ag_running_jobs ag" j u] by (simp add: registered_ok_def)
  then show ?thesis by (auto simp: kill_all_def Let_def fold_deliver_task [OF assms(2)])
qed

text \<open>All that holds along a run.\<close>

definition spec_job :: "job_spec \<Rightarrow> u64" where
  "spec_job spec = (case spec of Launched m \<Rightarrow> rj_job_id m | Recovered p \<Rightarrow> pj_job_id p | Simulated j \<Rightarrow> j)"

definition specs_ok :: "agent \<Rightarrow> bool" where
  "specs_ok ag = (\<forall>t<length (ag_job_tasks ag). spec_job (jt_spec (ag_job_tasks ag ! t)) = jt_job (ag_job_tasks ag ! t))"

definition killed_ok :: "agent \<Rightarrow> bool" where
  "killed_ok ag = (\<forall>j. FromJob (Report (JobKilled j)) \<in> set (ag_out ag) \<longrightarrow>
     (\<exists>t<length (ag_job_tasks ag). jt_job (ag_job_tasks ag ! t) = j \<and> jt_signal (ag_job_tasks ag ! t) \<noteq> None))"

definition agent_ok :: "agent_event list \<Rightarrow> agent \<Rightarrow> bool" where
  "agent_ok es ag = (registered_ok ag \<and> signals_ok es ag \<and> specs_ok ag \<and> killed_ok ag)"

text \<open>A step never takes back a task, its job or a signal.\<close>

definition extends :: "agent \<Rightarrow> agent \<Rightarrow> bool" where
  "extends ag ag' = (length (ag_job_tasks ag) \<le> length (ag_job_tasks ag') \<and> (\<forall>u<length (ag_job_tasks ag).
     jt_job (ag_job_tasks ag' ! u) = jt_job (ag_job_tasks ag ! u) \<and> jt_spec (ag_job_tasks ag' ! u) = jt_spec (ag_job_tasks ag ! u) \<and>
     (jt_signal (ag_job_tasks ag ! u) \<noteq> None \<longrightarrow> jt_signal (ag_job_tasks ag' ! u) = jt_signal (ag_job_tasks ag ! u))))"

lemma kill_requests_app: "kill_requests (es @ es') j = (kill_requests es j \<or> kill_requests es' j)"
  by (auto simp: kill_requests_def)

lemma same_job_extends: "extends ag ag' \<Longrightarrow> t < length (ag_job_tasks ag) \<Longrightarrow> same_job ag t u \<Longrightarrow> same_job ag' t u"
  by (auto simp: extends_def same_job_def)

lemma cause_mono: "extends ag ag' \<Longrightarrow> t < length (ag_job_tasks ag) \<Longrightarrow> cause es ag t s \<Longrightarrow> cause (es @ es') ag' t s"
  by (cases s) (auto simp: cause_def kill_requests_app extends_def intro: same_job_extends [unfolded extends_def])

lemma agent_ok_extend:
  assumes "agent_ok es ag" "extends ag ag'" "registered_ok ag'" "specs_ok ag'"
    and new: "\<And>t s. t < length (ag_job_tasks ag') \<Longrightarrow> jt_signal (ag_job_tasks ag' ! t) = Some s \<Longrightarrow>
      t < length (ag_job_tasks ag) \<and> jt_signal (ag_job_tasks ag ! t) = Some s \<or> cause (es @ es') ag' t s"
    and out: "\<And>j. FromJob (Report (JobKilled j)) \<in> set (ag_out ag') \<Longrightarrow> FromJob (Report (JobKilled j)) \<in> set (ag_out ag) \<or>
      (\<exists>t<length (ag_job_tasks ag'). jt_job (ag_job_tasks ag' ! t) = j \<and> jt_signal (ag_job_tasks ag' ! t) \<noteq> None)"
  shows "agent_ok (es @ es') ag'"
proof -
  have "cause (es @ es') ag' t s" if "t < length (ag_job_tasks ag')" "jt_signal (ag_job_tasks ag' ! t) = Some s" for t s
    using new [OF that] assms(1,2) cause_mono unfolding agent_ok_def signals_ok_def by blast
  moreover have "\<exists>t<length (ag_job_tasks ag'). jt_job (ag_job_tasks ag' ! t) = j \<and> jt_signal (ag_job_tasks ag' ! t) \<noteq> None"
    if k: "FromJob (Report (JobKilled j)) \<in> set (ag_out ag')" for j
  proof (cases "FromJob (Report (JobKilled j)) \<in> set (ag_out ag)")
    case True
    then obtain t where "t < length (ag_job_tasks ag)" "jt_job (ag_job_tasks ag ! t) = j" "jt_signal (ag_job_tasks ag ! t) \<noteq> None"
      using assms(1) by (auto simp: agent_ok_def killed_ok_def)
    with assms(2) show ?thesis by (intro exI [of _ t]) (auto simp: extends_def)
  qed (use out [OF k] in simp)
  ultimately show ?thesis using assms(3,4) by (simp add: agent_ok_def signals_ok_def killed_ok_def)
qed

lemma agent_ok_cong:
  assumes "agent_ok es ag" "ag_running_jobs ag' = ag_running_jobs ag" "ag_job_tasks ag' = ag_job_tasks ag"
    and "\<And>j. FromJob (Report (JobKilled j)) \<in> set (ag_out ag') \<Longrightarrow> FromJob (Report (JobKilled j)) \<in> set (ag_out ag)"
  shows "agent_ok (es @ es') ag'"
  using assms(1)
proof (rule agent_ok_extend)
  show "registered_ok ag'" "specs_ok ag'" using assms(1-3) by (auto simp: agent_ok_def registered_ok_def specs_ok_def)
qed (use assms(3,4) in \<open>auto simp: extends_def\<close>)

lemma agent_ok_remove_sender:
  assumes "agent_ok es ag" "kill_requests es' j"
  shows "agent_ok (es @ es') (remove_sender j (Some s) ag)"
  using assms(1)
proof (rule agent_ok_extend)
  let ?ag = "remove_sender j (Some s) ag"
  have reg: "registered_ok ag" and wf: "hm_wf (ag_running_jobs ag)" using assms(1) by (auto simp: agent_ok_def registered_ok_def)
  note task = remove_sender_task [OF reg, of _ j "Some s"] and table = remove_sender_table [OF wf, of j "Some s"]
  have regd: "hm_get (ag_running_jobs ag) i = Some u \<Longrightarrow> jt_job (ag_job_tasks ag ! u) = i \<and> jt_signal (ag_job_tasks ag ! u) = None" for i u
    using reg by (simp add: registered_ok_def)
  show "extends ag ?ag" using regd by (auto simp: extends_def task)
  have "hm_wf (ag_running_jobs ?ag)" using wf by (auto simp: remove_sender_def split: option.split)
  moreover have "hm_get (ag_running_jobs ag) i = Some u \<Longrightarrow> hm_get (ag_running_jobs ag) i' = Some u \<Longrightarrow> i = i'" for i i' u
    using regd by blast
  ultimately show "registered_ok ?ag" using reg unfolding registered_ok_def table by (auto simp: task)
  show "specs_ok ?ag" using assms(1) by (auto simp: agent_ok_def specs_ok_def task)
  show "t < length (ag_job_tasks ag) \<and> jt_signal (ag_job_tasks ag ! t) = Some s' \<or> cause (es @ es') ?ag t s'"
    if "t < length (ag_job_tasks ?ag)" "jt_signal (ag_job_tasks ?ag ! t) = Some s'" for t s'
  proof (cases "hm_get (ag_running_jobs ag) j = Some t")
    case True
    have "jt_job (ag_job_tasks ?ag ! t) = j" using True regd [OF True] that(1) by (simp add: task)
    moreover have "s' = Some s" using True that by (simp add: task)
    ultimately show ?thesis using assms(2) by (simp add: cause_def kill_requests_app)
  qed (use that in \<open>simp add: task\<close>)
qed simp

lemma agent_ok_spawn:
  assumes "agent_ok es ag" "spec_job spec = j"
  shows "agent_ok (es @ es') (spawn_job j spec ag)"
  using assms(1)
proof (rule agent_ok_extend)
  let ?ag = "spawn_job j spec ag" and ?n = "length (ag_job_tasks ag)"
  have reg: "registered_ok ag" using assms(1) by (simp add: agent_ok_def)
  note task = spawn_job_task [OF reg, where j = j and spec = spec]
  have regd: "hm_get (ag_running_jobs ag) i = Some u \<Longrightarrow> u < ?n \<and> jt_job (ag_job_tasks ag ! u) = i \<and> \<not> jt_ended (ag_job_tasks ag ! u) \<and> jt_signal (ag_job_tasks ag ! u) = None" for i u
    using reg by (simp add: registered_ok_def)
  show "extends ag ?ag" using regd by (auto simp: extends_def task)
  have "hm_wf (ag_running_jobs ?ag)" using reg by (auto simp: spawn_job_def Let_def registered_ok_def remove_sender_def split: option.split)
  moreover have "t < length (ag_job_tasks ?ag) \<and> jt_job (ag_job_tasks ?ag ! t) = i \<and> \<not> jt_ended (ag_job_tasks ?ag ! t) \<and> jt_signal (ag_job_tasks ?ag ! t) = None"
    if "hm_get (ag_running_jobs ?ag) i = Some t" for i t
  proof (cases "i = j")
    case False
    then have "hm_get (ag_running_jobs ag) i = Some t" using that by (simp add: task(3))
    with regd [OF this] regd [of j t] False show ?thesis by (auto simp: task(1,2))
  qed (use that in \<open>simp add: task\<close>)
  ultimately show "registered_ok ?ag" by (simp add: registered_ok_def)
  show "specs_ok ?ag" using assms by (auto simp: agent_ok_def specs_ok_def task less_Suc_eq)
  show "t < ?n \<and> jt_signal (ag_job_tasks ag ! t) = Some s \<or> cause (es @ es') ?ag t s"
    if "t < length (ag_job_tasks ?ag)" "jt_signal (ag_job_tasks ?ag ! t) = Some s" for t s
  proof (cases "hm_get (ag_running_jobs ag) j = Some t")
    case True
    then have "same_job ?ag t ?n" using regd [OF True] by (auto simp: same_job_def task)
    moreover have "s = None" using True regd [OF True] that(2) by (simp add: task)
    ultimately show ?thesis by (auto simp: cause_def)
  qed (use that in \<open>auto simp: task less_Suc_eq split: if_splits\<close>)
qed (simp add: spawn_job_def Let_def)

lemma agent_ok_end_job:
  assumes "agent_ok es ag" "t < length (ag_job_tasks ag)"
  shows "agent_ok (es @ es') (end_job t ag)"
  using assms(1)
proof (rule agent_ok_extend)
  let ?ag = "end_job t ag" and ?j = "jt_job (ag_job_tasks ag ! t)"
  have reg: "registered_ok ag" using assms(1) by (simp add: agent_ok_def)
  note task = end_job_task [OF reg assms(2)]
  have regd: "hm_get (ag_running_jobs ag) i = Some u \<Longrightarrow> u < length (ag_job_tasks ag) \<and> jt_job (ag_job_tasks ag ! u) = i \<and> \<not> jt_ended (ag_job_tasks ag ! u) \<and> jt_signal (ag_job_tasks ag ! u) = None" for i u
    using reg by (simp add: registered_ok_def)
  show ext: "extends ag ?ag" using regd by (auto simp: extends_def task)
  have "hm_wf (ag_running_jobs ?ag)" using reg by (simp add: registered_ok_def)
  moreover have "u < length (ag_job_tasks ?ag) \<and> jt_job (ag_job_tasks ?ag ! u) = i \<and> \<not> jt_ended (ag_job_tasks ?ag ! u) \<and> jt_signal (ag_job_tasks ?ag ! u) = None"
    if "hm_get (ag_running_jobs ?ag) i = Some u" for i u
  proof -
    have i: "i \<noteq> ?j" "hm_get (ag_running_jobs ag) i = Some u" using that by (auto split: if_splits)
    with regd [OF i(2)] regd [of ?j u] have "u \<noteq> t" "hm_get (ag_running_jobs ag) ?j \<noteq> Some u" by auto
    with regd [OF i(2)] show ?thesis by (simp add: task)
  qed
  ultimately show "registered_ok ?ag" by (simp add: registered_ok_def)
  show "specs_ok ?ag" using assms(1) by (auto simp: agent_ok_def specs_ok_def task)
  show "u < length (ag_job_tasks ag) \<and> jt_signal (ag_job_tasks ag ! u) = Some s \<or> cause (es @ es') ?ag u s"
    if u: "u < length (ag_job_tasks ?ag)" "jt_signal (ag_job_tasks ?ag ! u) = Some s" for u s
  proof (cases "u \<noteq> t \<and> hm_get (ag_running_jobs ag) ?j = Some u")
    case True
    then have "same_job ?ag u t" using regd [of ?j u] assms(2) by (auto simp: same_job_def task)
    moreover have "s = None" using True u by (simp add: task)
    ultimately show ?thesis by (auto simp: cause_def)
  qed (use u in \<open>auto simp: task split: if_splits\<close>)
qed simp

lemma agent_ok_kill_all:
  assumes "agent_ok es ag" "RestartNow \<in> set es'"
  shows "agent_ok (es @ es') (kill_all ag)"
  using assms(1)
proof (rule agent_ok_extend)
  have reg: "registered_ok ag" using assms(1) by (simp add: agent_ok_def)
  note task = kill_all_task [OF reg]
  have "jt_signal (ag_job_tasks ag ! u) = None" if "(j, u) \<in> set (ag_running_jobs ag)" for j u
    using reg that hm_get_iff [of "ag_running_jobs ag" j u] by (simp add: registered_ok_def)
  then show "extends ag (kill_all ag)" by (auto simp: extends_def task)
  show "registered_ok (kill_all ag)" by (simp add: registered_ok_def)
  show "specs_ok (kill_all ag)" using assms(1) by (auto simp: agent_ok_def specs_ok_def task)
  show "u < length (ag_job_tasks ag) \<and> jt_signal (ag_job_tasks ag ! u) = Some s \<or> cause (es @ es') (kill_all ag) u s"
    if "u < length (ag_job_tasks (kill_all ag))" "jt_signal (ag_job_tasks (kill_all ag) ! u) = Some s" for u s
    using that assms(2) by (auto simp: task cause_def kill_requests_def split: if_splits)
qed simp

text \<open>A job reports that it was killed only after a signal.\<close>

lemma course_killed:
  assumes "job_course cfg spec sig ms" "FromJob (Report (JobKilled j)) \<in> set ms"
  shows "sig \<noteq> None \<and> spec_job spec = j"
  using assms
proof (induction rule: job_course.induct)
  case (launched f sig m)
  then have k: "Report (JobKilled j) \<in> set (run_job_messages (gc_shell_split cfg) (gc_run_as_worker_user cfg) (gc_temp_dir cfg) (gc_env_policy cfg) m f)" by auto
  have i: "Report (JobKilled j) \<notin> set (interactive_port m)" by (auto simp: interactive_port_def split: option.splits)
  obtain c st r where e: "job_end_outcome (rj_job_id m) (jf_end f) = (c, st, r)" by (metis prod_cases3)
  have "r = JobKilled j" using k i by (auto simp: run_job_messages_def Let_def e split: if_splits option.splits)
  with e have "\<exists>s. jf_end f = KillReceived s \<and> rj_job_id m = j" by (cases "jf_end f") (auto simp: Let_def)
  then show ?case using launched(1) by (auto simp: spec_job_def)
next
  case (recovered ev sig p now proc)
  then show ?case by (auto simp: recover_and_monitor_job_def Let_def split: if_splits recovery_event.splits)
qed simp

lemma agent_ok_job_sends:
  assumes "agent_ok es ag" "t < length (ag_job_tasks ag)"
    and "job_course cfg (jt_spec (ag_job_tasks ag ! t)) (jt_signal (ag_job_tasks ag ! t)) ms" "prefix (jt_sent (ag_job_tasks ag ! t) @ [m]) ms"
  shows "agent_ok (es @ es') (job_sends t m ag)"
  using assms(1)
proof (rule agent_ok_extend)
  let ?ag = "job_sends t m ag"
  have task: "u < length (ag_job_tasks ag) \<Longrightarrow> jt_job (ag_job_tasks ?ag ! u) = jt_job (ag_job_tasks ag ! u) \<and> jt_spec (ag_job_tasks ?ag ! u) = jt_spec (ag_job_tasks ag ! u) \<and>
      jt_signal (ag_job_tasks ?ag ! u) = jt_signal (ag_job_tasks ag ! u) \<and> jt_ended (ag_job_tasks ?ag ! u) = jt_ended (ag_job_tasks ag ! u)" for u
    using assms(2) by (auto simp: job_sends_def send_def nth_list_update)
  have len: "length (ag_job_tasks ?ag) = length (ag_job_tasks ag)" and run: "ag_running_jobs ?ag = ag_running_jobs ag" by (simp_all add: job_sends_def send_def)
  show "extends ag ?ag" by (simp add: extends_def len task)
  show "registered_ok ?ag" using assms(1) by (auto simp: agent_ok_def registered_ok_def len run task)
  show "specs_ok ?ag" using assms(1) by (auto simp: agent_ok_def specs_ok_def len task)
  show "u < length (ag_job_tasks ag) \<and> jt_signal (ag_job_tasks ag ! u) = Some s \<or> cause (es @ es') ?ag u s"
    if "u < length (ag_job_tasks ?ag)" "jt_signal (ag_job_tasks ?ag ! u) = Some s" for u s using that by (simp add: len task)
  show "FromJob (Report (JobKilled j)) \<in> set (ag_out ag) \<or> (\<exists>u<length (ag_job_tasks ?ag). jt_job (ag_job_tasks ?ag ! u) = j \<and> jt_signal (ag_job_tasks ?ag ! u) \<noteq> None)"
    if k: "FromJob (Report (JobKilled j)) \<in> set (ag_out ?ag)" for j
  proof (cases "FromJob (Report (JobKilled j)) \<in> set (ag_out ag)")
    case False
    then have "m = FromJob (Report (JobKilled j))" using k by (auto simp: job_sends_def send_def)
    then have "FromJob (Report (JobKilled j)) \<in> set ms" using assms(4) by (auto simp: prefix_def)
    from course_killed [OF assms(3) this] have "jt_signal (ag_job_tasks ag ! t) \<noteq> None" "jt_job (ag_job_tasks ag ! t) = j"
      using assms(1,2) by (auto simp: agent_ok_def specs_ok_def)
    with assms(2) show ?thesis by (intro disjI2 exI [of _ t]) (simp add: len task)
  qed simp
qed

lemma kill_step_simps [simp]:
  "ag_running_jobs (kill_step t ag) = ag_running_jobs ag" "ag_job_tasks (kill_step t ag) = ag_job_tasks ag" "ag_out (kill_step t ag) = ag_out ag"
  "length (ag_step_tasks (kill_step t ag)) = length (ag_step_tasks ag)"
  by (simp_all add: kill_step_def)

lemma kill_steps_of_simps [simp]:
  "ag_running_jobs (kill_steps_of j ag) = ag_running_jobs ag" "ag_job_tasks (kill_steps_of j ag) = ag_job_tasks ag" "ag_out (kill_steps_of j ag) = ag_out ag"
proof -
  have "ag_running_jobs (fold kill_step ts ag) = ag_running_jobs ag \<and> ag_job_tasks (fold kill_step ts ag) = ag_job_tasks ag \<and> ag_out (fold kill_step ts ag) = ag_out ag" for ts ag
    by (induction ts arbitrary: ag) auto
  then show "ag_running_jobs (kill_steps_of j ag) = ag_running_jobs ag" "ag_job_tasks (kill_steps_of j ag) = ag_job_tasks ag" "ag_out (kill_steps_of j ag) = ag_out ag"
    by (simp_all add: kill_steps_of_def split: option.split)
qed

lemma agent_ok_controller:
  assumes "agent_ok es ag" shows "agent_ok (es @ [Controller m]) (controller_message cfg m ag)"
proof (cases m)
  case (RunJob r)
  let ?wd = "if gc_run_as_worker_user cfg then gc_temp_dir cfg else rj_working_directory r" and
    ?spec = "if gc_simulate cfg then Simulated (rj_job_id r) else Launched (r\<lparr>rj_controller_url := local_controller_url cfg (rj_controller_url r)\<rparr>)"
  define ag1 where "ag1 = ag\<lparr>ag_job_wds := hm_insert (rj_job_id r) ?wd (ag_job_wds ag), ag_wds_file := fst (persist_job_wd (gc_serialize_wd cfg) (rj_job_id r) ?wd (ag_wds_file ag))\<rparr>"
  have "agent_ok es ag1" using agent_ok_cong [OF assms, of ag1 "[]"] by (simp add: ag1_def)
  then have "agent_ok (es @ [Controller m]) (spawn_job (rj_job_id r) ?spec ag1)" by (rule agent_ok_spawn) (simp add: spec_job_def)
  moreover have "controller_message cfg m ag = spawn_job (rj_job_id r) ?spec ag1" by (simp add: RunJob run_job_command_def Let_def ag1_def)
  ultimately show ?thesis by simp
next
  case (TerminateJob j)
  have "agent_ok (es @ [Controller m]) (remove_sender j (Some Cancel) ag)"
    by (rule agent_ok_remove_sender [OF assms]) (simp add: kill_requests_def TerminateJob)
  from agent_ok_cong [OF this, of "kill_steps_of j (remove_sender j (Some Cancel) ag)" "[]"] TerminateJob show ?thesis by simp
next
  case (PreemptJob j)
  have "agent_ok (es @ [Controller m]) (remove_sender j (Some Preempt) ag)"
    by (rule agent_ok_remove_sender [OF assms]) (simp add: kill_requests_def PreemptJob)
  from agent_ok_cong [OF this, of "kill_steps_of j (remove_sender j (Some Preempt) ag)" "[]"] PreemptJob show ?thesis by simp
qed (rule agent_ok_cong [OF assms]; simp add: run_step_command_def route_pmi_def Let_def split: option.splits if_splits)+

lemma agent_ok_request:
  assumes "agent_ok es ag" shows "agent_ok (es @ [Request q]) (agent_request cfg h q ag)"
  by (rule agent_ok_cong [OF assms]; cases q)
    (simp_all add: send_def start_terminal_def start_vnc_def output_chunk_def Let_def split: option.splits sum.splits if_splits prod.splits)

lemma agent_ok_step:
  assumes "agent_step cfg h e ag ag'" "agent_ok es ag" shows "agent_ok (es @ [e]) ag'"
  using assms
proof (induction rule: agent_step.induct)
  case (controller ag h m)
  then show ?case by (intro agent_ok_controller)
next
  case (request ag h q)
  then show ?case by (intro agent_ok_request)
next
  case (job_sends t ag task ms m h)
  then show ?case by (intro agent_ok_job_sends) auto
next
  case (job_ends t ag task h)
  then show ?case by (intro agent_ok_end_job) auto
next
  case (restart_now ag h)
  then have "agent_ok (es @ [RestartNow]) (kill_all ag)" by (intro agent_ok_kill_all) auto
  from agent_ok_cong [OF this, of "(kill_all ag)\<lparr>ag_closed := True\<rparr>" "[]"] show ?case by simp
next
  case (step_sends t ag j s m h)
  then show ?case by (intro agent_ok_cong [OF \<open>agent_ok es ag\<close>]) (auto simp: send_def)
qed (erule agent_ok_cong; simp add: send_def end_step_def)+

text \<open>The start of a connection takes up the persisted jobs.\<close>

definition empty_agent :: "(u64, string) hmap \<Rightarrow> string option \<Rightarrow> agent" where
  "empty_agent wds wds_file =
     \<lparr>ag_running_jobs = [], ag_running_pids = [], ag_running_steps = [], ag_job_wds = wds, ag_wds_file = wds_file, ag_pmi_routers = [],
      ag_terminals = [], ag_vnc_ports = [], ag_vnc_sessions = [], ag_pulse_interval = 2, ag_draining = False, ag_sent_draining = False,
      ag_restarts = 0, ag_closed = False, ag_job_tasks = [], ag_step_tasks = [], ag_out = []\<rparr>"

lemma new_agent_fold: "new_agent wds wds_file ps = fold recover_job ps (empty_agent wds wds_file)"
  by (simp add: new_agent_def empty_agent_def)

lemma agent_ok_recover:
  assumes "agent_ok [] ag" shows "agent_ok [] (recover_job p ag)"
proof -
  let ?ag = "ag\<lparr>ag_job_wds := hm_insert (pj_job_id p) (pj_working_directory p) (ag_job_wds ag)\<rparr>"
  have "agent_ok [] ?ag" using agent_ok_cong [OF assms, of ?ag "[]"] by simp
  from agent_ok_spawn [OF this, of "Recovered p" "pj_job_id p" "[]"] have ok: "agent_ok [] (spawn_job (pj_job_id p) (Recovered p) ?ag)"
    by (simp add: spec_job_def)
  show ?thesis using agent_ok_cong [OF ok, of "recover_job p ag" "[]"] by (simp add: recover_job_def Let_def)
qed

lemma agent_ok_new: "agent_ok [] (new_agent wds wds_file ps)"
proof -
  have "agent_ok [] ag \<Longrightarrow> agent_ok [] (fold recover_job ps ag)" for ag
    by (induction ps arbitrary: ag) (simp_all add: agent_ok_recover)
  moreover have "agent_ok [] (empty_agent wds wds_file)"
    by (simp add: empty_agent_def agent_ok_def registered_ok_def signals_ok_def specs_ok_def killed_ok_def)
  ultimately show ?thesis by (simp add: new_agent_fold)
qed

lemma agent_ok_run: "agent_run cfg (new_agent wds wds_file ps) es ag \<Longrightarrow> agent_ok es ag"
  by (induction rule: agent_run.induct) (auto simp: agent_ok_new intro: agent_ok_step)

section \<open>Dispatched jobs and their tasks\<close>

definition jobs_of :: "agent \<Rightarrow> u64 list" where
  "jobs_of ag = map jt_job (ag_job_tasks ag)"

fun dispatched :: "agent_event \<Rightarrow> u64 option" where
  "dispatched (Controller (RunJob m)) = Some (rj_job_id m)"
| "dispatched _ = None"

lemma jobs_of_deliver [simp]: "jobs_of (deliver t s ag) = jobs_of ag"
  by (auto simp: jobs_of_def intro: nth_equalityI simp: deliver_task)

lemma jobs_of_tasks: "ag_job_tasks ag' = ag_job_tasks ag \<Longrightarrow> jobs_of ag' = jobs_of ag"
  by (simp add: jobs_of_def)

lemma jobs_of_remove_sender [simp]: "jobs_of (remove_sender j s ag) = jobs_of ag"
  by (auto simp: remove_sender_def intro: jobs_of_tasks split: option.split)

lemma jobs_of_spawn [simp]: "jobs_of (spawn_job j spec ag) = jobs_of ag @ [j]"
  using jobs_of_remove_sender [of j None ag] by (simp add: spawn_job_def Let_def jobs_of_def)

lemma jobs_of_update: "t < length (ag_job_tasks ag) \<Longrightarrow> jt_job task = jt_job (ag_job_tasks ag ! t) \<Longrightarrow> jobs_of (ag\<lparr>ag_job_tasks := (ag_job_tasks ag)[t := task]\<rparr>) = jobs_of ag"
  by (auto simp: jobs_of_def nth_list_update intro: nth_equalityI)

lemma jobs_of_end_job: "t < length (ag_job_tasks ag) \<Longrightarrow> jobs_of (end_job t ag) = jobs_of ag"
  using jobs_of_update [of t ag "(ag_job_tasks ag ! t)\<lparr>jt_ended := True\<rparr>"]
  by (auto simp: end_job_def Let_def jobs_of_def [of "_\<lparr>ag_running_pids := _\<rparr>"] jobs_of_def [of "_\<lparr>ag_running_pids := _, ag_vnc_ports := _\<rparr>"] jobs_of_def [symmetric] split: job_spec.split)

lemma jobs_of_kill_all: "jobs_of (kill_all ag) = jobs_of ag"
proof -
  have "jobs_of (fold (\<lambda>(j, t). deliver t s) xs ag) = jobs_of ag" for s xs by (induction xs arbitrary: ag) auto
  then show ?thesis by (simp add: kill_all_def Let_def jobs_of_def)
qed

lemma jobs_of_controller: "jobs_of (controller_message cfg m ag) = jobs_of ag @ (case dispatched (Controller m) of Some j \<Rightarrow> [j] | None \<Rightarrow> [])"
proof (cases m)
  case (RunJob r)
  then show ?thesis by (simp add: run_job_command_def Let_def) (simp add: jobs_of_def)
qed (auto simp: run_step_command_def route_pmi_def Let_def jobs_of_def jobs_of_remove_sender [unfolded jobs_of_def] split: option.splits)

lemma jobs_of_step:
  assumes "agent_step cfg h e ag ag'" shows "jobs_of ag' = jobs_of ag @ (case dispatched e of Some j \<Rightarrow> [j] | None \<Rightarrow> [])"
  using assms
proof (induction rule: agent_step.induct)
  case (controller ag h m)
  show ?case by (rule jobs_of_controller)
next
  case (request ag h q)
  have "ag_job_tasks (agent_request cfg h q ag) = ag_job_tasks ag"
    by (cases q) (simp_all add: send_def start_terminal_def start_vnc_def Let_def split: option.splits)
  then show ?case by (simp add: jobs_of_def)
next
  case (job_sends t ag task ms m h)
  then show ?case using jobs_of_update [of t ag "(ag_job_tasks ag ! t)\<lparr>jt_sent := jt_sent (ag_job_tasks ag ! t) @ [m]\<rparr>"]
    by (simp add: job_sends_def send_def jobs_of_def)
next
  case (job_ends t ag task h)
  then show ?case by (simp add: jobs_of_end_job)
next
  case (restart_now ag h)
  then show ?case using jobs_of_kill_all [of ag] by (simp add: jobs_of_def)
qed (simp_all add: jobs_of_def send_def end_step_def)

lemma jobs_of_run:
  assumes "agent_run cfg (new_agent wds wds_file ps) es ag"
  shows "jobs_of ag = map pj_job_id ps @ List.map_filter dispatched es"
  using assms
proof (induction rule: agent_run.induct)
  case start
  have "jobs_of (fold recover_job ps ag) = jobs_of ag @ map pj_job_id ps" for ag
  proof (induction ps arbitrary: ag)
    case (Cons p ps)
    have "jobs_of (recover_job p ag) = jobs_of ag @ [pj_job_id p]"
      using jobs_of_spawn [of "pj_job_id p" "Recovered p" "ag\<lparr>ag_job_wds := hm_insert (pj_job_id p) (pj_working_directory p) (ag_job_wds ag)\<rparr>"]
      by (simp add: recover_job_def Let_def jobs_of_def)
    then show ?case using Cons by simp
  qed simp
  then show ?case by (simp add: new_agent_def) (simp add: jobs_of_def)
next
  case (step es ag h e ag')
  then show ?case using jobs_of_step by (auto simp: map_filter_simps List.map_filter_def split: option.splits)
qed

text \<open>
  C32: a worker reports a job as killed only on request. When every job is dispatched at most once over a
  connection, persisted jobs included, a \<open>JobKilled\<close> report implies that the controller asked to terminate or
  preempt that job, or that the worker was restarted on request; the order of messages, reports, process ends
  and drains is arbitrary.
\<close>

theorem killed_only_on_request:
  assumes "agent_run cfg (new_agent wds wds_file ps) es ag" "distinct (map pj_job_id ps @ List.map_filter dispatched es)"
    and "FromJob (Report (JobKilled j)) \<in> set (ag_out ag)"
  shows "Controller (TerminateJob j) \<in> set es \<or> Controller (PreemptJob j) \<in> set es \<or> RestartNow \<in> set es"
proof -
  have ok: "agent_ok es ag" by (rule agent_ok_run [OF assms(1)])
  then obtain t s where t: "t < length (ag_job_tasks ag)" "jt_job (ag_job_tasks ag ! t) = j" "jt_signal (ag_job_tasks ag ! t) = Some s"
    using assms(3) by (auto simp: agent_ok_def killed_ok_def)
  then have c: "cause es ag t s" using ok by (simp add: agent_ok_def signals_ok_def)
  have "distinct (map jt_job (ag_job_tasks ag))" using jobs_of_run [OF assms(1)] assms(2) by (simp add: jobs_of_def)
  then have "\<not> same_job ag t u" for u using t(1) by (auto simp: same_job_def distinct_conv_nth)
  with c t(2) show ?thesis by (cases s) (auto simp: cause_def kill_requests_def)
qed

section \<open>Terminating a job\<close>

text \<open>A task that runs without a signal has its sender in the table.\<close>

definition live_registered :: "agent \<Rightarrow> bool" where
  "live_registered ag = (\<forall>t<length (ag_job_tasks ag). \<not> jt_ended (ag_job_tasks ag ! t) \<and> jt_signal (ag_job_tasks ag ! t) = None \<longrightarrow>
     hm_get (ag_running_jobs ag) (jt_job (ag_job_tasks ag ! t)) = Some t)"

lemma live_cong: "live_registered ag \<Longrightarrow> ag_running_jobs ag' = ag_running_jobs ag \<Longrightarrow> ag_job_tasks ag' = ag_job_tasks ag \<Longrightarrow> live_registered ag'"
  by (simp add: live_registered_def)

lemma live_kill_steps: "live_registered ag \<Longrightarrow> live_registered (kill_steps_of j ag)"
  by (rule live_cong) simp_all

lemma live_remove_sender:
  assumes "registered_ok ag" "live_registered ag" shows "live_registered (remove_sender j s ag)"
proof -
  have wf: "hm_wf (ag_running_jobs ag)" using assms(1) by (simp add: registered_ok_def)
  show ?thesis unfolding live_registered_def remove_sender_simps
    using assms(2) by (auto simp: remove_sender_task [OF assms(1)] remove_sender_table [OF wf] live_registered_def)
qed

lemma live_spawn:
  assumes "registered_ok ag" "live_registered ag" shows "live_registered (spawn_job j spec ag)"
  unfolding live_registered_def spawn_job_task(1) [OF assms(1)]
proof (intro allI impI)
  fix t assume t: "t < Suc (length (ag_job_tasks ag))" "\<not> jt_ended (ag_job_tasks (spawn_job j spec ag) ! t) \<and> jt_signal (ag_job_tasks (spawn_job j spec ag) ! t) = None"
  show "hm_get (ag_running_jobs (spawn_job j spec ag)) (jt_job (ag_job_tasks (spawn_job j spec ag) ! t)) = Some t"
  proof (cases "t = length (ag_job_tasks ag)")
    case False
    then have l: "t < length (ag_job_tasks ag)" using t by simp
    with t have n: "hm_get (ag_running_jobs ag) j \<noteq> Some t" by (auto simp: spawn_job_task(2) [OF assms(1)])
    with t l have "hm_get (ag_running_jobs ag) (jt_job (ag_job_tasks ag ! t)) = Some t" using assms(2)
      by (auto simp: spawn_job_task(2) [OF assms(1)] live_registered_def split: if_splits)
    with n l show ?thesis by (auto simp: spawn_job_task [OF assms(1)])
  qed (simp add: spawn_job_task [OF assms(1)])
qed

lemma live_end_job:
  assumes "registered_ok ag" "live_registered ag" "t < length (ag_job_tasks ag)" shows "live_registered (end_job t ag)"
  unfolding live_registered_def end_job_simps
proof (intro allI impI)
  fix u assume u: "u < length (ag_job_tasks ag)" "\<not> jt_ended (ag_job_tasks (end_job t ag) ! u) \<and> jt_signal (ag_job_tasks (end_job t ag) ! u) = None"
  note task = end_job_task [OF assms(1,3) u(1)]
  have n: "u \<noteq> t" "hm_get (ag_running_jobs ag) (jt_job (ag_job_tasks ag ! t)) \<noteq> Some u" using u(2) by (auto simp: task split: if_splits)
  then have "hm_get (ag_running_jobs ag) (jt_job (ag_job_tasks ag ! u)) = Some u" using u assms(2) by (simp add: task live_registered_def)
  with n show "hm_get (hm_remove (jt_job (ag_job_tasks ag ! t)) (ag_running_jobs ag)) (jt_job (ag_job_tasks (end_job t ag) ! u)) = Some u" by (auto simp: task)
qed

lemma live_kill_all:
  assumes "registered_ok ag" "live_registered ag" shows "live_registered (kill_all ag)"
proof -
  have "u \<in> snd ` set (ag_running_jobs ag)" if "u < length (ag_job_tasks ag)" "\<not> jt_ended (ag_job_tasks ag ! u)" "jt_signal (ag_job_tasks ag ! u) = None" for u
    using that assms(2) hm_get_SomeD by (force simp: live_registered_def)
  then show ?thesis by (auto simp: live_registered_def kill_all_task [OF assms(1)] split: if_splits)
qed

lemma live_step:
  assumes "agent_step cfg h e ag ag'" "agent_ok es ag" "live_registered ag" shows "live_registered ag'"
  using assms
proof (induction rule: agent_step.induct)
  case (controller ag h m)
  then have reg: "registered_ok ag" by (simp add: agent_ok_def)
  show ?case
  proof (cases m)
    case (RunJob r)
    have "live_registered (ag\<lparr>ag_job_wds := w, ag_wds_file := f\<rparr>)" "registered_ok (ag\<lparr>ag_job_wds := w, ag_wds_file := f\<rparr>)" for w f
      using controller(3) reg by (simp_all add: live_registered_def registered_ok_def)
    then show ?thesis unfolding RunJob by (auto simp: run_job_command_def Let_def intro!: live_spawn)
  qed (use live_remove_sender [OF reg controller(3)] controller(3) in
      \<open>auto simp: run_step_command_def route_pmi_def Let_def intro: live_cong live_kill_steps split: option.split\<close>)
next
  case (request ag h q)
  have "ag_job_tasks (agent_request cfg h q ag) = ag_job_tasks ag \<and> ag_running_jobs (agent_request cfg h q ag) = ag_running_jobs ag"
    by (cases q) (simp_all add: send_def start_terminal_def start_vnc_def Let_def split: option.splits)
  then show ?case using request(3) by (auto intro: live_cong)
next
  case (job_sends t ag task ms m h)
  then show ?case by (auto simp: live_registered_def job_sends_def send_def nth_list_update)
next
  case (job_ends t ag task h)
  then show ?case by (intro live_end_job) (auto simp: agent_ok_def)
next
  case (restart_now ag h)
  then have "live_registered (kill_all ag)" by (intro live_kill_all) (auto simp: agent_ok_def)
  then show ?case by (rule live_cong) simp_all
qed (erule live_cong; simp add: send_def end_step_def)+

lemma live_recover:
  assumes "agent_ok [] ag" "live_registered ag" shows "live_registered (recover_job p ag)"
proof -
  let ?ag = "ag\<lparr>ag_job_wds := hm_insert (pj_job_id p) (pj_working_directory p) (ag_job_wds ag)\<rparr>"
  have "registered_ok ?ag" "live_registered ?ag" using assms by (simp_all add: agent_ok_def registered_ok_def live_registered_def)
  then have "live_registered (spawn_job (pj_job_id p) (Recovered p) ?ag)" by (rule live_spawn)
  then show ?thesis by (rule live_cong) (simp_all add: recover_job_def Let_def)
qed

lemma live_run: "agent_run cfg (new_agent wds wds_file ps) es ag \<Longrightarrow> live_registered ag"
proof (induction rule: agent_run.induct)
  case start
  have "agent_ok [] ag \<Longrightarrow> live_registered ag \<Longrightarrow> live_registered (fold recover_job ps ag)" for ag
    by (induction ps arbitrary: ag) (simp_all add: agent_ok_recover live_recover)
  then show ?case using agent_ok_new [of wds wds_file "[]"] by (simp add: new_agent_fold) (simp add: live_registered_def empty_agent_def)
next
  case (step es ag h e ag')
  then show ?case using live_step agent_ok_run by blast
qed

lemma kill_step_task:
  "u < length (ag_step_tasks ag) \<Longrightarrow> ag_step_tasks (kill_step t ag) ! u =
     (if u = t \<and> \<not> sk_ended (ag_step_tasks ag ! u) then (ag_step_tasks ag ! u)\<lparr>sk_killed := True\<rparr> else ag_step_tasks ag ! u)"
  by (auto simp: kill_step_def nth_list_update)

lemma fold_kill_step_task:
  "u < length (ag_step_tasks ag) \<Longrightarrow> ag_step_tasks (fold kill_step ts ag) ! u =
     (if u \<in> set ts \<and> \<not> sk_ended (ag_step_tasks ag ! u) then (ag_step_tasks ag ! u)\<lparr>sk_killed := True\<rparr> else ag_step_tasks ag ! u)"
proof (induction ts arbitrary: ag)
  case (Cons t ts)
  then show ?case using Cons.IH [of "kill_step t ag"] by (auto simp: kill_step_task)
qed simp

lemma kill_steps_of_task:
  assumes "u < length (ag_step_tasks ag)"
  shows "sk_killed (ag_step_tasks (kill_steps_of j ag) ! u) =
    (sk_killed (ag_step_tasks ag ! u) \<or> (\<exists>ts. hm_get (ag_running_steps ag) j = Some ts \<and> u \<in> set ts) \<and> \<not> sk_ended (ag_step_tasks ag ! u))"
  using assms by (auto simp: kill_steps_of_def fold_kill_step_task split: option.split)


section \<open>Leaving\<close>

text \<open>
  A connection is left for a drain only when no kill channel is registered; a task that got its signal is no
  longer registered, so its last reports can still be outstanding then.
\<close>

definition sample_cfg :: agent_config where
  "sample_cfg = \<lparr>gc_worker_id = ''w1'', gc_controller_addr = ''c:9000'', gc_run_as_worker_user = True, gc_temp_dir = ''/tmp'', gc_simulate = False,
     gc_env_policy = (False, [], False), gc_shell_split = (\<lambda>_. None), gc_serialize_wd = (\<lambda>_. None)\<rparr>"

definition sample_run_job :: "u64 \<Rightarrow> run_job_msg" where
  "sample_run_job j = \<lparr>rj_job_id = j, rj_binary = ''sleep'', rj_args = [], rj_node_list = [''w1''], rj_assigned_cores = None, rj_req_memory = 0,
     rj_working_directory = ''/home'', rj_user_id = ''u'', rj_walltime = 60, rj_submission_time = 0, rj_array_id = None, rj_array_task_id = None,
     rj_inputs = [], rj_allocated_gres = [], rj_gres_req = [], rj_secret = [], rj_controller_url = ''http://localhost'', rj_env_vars = [],
     rj_wait_for_licenses = False, rj_estimated_walltime = None, rj_priority_offset = None, rj_dependencies = None, rj_dependency_specs = None,
     rj_qos = Background, rj_container_asset = None, rj_vnc_enabled = False, rj_inherit_host_env = False, rj_env_allowlist = None, rj_job_profile = None\<rparr>"

definition after_run_job :: "u64 \<Rightarrow> agent" where
  "after_run_job j = controller_message sample_cfg (RunJob (sample_run_job j)) (new_agent [] None [])"

lemma after_run_job_reached: "agent_run sample_cfg (new_agent [] None []) [Controller (RunJob (sample_run_job j))] (after_run_job j)"
proof -
  have "agent_step sample_cfg h (Controller (RunJob (sample_run_job j))) (new_agent [] None []) (after_run_job j)" for h
    unfolding after_run_job_def by (rule agent_step.controller) (simp add: new_agent_def)
  from agent_run.step [OF agent_run.start this] show ?thesis by simp
qed


text \<open>A task can send its whole course.\<close>

lemma send_course:
  assumes "agent_run cfg a0 es ag" "t < length (ag_job_tasks ag)" "\<not> jt_ended (ag_job_tasks ag ! t)"
    "job_course cfg (jt_spec (ag_job_tasks ag ! t)) (jt_signal (ag_job_tasks ag ! t)) (jt_sent (ag_job_tasks ag ! t) @ ms)"
  shows "\<exists>ag'. agent_run cfg a0 (es @ map (JobSends t) ms) ag' \<and> ag_out ag' = ag_out ag @ ms"
  using assms
proof (induction ms arbitrary: es ag)
  case (Cons m ms)
  let ?ag = "job_sends t m ag"
  have "agent_step cfg h (JobSends t m) ag ?ag" for h
    by (rule agent_step.job_sends [OF Cons.prems(2) refl Cons.prems(3,4)]) simp
  then have "agent_run cfg a0 (es @ [JobSends t m]) ?ag" by (rule agent_run.step [OF Cons.prems(1)])
  from Cons.IH [OF this] Cons.prems(2-4) show ?case by (auto simp: job_sends_def send_def)
qed auto

definition killed_facts :: job_facts where
  "killed_facts = \<lparr>jf_wd_exists = True, jf_inputs_error = None, jf_prolog_error = None, jf_user_exists = True, jf_start_error = None,
     jf_end = KillReceived (Some Cancel), jf_stdout_file_id = None, jf_stderr_file_id = None, jf_workdir_upload = None,
     jf_output_artifacts = [], jf_start_time = 0, jf_end_time = 5, jf_cpu_time_ms = 0, jf_max_memory_bytes = 0, jf_cgroup_active = False\<rparr>"

lemma killed_course:
  "\<exists>ms. job_course sample_cfg (Launched m) (Some (Some Cancel)) ms \<and> (rj_inputs m = [] \<and> rj_job_profile m = None \<longrightarrow>
     FromJob (Report (JobKilled (rj_job_id m))) \<in> set ms)"
proof -
  have "job_course sample_cfg (Launched m) (Some (Some Cancel)) (map FromJob (run_job_messages (gc_shell_split sample_cfg)
    (gc_run_as_worker_user sample_cfg) (gc_temp_dir sample_cfg) (gc_env_policy sample_cfg) m killed_facts))"
    by (rule job_course.launched) (simp add: killed_facts_def)
  moreover have "Report (JobKilled (rj_job_id m)) \<in> set (run_job_messages (gc_shell_split sample_cfg)
    (gc_run_as_worker_user sample_cfg) (gc_temp_dir sample_cfg) (gc_env_policy sample_cfg) m killed_facts)"
    if "rj_inputs m = []" "rj_job_profile m = None"
    using that by (simp add: run_job_messages_def killed_facts_def sample_cfg_def launch_error_def Let_def)
  ultimately show ?thesis by (intro exI conjI impI) auto
qed

theorem killed_only_on_request_witness:
  "\<exists>ms ag. agent_run sample_cfg (new_agent [] None [])
       ([Controller (RunJob (sample_run_job 7)), Controller (TerminateJob 7)] @ map (JobSends 0) ms) ag \<and>
     FromJob (Report (JobKilled 7)) \<in> set (ag_out ag) \<and>
     (let es = [Controller (RunJob (sample_run_job 7)), Controller (TerminateJob 7)] @ map (JobSends 0) ms in
      Controller (TerminateJob 7) \<in> set es \<or> Controller (PreemptJob 7) \<in> set es \<or> RestartNow \<in> set es)"
proof -
  define ag1 where "ag1 = controller_message sample_cfg (TerminateJob 7) (after_run_job 7)"
  have "agent_step sample_cfg h (Controller (TerminateJob 7)) (after_run_job 7) ag1" for h
    unfolding ag1_def by (rule agent_step.controller) (simp add: after_run_job_def new_agent_def run_job_command_def spawn_job_def remove_sender_def sample_run_job_def
        sample_cfg_def Let_def)
  then have r: "agent_run sample_cfg (new_agent [] None []) ([Controller (RunJob (sample_run_job 7))] @ [Controller (TerminateJob 7)]) ag1"
    by (rule agent_run.step [OF after_run_job_reached])
  obtain ms where ms: "job_course sample_cfg (Launched ((sample_run_job 7)\<lparr>rj_controller_url := local_controller_url sample_cfg ''http://localhost''\<rparr>))
      (Some (Some Cancel)) ms" "FromJob (Report (JobKilled 7)) \<in> set ms"
    using killed_course [of "(sample_run_job 7)\<lparr>rj_controller_url := local_controller_url sample_cfg ''http://localhost''\<rparr>"]
    by (auto simp: sample_run_job_def)
  have task: "ag_job_tasks ag1 = [\<lparr>jt_job = 7, jt_spec = Launched ((sample_run_job 7)\<lparr>rj_controller_url :=
      local_controller_url sample_cfg ''http://localhost''\<rparr>), jt_signal = Some (Some Cancel), jt_sent = [], jt_ended = False\<rparr>]"
    by (simp add: ag1_def after_run_job_def new_agent_def run_job_command_def spawn_job_def remove_sender_def deliver_def kill_steps_of_def
        sample_run_job_def sample_cfg_def Let_def)
  obtain ag where ag: "agent_run sample_cfg (new_agent [] None [])
      (([Controller (RunJob (sample_run_job 7))] @ [Controller (TerminateJob 7)]) @ map (JobSends 0) ms) ag" "ag_out ag = ag_out ag1 @ ms"
    using send_course [OF r, of 0 ms] ms(1) by (auto simp: task)
  have d: "distinct (map pj_job_id [] @ List.map_filter dispatched
      (([Controller (RunJob (sample_run_job 7))] @ [Controller (TerminateJob 7)]) @ map (JobSends 0) ms))"
    by (simp add: List.map_filter_def filter_map o_def)
  have k: "FromJob (Report (JobKilled 7)) \<in> set (ag_out ag)" using ag(2) ms(2) by simp
  from ag(1) k killed_only_on_request [OF ag(1) d k] show ?thesis unfolding Let_def by auto
qed

lemma drain_closes:
  assumes "agent_step cfg h DrainTick ag ag'" shows "ag_draining ag \<and> ag_running_jobs ag = [] \<and> ag_closed ag'"
  using assms by (auto elim: agent_stepE)

text \<open>A second dispatch of a job id while the first task still runs ends in a kill nobody asked for: the new sender replaces the old one.\<close>

lemma redispatch_cancels:
  assumes "agent_run cfg (new_agent wds wds_file ps) es ag" "t < length (ag_job_tasks ag)" "jt_job (ag_job_tasks ag ! t) = rj_job_id m"
    "\<not> jt_ended (ag_job_tasks ag ! t)" "jt_signal (ag_job_tasks ag ! t) = None"
  shows "jt_signal (ag_job_tasks (controller_message cfg (RunJob m) ag) ! t) = Some None"
proof -
  let ?wd = "if gc_run_as_worker_user cfg then gc_temp_dir cfg else rj_working_directory m"
  let ?ag = "ag\<lparr>ag_job_wds := hm_insert (rj_job_id m) ?wd (ag_job_wds ag), ag_wds_file := fst (persist_job_wd (gc_serialize_wd cfg) (rj_job_id m) ?wd (ag_wds_file ag))\<rparr>"
  have r1: "registered_ok ?ag" using agent_ok_run [OF assms(1)] by (simp add: agent_ok_def registered_ok_def)
  have "hm_get (ag_running_jobs ag) (jt_job (ag_job_tasks ag ! t)) = Some t"
    using live_run [OF assms(1)] assms(2,4,5) unfolding live_registered_def by blast
  then have r2: "hm_get (ag_running_jobs ?ag) (rj_job_id m) = Some t" using assms(3) by simp
  have "jt_signal (ag_job_tasks (spawn_job (rj_job_id m) spec ?ag) ! t) = Some None" for spec
    using spawn_job_task(2) [OF r1, where u = t and j = "rj_job_id m" and spec = spec] r2 assms(2) by simp
  then show ?thesis by (simp add: run_job_command_def Let_def)
qed

end
