(* ===== verification/WorkerMain.thy ===== *)
theory WorkerMain
  imports WorkerAgent "HOL-Library.Multiset"
begin

text \<open>
  The start of the worker (\<open>worker/src/main.rs\<close>, \<open>config.rs\<close>): its identity and configuration, the order in which it
  tries the controllers, and the manager that keeps log lines while there is no connection
  (\<open>worker/src/log_manager.rs\<close>).
\<close>

section \<open>Configuration\<close>

record worker_config =
  wc_controller :: "string option"
  wc_prolog :: "string option"
  wc_epilog :: "string option"
  wc_cluster_secret :: "string option"
  wc_controllers :: "string list"
  wc_run_as_worker_user :: bool
  wc_fileserver_url :: "string option"
  wc_fileserver_api_key :: "string option"
  wc_idle_threshold_cpu :: "real option"
  wc_idle_timeout_seconds :: "u64 option"
  wc_gres :: "(string, u64) hmap"
  wc_worker_token :: "string option"

definition default_worker_config :: worker_config where
  "default_worker_config =
     \<lparr>wc_controller = None, wc_prolog = None, wc_epilog = None, wc_cluster_secret = None, wc_controllers = [], wc_run_as_worker_user = False,
      wc_fileserver_url = None, wc_fileserver_api_key = None, wc_idle_threshold_cpu = Some 0.5, wc_idle_timeout_seconds = Some 600, wc_gres = [], wc_worker_token = None\<rparr>"

text \<open>A file that cannot be read or parsed is replaced by the defaults.\<close>

definition load_worker_config :: "(string \<Rightarrow> worker_config option) \<Rightarrow> string option \<Rightarrow> worker_config" where
  "load_worker_config parse content =
     (case Option.bind content parse of Some c \<Rightarrow> c | None \<Rightarrow> default_worker_config)"

record worker_args =
  wa_controllers :: "string option"
  wa_cluster_secret :: "string option"
  wa_fileserver_url :: "string option"
  wa_fileserver_api_key :: "string option"
  wa_controller :: "string option"
  wa_idle_timeout_seconds :: "u64 option"
  wa_idle_threshold_cpu :: "real option"
  wa_worker_token :: "string option"
  wa_sim_id :: "string option"

definition overriding :: "'a option \<Rightarrow> 'a option \<Rightarrow> 'a option" where
  "overriding new old = (case new of Some v \<Rightarrow> Some v | None \<Rightarrow> old)"

definition apply_args :: "worker_args \<Rightarrow> worker_config \<Rightarrow> worker_config" where
  "apply_args a c =
     c\<lparr>wc_controllers := (case wa_controllers a of Some l \<Rightarrow> map trim (split_on CHR '','' l) | None \<Rightarrow> wc_controllers c),
       wc_cluster_secret := overriding (wa_cluster_secret a) (wc_cluster_secret c), wc_fileserver_url := overriding (wa_fileserver_url a) (wc_fileserver_url c),
       wc_fileserver_api_key := overriding (wa_fileserver_api_key a) (wc_fileserver_api_key c), wc_controller := overriding (wa_controller a) (wc_controller c),
       wc_idle_timeout_seconds := overriding (wa_idle_timeout_seconds a) (wc_idle_timeout_seconds c),
       wc_idle_threshold_cpu := overriding (wa_idle_threshold_cpu a) (wc_idle_threshold_cpu c), wc_worker_token := overriding (wa_worker_token a) (wc_worker_token c)\<rparr>"

text \<open>The id file; \<open>fresh\<close> is a new UUID. A failed read or write ends the process.\<close>

definition get_worker_id :: "string \<Rightarrow> (string option) option \<Rightarrow> bool \<Rightarrow> string option" where
  "get_worker_id fresh file_content writable =
     (case file_content of
        Some (Some content) \<Rightarrow> Some (trim content)
      | Some None \<Rightarrow> None
      | None \<Rightarrow> if writable then Some fresh else None)"

definition worker_identity :: "worker_args \<Rightarrow> string \<Rightarrow> (string option) option \<Rightarrow> bool \<Rightarrow> string option" where
  "worker_identity a fresh file_content writable =
     (case wa_sim_id a of Some sid \<Rightarrow> Some sid | None \<Rightarrow> get_worker_id fresh file_content writable)"

section \<open>The order of the controllers\<close>

definition controller_list :: "worker_config \<Rightarrow> string list" where
  "controller_list c =
     (let listed = (case wc_controller c of Some x \<Rightarrow> if x \<in> set (wc_controllers c) then wc_controllers c else x # wc_controllers c | None \<Rightarrow> wc_controllers c)
      in if listed = [] then [''127.0.0.1:9000''] else listed)"

definition seed :: "string \<Rightarrow> u64" where
  "seed worker_id = fold (\<lambda>b h. h * 31 + of_nat (of_char b)) worker_id 0"

definition next_u32 :: "u64 \<Rightarrow> u64 \<times> u32" where
  "next_u32 rng = (let rng' = rng * 6364136223846793005 + 1442695040888963407 in (rng', ucast (drop_bit 32 rng')))"

definition swap :: "nat \<Rightarrow> nat \<Rightarrow> 'a list \<Rightarrow> 'a list" where
  "swap i j xs = xs[j := xs ! i, i := xs ! j]"

fun shuffle_down :: "nat \<Rightarrow> u64 \<Rightarrow> 'a list \<Rightarrow> 'a list" where
  "shuffle_down 0 rng xs = xs"
| "shuffle_down (Suc i) rng xs =
     (let (rng', r) = next_u32 rng; j = unat r mod (Suc i + 1) in shuffle_down i rng' (swap (Suc i) j xs))"

definition connection_order :: "string \<Rightarrow> worker_config \<Rightarrow> string list" where
  "connection_order worker_id c =
     (let cs = controller_list c in if length cs > 1 then shuffle_down (length cs - 1) (seed worker_id) cs else cs)"

text \<open>
  The addresses tried one after the other; each flag tells whether the worker is draining when the attempt ends,
  by a closed connection or an error.
\<close>

fun connection_attempts :: "string list \<Rightarrow> nat \<Rightarrow> bool list \<Rightarrow> string list" where
  "connection_attempts cs idx [] = []"
| "connection_attempts cs idx (draining # ds) =
     cs ! idx # (if draining then [] else connection_attempts cs ((idx + 1) mod length cs) ds)"

lemma mset_shuffle_down: "i < length xs \<Longrightarrow> mset (shuffle_down i rng xs) = mset xs"
proof (induction i arbitrary: rng xs)
  case (Suc i)
  obtain rng' r where n: "next_u32 rng = (rng', r)" by fastforce
  let ?j = "unat r mod (Suc i + 1)"
  have "?j < Suc i + 1" by simp
  then have "?j < length xs" using Suc.prems by linarith
  then have "mset (swap (Suc i) ?j xs) = mset xs" using Suc.prems unfolding swap_def by (intro mset_swap)
  moreover have "length (swap (Suc i) ?j xs) = length xs" by (simp add: swap_def)
  ultimately show ?case using Suc n by (simp add: Let_def)
qed simp

lemma connection_order_mset: "mset (connection_order worker_id c) = mset (controller_list c)"
  by (simp add: connection_order_def Let_def mset_shuffle_down)

lemma connection_attempts_round: "idx < length cs \<Longrightarrow> connection_attempts cs idx (replicate n False) = map (\<lambda>k. cs ! ((idx + k) mod length cs)) [0..<n]"
proof (induction n arbitrary: idx)
  case (Suc n)
  let ?i = "(idx + 1) mod length cs"
  have "?i < length cs" using Suc.prems by (metis mod_less_divisor less_nat_zero_code neq0_conv)
  then have "connection_attempts cs ?i (replicate n False) = map (\<lambda>k. cs ! ((?i + k) mod length cs)) [0..<n]" by (rule Suc.IH)
  moreover have "(?i + k) mod length cs = (idx + Suc k) mod length cs" for k by (simp add: mod_add_left_eq)
  ultimately show ?case using Suc.prems by (simp add: upt_conv_Cons map_Suc_upt [symmetric] comp_def del: upt_Suc)
qed simp


section \<open>Log lines\<close>

text \<open>
  \<open>lm_delivered\<close> records what was handed to a connection. A line is kept when there is no connection or the
  connection takes nothing more; a new connection first gets the lines that were kept, as many of them as it
  takes.
\<close>

record 'm log_manager =
  lm_connected :: bool
  lm_buffer :: "'m ring_buffer"
  lm_delivered :: "'m list"

datatype 'm log_event = LogLine 'm bool | SetTx nat

definition new_log_manager :: "'m log_manager" where
  "new_log_manager = \<lparr>lm_connected = False, lm_buffer = rb_new 5000, lm_delivered = []\<rparr>"

fun log_manager_step :: "'m log_event \<Rightarrow> 'm log_manager \<Rightarrow> 'm log_manager" where
  "log_manager_step (LogLine m accepted) lm =
     (if lm_connected lm
      then if accepted then lm\<lparr>lm_delivered := lm_delivered lm @ [m]\<rparr>
           else lm\<lparr>lm_connected := False, lm_buffer := rb_push m (lm_buffer lm)\<rparr>
      else lm\<lparr>lm_buffer := rb_push m (lm_buffer lm)\<rparr>)"
| "log_manager_step (SetTx taken) lm =
     (let (backfill, buffer) = rb_pop_all (lm_buffer lm)
      in lm\<lparr>lm_connected := True, lm_buffer := buffer, lm_delivered := lm_delivered lm @ take taken backfill\<rparr>)"

definition log_lines :: "'m log_event list \<Rightarrow> 'm list" where
  "log_lines es = List.map_filter (\<lambda>e. case e of LogLine m _ \<Rightarrow> Some m | SetTx _ \<Rightarrow> None) es"

text \<open>Lines reach the controller in their order and at most once; what waits is newer than what was delivered.\<close>

lemma logs_in_order:
  assumes "lm = fold log_manager_step es new_log_manager"
  shows "subseq (lm_delivered lm @ rb_buffer (lm_buffer lm)) (log_lines es) \<and> (lm_connected lm \<longrightarrow> rb_buffer (lm_buffer lm) = [])"
  using assms
proof (induction es arbitrary: lm rule: rev_induct)
  case Nil
  then show ?case by (simp add: new_log_manager_def rb_new_def log_lines_def)
next
  case (snoc e es)
  define lm0 where "lm0 = fold log_manager_step es new_log_manager"
  have lm: "lm = log_manager_step e lm0" using snoc.prems by (simp add: lm0_def)
  have IH: "subseq (lm_delivered lm0 @ rb_buffer (lm_buffer lm0)) (log_lines es)" "lm_connected lm0 \<Longrightarrow> rb_buffer (lm_buffer lm0) = []"
    using snoc.IH [OF lm0_def] by simp_all
  show ?case
  proof (cases e)
    case (LogLine m a)
    have lines: "log_lines (es @ [e]) = log_lines es @ [m]" using LogLine by (simp add: log_lines_def List.map_filter_def)
    have "subseq (lm_delivered lm0 @ tl (rb_buffer (lm_buffer lm0))) (lm_delivered lm0 @ rb_buffer (lm_buffer lm0))"
      by (intro list_emb_append_mono) (cases "rb_buffer (lm_buffer lm0)", auto)
    from subseq_order.trans [OF this IH(1)] IH(1) have "subseq (lm_delivered lm0 @ (if b then tl (rb_buffer (lm_buffer lm0)) else rb_buffer (lm_buffer lm0))) (log_lines es)" for b
      by simp
    from list_emb_append_mono [OF this subseq_order.refl [of "[m]"]]
    have push: "subseq (lm_delivered lm0 @ rb_buffer (rb_push m (lm_buffer lm0))) (log_lines es @ [m])" by (simp add: rb_push_def Let_def)
    have "lm_connected lm0 \<Longrightarrow> subseq (lm_delivered lm0 @ [m]) (log_lines es @ [m])"
      using list_emb_append_mono [OF IH(1) subseq_order.refl [of "[m]"]] IH(2) by simp
    then show ?thesis unfolding lines using LogLine lm push IH(2) by auto
  next
    case (SetTx n)
    have "subseq (lm_delivered lm0 @ take n (rb_buffer (lm_buffer lm0))) (lm_delivered lm0 @ rb_buffer (lm_buffer lm0))"
      by (intro list_emb_append_mono subseq_order.refl prefix_imp_subseq take_is_prefix)
    from subseq_order.trans [OF this IH(1)] SetTx lm show ?thesis by (simp add: rb_pop_all_def log_lines_def List.map_filter_def)
  qed
qed

end
