(* ===== verification/PmiServer.thy ===== *)
theory PmiServer
  imports Strings WorkerHandler Samples
begin

text \<open>
  The PMI server a worker runs for the ranks of a step (\<open>worker/src/pmi.rs\<close>). A request is a line; its
  treatment is split where the code waits: \<open>process_pmi_request\<close> gives the message for the controller and what the
  server waits for, \<open>pmi_answer\<close> the line sent to the client when that has happened. The sockets and tasks
  around it are not modelled; the broadcast channel of get responses is the list of what it delivers.
\<close>

section \<open>Requests\<close>

datatype pmi_message =
    PmiBarrierEnter u64 u32 u32
  | PmiPut u64 u32 u32 string string
  | PmiGet u64 u32 u32 string u64

datatype pmi_wait = Immediate string | AfterBarrier string | AfterGet u64 string

definition pmi_parts :: "string \<Rightarrow> (string, string) hmap" where
  "pmi_parts req =
     (let delimiter = (if CHR '';'' \<in> set req then CHR '';'' else CHR '' '')
      in fold (\<lambda>token parts. case split_once CHR ''='' token of
            Some (k, v) \<Rightarrow> hm_insert (trim k) (trim v) parts | None \<Rightarrow> parts) (split_on delimiter req) [])"

definition pmi_rank :: "(string, string) hmap \<Rightarrow> u32" where
  "pmi_rank parts = (case Option.bind (hm_get parts ''rank'') parse_u32 of Some r \<Rightarrow> r | None \<Rightarrow> 0)"

definition part_or :: "(string, string) hmap \<Rightarrow> string \<Rightarrow> string \<Rightarrow> string" where
  "part_or parts k d = (case hm_get parts k of Some v \<Rightarrow> v | None \<Rightarrow> d)"

definition nl :: "string \<Rightarrow> string" where
  "nl s = s @ [CHR 0x0A]"

definition process_pmi_request :: "u64 \<Rightarrow> u32 \<Rightarrow> string \<Rightarrow> u64 \<Rightarrow> u64 \<times> pmi_message option \<times> pmi_wait" where
  "process_pmi_request parent_job_id step_id req counter =
     (let parts = pmi_parts req in
      case hm_get parts ''cmd'' of
        None \<Rightarrow> (counter, None, Immediate (nl ''cmd=error rc=1 msg=no_cmd''))
      | Some cmd \<Rightarrow>
          (if cmd = ''init'' then (counter, None, Immediate (nl ''cmd=response_to_init pmi_version=1 pmi_subversion=1 rc=0''))
           else if cmd = ''init-v1-req'' then (counter, None, Immediate (nl ''cmd=init-v1-req-response;rc=0;pmi_version=2;pmi_subversion=0;''))
           else if cmd = ''get_maxes'' \<or> cmd = ''get-maxes'' then
             (counter, None, Immediate (nl ''cmd=get_maxes_response kvsname_max=255 keylen_max=255 vallen_max=1024 rc=0''))
           else if cmd = ''get_my_kvsname'' \<or> cmd = ''kvs-get-my-name'' then
             (counter, None, Immediate (nl ''cmd=get_my_kvsname_response kvsname=veloce_step rc=0''))
           else if cmd = ''get_appnum'' \<or> cmd = ''appnum-get'' then (counter, None, Immediate (nl ''cmd=get_appnum_response appnum=0 rc=0''))
           else if cmd = ''get_universe_size'' \<or> cmd = ''universe-size-get'' then
             (counter, None, Immediate (nl ''cmd=get_universe_size_response size=1 rc=0''))
           else if cmd = ''commit'' \<or> cmd = ''kvs-commit'' then (counter, None, Immediate (nl ''cmd=commit_response rc=0''))
           else if cmd = ''barrier_in'' \<or> cmd = ''kvs-fence'' then
             (counter, Some (PmiBarrierEnter parent_job_id step_id (pmi_rank parts)),
              AfterBarrier (nl (if contains_str cmd ''fence'' then ''cmd=kvs-fence-response;rc=0;'' else ''cmd=barrier_out'')))
           else if cmd = ''put'' \<or> cmd = ''kvs-put'' then
             (counter, Some (PmiPut parent_job_id step_id (pmi_rank parts) (part_or parts ''key'' ''unknown'') (part_or parts ''value'' [])),
              Immediate (nl (if contains_str cmd ''put'' then ''cmd=kvs-put-response;rc=0;'' else ''cmd=put_response rc=0'')))
           else if cmd = ''get'' \<or> cmd = ''kvs-get'' then
             (counter + 1, Some (PmiGet parent_job_id step_id (pmi_rank parts) (part_or parts ''key'' ''unknown'') counter), AfterGet counter cmd)
           else if cmd = ''finalize'' \<or> cmd = ''job-disconnect'' then
             (counter, None, Immediate (nl (if contains_str cmd ''disconnect'' then ''cmd=job-disconnect-response;rc=0;'' else ''cmd=finalize_response rc=0'')))
           else if cmd = ''info'' then (counter, None, Immediate (nl ''cmd=info-response;rc=0;''))
           else (counter, None, Immediate (nl ''cmd=error rc=1 msg=unknown_cmd''))))"

text \<open>The loop that waits for the response with the request's own id, on the responses the channel delivers; \<open>None\<close>: it still waits.\<close>

fun await_response :: "u64 \<Rightarrow> (u64 \<times> string option) list \<Rightarrow> string option option" where
  "await_response request_id [] = None"
| "await_response request_id ((rx_id, v) # rest) = (if rx_id = request_id then Some v else await_response request_id rest)"

definition get_reply :: "string \<Rightarrow> string option \<Rightarrow> string" where
  "get_reply cmd v =
     (let val_str = (case v of Some x \<Rightarrow> x | None \<Rightarrow> ''unknown'')
      in if contains_str cmd ''get'' then nl (''cmd=kvs-get-response;rc=0;value='' @ val_str @ '';'')
         else nl (''cmd=get_response rc=0 value='' @ val_str))"

text \<open>What is written to the client: the barrier must have been released, the responses are those delivered so far.\<close>

fun pmi_answer :: "bool \<Rightarrow> (u64 \<times> string option) list \<Rightarrow> pmi_wait \<Rightarrow> string option" where
  "pmi_answer released responses (Immediate s) = Some s"
| "pmi_answer released responses (AfterBarrier s) = (if released then Some s else None)"
| "pmi_answer released responses (AfterGet i cmd) = map_option (get_reply cmd) (await_response i responses)"

text \<open>One read from the socket may hold several requests; blank lines are skipped.\<close>

definition pmi_lines :: "string \<Rightarrow> string list" where
  "pmi_lines buf = filter (\<lambda>r. r \<noteq> []) (map trim (split_on CHR 0x0A buf))"

fun serve_requests :: "u64 \<Rightarrow> u32 \<Rightarrow> string list \<Rightarrow> u64 \<Rightarrow> u64 \<times> (pmi_message option \<times> pmi_wait) list" where
  "serve_requests job step [] counter = (counter, [])"
| "serve_requests job step (r # rs) counter =
     (let (c, m, w) = process_pmi_request job step r counter; (c', ws) = serve_requests job step rs c in (c', (m, w) # ws))"

section \<open>Properties\<close>

definition get_ids :: "(pmi_message option \<times> pmi_wait) list \<Rightarrow> u64 list" where
  "get_ids ws = List.map_filter (\<lambda>(m, w). case m of Some (PmiGet _ _ _ _ i) \<Rightarrow> Some i | _ \<Rightarrow> None) ws"

lemma process_cases:
  obtains m w where "process_pmi_request job step r counter = (counter, m, w)" "get_ids [(m, w)] = []" "\<forall>i cmd. w \<noteq> AfterGet i cmd"
  | rank key cmd where "process_pmi_request job step r counter = (counter + 1, Some (PmiGet job step rank key counter), AfterGet counter cmd)"
      "cmd = ''get'' \<or> cmd = ''kvs-get''"
proof (cases "hm_get (pmi_parts r) ''cmd''")
  case None
  then show ?thesis
    by (intro that(1) [of None "Immediate (nl ''cmd=error rc=1 msg=no_cmd'')"])
       (simp_all add: process_pmi_request_def Let_def get_ids_def map_filter_simps)
next
  case (Some cmd)
  show ?thesis
  proof (cases "cmd = ''get'' \<or> cmd = ''kvs-get''")
    case True
    with Some show ?thesis 
      by (elim disjE; intro that(2) [of "pmi_rank (pmi_parts r)" "part_or (pmi_parts r) ''key'' ''unknown''" cmd])
         (simp_all add: process_pmi_request_def Let_def del: contains_str.simps)
  next
    case False
    with Some show ?thesis
      by (intro that(1) [of "fst (snd (process_pmi_request job step r counter))" "snd (snd (process_pmi_request job step r counter))"])
         (simp_all add: process_pmi_request_def Let_def get_ids_def map_filter_simps del: contains_str.simps)
  qed
qed

lemma shifted_ids:
  fixes c :: u64
  shows "map (\<lambda>k. c + of_nat k) [0..<Suc n] = c # map (\<lambda>k. c + 1 + of_nat k) [0..<n]"
  by (simp add: upt_conv_Cons map_Suc_upt [symmetric] comp_def algebra_simps del: upt_Suc map_Suc_upt)

lemma serve_ids:
  "serve_requests job step rs counter = (c', ws) \<Longrightarrow> get_ids ws = map (\<lambda>k. counter + of_nat k) [0..<length (get_ids ws)] \<and>
   c' = counter + of_nat (length (get_ids ws)) \<and> length (get_ids ws) \<le> length rs"
proof (induction rs arbitrary: counter c' ws)
  case Nil
  then show ?case by (simp add: get_ids_def map_filter_simps)
next
  case (Cons r rs)
  show ?case
  proof (cases rule: process_cases [of job step r counter])
    case (1 m w)
    then obtain ws' where ws': "serve_requests job step rs counter = (c', ws')" "ws = (m, w) # ws'"
      using Cons.prems by (auto split: prod.splits)
    have "get_ids ws = get_ids ws'" using 1(2) ws'(2) by (auto simp: get_ids_def map_filter_simps split: option.splits)
    with Cons.IH [OF ws'(1)] show ?thesis by simp
  next
    case (2 rank key cmd)
    then obtain ws' where ws': "serve_requests job step rs (counter + 1) = (c', ws')"
      "ws = (Some (PmiGet job step rank key counter), AfterGet counter cmd) # ws'"
      using Cons.prems by (auto split: prod.splits)
    have g: "get_ids ws = counter # get_ids ws'" using ws'(2) by (simp add: get_ids_def map_filter_simps)
    with Cons.IH [OF ws'(1)] show ?thesis
      using shifted_ids [of counter "length (get_ids ws')"] by (simp add: algebra_simps del: upt_Suc)
  qed
qed

lemma ids_distinct:
  fixes c :: u64
  assumes "n \<le> 2 ^ 64"
  shows "distinct (map (\<lambda>k. c + of_nat k) [0..<n])"
proof (simp add: distinct_map inj_on_def, intro ballI impI)
  fix x y assume b: "x \<in> {0..<n}" "y \<in> {0..<n}" and e: "(of_nat x :: u64) = of_nat y"
  have "unat (of_nat x :: u64) = x" "unat (of_nat y :: u64) = y"
    using b assms by (simp_all add: unat_of_nat)
  with e show "x = y" by metis
qed

lemma await_none: "(await_response i responses = None) = (i \<notin> fst ` set responses)"
  by (induction responses) (auto split: if_splits)

lemma await_value:
  "distinct (map fst responses) \<Longrightarrow> (i, v) \<in> set responses \<Longrightarrow> await_response i responses = Some v"
  by (induction responses) (auto simp: rev_image_eqI)



text \<open>
  Clients of PMI-1 are answered in the syntax of PMI-2: the reply to \<open>put\<close> and to \<open>get\<close> is the one for
  \<open>kvs-put\<close> and \<open>kvs-get\<close>, and without a value the client reads the text "unknown" with rc=0.
\<close>

lemma pmi1_gets_pmi2_reply:
  "get_reply ''get'' v = get_reply ''kvs-get'' v"
  "get_reply ''get'' None = nl ''cmd=kvs-get-response;rc=0;value=unknown;''"
  "snd (process_pmi_request job step ''cmd=put key=a value=b'' c) =
     (Some (PmiPut job step 0 ''a'' ''b''), Immediate (nl ''cmd=kvs-put-response;rc=0;''))"
  by code_simp+

section \<open>The barrier, across worker and controller\<close>

fun controller_pmi :: "string \<Rightarrow> pmi_message \<Rightarrow> controller_ctx \<Rightarrow> controller_ctx" where
  "controller_pmi worker_id (PmiBarrierEnter job step rank) ctx = pmi_barrier_enter job step rank ctx"
| "controller_pmi worker_id (PmiPut job step rank key val) ctx = pmi_put job step key val ctx"
| "controller_pmi worker_id (PmiGet job step rank key request_id) ctx = pmi_get worker_id job step rank key request_id ctx"

definition enter_all :: "u64 \<Rightarrow> u32 \<Rightarrow> (string \<times> u32) list \<Rightarrow> controller_ctx \<Rightarrow> controller_ctx" where
  "enter_all job step entries = fold (\<lambda>(w, r). controller_pmi w (PmiBarrierEnter job step r)) entries"

definition released :: "u64 \<Rightarrow> u32 \<Rightarrow> step_info \<Rightarrow> global_state \<Rightarrow> global_state" where
  "released job step st s = fold (\<lambda>w s. send_ignore s w (StepPMIBarrierRelease job step)) (si_assigned_workers st) s"

lemma full_barrier:
  assumes "k \<le> unat (n :: u32)"
  shows "((of_nat k :: u32) = n) = (k = unat n)"
proof -
  have "k < 2 ^ 32" using assms unsigned_less [of n, where 'a = nat] by simp
  then have "unat (of_nat k :: u32) = k" by (simp add: unat_of_nat)
  then show ?thesis by (metis word_eq_iff_unsigned)
qed

lemma enter_all_waits:
  assumes "hm_get (gs_steps (cx_state ctx)) (job, step) = Some st" and "hm_get (cx_pmi_barriers ctx) (job, step) = None"
    and "card (snd ` set entries) < unat (si_ntasks st)"
  shows "cx_state (enter_all job step entries ctx) = cx_state ctx \<and>
    (\<exists>b. distinct b \<and> set b = snd ` set entries \<and>
       (case hm_get (cx_pmi_barriers (enter_all job step entries ctx)) (job, step) of None \<Rightarrow> [] | Some b \<Rightarrow> b) = b)"
  using assms(3)
proof (induction entries rule: rev_induct)
  case Nil
  then show ?case using assms by (simp add: enter_all_def)
next
  case (snoc e entries)
  obtain w r where e: "e = (w, r)" by (cases e)
  let ?c = "enter_all job step entries ctx"
  have "card (snd ` set entries) \<le> card (snd ` set (entries @ [e]))" by (intro card_mono) auto
  with snoc obtain b where b: "cx_state ?c = cx_state ctx" "distinct b" "set b = snd ` set entries"
    "(case hm_get (cx_pmi_barriers ?c) (job, step) of None \<Rightarrow> [] | Some b \<Rightarrow> b) = b" by auto
  have set: "set (hs_insert r b) = snd ` set (entries @ [e])" "distinct (hs_insert r b)" using b e by auto
  have "length (hs_insert r b) < unat (si_ntasks st)" using distinct_card [OF set(2)] snoc.prems unfolding set(1) by simp
  then have "(of_nat (length (hs_insert r b)) :: u32) \<noteq> si_ntasks st"
    using full_barrier [of "length (hs_insert r b)" "si_ntasks st"] by simp
  then have "enter_all job step (entries @ [e]) ctx = ?c\<lparr>cx_pmi_barriers := hm_insert (job, step) (hs_insert r b) (cx_pmi_barriers ?c)\<rparr>"
    using assms(1) b e by (simp add: enter_all_def pmi_barrier_enter_def Let_def)
  then show ?case using b(1) set by auto
qed

text \<open>
  C37: The barrier of a step, across worker and controller: while fewer distinct ranks have entered than the
  step has tasks nothing is sent, however often and from wherever they enter; the entry of the last missing
  rank releases every worker of the step once and leaves the barrier empty for the next round.
\<close>

theorem pmi_barrier_releases:
  assumes "hm_get (gs_steps (cx_state ctx)) (job, step) = Some st" and "hm_get (cx_pmi_barriers ctx) (job, step) = None"
    and "card (snd ` set entries) < unat (si_ntasks st)"
  shows "cx_state (enter_all job step entries ctx) = cx_state ctx \<and>
    (r \<notin> snd ` set entries \<and> Suc (card (snd ` set entries)) = unat (si_ntasks st) \<longrightarrow>
       cx_state (enter_all job step (entries @ [(w, r)]) ctx) = released job step st (cx_state ctx) \<and>
       hm_get (cx_pmi_barriers (enter_all job step (entries @ [(w, r)]) ctx)) (job, step) = None)"
proof -
  let ?c = "enter_all job step entries ctx"
  obtain b where b: "cx_state ?c = cx_state ctx" "distinct b" "set b = snd ` set entries"
    "(case hm_get (cx_pmi_barriers ?c) (job, step) of None \<Rightarrow> [] | Some b \<Rightarrow> b) = b"
    using enter_all_waits [OF assms] by auto
  have "(of_nat (length (hs_insert r b)) :: u32) = si_ntasks st"
    if "r \<notin> snd ` set entries" "Suc (card (snd ` set entries)) = unat (si_ntasks st)"
  proof -
    have "distinct (hs_insert r b)" "card (set (hs_insert r b)) = unat (si_ntasks st)" using b that by simp_all
    then have "length (hs_insert r b) = unat (si_ntasks st)" using distinct_card by metis
    then show ?thesis using full_barrier [of "length (hs_insert r b)" "si_ntasks st"] by simp
  qed
  then show ?thesis using assms(1) b
    by (auto simp: enter_all_def pmi_barrier_enter_def released_def Let_def)
qed

text \<open>A step of two tasks on one worker.\<close>

definition two_task_step :: step_info where
  "two_task_step = \<lparr>si_step_id = 0, si_parent_job_id = 1, si_binary = ''mpi'', si_args = [], si_status = StepRunning,
     si_req_nodes = 1, si_req_cores = 2, si_ntasks = 2, si_assigned_workers = [''w1''], si_is_idle = False,
     si_idle_duration = 0, si_inputs = [], si_env_vars = []\<rparr>"

definition pmi_ctx :: controller_ctx where
  "pmi_ctx = sample_ctx (two_node_state\<lparr>gs_steps := [((1, 0), two_task_step)]\<rparr>)"

lemma pmi_ctx_step:
  "hm_get (gs_steps (cx_state pmi_ctx)) (1, 0) = Some two_task_step" "hm_get (cx_pmi_barriers pmi_ctx) (1, 0) = None"
  "unat (si_ntasks two_task_step) = 2"
  by (simp_all add: pmi_ctx_def sample_ctx_def two_task_step_def)

theorem pmi_barrier_releases_witness:
  "cx_state (enter_all 1 0 [(''w1'', 0), (''w1'', 0), (''w1'', 1)] pmi_ctx) = released 1 0 two_task_step (cx_state pmi_ctx)"
  using pmi_barrier_releases [OF pmi_ctx_step(1,2), of "[(''w1'', 0), (''w1'', 0)]" 1 "''w1''"] by (simp add: pmi_ctx_step)

text \<open>
  C40: A PMI-1 client enters the barrier with the line \<open>cmd=barrier_in\<close>, which carries no rank: the server reads
  rank 0 for all of them. In a step of two or more tasks the barrier is then never released, whatever the
  number of clients that entered.
\<close>

theorem pmi1_barrier_hangs:
  assumes "hm_get (gs_steps (cx_state ctx)) (job, step) = Some st" and "hm_get (cx_pmi_barriers ctx) (job, step) = None"
    and "1 < unat (si_ntasks st)"
  shows "process_pmi_request job step ''cmd=barrier_in'' c = (c, Some (PmiBarrierEnter job step 0), AfterBarrier (nl ''cmd=barrier_out'')) \<and>
    cx_state (fold (\<lambda>w. controller_pmi w (PmiBarrierEnter job step 0)) ws ctx) = cx_state ctx"
proof
  show "process_pmi_request job step ''cmd=barrier_in'' c = (c, Some (PmiBarrierEnter job step 0), AfterBarrier (nl ''cmd=barrier_out''))"
    by code_simp
  have "card (snd ` set (map (\<lambda>w. (w, 0 :: u32)) ws)) \<le> card {0 :: u32}" by (intro card_mono) auto
  then have "cx_state (enter_all job step (map (\<lambda>w. (w, 0)) ws) ctx) = cx_state ctx"
    using enter_all_waits [OF assms(1,2)] assms(3) by simp
  then show "cx_state (fold (\<lambda>w. controller_pmi w (PmiBarrierEnter job step 0)) ws ctx) = cx_state ctx"
    by (simp add: enter_all_def fold_map comp_def)
qed

theorem pmi1_barrier_hangs_witness:
  "cx_state (fold (\<lambda>w. controller_pmi w (PmiBarrierEnter 1 0 0)) [''w1'', ''w1''] pmi_ctx) = cx_state pmi_ctx"
  using pmi1_barrier_hangs [OF pmi_ctx_step(1,2), of 1 "[''w1'', ''w1'']"] by (simp add: pmi_ctx_step)

end
