(* ===== verification/Cwl.thy ===== *)
theory Cwl
  imports Submission Strings
begin

text \<open>
  Workflows in the common workflow language (\<open>common/src/cwl.rs\<close>): their translation to the graph that the
  client submits with \<open>SubmitDag\<close>. \<open>from_str\<close> is \<open>serde_yaml::from_str\<close> on a workflow, \<open>Inl\<close> its error. A
  \<open>HashMap\<close> of the workflow is an association list in its order of iteration.
\<close>

section \<open>Translation\<close>

record cwl_step =
  cs_run :: string
  cs_in :: "(string, string) hmap option"
  cs_out :: "string list option"
  cs_req_nodes :: "usize option"
  cs_req_cores :: "u32 option"
  cs_req_memory :: "u64 option"
  cs_args :: "string list option"
  cs_image_uri :: "string option"

record cwl_workflow =
  cw_name :: "string option"
  cw_steps :: "(string, cwl_step) hmap"

text \<open>The steps whose outputs a step reads: \<open>source[..source.find('/')]\<close>, each once, never the step itself.\<close>

definition add_dependency :: "(string, cwl_step) hmap \<Rightarrow> string \<Rightarrow> string \<Rightarrow> string list \<Rightarrow> string list" where
  "add_dependency steps step_id source depends_on =
     (case split_once CHR ''/'' source of
        None \<Rightarrow> depends_on
      | Some (dep_step, _) \<Rightarrow>
          if dep_step \<noteq> step_id \<and> hm_contains steps dep_step \<and> dep_step \<notin> set depends_on
          then depends_on @ [dep_step] else depends_on)"

definition step_dependencies :: "(string, cwl_step) hmap \<Rightarrow> string \<Rightarrow> cwl_step \<Rightarrow> string list" where
  "step_dependencies steps step_id step =
     (case cs_in step of None \<Rightarrow> [] | Some inputs \<Rightarrow> fold (add_dependency steps step_id) (map snd inputs) [])"

definition step_request :: "string option \<Rightarrow> string \<Rightarrow> string \<Rightarrow> string \<Rightarrow> cwl_step \<Rightarrow> submit_request" where
  "step_request workflow_name user_id working_directory step_id step = \<lparr>
     sq_job_name = Some step_id, sq_job_comment = workflow_name, sq_binary = cs_run step,
     sq_args = (case cs_args step of Some a \<Rightarrow> a | None \<Rightarrow> []),
     sq_req_nodes = (case cs_req_nodes step of Some n \<Rightarrow> n | None \<Rightarrow> 1),
     sq_req_cores = (case cs_req_cores step of Some n \<Rightarrow> n | None \<Rightarrow> 1),
     sq_req_memory = (case cs_req_memory step of Some n \<Rightarrow> n | None \<Rightarrow> 1024),
     sq_walltime = 0, sq_priority = 0, sq_user_id = user_id, sq_working_directory = working_directory,
     sq_array_indices = None, sq_inputs = [], sq_gres_req = [], sq_env_vars = [], sq_wait_for_licenses = False,
     sq_estimated_walltime = None, sq_priority_offset = None, sq_dependencies = None, sq_dependency_specs = None,
     sq_qos = Production, sq_image_uri = cs_image_uri step, sq_vnc_enabled = False, sq_inherit_host_env = False,
     sq_env_allowlist = None, sq_job_profile = None\<rparr>"

definition cwl_node :: "cwl_workflow \<Rightarrow> string \<Rightarrow> string \<Rightarrow> string \<times> cwl_step \<Rightarrow> dag_node" where
  "cwl_node w user_id working_directory = (\<lambda>(step_id, step).
     \<lparr>dn_node_id = step_id, dn_task = Some (step_request (cw_name w) user_id working_directory step_id step),
      dn_depends_on = step_dependencies (cw_steps w) step_id step\<rparr>)"

definition parse_cwl_to_dag :: "(string \<Rightarrow> string + cwl_workflow) \<Rightarrow> string \<Rightarrow> string \<Rightarrow> string \<Rightarrow> string + (string \<times> dag_node list)" where
  "parse_cwl_to_dag from_str content user_id working_directory =
     (case from_str content of
        Inl e \<Rightarrow> Inl e
      | Inr w \<Rightarrow> Inr ((case cw_name w of Some n \<Rightarrow> n | None \<Rightarrow> ''cwl_workflow''),
                    map (cwl_node w user_id working_directory) (cw_steps w)))"

section \<open>The order of the steps\<close>

text \<open>The declarative reading of the input mapping.\<close>

definition reads_output_of :: "cwl_workflow \<Rightarrow> string \<Rightarrow> string \<Rightarrow> bool" where
  "reads_output_of w s d = (d \<noteq> s \<and> hm_contains (cw_steps w) d \<and>
     (\<exists>step inputs source rest. hm_get (cw_steps w) s = Some step \<and> cs_in step = Some inputs \<and>
        source \<in> snd ` set inputs \<and> source = d @ ''/'' @ rest \<and> CHR ''/'' \<notin> set d))"

lemma split_once_iff: "split_once c s = Some (a, b) \<longleftrightarrow> s = a @ c # b \<and> c \<notin> set a"
proof
  assume h: "split_once c s = Some (a, b)"
  then have c: "c \<in> set s" and ab: "a = takeWhile (\<lambda>x. x \<noteq> c) s" "b = tl (dropWhile (\<lambda>x. x \<noteq> c) s)"
    by (auto simp: split_once_def split: if_splits)
  have d: "dropWhile (\<lambda>x. x \<noteq> c) s = c # b"
    using c ab(2) hd_dropWhile [of "\<lambda>x. x \<noteq> c" s] by (cases "dropWhile (\<lambda>x. x \<noteq> c) s") auto
  then show "s = a @ c # b \<and> c \<notin> set a" using ab(1) takeWhile_dropWhile_id [of "\<lambda>x. x \<noteq> c" s] set_takeWhileD by fastforce
qed (auto simp: split_once_append)

lemma add_dependency_set:
  "set (add_dependency steps s source acc) = set acc \<union>
     {d. d \<noteq> s \<and> hm_contains steps d \<and> (\<exists>rest. source = d @ ''/'' @ rest \<and> CHR ''/'' \<notin> set d)}"
proof (cases "split_once CHR ''/'' source")
  case None
  then have "CHR ''/'' \<notin> set source" by (simp add: split_once_def split: if_splits)
  with None show ?thesis by (auto simp: add_dependency_def)
next
  case (Some p)
  obtain a b where p: "p = (a, b)" by (cases p)
  with Some have s: "source = a @ ''/'' @ b" "CHR ''/'' \<notin> set a" by (simp_all add: split_once_iff)
  have "source = d @ ''/'' @ rest \<and> CHR ''/'' \<notin> set d \<longleftrightarrow> d = a \<and> rest = b" for d rest
    using split_once_iff [of "CHR ''/''" source d rest] Some p by auto
  then show ?thesis using Some p by (auto simp: add_dependency_def)
qed

lemma dependencies_fold:
  "set (fold (add_dependency steps s) srcs acc) = set acc \<union>
     {d. d \<noteq> s \<and> hm_contains steps d \<and> (\<exists>rest. d @ ''/'' @ rest \<in> set srcs \<and> CHR ''/'' \<notin> set d)}"
proof (induction srcs arbitrary: acc)
  case (Cons source srcs)
  show ?case unfolding fold_simps comp_def Cons.IH add_dependency_set by auto
qed simp

lemma step_dependencies_iff:
  assumes "hm_get (cw_steps w) s = Some step"
  shows "d \<in> set (step_dependencies (cw_steps w) s step) \<longleftrightarrow> reads_output_of w s d"
  using assms by (cases "cs_in step") (force simp: step_dependencies_def dependencies_fold reads_output_of_def)+

lemma after_ok_requirement: "spec_requirement (''AfterOk:'' @ show_u64 (d :: u64)) = raw_requirement d"
proof -
  have "split_on CHR '':'' (''AfterOk:'' @ show_u64 d) = [''AfterOk'', show_u64 d]"
    using split_on_append [of "CHR '':''" "''AfterOk''" "show_u64 d"] split_on_no_sep [of "CHR '':''" "show_u64 d"] by simp
  moreover have "parse_condition ''AfterOk'' = Some AfterOk" by code_simp
  ultimately show ?thesis
    by (simp add: spec_requirement_def dependency_spec_parse_def raw_requirement_def Let_def)
qed

lemma raw_met: "requirement_met jobs db (raw_requirement d) \<longleftrightarrow> known_status jobs db d = Some (Completed 0)"
  by (cases "the (known_status jobs db d)") (auto simp: requirement_met_def raw_requirement_def split: option.splits)

text \<open>The jobs of a graph all of whose nodes are jobs without dependencies of their own.\<close>

definition node_job :: "env \<Rightarrow> submit_env \<Rightarrow> principal \<Rightarrow> u64 \<Rightarrow> dag_node list \<Rightarrow> nat \<Rightarrow> job_info" where
  "node_job ev sv caller base nodes i = the (dag_job ev sv caller (node_to_job base nodes) base (i, nodes ! i))"

definition plain_task :: "dag_node \<Rightarrow> bool" where
  "plain_task node = (\<exists>q. dn_task node = Some q \<and> sq_dependencies q = None \<and> sq_dependency_specs q = None \<and>
     sq_job_name q = Some (dn_node_id node))"

lemma dag_jobs_plain:
  assumes "\<forall>node\<in>set nodes. plain_task node"
  shows "dag_jobs ev sv caller base nodes = map (node_job ev sv caller base nodes) [0..<length nodes]"
proof -
  have "List.map_filter f (enumerate 0 nodes) = map (\<lambda>i. the (f (i, nodes ! i))) [0..<length nodes]"
    if "\<forall>p\<in>set (enumerate 0 nodes). f p \<noteq> None" for f :: "nat \<times> dag_node \<Rightarrow> job_info option"
  proof -
    have "List.map_filter f ps = map (the \<circ> f) ps" if "\<forall>p\<in>set ps. f p \<noteq> None" for ps
      using that by (induction ps) (auto simp: map_filter_simps)
    then have "List.map_filter f (enumerate 0 nodes) = map (the \<circ> f) (enumerate 0 nodes)" using that by blast
    also have "\<dots> = map (\<lambda>i. the (f (i, nodes ! i))) [0..<length nodes]" by (rule nth_equalityI) (simp_all add: nth_enumerate_eq)
    finally show ?thesis .
  qed
  moreover have "\<forall>p\<in>set (enumerate 0 nodes). dag_job ev sv caller (node_to_job base nodes) base p \<noteq> None"
    using assms by (fastforce simp: dag_job_def plain_task_def in_set_enumerate_eq)
  ultimately show ?thesis by (simp add: dag_jobs_def node_job_def)
qed

lemma node_job_fields:
  assumes "plain_task (nodes ! i)"
  shows "ji_id (node_job ev sv caller base nodes i) = base + of_nat i"
    "ji_job_name (node_job ev sv caller base nodes i) = Some (dn_node_id (nodes ! i))"
    "are_dependencies_satisfied (node_job ev sv caller base nodes i) jobs db = Inr True \<longleftrightarrow>
       (\<forall>d\<in>set (dag_deps (node_to_job base nodes) (nodes ! i)). known_status jobs db d = Some (Completed 0))"
proof -
  let ?job = "node_job ev sv caller base nodes i" and ?deps = "dag_deps (node_to_job base nodes) (nodes ! i)"
  from assms obtain q where q: "dn_task (nodes ! i) = Some q" "sq_dependencies q = None" "sq_dependency_specs q = None"
    "sq_job_name q = Some (dn_node_id (nodes ! i))" by (auto simp: plain_task_def)
  then show "ji_id ?job = base + of_nat i" "ji_job_name ?job = Some (dn_node_id (nodes ! i))"
    by (simp_all add: node_job_def dag_job_def Let_def new_job_def)
  have "ji_dependencies ?job = some_if_any ?deps" "ji_dependency_specs ?job = some_if_any (map (\<lambda>d. ''AfterOk:'' @ show_u64 d) ?deps)"
    using q by (simp_all add: node_job_def dag_job_def Let_def new_job_def or_empty_def)
  then have "set (requirements ?job) = raw_requirement ` set ?deps \<union> (\<lambda>d. spec_requirement (''AfterOk:'' @ show_u64 d)) ` set ?deps"
    by (auto simp: requirements_def sources_def some_if_any_def image_image)
  also have "\<dots> = raw_requirement ` set ?deps" by (simp only: after_ok_requirement Un_absorb)
  finally show "are_dependencies_satisfied ?job jobs db = Inr True \<longleftrightarrow> (\<forall>d\<in>set ?deps. known_status jobs db d = Some (Completed 0))"
    by (auto simp: satisfied_iff_all_met raw_met)
qed

lemma distinct_nodes: "hm_wf (cw_steps w) \<Longrightarrow> distinct (map dn_node_id (map (cwl_node w u d) (cw_steps w)))"
  by (simp add: hm_wf_def cwl_node_def comp_def case_prod_beta)

lemma cwl_dependency_ids:
  assumes "hm_wf (cw_steps w)" and "nodes = map (cwl_node w u wd) (cw_steps w)" and "i < length nodes"
  shows "set (dag_deps (node_to_job base nodes) (nodes ! i)) =
    {base + of_nat k | k. k < length nodes \<and> reads_output_of w (dn_node_id (nodes ! i)) (dn_node_id (nodes ! k))}"
proof -
  have dist: "distinct (map dn_node_id nodes)" using distinct_nodes [OF assms(1)] assms(2) by simp
  obtain s step where p: "cw_steps w ! i = (s, step)" by fastforce
  have "(s, step) \<in> set (cw_steps w)" using p assms(2,3) by (metis length_map nth_mem)
  then have g: "hm_get (cw_steps w) s = Some step" using assms(1) by (simp add: hm_get_iff)
  have n: "nodes ! i = cwl_node w u wd (s, step)" using p assms(2,3) by simp
  then have deps: "set (dn_depends_on (nodes ! i)) = {d. reads_output_of w s d}" "dn_node_id (nodes ! i) = s"
    using step_dependencies_iff [OF g] by (auto simp: cwl_node_def)
  have names: "\<exists>k<length nodes. dn_node_id (nodes ! k) = d" if r: "reads_output_of w s d" for d
  proof -
    obtain st where "hm_get (cw_steps w) d = Some st" using r by (auto simp: reads_output_of_def hm_contains_def)
    then have "(d, st) \<in> set (cw_steps w)" using assms(1) by (simp add: hm_get_iff)
    then have "d \<in> set (map dn_node_id nodes)" unfolding assms(2) by (force simp: cwl_node_def)
    then show ?thesis by (auto simp: in_set_conv_nth)
  qed
  have "set (dag_deps (node_to_job base nodes) (nodes ! i)) =
      {x. \<exists>d. reads_output_of w s d \<and> hm_get (node_to_job base nodes) d = Some x}"
    using deps by (force simp: dag_deps_def map_filter_def)
  also have "\<dots> = {base + of_nat k | k. k < length nodes \<and> reads_output_of w s (dn_node_id (nodes ! k))}"
  proof (intro equalityI subsetI)
    fix x assume "x \<in> {x. \<exists>d. reads_output_of w s d \<and> hm_get (node_to_job base nodes) d = Some x}"
    then obtain d where d: "reads_output_of w s d" "hm_get (node_to_job base nodes) d = Some x" by blast
    then obtain k where "k < length nodes" "dn_node_id (nodes ! k) = d" using names by blast
    with d node_to_job_get [OF dist, of k base]
    show "x \<in> {base + of_nat k | k. k < length nodes \<and> reads_output_of w s (dn_node_id (nodes ! k))}" by auto
  qed (use node_to_job_get [OF dist] in blast)
  finally show ?thesis by (simp add: deps(2))
qed

text \<open>
  C14: A workflow runs in the order its data flow asks for. An accepted workflow adds exactly one job per
  step, named after it, and the job of a step may start exactly when the job of every step whose output it
  reads is known to have completed with exit code 0.
\<close>

theorem workflow_order:
  assumes "from_str content = Inr w" and "hm_wf (cw_steps w)"
    and "parse_cwl_to_dag from_str content user_id working_directory = Inr (name, nodes)"
    and "submit_dag ev sv caller nodes ctx = (ctx', DagSubmitted base n)"
  shows "\<exists>job_of. cx_submissions ctx' = cx_submissions ctx @ map job_of (hm_keys (cw_steps w)) \<and>
    (\<forall>s. hm_contains (cw_steps w) s \<longrightarrow> ji_job_name (job_of s) = Some s \<and>
       (\<forall>jobs db. are_dependencies_satisfied (job_of s) jobs db = Inr True \<longleftrightarrow>
          (\<forall>d. reads_output_of w s d \<longrightarrow> known_status jobs db (ji_id (job_of d)) = Some (Completed 0))))"
proof -
  let ?job = "node_job ev sv caller base nodes"
  have nodes: "nodes = map (cwl_node w user_id working_directory) (cw_steps w)"
    using assms(1,3) by (auto simp: parse_cwl_to_dag_def)
  have dist: "distinct (map dn_node_id nodes)" using distinct_nodes [OF assms(2)] nodes by simp
  have plain: "plain_task node" if "node \<in> set nodes" for node
    using that by (auto simp: nodes cwl_node_def plain_task_def step_request_def)
  have keys: "map dn_node_id nodes = hm_keys (cw_steps w)"
    by (simp add: nodes cwl_node_def comp_def case_prod_beta hm_keys_def)
  define job_of where "job_of s = ?job (THE i. i < length nodes \<and> dn_node_id (nodes ! i) = s)" for s
  have at: "job_of (dn_node_id (nodes ! i)) = ?job i" if "i < length nodes" for i
  proof -
    have "(THE k. k < length nodes \<and> dn_node_id (nodes ! k) = dn_node_id (nodes ! i)) = i"
      using dist that by (intro the_equality) (auto simp: distinct_conv_nth)
    then show ?thesis by (simp add: job_of_def)
  qed
  have "map job_of (hm_keys (cw_steps w)) = map ?job [0..<length nodes]"
    unfolding keys [symmetric] by (rule nth_equalityI) (simp_all add: at)
  then have subs: "cx_submissions ctx' = cx_submissions ctx @ map job_of (hm_keys (cw_steps w))"
    using submit_dag_accepted(2) [OF assms(4)] dag_jobs_plain [of nodes] plain by simp
  have "ji_job_name (job_of s) = Some s \<and> (\<forall>jobs db. are_dependencies_satisfied (job_of s) jobs db = Inr True \<longleftrightarrow>
      (\<forall>d. reads_output_of w s d \<longrightarrow> known_status jobs db (ji_id (job_of d)) = Some (Completed 0)))"
    if "hm_contains (cw_steps w) s" for s
  proof -
    have "s \<in> set (hm_keys (cw_steps w))" using that by (auto simp: hm_contains_def hm_keys_def hm_get_None_iff)
    then obtain i where i: "i < length nodes" "s = dn_node_id (nodes ! i)"
      unfolding keys [symmetric] by (auto simp: in_set_conv_nth)
    have known: "\<exists>k<length nodes. d = dn_node_id (nodes ! k)" if "reads_output_of w s d" for d
    proof -
      have "d \<in> set (hm_keys (cw_steps w))" using that by (auto simp: reads_output_of_def hm_contains_def hm_keys_def hm_get_None_iff)
      then show ?thesis unfolding keys [symmetric] by (auto simp: in_set_conv_nth)
    qed
    have ids: "ji_id (job_of (dn_node_id (nodes ! k))) = base + of_nat k" if "k < length nodes" for k
      using that node_job_fields(1) plain by (simp add: at)
    have "(\<forall>x\<in>set (dag_deps (node_to_job base nodes) (nodes ! i)). known_status jobs db x = Some (Completed 0)) \<longleftrightarrow>
        (\<forall>d. reads_output_of w s d \<longrightarrow> known_status jobs db (ji_id (job_of d)) = Some (Completed 0))" for jobs db
      unfolding cwl_dependency_ids [OF assms(2) nodes i(1)] i(2) [symmetric] using known ids by auto
    then show ?thesis using i plain node_job_fields [of nodes i ev sv caller base] by (simp add: at)
  qed
  with subs show ?thesis by blast
qed

definition sample_workflow :: cwl_workflow where
  "sample_workflow = \<lparr>cw_name = None, cw_steps =
     [(''mesh'', \<lparr>cs_run = ''mesher'', cs_in = None, cs_out = Some [''m''], cs_req_nodes = None, cs_req_cores = None,
        cs_req_memory = None, cs_args = None, cs_image_uri = None\<rparr>),
      (''solve'', \<lparr>cs_run = ''solver'', cs_in = Some [(''grid'', ''mesh/m'')], cs_out = None, cs_req_nodes = None, cs_req_cores = Some 4,
        cs_req_memory = None, cs_args = None, cs_image_uri = None\<rparr>)]\<rparr>"

lemma sample_workflow_reads: "reads_output_of sample_workflow ''solve'' ''mesh''" "hm_wf (cw_steps sample_workflow)"
proof -
  have "''mesh/m'' = ''mesh'' @ ''/'' @ ''m''" by simp
  then show "reads_output_of sample_workflow ''solve'' ''mesh''"
    unfolding reads_output_of_def by (fastforce simp: sample_workflow_def hm_contains_def hm_get_def)
qed (simp add: sample_workflow_def hm_wf_def)

theorem workflow_order_witness:
  "\<exists>ctx' mesh solve. submit_dag sample_env sample_submit_env sample_caller
       (snd (projr (parse_cwl_to_dag (\<lambda>_. Inr sample_workflow) [] ''bob'' ''/w''))) (sample_ctx two_node_state) = (ctx', DagSubmitted 10 2) \<and>
     cx_submissions ctx' = [mesh, solve] \<and> ji_job_name solve = Some ''solve'' \<and>
     are_dependencies_satisfied solve [(ji_id mesh, sample_job (ji_id mesh)\<lparr>ji_status := Running\<rparr>)] [] \<noteq> Inr True"
proof -
  let ?nodes = "snd (projr (parse_cwl_to_dag (\<lambda>_. Inr sample_workflow) [] ''bob'' ''/w''))"
  have p: "parse_cwl_to_dag (\<lambda>_. Inr sample_workflow) [] ''bob'' ''/w'' = Inr (''cwl_workflow'', ?nodes)"
    by (simp add: parse_cwl_to_dag_def sample_workflow_def)
  have "dn_task n \<noteq> None \<and> dag_error sample_caller n = None" if "n \<in> set ?nodes" for n
    using that by (auto simp: parse_cwl_to_dag_def cwl_node_def step_request_def dag_error_def resolve_user_id_def
        is_admin_or_operator_def sample_caller_def)
  then obtain ctx' where s: "submit_dag sample_env sample_submit_env sample_caller ?nodes (sample_ctx two_node_state) = (ctx', DagSubmitted 10 2)"
    by (auto simp: submit_dag_def parse_cwl_to_dag_def sample_workflow_def cwl_node_def step_request_def map_filter_simps take_ids_def
        send_all_result dag_jobs_def dag_job_def sample_ctx_def Let_def dag_error_def resolve_user_id_def is_admin_or_operator_def sample_caller_def)
  obtain job_of where j: "cx_submissions ctx' = map job_of (hm_keys (cw_steps sample_workflow))"
    "\<And>s. hm_contains (cw_steps sample_workflow) s \<Longrightarrow> ji_job_name (job_of s) = Some s \<and>
       (\<forall>jobs db. are_dependencies_satisfied (job_of s) jobs db = Inr True \<longleftrightarrow>
          (\<forall>d. reads_output_of sample_workflow s d \<longrightarrow> known_status jobs db (ji_id (job_of d)) = Some (Completed 0)))"
    using workflow_order [OF _ sample_workflow_reads(2) p s] by (auto simp: sample_ctx_def)
  have c: "hm_contains (cw_steps sample_workflow) ''solve''" by (simp add: sample_workflow_def hm_contains_def hm_get_def)
  have "known_status [(x, sample_job x\<lparr>ji_status := Running\<rparr>)] [] x \<noteq> Some (Completed 0)" for x
    by (simp add: known_status_def hm_get_def)
  with j(2) [OF c] sample_workflow_reads(1) have "ji_job_name (job_of ''solve'') = Some ''solve''"
    "are_dependencies_satisfied (job_of ''solve'') [(ji_id (job_of ''mesh''), sample_job (ji_id (job_of ''mesh''))\<lparr>ji_status := Running\<rparr>)] [] \<noteq> Inr True"
    by blast+
  moreover have "cx_submissions ctx' = [job_of ''mesh'', job_of ''solve'']" using j(1) by (simp add: sample_workflow_def hm_keys_def)
  ultimately show ?thesis using s by blast
qed

end
