(* ===== verification/FileSystem.thy ===== *)
theory FileSystem
  imports Outputs
begin

text \<open>
  The part of the operating system's file interface that the file server uses (\<open>tokio::fs\<close>): files and
  directories by their location, a list of names from the root. A path text is resolved name by name as the
  system does: every name but the last must be a directory, and \<open>..\<close> steps back. There are no symbolic links,
  and reading and writing do not fail for other reasons (permissions, space).
\<close>

section \<open>Files and directories\<close>

type_synonym location = "string list"

record fsys =
  fs_dirs :: "location list"
  fs_files :: "(location, string) hmap"

definition is_dir :: "fsys \<Rightarrow> location \<Rightarrow> bool" where
  "is_dir fs q = (q = [] \<or> q \<in> set (fs_dirs fs))"

definition path_steps :: "string \<Rightarrow> string list" where
  "path_steps p = filter (\<lambda>c. c \<noteq> [] \<and> c \<noteq> ''.'') (split_on CHR ''/'' p)"

definition step_to :: "location \<Rightarrow> string \<Rightarrow> location" where
  "step_to cur c = (if c = ''..'' then butlast cur else cur @ [c])"

fun walk :: "fsys \<Rightarrow> location \<Rightarrow> string list \<Rightarrow> location option" where
  "walk fs cur [] = Some cur"
| "walk fs cur (c # cs) = (if is_dir fs cur then walk fs (step_to cur c) cs else None)"

definition resolve :: "fsys \<Rightarrow> string \<Rightarrow> location option" where
  "resolve fs p = walk fs [] (path_steps p)"

text \<open>Operations at a location; \<open>None\<close> is an error.\<close>

definition read_at :: "fsys \<Rightarrow> location \<Rightarrow> string option" where
  "read_at fs q = hm_get (fs_files fs) q"

definition write_at :: "location \<Rightarrow> string \<Rightarrow> fsys \<Rightarrow> fsys option" where
  "write_at q data fs = (if q = [] \<or> is_dir fs q \<or> \<not> is_dir fs (butlast q) then None
     else Some (fs\<lparr>fs_files := hm_insert q data (fs_files fs)\<rparr>))"

definition delete_at :: "location \<Rightarrow> fsys \<Rightarrow> fsys option" where
  "delete_at q fs = (if hm_contains (fs_files fs) q then Some (fs\<lparr>fs_files := hm_remove q (fs_files fs)\<rparr>) else None)"

text \<open>Operations on a path text: \<open>read\<close>, \<open>File::create\<close> with all that is written, \<open>remove_file\<close>, \<open>try_exists\<close>.\<close>

definition read_file :: "fsys \<Rightarrow> string \<Rightarrow> string option" where
  "read_file fs p = Option.bind (resolve fs p) (read_at fs)"

definition create_file :: "string \<Rightarrow> string \<Rightarrow> fsys \<Rightarrow> fsys option" where
  "create_file p data fs = Option.bind (resolve fs p) (\<lambda>q. write_at q data fs)"

definition remove_file :: "string \<Rightarrow> fsys \<Rightarrow> fsys option" where
  "remove_file p fs = Option.bind (resolve fs p) (\<lambda>q. delete_at q fs)"

definition path_is_dir :: "fsys \<Rightarrow> string \<Rightarrow> bool" where
  "path_is_dir fs p = (case resolve fs p of None \<Rightarrow> False | Some q \<Rightarrow> is_dir fs q)"

definition path_exists :: "fsys \<Rightarrow> string \<Rightarrow> bool" where
  "path_exists fs p = (path_is_dir fs p \<or> read_file fs p \<noteq> None)"

text \<open>An operation whose result the code ignores.\<close>

definition ignoring :: "(fsys \<Rightarrow> fsys option) \<Rightarrow> fsys \<Rightarrow> fsys" where
  "ignoring f fs = (case f fs of Some fs' \<Rightarrow> fs' | None \<Rightarrow> fs)"

text \<open>\<open>create_dir_all\<close> makes the missing directories in turn and stops at a file.\<close>

definition add_dir :: "location \<Rightarrow> fsys \<Rightarrow> fsys" where
  "add_dir q fs = (if q = [] then fs else fs\<lparr>fs_dirs := hs_insert q (fs_dirs fs)\<rparr>)"

fun make_dirs :: "location \<Rightarrow> string list \<Rightarrow> fsys \<Rightarrow> fsys \<times> bool" where
  "make_dirs cur [] fs = (fs, True)"
| "make_dirs cur (c # cs) fs =
     (let q = step_to cur c
      in if hm_contains (fs_files fs) q then (fs, False) else make_dirs q cs (add_dir q fs))"

definition create_dir_all :: "string list \<Rightarrow> fsys \<Rightarrow> fsys \<times> bool" where
  "create_dir_all steps fs = make_dirs [] steps fs"

definition below :: "location \<Rightarrow> location \<Rightarrow> bool" where
  "below d q = (take (length d) q = d)"

definition remove_dir_all :: "string \<Rightarrow> fsys \<Rightarrow> fsys option" where
  "remove_dir_all p fs = (case resolve fs p of
     None \<Rightarrow> None
   | Some d \<Rightarrow> if is_dir fs d
       then Some \<lparr>fs_dirs = filter (\<lambda>q. \<not> below d q) (fs_dirs fs), fs_files = filter (\<lambda>(q, _). \<not> below d q) (fs_files fs)\<rparr>
       else None)"

section \<open>The interface to its clients\<close>

text \<open>
  What a client of the files relies on: a write that succeeds is read back and changes nothing else, so
  after a sequence of writes the last one to a name is read.
\<close>

fun store_all :: "('p \<Rightarrow> string \<Rightarrow> 's \<Rightarrow> 's option) \<Rightarrow> ('p \<times> string) list \<Rightarrow> 's \<Rightarrow> 's option" where
  "store_all put [] s = Some s"
| "store_all put ((p, d) # ws) s = Option.bind (put p d s) (store_all put ws)"

locale file_store =
  fixes fetch :: "'s \<Rightarrow> 'p \<Rightarrow> string option"
    and store :: "'p \<Rightarrow> string \<Rightarrow> 's \<Rightarrow> 's option"
    and delete :: "'p \<Rightarrow> 's \<Rightarrow> 's option"
    and valid :: "'s \<Rightarrow> bool"
  assumes fetch_store: "store p d s = Some s' \<Longrightarrow> fetch s' q = (if q = p then Some d else fetch s q)"
    and fetch_delete: "delete p s = Some s' \<Longrightarrow> fetch s' q = (if q = p then None else fetch s q)"
    and delete_iff: "delete p s \<noteq> None \<longleftrightarrow> fetch s p \<noteq> None"
    and valid_store: "valid s \<Longrightarrow> store p d s = Some s' \<Longrightarrow> valid s'"
    and valid_delete: "valid s \<Longrightarrow> delete p s = Some s' \<Longrightarrow> valid s'"
begin

lemma fetch_store_all:
  "store_all store ws s = Some s' \<Longrightarrow> fetch s' q = (case map_of (rev ws) q of Some d \<Rightarrow> Some d | None \<Rightarrow> fetch s q)"
  by (induction ws arbitrary: s) (auto simp: fetch_store map_add_def split: option.splits Option.bind_splits)

lemma valid_store_all: "valid s \<Longrightarrow> store_all store ws s = Some s' \<Longrightarrow> valid s'"
  by (induction ws arbitrary: s) (auto split: Option.bind_splits, metis valid_store)

end

text \<open>Well-formed: what exists lies in a directory, and nothing is both a file and a directory.\<close>

definition fs_wf :: "fsys \<Rightarrow> bool" where
  "fs_wf fs = ([] \<notin> set (fs_dirs fs) \<and> (\<forall>q\<in>set (fs_dirs fs). is_dir fs (butlast q)) \<and>
     (\<forall>q. read_at fs q \<noteq> None \<longrightarrow> q \<noteq> [] \<and> is_dir fs (butlast q) \<and> \<not> is_dir fs q))"

lemma fs_wf_file:
  assumes "fs_wf fs" and "read_at fs q = Some d" shows "q \<noteq> []" "is_dir fs (butlast q)" "\<not> is_dir fs q"
  using assms by (auto simp: fs_wf_def)

lemma fs_wf_not_file: "fs_wf fs \<Longrightarrow> is_dir fs q \<Longrightarrow> read_at fs q = None"
  by (cases "read_at fs q") (auto dest: fs_wf_file)

lemma fs_wf_no_parent: "fs_wf fs \<Longrightarrow> \<not> is_dir fs (butlast q) \<Longrightarrow> read_at fs q = None"
  by (cases "read_at fs q") (auto dest: fs_wf_file)

lemma fs_wf_update:
  assumes "fs_wf fs" and "fs_dirs fs' = fs_dirs fs"
    and "\<And>q. read_at fs' q \<noteq> None \<Longrightarrow> read_at fs q \<noteq> None \<or> q \<noteq> [] \<and> is_dir fs (butlast q) \<and> \<not> is_dir fs q"
  shows "fs_wf fs'"
proof -
  have "is_dir fs' q = is_dir fs q" for q using assms(2) by (simp add: is_dir_def)
  then show ?thesis using assms by (simp add: fs_wf_def) blast
qed

interpretation files: file_store read_at write_at delete_at fs_wf
proof
  fix p q :: location and d and s s' :: fsys
  show "write_at p d s = Some s' \<Longrightarrow> read_at s' q = (if q = p then Some d else read_at s q)"
    by (auto simp: write_at_def read_at_def split: if_splits)
  show "delete_at p s = Some s' \<Longrightarrow> read_at s' q = (if q = p then None else read_at s q)"
    by (auto simp: delete_at_def read_at_def split: if_splits)
  show "delete_at p s \<noteq> None \<longleftrightarrow> read_at s p \<noteq> None"
    by (simp add: delete_at_def read_at_def hm_contains_def)
  show "fs_wf s \<Longrightarrow> write_at p d s = Some s' \<Longrightarrow> fs_wf s'"
    by (erule fs_wf_update) (auto simp: write_at_def read_at_def split: if_splits)
  show "fs_wf s \<Longrightarrow> delete_at p s = Some s' \<Longrightarrow> fs_wf s'"
    by (erule fs_wf_update) (auto simp: delete_at_def read_at_def split: if_splits)
qed

section \<open>Plain paths\<close>

lemma dir_prefix:
  assumes "fs_wf fs" "is_dir fs q" shows "is_dir fs (take n q)"
proof (cases "n \<le> length q")
  case True
  then show ?thesis using assms(2)
  proof (induction "length q - n" arbitrary: q)
    case (Suc k)
    then have "q \<noteq> []" by auto
    then have "is_dir fs (butlast q)" using Suc.prems assms(1) by (auto simp: is_dir_def fs_wf_def)
    moreover have "take n q = take n (butlast q)" using Suc by (simp add: take_butlast)
    ultimately show ?case using Suc by simp
  qed simp
qed (use assms(2) in simp)

definition plain_steps :: "string list \<Rightarrow> bool" where
  "plain_steps cs = (''..'' \<notin> set cs)"

lemma plain_steps_Cons [simp]: "plain_steps (c # cs) \<longleftrightarrow> c \<noteq> ''..'' \<and> plain_steps cs"
  by (auto simp: plain_steps_def)

lemma walk_plain:
  assumes "fs_wf fs" "plain_steps cs" "is_dir fs cur"
  shows "walk fs cur cs = (if cs = [] \<or> is_dir fs (butlast (cur @ cs)) then Some (cur @ cs) else None)"
  using assms(2,3)
proof (induction cs arbitrary: cur)
  case (Cons c cs)
  have s: "step_to cur c = cur @ [c]" using Cons.prems by (simp add: step_to_def)
  show ?case
  proof (cases "is_dir fs (cur @ [c])")
    case True
    with Cons s show ?thesis by (auto simp: butlast_append)
  next
    case False
    then have "\<not> is_dir fs (butlast (cur @ c # cs))" if "cs \<noteq> []"
      using dir_prefix [OF assms(1), of "butlast (cur @ c # cs)" "Suc (length cur)"] that
      by (cases cs rule: rev_cases) (auto simp: butlast_append)
    with False Cons.prems s show ?thesis by (cases cs) (auto simp: butlast_append)
  qed
qed simp

lemma resolve_plain:
  assumes "fs_wf fs" "plain_steps (path_steps p)"
  shows "resolve fs p = (if path_steps p = [] \<or> is_dir fs (butlast (path_steps p)) then Some (path_steps p) else None)"
  using walk_plain [OF assms, of "[]"] by (simp add: resolve_def is_dir_def)

lemma read_file_plain:
  assumes "fs_wf fs" "plain_steps (path_steps p)"
  shows "read_file fs p = read_at fs (path_steps p)"
  using assms by (auto simp: read_file_def resolve_plain fs_wf_no_parent)

lemma create_file_plain:
  assumes "fs_wf fs" "plain_steps (path_steps p)"
  shows "create_file p d fs = write_at (path_steps p) d fs"
  using assms by (auto simp: create_file_def resolve_plain write_at_def)

lemma remove_file_plain:
  assumes "fs_wf fs" "plain_steps (path_steps p)"
  shows "remove_file p fs = delete_at (path_steps p) fs"
  using assms fs_wf_no_parent [of fs "path_steps p"]
  by (auto simp: remove_file_def resolve_plain delete_at_def hm_contains_def read_at_def)

lemma path_is_dir_plain:
  assumes "fs_wf fs" "plain_steps (path_steps p)"
  shows "path_is_dir fs p = is_dir fs (path_steps p)"
  using assms dir_prefix [OF assms(1), of "path_steps p" "length (path_steps p) - 1"]
  by (auto simp: path_is_dir_def resolve_plain butlast_conv_take is_dir_def)

lemma make_dirs_plain:
  assumes "plain_steps cs" "fs_wf fs" "is_dir fs cur" and "make_dirs cur cs fs = (fs', ok)"
  shows "fs_wf fs'" "fs_files fs' = fs_files fs" "\<And>q. is_dir fs q \<Longrightarrow> is_dir fs' q"
    "\<And>q. is_dir fs' q \<Longrightarrow> is_dir fs q \<or> (\<exists>n. q = cur @ take n cs)"
    "ok = (\<forall>n\<le>length cs. read_at fs (cur @ take n cs) = None)" "ok \<Longrightarrow> is_dir fs' (cur @ cs)"
proof -
  have "fs_wf fs' \<and> fs_files fs' = fs_files fs \<and> (\<forall>q. is_dir fs q \<longrightarrow> is_dir fs' q) \<and>
      (\<forall>q. is_dir fs' q \<longrightarrow> is_dir fs q \<or> (\<exists>n. q = cur @ take n cs)) \<and>
      (ok = (\<forall>n\<le>length cs. read_at fs (cur @ take n cs) = None)) \<and> (ok \<longrightarrow> is_dir fs' (cur @ cs))"
    using assms
  proof (induction cs arbitrary: cur fs)
    case Nil
    then show ?case by (auto simp: fs_wf_not_file)
  next
    case (Cons c cs)
    have s: "step_to cur c = cur @ [c]" using Cons.prems(1) by (simp add: step_to_def)
    have cur: "read_at fs cur = None" using Cons.prems(2,3) by (rule fs_wf_not_file)
    have split: "(\<forall>n\<le>length (c # cs). P (take n (c # cs))) \<longleftrightarrow> P [] \<and> (\<forall>n\<le>length cs. P (c # take n cs))" for P
      by (simp add: less_Suc_eq_le [symmetric] All_less_Suc2 del: less_Suc_eq_le)
    show ?case
    proof (cases "hm_contains (fs_files fs) (cur @ [c])")
      case True
      then have "read_at fs (cur @ take 1 (c # cs)) \<noteq> None" by (simp add: read_at_def hm_contains_def)
      with True Cons.prems s show ?thesis by (auto intro!: exI [of _ 1])
    next
      case False
      let ?fs = "add_dir (cur @ [c]) fs"
      have m: "make_dirs (cur @ [c]) cs ?fs = (fs', ok)" using Cons.prems(4) False s by (simp add: Let_def)
      have d: "is_dir ?fs q \<longleftrightarrow> is_dir fs q \<or> q = cur @ [c]" for q by (auto simp: add_dir_def is_dir_def)
      have w: "fs_wf ?fs" using Cons.prems(2,3) False
        unfolding fs_wf_def d by (auto simp: add_dir_def hm_contains_def read_at_def)
      have f: "fs_files ?fs = fs_files fs" by (simp add: add_dir_def)
      have IH: "fs_wf fs' \<and> fs_files fs' = fs_files ?fs \<and> (\<forall>q. is_dir ?fs q \<longrightarrow> is_dir fs' q) \<and>
          (\<forall>q. is_dir fs' q \<longrightarrow> is_dir ?fs q \<or> (\<exists>n. q = (cur @ [c]) @ take n cs)) \<and>
          (ok = (\<forall>n\<le>length cs. read_at ?fs ((cur @ [c]) @ take n cs) = None)) \<and> (ok \<longrightarrow> is_dir fs' ((cur @ [c]) @ cs))"
        using Cons.IH [OF _ w _ m] Cons.prems(1) d by auto
      have new: "\<exists>n. q = cur @ take n (c # cs)" if "q = cur @ [c] \<or> (\<exists>n. q = (cur @ [c]) @ take n cs)" for q
        using that by (auto intro: exI [of _ "Suc 0"] exI [of _ "Suc n" for n])
      have ok: "ok = (\<forall>n\<le>length (c # cs). read_at fs (cur @ take n (c # cs)) = None)"
        unfolding split [of "\<lambda>t. read_at fs (cur @ t) = None"] using IH f cur by (simp add: read_at_def)
      have dirs: "is_dir fs q \<or> (\<exists>n. q = cur @ take n (c # cs))" if "is_dir fs' q" for q
        using that IH new [of q] d [of q] by blast
      show ?thesis using IH ok dirs d f by (intro conjI allI impI) auto
    qed
  qed
  then show "fs_wf fs'" "fs_files fs' = fs_files fs" "\<And>q. is_dir fs q \<Longrightarrow> is_dir fs' q"
    "\<And>q. is_dir fs' q \<Longrightarrow> is_dir fs q \<or> (\<exists>n. q = cur @ take n cs)"
    "ok = (\<forall>n\<le>length cs. read_at fs (cur @ take n cs) = None)" "ok \<Longrightarrow> is_dir fs' (cur @ cs)" by blast+
qed

end
