(* ===== verification/FileServer.thy ===== *)
theory FileServer
  imports FileSystem
begin

text \<open>
  The file server (\<open>fileserver/src/main.rs\<close>, \<open>s3.rs\<close>, \<open>auth.rs\<close>): the upload interface of the workers and the
  controller, and the subset of the S3 protocol over the same directory. A handler takes the file system
  and returns it changed, with the reply.

  Parameters: \<open>to_json\<close> and \<open>from_json\<close> (\<open>serde_json\<close> on a map of texts), \<open>header_ok\<close> (whether the \<open>http\<close> crate
  accepts a header name and value), \<open>md5\<close> (the digest as hexadecimal text), the XML printer and parser
  (\<open>quick_xml\<close>), \<open>parse_uuid\<close>, and \<open>proxy\<close>, the signed request to the upstream store. New ids are arguments.
  Of reply texts only the part that the server writes itself is kept.
\<close>

section \<open>Requests and replies\<close>

record app_state =
  as_staging_dir :: string
  as_api_key :: string
  as_allow_insecure :: bool
  as_s3_proxy_enabled :: bool
  as_s3_endpoint :: string
  as_s3_region :: string
  as_s3_access_key :: string
  as_s3_secret_key :: string

text \<open>
  Header names are in lower case, a value is \<open>None\<close> when it is not text. The body arrives in chunks;
  \<open>fr_broken\<close>: the connection fails after them.
\<close>

record fs_request =
  fr_headers :: "(string \<times> string option) list"
  fr_query :: "string option"
  fr_chunks :: "string list"
  fr_broken :: bool

record reply =
  rp_status :: nat
  rp_headers :: "(string \<times> string) list"
  rp_body :: string

definition answer :: "nat \<Rightarrow> string \<Rightarrow> reply" where
  "answer status text_body = \<lparr>rp_status = status, rp_headers = [], rp_body = text_body\<rparr>"

definition header :: "fs_request \<Rightarrow> string \<Rightarrow> string option" where
  "header r name = Option.bind (map_of (fr_headers r) name) (\<lambda>v. v)"

definition xml_reply :: "string \<Rightarrow> reply" where
  "xml_reply xml = \<lparr>rp_status = 200, rp_headers = [(''content-type'', ''application/xml'')],
     rp_body = ''<?xml version=\"1.0\" encoding=\"UTF-8\"?>'' @ [CHR 0x0A] @ xml\<rparr>"

section \<open>Access\<close>

definition s3_api_key_authorized :: "fs_request \<Rightarrow> string \<Rightarrow> bool" where
  "s3_api_key_authorized r api_key = (header r ''x-api-key'' = Some api_key)"

definition s3_legacy_auth_authorized :: "fs_request \<Rightarrow> string \<Rightarrow> bool" where
  "s3_legacy_auth_authorized r api_key =
     ((case header r ''authorization'' of Some auth \<Rightarrow> starts_with auth ''AWS4-HMAC-SHA256'' \<and> contains_str auth api_key | None \<Rightarrow> False) \<or>
      (case fr_query r of Some q \<Rightarrow> contains_str q ''X-Amz-Signature='' \<and> contains_str q api_key | None \<Rightarrow> False))"

definition s3_request_authorized :: "fs_request \<Rightarrow> string \<Rightarrow> bool \<Rightarrow> bool" where
  "s3_request_authorized r api_key allow_insecure =
     (if s3_api_key_authorized r api_key then True else allow_insecure \<and> s3_legacy_auth_authorized r api_key)"

definition fs_auth_middleware :: "app_state \<Rightarrow> fs_request \<Rightarrow> (fsys \<Rightarrow> fsys \<times> reply) \<Rightarrow> fsys \<Rightarrow> fsys \<times> reply" where
  "fs_auth_middleware st r run fs =
     (if header r ''x-api-key'' = Some (as_api_key st) then run fs else (fs, answer 401 ''Invalid or missing API key''))"

definition s3_auth_middleware :: "app_state \<Rightarrow> fs_request \<Rightarrow> (fsys \<Rightarrow> (fsys \<times> reply) option) \<Rightarrow> fsys \<Rightarrow> (fsys \<times> reply) option" where
  "s3_auth_middleware st r run fs =
     (if s3_request_authorized r (as_api_key st) (as_allow_insecure st) then run fs else Some (fs, answer 401 []))"

definition allow_insecure_from_env :: "string option \<Rightarrow> bool" where
  "allow_insecure_from_env v = (v = Some ''true'' \<or> v = Some ''1'')"

section \<open>Uploads\<close>

definition upload_dir :: "app_state \<Rightarrow> string" where
  "upload_dir st = rust_join (rust_join (as_staging_dir st) ''s3'') ''veloce-staging''"

text \<open>The first field of the form; the content of a field arrives in chunks too.\<close>

definition upload_file :: "app_state \<Rightarrow> string \<Rightarrow> fs_request option \<Rightarrow> fsys \<Rightarrow> fsys \<times> reply" where
  "upload_file st file_id field fs =
     (case field of
        None \<Rightarrow> (fs, answer 400 ''No file provided'')
      | Some r \<Rightarrow>
          (let (fs1, ok) = create_dir_all (path_steps (upload_dir st)) fs in
           if \<not> ok then (fs1, answer 500 [])
           else case create_file (rust_join (upload_dir st) file_id) (concat (fr_chunks r)) fs1 of
               None \<Rightarrow> (fs1, answer 500 [])
             | Some fs2 \<Rightarrow> (fs2, if fr_broken r then answer 400 [] else answer 200 file_id)))"

definition download_file :: "(string \<Rightarrow> string option) \<Rightarrow> app_state \<Rightarrow> string \<Rightarrow> fsys \<Rightarrow> reply" where
  "download_file parse_uuid st file_id fs =
     (case parse_uuid file_id of
        None \<Rightarrow> answer 400 ''Invalid File ID''
      | Some uuid_str \<Rightarrow>
          (let s3_path = rust_join (upload_dir st) uuid_str; legacy_path = rust_join (as_staging_dir st) uuid_str;
               file_path = (if path_exists fs s3_path then s3_path else legacy_path)
           in if path_is_dir fs file_path then answer 200 []
              else case read_file fs file_path of None \<Rightarrow> answer 404 ''File not found'' | Some data \<Rightarrow> answer 200 data))"

definition delete_file :: "(string \<Rightarrow> string option) \<Rightarrow> app_state \<Rightarrow> string \<Rightarrow> fsys \<Rightarrow> fsys \<times> reply" where
  "delete_file parse_uuid st file_id fs =
     (case parse_uuid file_id of
        None \<Rightarrow> (fs, answer 400 ''Invalid File ID'')
      | Some uuid_str \<Rightarrow>
          (let s3_path = rust_join (upload_dir st) uuid_str; legacy_path = rust_join (as_staging_dir st) uuid_str;
               remove = (\<lambda>p. case remove_file p fs of
                   None \<Rightarrow> (fs, answer 500 [])
                 | Some fs1 \<Rightarrow>
                     (let meta_path = p @ ''.meta.json''
                      in (if path_exists fs1 meta_path then ignoring (remove_file meta_path) fs1 else fs1, answer 204 [])))
           in if path_exists fs s3_path then remove s3_path
              else if path_exists fs legacy_path then remove legacy_path
              else (fs, answer 404 ''File not found'')))"

definition get_logs :: "string option \<Rightarrow> nat option \<Rightarrow> reply" where
  "get_logs content lines =
     (let n = (case lines of Some k \<Rightarrow> k | None \<Rightarrow> 100) in
      case content of
        Some text_body \<Rightarrow> answer 200 (join [CHR 0x0A] (rev (take n (rev (str_lines text_body)))))
      | None \<Rightarrow> answer 404 ''Log file not found'')"

text \<open>One round of the hourly cleanup: \<open>age\<close> is the seconds since an entry of the staging directory was changed.\<close>

definition cleanup_entry :: "app_state \<Rightarrow> (string \<Rightarrow> nat option) \<Rightarrow> string \<Rightarrow> fsys \<Rightarrow> fsys" where
  "cleanup_entry st age name fs =
     (case age name of
        Some elapsed \<Rightarrow> if elapsed > 7 * 24 * 3600 then ignoring (remove_file (rust_join (as_staging_dir st) name)) fs else fs
      | None \<Rightarrow> fs)"

definition cleanup_staging :: "app_state \<Rightarrow> (string \<Rightarrow> nat option) \<Rightarrow> string list \<Rightarrow> fsys \<Rightarrow> fsys" where
  "cleanup_staging st age names fs = fold (cleanup_entry st age) names fs"

section \<open>Objects\<close>

definition get_s3_file_path :: "string \<Rightarrow> string \<Rightarrow> string \<Rightarrow> string" where
  "get_s3_file_path staging_dir bucket key =
     (if bucket = ''legacy'' then rust_join staging_dir (trim_start_matches ''/'' key)
      else rust_join (rust_join (rust_join staging_dir ''s3'') bucket) (trim_start_matches ''/'' key))"

definition get_s3_bucket_dir :: "string \<Rightarrow> string \<Rightarrow> string" where
  "get_s3_bucket_dir staging_dir bucket =
     (if bucket = ''legacy'' then staging_dir else rust_join (rust_join staging_dir ''s3'') bucket)"

definition read_only :: reply where
  "read_only = answer 403 ''legacy bucket is read-only''"

text \<open>\<open>create_dir_all(file_path.parent())\<close>, ignoring its result.\<close>

definition create_parent :: "string \<Rightarrow> fsys \<Rightarrow> fsys" where
  "create_parent p fs = fst (create_dir_all (butlast (path_steps p)) fs)"

definition load_meta_headers :: "(string \<Rightarrow> (string, string) hmap option) \<Rightarrow> (string \<Rightarrow> string \<Rightarrow> bool) \<Rightarrow> fsys \<Rightarrow> string \<Rightarrow> (string \<times> string) list" where
  "load_meta_headers from_json header_ok fs file_path =
     (case Option.bind (read_file fs (file_path @ ''.meta.json'')) from_json of
        Some m \<Rightarrow> filter (\<lambda>(k, v). header_ok k v) m
      | None \<Rightarrow> [])"

definition meta_headers :: "fs_request \<Rightarrow> (string, string) hmap" where
  "meta_headers r = fold (\<lambda>(k, v) m. if starts_with k ''x-amz-meta-'' then (case v of Some val \<Rightarrow> hm_insert k val m | None \<Rightarrow> m) else m)
     (fr_headers r) []"

definition write_meta :: "((string, string) hmap \<Rightarrow> string option) \<Rightarrow> fs_request \<Rightarrow> string \<Rightarrow> fsys \<Rightarrow> fsys" where
  "write_meta to_json r file_path fs =
     (if meta_headers r = [] then fs
      else case to_json (meta_headers r) of None \<Rightarrow> fs | Some j \<Rightarrow> ignoring (create_file (file_path @ ''.meta.json'') j) fs)"

definition s3_put_object :: "((string, string) hmap \<Rightarrow> string option) \<Rightarrow> app_state \<Rightarrow> string \<Rightarrow> string \<Rightarrow> fs_request \<Rightarrow> fsys \<Rightarrow> fsys \<times> reply" where
  "s3_put_object to_json st bucket key r fs =
     (if bucket = ''legacy'' then (fs, read_only)
      else
        (let (fs1, ok) = create_dir_all (path_steps (get_s3_bucket_dir (as_staging_dir st) bucket)) fs in
         if \<not> ok then (fs1, answer 500 [])
         else
           (let file_path = get_s3_file_path (as_staging_dir st) bucket key;
                fs2 = write_meta to_json r file_path (create_parent file_path fs1)
            in case create_file file_path (concat (fr_chunks r)) fs2 of
                 None \<Rightarrow> (fs2, answer 500 [])
               | Some fs3 \<Rightarrow> (fs3, if fr_broken r then answer 400 [] else answer 200 []))))"

text \<open>Opening a directory succeeds; its body then fails, here as an empty one.\<close>

definition s3_get_object :: "(string \<Rightarrow> (string, string) hmap option) \<Rightarrow> (string \<Rightarrow> string \<Rightarrow> bool) \<Rightarrow> app_state \<Rightarrow> string \<Rightarrow> string \<Rightarrow> fsys \<Rightarrow> reply" where
  "s3_get_object from_json header_ok st bucket key fs =
     (let file_path = get_s3_file_path (as_staging_dir st) bucket key;
          found = (\<lambda>data. \<lparr>rp_status = 200, rp_headers = load_meta_headers from_json header_ok fs file_path, rp_body = data\<rparr>)
      in if path_is_dir fs file_path then found []
         else case read_file fs file_path of None \<Rightarrow> answer 404 ''File not found'' | Some data \<Rightarrow> found data)"

definition s3_head_object :: "(string \<Rightarrow> (string, string) hmap option) \<Rightarrow> (string \<Rightarrow> string \<Rightarrow> bool) \<Rightarrow> (string \<Rightarrow> nat) \<Rightarrow> app_state \<Rightarrow> string \<Rightarrow> string \<Rightarrow> fsys \<Rightarrow> reply" where
  "s3_head_object from_json header_ok dir_len st bucket key fs =
     (let file_path = get_s3_file_path (as_staging_dir st) bucket key;
          found = (\<lambda>n. \<lparr>rp_status = 200, rp_headers = (''content-length'', show_nat n) # load_meta_headers from_json header_ok fs file_path, rp_body = []\<rparr>)
      in if path_is_dir fs file_path then found (dir_len file_path)
         else case read_file fs file_path of None \<Rightarrow> answer 404 ''File not found'' | Some data \<Rightarrow> found (length data))"

definition s3_delete_object :: "app_state \<Rightarrow> string \<Rightarrow> string \<Rightarrow> fsys \<Rightarrow> fsys \<times> reply" where
  "s3_delete_object st bucket key fs =
     (if bucket = ''legacy'' then (fs, read_only)
      else
        (let file_path = get_s3_file_path (as_staging_dir st) bucket key in
         if path_exists fs file_path
         then (let fs1 = ignoring (remove_file (file_path @ ''.meta.json'')) fs
               in case remove_file file_path fs1 of Some fs2 \<Rightarrow> (fs2, answer 204 []) | None \<Rightarrow> (fs1, answer 500 []))
         else (fs, answer 404 ''File not found'')))"

section \<open>Listing\<close>

record s3_object =
  so_key :: string
  so_last_modified :: string
  so_size :: nat

record list_bucket_result =
  lb_name :: string
  lb_prefix :: string
  lb_key_count :: nat
  lb_max_keys :: nat
  lb_is_truncated :: bool
  lb_contents :: "s3_object list"

text \<open>A name that ends in \<open>.meta.json\<close> has the extension \<open>json\<close>, so the second test of the code is enough.\<close>

definition is_sidecar :: "location \<Rightarrow> bool" where
  "is_sidecar q = ends_with (last q) ''.meta.json''"

definition listed_object :: "location \<Rightarrow> string \<Rightarrow> location \<times> string \<Rightarrow> s3_object option" where
  "listed_object bucket_dir prefix = (\<lambda>(q, data).
     if is_sidecar q \<or> \<not> below bucket_dir q then None
     else (let key = replace_str [CHR 0x5C] ''/'' (join ''/'' (drop (length bucket_dir) q))
           in if starts_with key prefix then Some \<lparr>so_key = key, so_last_modified = ''2023-01-01T00:00:00.000Z'', so_size = length data\<rparr> else None))"

definition s3_list_objects :: "(list_bucket_result \<Rightarrow> string option) \<Rightarrow> app_state \<Rightarrow> string \<Rightarrow> nat option \<Rightarrow> string option \<Rightarrow> fsys \<Rightarrow> reply" where
  "s3_list_objects to_xml st bucket list_type prefix fs =
     (if list_type \<noteq> Some 2 then answer 400 ''Only list-type=2 is supported''
      else
        (let bucket_dir = get_s3_bucket_dir (as_staging_dir st) bucket in
         if \<not> path_exists fs bucket_dir then answer 404 ''Bucket not found''
         else
           (let pre = (case prefix of Some p \<Rightarrow> p | None \<Rightarrow> []);
                objects = (case resolve fs bucket_dir of Some d \<Rightarrow> List.map_filter (listed_object d pre) (fs_files fs) | None \<Rightarrow> [])
            in case to_xml \<lparr>lb_name = bucket, lb_prefix = pre, lb_key_count = length objects, lb_max_keys = 1000,
                 lb_is_truncated = False, lb_contents = objects\<rparr> of
                 None \<Rightarrow> answer 500 []
               | Some xml \<Rightarrow> xml_reply xml)))"

section \<open>Uploads in parts\<close>

definition multipart_dir :: "app_state \<Rightarrow> string \<Rightarrow> string \<Rightarrow> string" where
  "multipart_dir st bucket upload_id =
     rust_join (rust_join (get_s3_bucket_dir (as_staging_dir st) bucket) ''.veloce_multipart'') upload_id"

definition part_path :: "string \<Rightarrow> nat \<Rightarrow> string" where
  "part_path temp_dir n = rust_join temp_dir (show_nat n)"

definition s3_initiate_multipart :: "(string \<Rightarrow> string \<Rightarrow> string \<Rightarrow> string option) \<Rightarrow> string \<Rightarrow> app_state \<Rightarrow> string \<Rightarrow> string \<Rightarrow> fsys \<Rightarrow> fsys \<times> reply" where
  "s3_initiate_multipart initiate_xml upload_id st bucket key fs =
     (if bucket = ''legacy'' then (fs, read_only)
      else
        (let (fs1, ok) = create_dir_all (path_steps (multipart_dir st bucket upload_id)) fs in
         if \<not> ok then (fs1, answer 500 [])
         else case initiate_xml bucket key upload_id of None \<Rightarrow> (fs1, answer 500 []) | Some xml \<Rightarrow> (fs1, xml_reply xml)))"

definition s3_upload_part :: "(string \<Rightarrow> string) \<Rightarrow> app_state \<Rightarrow> string \<Rightarrow> string \<Rightarrow> nat \<Rightarrow> fs_request \<Rightarrow> fsys \<Rightarrow> fsys \<times> reply" where
  "s3_upload_part md5 st bucket upload_id part_number r fs =
     (if bucket = ''legacy'' then (fs, read_only)
      else
        (let temp_dir = multipart_dir st bucket upload_id; data = concat (fr_chunks r) in
         if \<not> path_exists fs temp_dir then (fs, answer 404 ''Upload ID not found'')
         else case create_file (part_path temp_dir part_number) data fs of
             None \<Rightarrow> (fs, answer 500 [])
           | Some fs1 \<Rightarrow>
               (fs1, if fr_broken r then answer 400 []
                     else \<lparr>rp_status = 200, rp_headers = [(''etag'', ''\"'' @ md5 data @ ''\"'')], rp_body = []\<rparr>)))"

definition trim_quotes :: "string \<Rightarrow> string" where
  "trim_quotes s = trim_end_matches CHR 0x22 (trim_start_matches ''\"'' s)"

text \<open>
  The loop over the parts: \<open>acc\<close> is what the new object holds so far. A part that is the object itself is
  copied to its own end for ever (\<open>CopyHangs\<close>), unless the object is still empty.
\<close>

datatype copy_result = Copied string | PartMissing string | WrongETag nat | CopyHangs

fun copy_parts :: "(string \<Rightarrow> string) \<Rightarrow> string \<Rightarrow> string \<Rightarrow> (nat \<times> string) list \<Rightarrow> fsys \<Rightarrow> string \<Rightarrow> copy_result" where
  "copy_parts md5 temp_dir file_path [] fs acc = Copied acc"
| "copy_parts md5 temp_dir file_path ((n, e_tag) # parts) fs acc =
     (if resolve fs (part_path temp_dir n) = resolve fs file_path \<and> acc \<noteq> [] then CopyHangs
      else case read_file fs (part_path temp_dir n) of
          None \<Rightarrow> PartMissing acc
        | Some data \<Rightarrow>
            if md5 data \<noteq> trim_quotes e_tag then WrongETag n
            else copy_parts md5 temp_dir file_path parts fs (acc @ data))"

definition s3_complete_multipart :: "(string \<Rightarrow> string) \<Rightarrow> (string \<Rightarrow> (nat \<times> string) list option) \<Rightarrow> (string \<Rightarrow> string \<Rightarrow> string \<Rightarrow> string option) \<Rightarrow> app_state \<Rightarrow> string \<Rightarrow> string \<Rightarrow> string \<Rightarrow>
    fs_request \<Rightarrow> fsys \<Rightarrow> (fsys \<times> reply) option" where
  "s3_complete_multipart md5 from_xml complete_xml st bucket key upload_id r fs =
     (if bucket = ''legacy'' then Some (fs, read_only)
      else
        (let temp_dir = multipart_dir st bucket upload_id in
         if \<not> path_exists fs temp_dir then Some (fs, answer 404 ''Upload ID not found'')
         else if fr_broken r then Some (fs, answer 400 [])
         else case from_xml (concat (fr_chunks r)) of
             None \<Rightarrow> Some (fs, answer 400 ''XML Parse Error'')
           | Some parts \<Rightarrow>
               (let file_path = get_s3_file_path (as_staging_dir st) bucket key; fs1 = create_parent file_path fs in
                case create_file file_path [] fs1 of
                  None \<Rightarrow> Some (fs1, answer 500 [])
                | Some fs2 \<Rightarrow>
                    (case copy_parts md5 temp_dir file_path parts fs2 [] of
                       CopyHangs \<Rightarrow> None
                     | PartMissing acc \<Rightarrow> Some (ignoring (create_file file_path acc) fs2, answer 500 [])
                     | WrongETag n \<Rightarrow> Some (ignoring (remove_file file_path) fs2, answer 400 (''ETag mismatch for part '' @ show_nat n))
                     | Copied data \<Rightarrow>
                         (let fs3 = ignoring (remove_dir_all temp_dir) (ignoring (create_file file_path data) fs2);
                              e_tag = ''\"'' @ md5 data @ ''-'' @ show_nat (length parts) @ ''\"''
                          in Some (fs3, case complete_xml bucket key e_tag of None \<Rightarrow> answer 500 [] | Some xml \<Rightarrow> xml_reply xml))))))"

definition s3_abort_multipart :: "app_state \<Rightarrow> string \<Rightarrow> string \<Rightarrow> fsys \<Rightarrow> fsys \<times> reply" where
  "s3_abort_multipart st bucket upload_id fs =
     (if bucket = ''legacy'' then (fs, read_only)
      else (ignoring (remove_dir_all (multipart_dir st bucket upload_id)) fs, answer 204 []))"

section \<open>Routes\<close>

record s3_query =
  xq_list_type :: "nat option"
  xq_prefix :: "string option"
  xq_uploads :: "string option"
  xq_upload_id :: "string option"
  xq_part_number :: "nat option"

datatype s3_method = GetM | HeadM | PutM | PostM | DeleteM

text \<open>The libraries the routes call.\<close>

record s3_lib =
  sl_to_json :: "(string, string) hmap \<Rightarrow> string option"
  sl_from_json :: "string \<Rightarrow> (string, string) hmap option"
  sl_header_ok :: "string \<Rightarrow> string \<Rightarrow> bool"
  sl_dir_len :: "string \<Rightarrow> nat"
  sl_md5 :: "string \<Rightarrow> string"
  sl_list_xml :: "list_bucket_result \<Rightarrow> string option"
  sl_initiate_xml :: "string \<Rightarrow> string \<Rightarrow> string \<Rightarrow> string option"
  sl_complete_xml :: "string \<Rightarrow> string \<Rightarrow> string \<Rightarrow> string option"
  sl_parts_xml :: "string \<Rightarrow> (nat \<times> string) list option"
  sl_host :: "string \<Rightarrow> string"
  sl_proxy :: "s3_method \<Rightarrow> string \<Rightarrow> (string \<times> string) list \<Rightarrow> string \<Rightarrow> reply"

definition proxy_url :: "app_state \<Rightarrow> string \<Rightarrow> string option \<Rightarrow> string option \<Rightarrow> string" where
  "proxy_url st bucket key query =
     as_s3_endpoint st @ ''/'' @ bucket @ (case key of Some k \<Rightarrow> ''/'' @ k | None \<Rightarrow> []) @ (case query of Some q \<Rightarrow> ''?'' @ q | None \<Rightarrow> [])"

definition signed_headers :: "string \<Rightarrow> fs_request \<Rightarrow> (string \<times> string) list" where
  "signed_headers host r = (''host'', host) #
     List.map_filter (\<lambda>(name, v). if name = ''authorization'' \<or> name = ''host'' \<or> name = ''x-api-key'' \<or> starts_with name ''x-amz-signature''
       then None else map_option (\<lambda>val. (name, val)) v) (fr_headers r)"

definition proxy_s3_request :: "s3_lib \<Rightarrow> app_state \<Rightarrow> s3_method \<Rightarrow> string \<Rightarrow> string option \<Rightarrow> fs_request \<Rightarrow> string \<Rightarrow> reply" where
  "proxy_s3_request lib st m bucket key r body =
     (let url = proxy_url st bucket key (fr_query r) in sl_proxy lib m url (signed_headers (sl_host lib url) r) body)"

text \<open>
  The five routes of an object, and the listing of a bucket; \<open>fresh_id\<close> is the new UUID. With the proxy on,
  a request with a body is forwarded once the body is complete.
\<close>

definition s3_put_router :: "s3_lib \<Rightarrow> app_state \<Rightarrow> string \<Rightarrow> string \<Rightarrow> s3_query \<Rightarrow> fs_request \<Rightarrow> fsys \<Rightarrow> fsys \<times> reply" where
  "s3_put_router lib st bucket key q r fs =
     (if as_s3_proxy_enabled st
      then (fs, if fr_broken r then answer 400 [] else proxy_s3_request lib st PutM bucket (Some key) r (concat (fr_chunks r)))
      else case (xq_part_number q, xq_upload_id q) of
          (Some n, Some u) \<Rightarrow> s3_upload_part (sl_md5 lib) st bucket u n r fs
        | _ \<Rightarrow> s3_put_object (sl_to_json lib) st bucket key r fs)"

definition s3_post_router :: "s3_lib \<Rightarrow> app_state \<Rightarrow> string \<Rightarrow> string \<Rightarrow> string \<Rightarrow> s3_query \<Rightarrow> fs_request \<Rightarrow> fsys \<Rightarrow> (fsys \<times> reply) option" where
  "s3_post_router lib st fresh_id bucket key q r fs =
     (if as_s3_proxy_enabled st
      then Some (fs, if fr_broken r then answer 400 [] else proxy_s3_request lib st PostM bucket (Some key) r (concat (fr_chunks r)))
      else if xq_uploads q \<noteq> None then Some (s3_initiate_multipart (sl_initiate_xml lib) fresh_id st bucket key fs)
      else case xq_upload_id q of
          Some u \<Rightarrow> s3_complete_multipart (sl_md5 lib) (sl_parts_xml lib) (sl_complete_xml lib) st bucket key u r fs
        | None \<Rightarrow> Some (fs, answer 400 ''Invalid POST operation''))"

definition s3_delete_router :: "s3_lib \<Rightarrow> app_state \<Rightarrow> string \<Rightarrow> string \<Rightarrow> s3_query \<Rightarrow> fs_request \<Rightarrow> fsys \<Rightarrow> fsys \<times> reply" where
  "s3_delete_router lib st bucket key q r fs =
     (if as_s3_proxy_enabled st then (fs, proxy_s3_request lib st DeleteM bucket (Some key) r [])
      else case xq_upload_id q of
          Some u \<Rightarrow> s3_abort_multipart st bucket u fs
        | None \<Rightarrow> s3_delete_object st bucket key fs)"

fun s3_object_route :: "s3_lib \<Rightarrow> app_state \<Rightarrow> string \<Rightarrow> s3_method \<Rightarrow> string \<Rightarrow> string \<Rightarrow> s3_query \<Rightarrow> fs_request \<Rightarrow> fsys \<Rightarrow> (fsys \<times> reply) option" where
  "s3_object_route lib st fresh_id PutM bucket key q r fs = Some (s3_put_router lib st bucket key q r fs)"
| "s3_object_route lib st fresh_id PostM bucket key q r fs = s3_post_router lib st fresh_id bucket key q r fs"
| "s3_object_route lib st fresh_id GetM bucket key q r fs =
     Some (fs, if as_s3_proxy_enabled st then proxy_s3_request lib st GetM bucket (Some key) r []
               else s3_get_object (sl_from_json lib) (sl_header_ok lib) st bucket key fs)"
| "s3_object_route lib st fresh_id HeadM bucket key q r fs =
     Some (fs, if as_s3_proxy_enabled st then proxy_s3_request lib st HeadM bucket (Some key) r []
               else s3_head_object (sl_from_json lib) (sl_header_ok lib) (sl_dir_len lib) st bucket key fs)"
| "s3_object_route lib st fresh_id DeleteM bucket key q r fs = Some (s3_delete_router lib st bucket key q r fs)"

definition s3_bucket_route :: "s3_lib \<Rightarrow> app_state \<Rightarrow> string \<Rightarrow> s3_query \<Rightarrow> fs_request \<Rightarrow> fsys \<Rightarrow> reply" where
  "s3_bucket_route lib st bucket q r fs =
     (if as_s3_proxy_enabled st then proxy_s3_request lib st GetM bucket None r []
      else s3_list_objects (sl_list_xml lib) st bucket (xq_list_type q) (xq_prefix q) fs)"

text \<open>
  The application: each route with the check in front of it. \<open>log_text\<close> is the content of the log file. The restart
  replaces the process a second later and changes no file.
\<close>

datatype fs_endpoint =
    RootE
  | UploadE "fs_request option"
  | DownloadE string
  | DeleteE string
  | RestartE
  | LogsE "nat option"
  | BucketE string s3_query
  | ObjectE s3_method string string s3_query

fun build_app :: "s3_lib \<Rightarrow> (string \<Rightarrow> string option) \<Rightarrow> string option \<Rightarrow> app_state \<Rightarrow> string \<Rightarrow> fs_endpoint \<Rightarrow> fs_request \<Rightarrow> fsys \<Rightarrow> (fsys \<times> reply) option" where
  "build_app lib parse_uuid log_text st fresh_id RootE r fs = Some (fs, answer 200 ''Hello, World from fileserver!'')"
| "build_app lib parse_uuid log_text st fresh_id (UploadE field) r fs = Some (fs_auth_middleware st r (upload_file st fresh_id field) fs)"
| "build_app lib parse_uuid log_text st fresh_id (DownloadE i) r fs = Some (fs_auth_middleware st r (\<lambda>fs. (fs, download_file parse_uuid st i fs)) fs)"
| "build_app lib parse_uuid log_text st fresh_id (DeleteE i) r fs = Some (fs_auth_middleware st r (delete_file parse_uuid st i) fs)"
| "build_app lib parse_uuid log_text st fresh_id RestartE r fs = Some (fs_auth_middleware st r (\<lambda>fs. (fs, answer 200 [])) fs)"
| "build_app lib parse_uuid log_text st fresh_id (LogsE n) r fs = Some (fs_auth_middleware st r (\<lambda>fs. (fs, get_logs log_text n)) fs)"
| "build_app lib parse_uuid log_text st fresh_id (BucketE b q) r fs = s3_auth_middleware st r (\<lambda>fs. Some (fs, s3_bucket_route lib st b q r fs)) fs"
| "build_app lib parse_uuid log_text st fresh_id (ObjectE m b k q) r fs = s3_auth_middleware st r (s3_object_route lib st fresh_id m b k q r) fs"

section \<open>Configuration\<close>

record fs_config =
  fc_bind_address :: string
  fc_staging_dir :: string
  fc_cert_path :: string
  fc_key_path :: string
  fc_api_key :: string
  fc_s3_proxy_enabled :: bool
  fc_s3_endpoint :: string
  fc_s3_region :: string
  fc_s3_access_key :: string
  fc_s3_secret_key :: string

definition default_config :: fs_config where
  "default_config = \<lparr>fc_bind_address = ''0.0.0.0:9001'', fc_staging_dir = ''staging'', fc_cert_path = ''cert.pem'', fc_key_path = ''key.pem'',
     fc_api_key = ''veloce_default_secret_change_me'', fc_s3_proxy_enabled = False, fc_s3_endpoint = [], fc_s3_region = [],
     fc_s3_access_key = [], fc_s3_secret_key = []\<rparr>"

definition set_from :: "string option \<Rightarrow> (string \<Rightarrow> 'c \<Rightarrow> 'c) \<Rightarrow> 'c \<Rightarrow> 'c" where
  "set_from v f c = (case v of Some x \<Rightarrow> f x c | None \<Rightarrow> c)"

text \<open>
  \<open>config_str\<close> is the configuration file, if it can be read, \<open>parse\<close> the TOML parser and \<open>env\<close> the environment;
  \<open>None\<close>: the process exits.
\<close>

definition load_config :: "(string \<Rightarrow> fs_config option) \<Rightarrow> string option \<Rightarrow> string option \<Rightarrow> string option \<Rightarrow> (string \<Rightarrow> string option) \<Rightarrow> fs_config option" where
  "load_config parse config_str bind api_key env =
     map_option (\<lambda>c0.
       let c1 = set_from bind (\<lambda>b c. c\<lparr>fc_bind_address := b\<rparr>) c0;
           c2 = set_from api_key (\<lambda>k c. c\<lparr>fc_api_key := k\<rparr>) c1;
           c3 = (if allow_insecure_from_env (env ''VELOCE_S3_PROXY_ENABLED'') then c2\<lparr>fc_s3_proxy_enabled := True\<rparr> else c2);
           c4 = set_from (env ''VELOCE_S3_ENDPOINT'') (\<lambda>v c. c\<lparr>fc_s3_endpoint := v\<rparr>) c3;
           c5 = set_from (env ''VELOCE_S3_REGION'') (\<lambda>v c. c\<lparr>fc_s3_region := v\<rparr>) c4;
           c6 = set_from (env ''VELOCE_S3_ACCESS_KEY'') (\<lambda>v c. c\<lparr>fc_s3_access_key := v\<rparr>) c5
       in set_from (env ''VELOCE_S3_SECRET_KEY'') (\<lambda>v c. c\<lparr>fc_s3_secret_key := v\<rparr>) c6)
     (case config_str of Some t \<Rightarrow> parse t | None \<Rightarrow> Some default_config)"

definition into_app_state :: "fs_config \<Rightarrow> bool \<Rightarrow> app_state" where
  "into_app_state c allow_insecure =
     \<lparr>as_staging_dir = fc_staging_dir c, as_api_key = fc_api_key c, as_allow_insecure = allow_insecure, as_s3_proxy_enabled = fc_s3_proxy_enabled c,
      as_s3_endpoint = fc_s3_endpoint c, as_s3_region = fc_s3_region c, as_s3_access_key = fc_s3_access_key c, as_s3_secret_key = fc_s3_secret_key c\<rparr>"

section \<open>Where objects lie\<close>

definition plain_name :: "string \<Rightarrow> bool" where
  "plain_name c = (c \<noteq> [] \<and> c \<noteq> ''.'' \<and> c \<noteq> ''..'' \<and> CHR ''/'' \<notin> set c)"

definition key_steps :: "string \<Rightarrow> string list" where
  "key_steps key = split_on CHR ''/'' key"

text \<open>Names of objects: plain path names, not those the server uses for metadata and for parts.\<close>

definition object_name :: "string \<Rightarrow> string \<Rightarrow> bool" where
  "object_name bucket key = (plain_name bucket \<and> bucket \<noteq> ''legacy'' \<and> list_all plain_name (key_steps key) \<and>
     \<not> ends_with (last (key_steps key)) ''.meta.json'' \<and> hd (key_steps key) \<noteq> ''.veloce_multipart'')"

definition bucket_loc :: "app_state \<Rightarrow> string \<Rightarrow> location" where
  "bucket_loc st bucket = path_steps (as_staging_dir st) @ [''s3'', bucket]"

definition object_loc :: "app_state \<Rightarrow> string \<Rightarrow> string \<Rightarrow> location" where
  "object_loc st bucket key = bucket_loc st bucket @ key_steps key"

definition side_loc :: "location \<Rightarrow> location" where
  "side_loc q = butlast q @ [last q @ ''.meta.json'']"

lemma split_on_concat: "split_on c (a @ c # b) = split_on c a @ split_on c b"
  by (induction a) (auto split: list.splits)

lemma path_steps_sep: "path_steps (a @ CHR ''/'' # b) = path_steps a @ path_steps b"
  by (simp add: path_steps_def split_on_concat)

lemma path_steps_join: "\<not> is_absolute b \<Longrightarrow> path_steps (rust_join a b) = path_steps a @ path_steps b"
proof (cases "ends_with a ''/''")
  case True
  assume b: "\<not> is_absolute b"
  from True obtain a' where "a = a' @ ''/''" by (auto simp: ends_with_def) (metis append_take_drop_id)
  then have "a \<noteq> []" "path_steps a = path_steps a'" "path_steps (a @ b) = path_steps a' @ path_steps b"
    using path_steps_sep [of a' "[]"] path_steps_sep [of a' b] by (simp_all add: path_steps_def)
  then show ?thesis using True b by (simp add: rust_join_def path_join_def)
next
  case False
  assume "\<not> is_absolute b"
  then show ?thesis using False path_steps_sep [of a b]
    by (auto simp: rust_join_def path_join_def) (simp add: path_steps_def)
qed

lemma plain_name_steps: "plain_name c \<Longrightarrow> path_steps c = [c] \<and> \<not> is_absolute c"
  by (cases c) (auto simp: plain_name_def path_steps_def split_on_no_sep is_absolute_def starts_with_def)

lemma key_steps_first: "list_all plain_name (key_steps key) \<Longrightarrow> \<not> is_absolute key \<and> trim_start_matches ''/'' key = key"
proof (cases key)
  case (Cons c cs)
  moreover assume "list_all plain_name (key_steps key)"
  ultimately have "c \<noteq> CHR ''/''" by (auto simp: key_steps_def plain_name_def)
  with Cons show ?thesis by (auto simp: is_absolute_def starts_with_def intro: trim_start_matches_id)
qed (simp add: key_steps_def plain_name_def)

lemma key_path_steps: "list_all plain_name (key_steps key) \<Longrightarrow> path_steps key = key_steps key"
  by (auto simp: path_steps_def key_steps_def list_all_iff plain_name_def intro!: filter_True)

lemma bucket_dir_steps:
  assumes "plain_name bucket" "bucket \<noteq> ''legacy''"
  shows "path_steps (get_s3_bucket_dir (as_staging_dir st) bucket) = bucket_loc st bucket"
proof -
  have "plain_name ''s3''" by (simp add: plain_name_def)
  from plain_name_steps [OF this] plain_name_steps [OF assms(1)] assms(2) show ?thesis
    by (simp add: get_s3_bucket_dir_def bucket_loc_def path_steps_join)
qed

lemma object_path_steps:
  assumes "object_name bucket key"
  shows "path_steps (get_s3_file_path (as_staging_dir st) bucket key) = object_loc st bucket key"
proof -
  have k: "list_all plain_name (key_steps key)" and b: "plain_name bucket" "bucket \<noteq> ''legacy''"
    using assms by (auto simp: object_name_def)
  have "get_s3_file_path (as_staging_dir st) bucket key = rust_join (get_s3_bucket_dir (as_staging_dir st) bucket) key"
    using b key_steps_first [OF k] by (simp add: get_s3_file_path_def get_s3_bucket_dir_def)
  then show ?thesis using bucket_dir_steps [OF b] key_steps_first [OF k] key_path_steps [OF k]
    by (simp add: path_steps_join object_loc_def)
qed

lemma path_steps_suffix:
  assumes "CHR ''/'' \<notin> set x" and "last (split_on CHR ''/'' p) \<notin> {[], ''.''}" and "x \<noteq> []"
  shows "path_steps (p @ x) = butlast (path_steps p) @ [last (path_steps p) @ x]"
proof -
  have split: "split_on CHR ''/'' (p @ x) = butlast (split_on CHR ''/'' p) @ [last (split_on CHR ''/'' p) @ x]"
    using assms(1)
  proof (induction p)
    case (Cons c p)
    obtain h t where "split_on CHR ''/'' p = h # t" by (cases "split_on CHR ''/'' p") auto
    with Cons show ?case by (cases t rule: rev_cases) auto
  qed (simp add: split_on_no_sep)
  obtain ps l where ps: "split_on CHR ''/'' p = ps @ [l]" by (cases "split_on CHR ''/'' p" rule: rev_cases) auto
  have "l @ x \<noteq> ''.''" using assms(2,3) ps by (cases l) auto
  then show ?thesis using assms(2) split ps by (simp add: path_steps_def)
qed

lemma join_last:
  assumes "b \<noteq> []" "\<not> is_absolute b" shows "last (split_on CHR ''/'' (rust_join a b)) = last (split_on CHR ''/'' b)"
proof (cases "ends_with a ''/''")
  case True
  then obtain a' where "a = a' @ ''/''" by (auto simp: ends_with_def) (metis append_take_drop_id)
  then show ?thesis using True assms by (simp add: rust_join_def path_join_def split_on_concat)
qed (use assms in \<open>auto simp: rust_join_def path_join_def split_on_concat\<close>)

lemma side_path_steps:
  assumes "object_name bucket key"
  shows "path_steps (get_s3_file_path (as_staging_dir st) bucket key @ ''.meta.json'') = side_loc (object_loc st bucket key)"
proof -
  have k: "list_all plain_name (key_steps key)" and b: "bucket \<noteq> ''legacy''" using assms by (auto simp: object_name_def)
  have "key \<noteq> []" using k by (auto simp: key_steps_def plain_name_def)
  then have "last (split_on CHR ''/'' (get_s3_file_path (as_staging_dir st) bucket key)) = last (key_steps key)"
    using b key_steps_first [OF k] by (simp add: get_s3_file_path_def join_last key_steps_def)
  moreover have "last (key_steps key) \<in> set (key_steps key)" by (simp add: key_steps_def)
  then have "plain_name (last (key_steps key))" using k by (auto simp: list_all_iff)
  ultimately show ?thesis
    by (subst path_steps_suffix) (auto simp: plain_name_def object_path_steps [OF assms] side_loc_def)
qed

definition staging_plain :: "app_state \<Rightarrow> bool" where
  "staging_plain st = plain_steps (path_steps (as_staging_dir st))"

lemma object_loc_plain:
  assumes "staging_plain st" "object_name bucket key"
  shows "plain_steps (object_loc st bucket key)" "plain_steps (side_loc (object_loc st bucket key))" "plain_steps (bucket_loc st bucket)"
proof -
  have n: "plain_name bucket" "\<forall>c\<in>set (key_steps key). plain_name c" "key_steps key \<noteq> []"
    using assms(2) by (auto simp: object_name_def list_all_iff key_steps_def)
  then show b: "plain_steps (bucket_loc st bucket)" and o: "plain_steps (object_loc st bucket key)"
    using assms(1) by (auto simp: plain_steps_def object_loc_def bucket_loc_def staging_plain_def plain_name_def)
  have "c @ ''.meta.json'' \<noteq> ''..''" for c by (cases c rule: list.exhaust; cases "tl c" rule: list.exhaust) auto
  then show "plain_steps (side_loc (object_loc st bucket key))"
    using o by (auto simp: plain_steps_def side_loc_def dest: in_set_butlastD)
qed

lemma object_loc_inj: "object_loc st b k = object_loc st b' k' \<longleftrightarrow> b = b' \<and> k = k'"
proof
  assume "object_loc st b k = object_loc st b' k'"
  then have "b = b'" "split_on CHR ''/'' k = split_on CHR ''/'' k'" by (auto simp: object_loc_def bucket_loc_def key_steps_def)
  then show "b = b' \<and> k = k'" by (metis join_split_on)
qed simp

lemma object_not_side: "object_name b k \<Longrightarrow> object_loc st b k \<noteq> side_loc q"
proof
  assume o: "object_name b k" and e: "object_loc st b k = side_loc q"
  have "last (object_loc st b k) = last (key_steps k)" by (simp add: object_loc_def key_steps_def)
  with e have "last (key_steps k) = last q @ ''.meta.json''" by (simp add: side_loc_def)
  with o show False by (simp add: object_name_def ends_with_def)
qed

text \<open>The objects a file system holds.\<close>

definition objects :: "app_state \<Rightarrow> fsys \<Rightarrow> string \<times> string \<Rightarrow> string option" where
  "objects st fs = (\<lambda>(b, k). if object_name b k then read_at fs (object_loc st b k) else None)"

lemma objects_cong: "(\<And>b k. object_name b k \<Longrightarrow> read_at fs (object_loc st b k) = read_at fs' (object_loc st b k)) \<Longrightarrow> objects st fs = objects st fs'"
  by (auto simp: objects_def)

lemma objects_files: "fs_files fs = fs_files fs' \<Longrightarrow> objects st fs = objects st fs'"
  by (rule objects_cong) (simp add: read_at_def)

lemma objects_write:
  assumes "object_name b k" "write_at (object_loc st b k) d fs = Some fs'"
  shows "objects st fs' = (objects st fs)((b, k) \<mapsto> d)"
  using assms(1) files.fetch_store [OF assms(2)] by (auto simp: objects_def object_loc_inj fun_eq_iff)

lemma objects_delete:
  assumes "object_name b k" "delete_at (object_loc st b k) fs = Some fs'"
  shows "objects st fs' = (objects st fs)((b, k) := None)"
  using assms(1) files.fetch_delete [OF assms(2)] by (auto simp: objects_def object_loc_inj fun_eq_iff)

section \<open>Single objects\<close>

text \<open>A location cannot become a file when it is a directory or lies below a file.\<close>

definition blocked :: "fsys \<Rightarrow> location \<Rightarrow> bool" where
  "blocked fs q = (is_dir fs q \<or> (\<exists>n<length q. read_at fs (take n q) \<noteq> None))"

lemma create_dir_all_plain:
  assumes "plain_steps cs" "fs_wf fs" and "create_dir_all cs fs = (fs', ok)"
  shows "fs_wf fs'" "fs_files fs' = fs_files fs" "\<And>q. is_dir fs q \<Longrightarrow> is_dir fs' q"
    "\<And>q. is_dir fs' q \<Longrightarrow> is_dir fs q \<or> (\<exists>n. q = take n cs)"
    "ok = (\<forall>n\<le>length cs. read_at fs (take n cs) = None)" "ok \<Longrightarrow> is_dir fs' cs"
proof -
  have c: "is_dir fs []" "make_dirs [] cs fs = (fs', ok)" using assms(3) by (simp_all add: is_dir_def create_dir_all_def)
  show "fs_wf fs'" "fs_files fs' = fs_files fs" "\<And>q. is_dir fs q \<Longrightarrow> is_dir fs' q"
    "\<And>q. is_dir fs' q \<Longrightarrow> is_dir fs q \<or> (\<exists>n. q = take n cs)"
    "ok = (\<forall>n\<le>length cs. read_at fs (take n cs) = None)" "ok \<Longrightarrow> is_dir fs' cs"
    using make_dirs_plain [OF assms(1,2) c] by simp_all
qed

lemma plain_butlast: "plain_steps q \<Longrightarrow> plain_steps (butlast q)"
  by (auto simp: plain_steps_def dest: in_set_butlastD)

text \<open>After the directories above \<open>q\<close> were made, \<open>q\<close> can be written exactly when it is not blocked.\<close>

lemma write_after_parent:
  assumes "plain_steps q" "fs_wf fs" "q \<noteq> []" and "create_dir_all (butlast q) fs = (fs', ok)"
  shows "(write_at q d fs' = None) = blocked fs q"
proof -
  note c = create_dir_all_plain [OF plain_butlast [OF assms(1)] assms(2,4)]
  have short: "q \<noteq> take n (butlast q)" for n
  proof
    assume "q = take n (butlast q)"
    then have "length q \<le> length (butlast q)" by (metis length_take min.cobounded1)
    moreover have "0 < length q" using assms(3) by simp
    ultimately show False unfolding length_butlast by linarith
  qed
  have dir: "is_dir fs' q = is_dir fs q" using c(3) [of q] c(4) [of q] short by blast
  have pre: "(\<forall>n\<le>length (butlast q). read_at fs (take n (butlast q)) = None) \<longleftrightarrow> (\<forall>n<length q. read_at fs (take n q) = None)"
    using assms(3) by (auto simp: take_butlast Suc_le_eq less_eq_nat.simps less_Suc_eq_le [symmetric])
  have "is_dir fs' (butlast q) = ok"
  proof
    assume "is_dir fs' (butlast q)"
    then have "read_at fs' (take n (butlast q)) = None" for n using c(1) dir_prefix fs_wf_not_file by metis
    then show ok using c(2,5) by (simp add: read_at_def)
  qed (use c(6) in simp)
  then show ?thesis using dir pre c(5) assms(3) by (auto simp: write_at_def blocked_def)
qed

lemma write_meta_keeps:
  assumes "staging_plain st" "object_name b k" "fs_wf fs"
    and "fs' = write_meta to_json r (get_s3_file_path (as_staging_dir st) b k) fs"
  shows "fs_wf fs'" "fs_dirs fs' = fs_dirs fs" "objects st fs' = objects st fs" "write_at (object_loc st b k) d fs' = None \<longleftrightarrow> write_at (object_loc st b k) d fs = None"
proof -
  have "fs' = fs \<or> (\<exists>j. write_at (side_loc (object_loc st b k)) j fs = Some fs')"
    using assms(3,4) object_loc_plain(2) [OF assms(1,2)]
    by (auto simp: write_meta_def ignoring_def create_file_plain side_path_steps [OF assms(2)] split: option.splits)
  then consider "fs' = fs" | j where "write_at (side_loc (object_loc st b k)) j fs = Some fs'" by blast
  then have "fs_wf fs' \<and> fs_dirs fs' = fs_dirs fs \<and> objects st fs' = objects st fs"
  proof cases
    case 2
    have "objects st fs' = objects st fs" using files.fetch_store [OF 2] object_not_side by (auto intro!: objects_cong)
    moreover have "fs_dirs fs' = fs_dirs fs" using 2 by (auto simp: write_at_def split: if_splits)
    ultimately show ?thesis using files.valid_store [OF assms(3) 2] by simp
  qed (use assms(3) in simp)
  then show "fs_wf fs'" and dirs: "fs_dirs fs' = fs_dirs fs" and "objects st fs' = objects st fs" by simp_all
  from dirs show "write_at (object_loc st b k) d fs' = None \<longleftrightarrow> write_at (object_loc st b k) d fs = None"
    by (simp add: write_at_def is_dir_def)
qed

lemma put_outcome:
  assumes "fs_wf fs" "staging_plain st" "object_name b k" and "s3_put_object to_json st b k r fs = (fs', rep)"
  shows "fs_wf fs' \<and> (if blocked fs (object_loc st b k) then rp_status rep = 500 \<and> objects st fs' = objects st fs
    else rp_status rep = (if fr_broken r then 400 else 200) \<and> objects st fs' = (objects st fs)((b, k) \<mapsto> concat (fr_chunks r)))"
proof -
  let ?q = "object_loc st b k" and ?p = "get_s3_file_path (as_staging_dir st) b k"
  note pl = object_loc_plain [OF assms(2,3)]
  have b: "plain_name b" "b \<noteq> ''legacy''" using assms(3) by (auto simp: object_name_def)
  obtain fs1 ok where c1: "create_dir_all (bucket_loc st b) fs = (fs1, ok)" by fastforce
  note d1 = create_dir_all_plain [OF pl(3) assms(1) c1]
  obtain fs1' ok' where c2: "create_dir_all (butlast ?q) fs1 = (fs1', ok')" by fastforce
  note d2 = create_dir_all_plain [OF plain_butlast [OF pl(1)] d1(1) c2]
  define fs2 where "fs2 = write_meta to_json r ?p fs1'"
  note m = write_meta_keeps [OF assms(2,3) d2(1) fs2_def]
  have q: "?q \<noteq> []" by (simp add: object_loc_def bucket_loc_def)
  have bl: "blocked fs1 ?q = blocked fs ?q"
  proof -
    have short: "?q \<noteq> take n (bucket_loc st b)" for n
    proof
      assume "?q = take n (bucket_loc st b)"
      then have "length ?q \<le> length (bucket_loc st b)" by (metis length_take min.cobounded1)
      then show False by (simp add: object_loc_def key_steps_def)
    qed
    have "is_dir fs1 ?q = is_dir fs ?q" using d1(3) [of ?q] d1(4) [of ?q] short by blast
    then show ?thesis using d1(2) by (simp add: blocked_def read_at_def)
  qed
  show ?thesis
  proof (cases ok)
    case False
    then obtain n where "n \<le> length (bucket_loc st b)" "read_at fs (take n (bucket_loc st b)) \<noteq> None" using d1(5) by auto
    then have "blocked fs ?q" by (auto simp: blocked_def object_loc_def key_steps_def intro!: exI [of _ n])
         (metis length_greater_0_conv split_on_nonempty le_less_trans less_add_same_cancel1)
    then show ?thesis using False assms(4) c1 b d1(1,2) objects_files [OF d1(2)]
      by (auto simp: s3_put_object_def bucket_dir_steps answer_def)
  next
    case True
    have cp: "write_meta to_json r ?p (create_parent ?p fs1) = fs2"
      by (simp add: create_parent_def object_path_steps [OF assms(3)] c2 fs2_def)
    have put: "s3_put_object to_json st b k r fs = (case write_at ?q (concat (fr_chunks r)) fs2 of
        None \<Rightarrow> (fs2, answer 500 []) | Some fs3 \<Rightarrow> (fs3, if fr_broken r then answer 400 [] else answer 200 []))"
      using True c1 b pl(1) m(1)
      by (simp add: s3_put_object_def Let_def cp bucket_dir_steps object_path_steps [OF assms(3)] create_file_plain split: option.split)
    have "(write_at ?q (concat (fr_chunks r)) fs2 = None) = blocked fs ?q"
      using m(4) write_after_parent [OF pl(1) d1(1) q c2] bl by simp
    moreover have o: "objects st fs2 = objects st fs" using m(3) objects_files [OF d2(2)] objects_files [OF d1(2)] by simp
    ultimately show ?thesis using put assms(4) m(1) objects_write [OF assms(3)] files.valid_store [OF m(1)]
      by (auto simp: answer_def split: option.splits if_splits)
  qed
qed

text \<open>Removing the metadata of an object leaves the objects as they are.\<close>

lemma remove_side_keeps:
  assumes "staging_plain st" "object_name b k" "fs_wf fs"
    and "fs' = ignoring (remove_file (get_s3_file_path (as_staging_dir st) b k @ ''.meta.json'')) fs"
  shows "fs_wf fs'" "fs_dirs fs' = fs_dirs fs" "objects st fs' = objects st fs"
proof -
  let ?s = "side_loc (object_loc st b k)"
  have "remove_file (get_s3_file_path (as_staging_dir st) b k @ ''.meta.json'') fs = delete_at ?s fs"
    using assms(3) object_loc_plain(2) [OF assms(1,2)] by (simp add: remove_file_plain side_path_steps [OF assms(2)])
  then consider "fs' = fs" | "delete_at ?s fs = Some fs'" using assms(4) by (auto simp: ignoring_def split: option.splits)
  then have "fs_wf fs' \<and> fs_dirs fs' = fs_dirs fs \<and> objects st fs' = objects st fs"
  proof cases
    case 2
    have "objects st fs' = objects st fs" using files.fetch_delete [OF 2] object_not_side by (auto intro!: objects_cong)
    moreover have "fs_dirs fs' = fs_dirs fs" using 2 by (auto simp: delete_at_def split: if_splits)
    ultimately show ?thesis using files.valid_delete [OF assms(3) 2] by simp
  qed (use assms(3) in simp)
  then show "fs_wf fs'" "fs_dirs fs' = fs_dirs fs" "objects st fs' = objects st fs" by simp_all
qed

lemma object_read:
  assumes "fs_wf fs" "staging_plain st" "object_name b k"
  shows "read_file fs (get_s3_file_path (as_staging_dir st) b k) = objects st fs (b, k)"
    "path_is_dir fs (get_s3_file_path (as_staging_dir st) b k) = is_dir fs (object_loc st b k)"
  using assms object_loc_plain(1) [OF assms(2,3)]
  by (simp_all add: read_file_plain path_is_dir_plain object_path_steps objects_def)

lemma delete_outcome:
  assumes "fs_wf fs" "staging_plain st" "object_name b k" and "s3_delete_object st b k fs = (fs', rep)"
  shows "fs_wf fs' \<and> objects st fs' = (objects st fs)((b, k) := None) \<and>
    rp_status rep = (if objects st fs (b, k) \<noteq> None then 204 else if is_dir fs (object_loc st b k) then 500 else 404)"
proof -
  let ?p = "get_s3_file_path (as_staging_dir st) b k" and ?q = "object_loc st b k"
  define fs1 where "fs1 = ignoring (remove_file (?p @ ''.meta.json'')) fs"
  note m = remove_side_keeps [OF assms(2,3,1) fs1_def]
  have rm: "remove_file ?p fs1 = delete_at ?q fs1"
    using m(1) object_loc_plain(1) [OF assms(2,3)] by (simp add: remove_file_plain object_path_steps [OF assms(3)])
  have iff: "delete_at ?q fs1 \<noteq> None \<longleftrightarrow> objects st fs (b, k) \<noteq> None"
    unfolding files.delete_iff m(3) [symmetric] using assms(3) by (simp add: objects_def)
  have b: "b \<noteq> ''legacy''" using assms(3) by (simp add: object_name_def)
  note ex = object_read [OF assms(1-3)]
  show ?thesis
  proof (cases "objects st fs (b, k)")
    case None
    then have "objects st fs = (objects st fs)((b, k) := None)" by auto
    with None b iff rm ex m assms show ?thesis
      by (auto simp: s3_delete_object_def path_exists_def answer_def fs1_def [symmetric] split: if_splits)
  next
    case (Some d)
    then obtain fs2 where d: "delete_at ?q fs1 = Some fs2" using iff by auto
    have "path_exists fs ?p" using ex Some by (simp add: path_exists_def)
    then have "fs' = fs2" "rp_status rep = 204" using b d rm assms(4)
      by (auto simp: s3_delete_object_def answer_def fs1_def [symmetric])
    with Some d m objects_delete [OF assms(3) d] files.valid_delete [OF m(1) d] show ?thesis by simp
  qed
qed

lemma get_outcome:
  assumes "fs_wf fs" "staging_plain st" "object_name b k"
  shows "(case objects st fs (b, k) of
      Some d \<Rightarrow> rp_status (s3_get_object from_json header_ok st b k fs) = 200 \<and> rp_body (s3_get_object from_json header_ok st b k fs) = d
    | None \<Rightarrow> rp_status (s3_get_object from_json header_ok st b k fs) = (if is_dir fs (object_loc st b k) then 200 else 404))"
proof -
  have "\<not> is_dir fs (object_loc st b k)" if "objects st fs (b, k) \<noteq> None"
    using that assms fs_wf_not_file by (auto simp: objects_def split: if_splits)
  then show ?thesis using object_read [OF assms] by (auto simp: s3_get_object_def answer_def Let_def split: option.splits)
qed


section \<open>The upload interface and the objects\<close>

text \<open>A file that a worker uploads is the object of that name in the bucket \<open>veloce-staging\<close>, and is downloaded as it was sent.\<close>

lemma upload_path_steps:
  assumes "object_name ''veloce-staging'' i" "key_steps i = [i]"
  shows "rust_join (upload_dir st) i = get_s3_file_path (as_staging_dir st) ''veloce-staging'' i"
    "path_steps (upload_dir st) = bucket_loc st ''veloce-staging''"
proof -
  have "trim_start_matches ''/'' i = i" using assms(1) key_steps_first by (simp add: object_name_def)
  then show "rust_join (upload_dir st) i = get_s3_file_path (as_staging_dir st) ''veloce-staging'' i"
    by (simp add: upload_dir_def get_s3_file_path_def)
  have "plain_name ''veloce-staging''" "''veloce-staging'' \<noteq> ''legacy''" by (simp_all add: plain_name_def)
  from bucket_dir_steps [OF this] show "path_steps (upload_dir st) = bucket_loc st ''veloce-staging''"
    by (simp add: upload_dir_def get_s3_bucket_dir_def)
qed

lemma upload_is_object:
  assumes "fs_wf fs" "staging_plain st" "object_name ''veloce-staging'' i" "key_steps i = [i]" "parse_uuid i = Some i"
    and "upload_file st i (Some r) fs = (fs', rep)" "rp_status rep = 200"
  shows "objects st fs' = (objects st fs)((''veloce-staging'', i) \<mapsto> concat (fr_chunks r)) \<and>
    download_file parse_uuid st i fs' = answer 200 (concat (fr_chunks r))"
proof -
  let ?q = "object_loc st ''veloce-staging'' i"
  note pl = object_loc_plain [OF assms(2,3)]
  obtain fs1 ok where c: "create_dir_all (bucket_loc st ''veloce-staging'') fs = (fs1, ok)" by fastforce
  note d = create_dir_all_plain [OF pl(3) assms(1) c]
  have w: "write_at ?q (concat (fr_chunks r)) fs1 = Some fs'"
    using assms(6,7) c d(1) pl(1)
    by (auto simp: upload_file_def upload_path_steps [OF assms(3,4)] create_file_plain object_path_steps [OF assms(3)] answer_def
        split: if_splits option.splits)
  note wf = files.valid_store [OF d(1) w]
  have o: "objects st fs' = (objects st fs)((''veloce-staging'', i) \<mapsto> concat (fr_chunks r))"
    using objects_write [OF assms(3) w] objects_files [OF d(2)] by simp
  have "read_at fs' ?q = Some (concat (fr_chunks r))" using files.fetch_store [OF w] by simp
  then have "\<not> is_dir fs' ?q" using fs_wf_file(3) [OF wf] by simp
  then show ?thesis using o object_read [OF wf assms(2,3)] assms(5)
    by (simp add: download_file_def upload_path_steps [OF assms(3,4)] path_exists_def Let_def)
qed

text \<open>Without the insecure mode only the API key opens the interfaces: any other request but the greeting answers 401 and changes nothing.\<close>

lemma unauthorized_untouched:
  "\<not> as_allow_insecure st \<Longrightarrow> header r ''x-api-key'' \<noteq> Some (as_api_key st) \<Longrightarrow> e \<noteq> RootE \<Longrightarrow>
   \<exists>body. build_app lib parse_uuid log_text st fresh_id e r fs = Some (fs, answer 401 body)"
  by (cases e) (auto simp: s3_auth_middleware_def s3_request_authorized_def s3_api_key_authorized_def fs_auth_middleware_def)

text \<open>Without a configuration file and a key the server accepts the key of the source code.\<close>

lemma set_from_keeps: "(\<And>x c. g (f x c) = g c) \<Longrightarrow> g (set_from v f c) = g c"
  by (cases v) (simp_all add: set_from_def)

lemma default_key_accepted:
  assumes "load_config parse None bind None env = Some c" "header r ''x-api-key'' = Some ''veloce_default_secret_change_me''"
  shows "fs_auth_middleware (into_app_state c insecure) r run fs = run fs"
proof -
  have "fc_api_key c = fc_api_key default_config"
    using assms(1) by (auto simp: load_config_def Let_def set_from_keeps [of fc_api_key] set_from_def [of None])
  then show ?thesis using assms(2) by (simp add: fs_auth_middleware_def into_app_state_def default_config_def)
qed

text \<open>
  A PUT without metadata keeps the metadata of the object it replaces: the headers of the next GET are the old ones.
\<close>

lemma put_keeps_old_metadata:
  assumes "fs_wf fs" "staging_plain st" "object_name b k" "meta_headers r = []" and "s3_put_object to_json st b k r fs = (fs', rep)"
  shows "load_meta_headers from_json header_ok fs' (get_s3_file_path (as_staging_dir st) b k) =
    load_meta_headers from_json header_ok fs (get_s3_file_path (as_staging_dir st) b k)"
proof -
  let ?q = "object_loc st b k" and ?p = "get_s3_file_path (as_staging_dir st) b k"
  note pl = object_loc_plain [OF assms(2,3)]
  have b: "plain_name b" "b \<noteq> ''legacy''" using assms(3) by (auto simp: object_name_def)
  obtain fs1 ok where c1: "create_dir_all (bucket_loc st b) fs = (fs1, ok)" by fastforce
  note d1 = create_dir_all_plain [OF pl(3) assms(1) c1]
  obtain fs2 ok' where c2: "create_dir_all (butlast ?q) fs1 = (fs2, ok')" by fastforce
  note d2 = create_dir_all_plain [OF plain_butlast [OF pl(1)] d1(1) c2]
  have m: "write_meta to_json r ?p (create_parent ?p fs1) = fs2"
    by (simp add: write_meta_def assms(4) create_parent_def object_path_steps [OF assms(3)] c2)
  have "fs' = fs1 \<or> fs' = fs2 \<or> write_at ?q (concat (fr_chunks r)) fs2 = Some fs'"
    using assms(5) c1 b d2(1) pl(1)
    by (auto simp: s3_put_object_def Let_def m bucket_dir_steps object_path_steps [OF assms(3)] create_file_plain split: if_splits option.splits)
  then have "read_at fs' (side_loc ?q) = read_at fs (side_loc ?q)"
    using d1(2) d2(2) files.fetch_store [of ?q _ fs2 fs' "side_loc ?q"] object_not_side [OF assms(3), of st ?q] by (auto simp: read_at_def)
  moreover have "fs_wf fs'" using put_outcome [OF assms(1-3,5)] by simp
  ultimately show ?thesis using assms(1) pl(2)
    by (simp add: load_meta_headers_def read_file_plain side_path_steps [OF assms(3)])
qed

text \<open>A server over an empty disk, and requests to it.\<close>

definition sample_store :: app_state where
  "sample_store = \<lparr>as_staging_dir = ''/s'', as_api_key = ''k'', as_allow_insecure = False, as_s3_proxy_enabled = False, as_s3_endpoint = [], as_s3_region = [],
     as_s3_access_key = [], as_s3_secret_key = []\<rparr>"

definition sample_body :: "string list \<Rightarrow> fs_request" where
  "sample_body chunks = \<lparr>fr_headers = [], fr_query = None, fr_chunks = chunks, fr_broken = False\<rparr>"

definition no_files :: fsys where
  "no_files = \<lparr>fs_dirs = [], fs_files = []\<rparr>"

lemma no_files_wf: "fs_wf no_files"
  by (simp add: no_files_def fs_wf_def read_at_def hm_get_def)

lemma no_files_free: "\<not> blocked no_files (object_loc st b k)" "objects st no_files = Map.empty"
  by (auto simp: no_files_def blocked_def is_dir_def read_at_def object_loc_def bucket_loc_def hm_get_def objects_def)


end
