(* ===== verification/Multipart.thy ===== *)
theory Multipart
  imports FileServer
begin

text \<open>
  Uploads in parts (\<open>fileserver/src/s3.rs\<close>): what the three requests of an upload leave in the file system, and
  the object they assemble together.
\<close>

section \<open>Where parts lie\<close>

definition multipart_loc :: "app_state \<Rightarrow> string \<Rightarrow> string \<Rightarrow> location" where
  "multipart_loc st bucket upload_id = bucket_loc st bucket @ [''.veloce_multipart'', upload_id]"

definition part_loc :: "app_state \<Rightarrow> string \<Rightarrow> string \<Rightarrow> nat \<Rightarrow> location" where
  "part_loc st bucket upload_id n = multipart_loc st bucket upload_id @ [show_nat n]"

lemma show_nat_inj [simp]: "show_nat m = show_nat n \<longleftrightarrow> m = n"
  by (metis digits_value_show_nat)

lemma plain_name_show_nat [simp]: "plain_name (show_nat n)"
proof -
  have "CHR ''/'' \<notin> set (show_nat n)" "CHR ''.'' \<notin> set (show_nat n)" by (simp_all add: digit_not_in_show is_ascii_digit_def)
  then show ?thesis by (auto simp: plain_name_def)
qed

text \<open>A path to the parts of an upload without tricks: what the server itself hands out.\<close>

definition upload_name :: "app_state \<Rightarrow> string \<Rightarrow> string \<Rightarrow> bool" where
  "upload_name st b u = (staging_plain st \<and> plain_name b \<and> b \<noteq> ''legacy'' \<and> plain_name u)"

lemma part_steps:
  assumes "upload_name st b u"
  shows "path_steps (multipart_dir st b u) = multipart_loc st b u"
    "path_steps (part_path (multipart_dir st b u) n) = part_loc st b u n"
proof -
  have b: "plain_name b" "b \<noteq> ''legacy''" "plain_name u" "plain_name ''.veloce_multipart''"
    using assms by (auto simp: upload_name_def plain_name_def)
  show d: "path_steps (multipart_dir st b u) = multipart_loc st b u"
    using plain_name_steps [OF b(3)] plain_name_steps [OF b(4)] bucket_dir_steps [OF b(1,2)]
    by (simp add: multipart_dir_def multipart_loc_def path_steps_join)
  show "path_steps (part_path (multipart_dir st b u) n) = part_loc st b u n"
    using plain_name_steps [OF plain_name_show_nat [of n]] d by (simp add: part_path_def part_loc_def path_steps_join)
qed

lemma part_plain:
  assumes "upload_name st b u" shows "plain_steps (multipart_loc st b u)" "plain_steps (part_loc st b u n)"
  using assms plain_name_show_nat [of n]
  by (auto simp: upload_name_def plain_steps_def part_loc_def multipart_loc_def bucket_loc_def staging_plain_def plain_name_def)

lemma object_apart: "object_name b' k \<Longrightarrow> \<not> below (multipart_loc st b u) (object_loc st b' k)"
  by (cases "key_steps k")
    (auto simp: below_def multipart_loc_def object_loc_def bucket_loc_def object_name_def take_Cons' split: if_splits)

lemma below_take: "below d (take n q) \<Longrightarrow> below d q"
  by (auto simp: below_def min_def split: if_splits)

lemma part_below: "below (multipart_loc st b u) (part_loc st b u n)"
  by (simp add: below_def part_loc_def)

lemma object_not_part: "object_name b' k \<Longrightarrow> object_loc st b' k \<noteq> part_loc st b u n"
  using object_apart part_below by metis

section \<open>The parts\<close>

text \<open>An upload that is open: its directory exists and holds no directories.\<close>

definition upload_open :: "app_state \<Rightarrow> string \<Rightarrow> string \<Rightarrow> fsys \<Rightarrow> bool" where
  "upload_open st b u fs = (fs_wf fs \<and> is_dir fs (multipart_loc st b u) \<and> (\<forall>n. \<not> is_dir fs (part_loc st b u n)))"

lemma upload_path:
  assumes "upload_name st b u" "fs_wf fs"
  shows "path_is_dir fs (multipart_dir st b u) = is_dir fs (multipart_loc st b u)"
    "read_file fs (part_path (multipart_dir st b u) n) = read_at fs (part_loc st b u n)"
    "create_file (part_path (multipart_dir st b u) n) d fs = write_at (part_loc st b u n) d fs"
  using assms part_plain [OF assms(1)]
  by (simp_all add: path_is_dir_plain read_file_plain create_file_plain part_steps [OF assms(1)])

lemma part_writable: "upload_open st b u fs \<Longrightarrow> write_at (part_loc st b u n) d fs \<noteq> None"
  by (auto simp: upload_open_def write_at_def part_loc_def butlast_append)

lemma upload_outcome:
  assumes "upload_name st b u" "upload_open st b u fs" "\<not> fr_broken r"
    and "s3_upload_part md5 st b u n r fs = (fs', rep)"
  shows "write_at (part_loc st b u n) (concat (fr_chunks r)) fs = Some fs'" "rp_status rep = 200"
    "map_of (rp_headers rep) ''etag'' = Some (''\"'' @ md5 (concat (fr_chunks r)) @ ''\"'')"
proof -
  have w: "fs_wf fs" "path_exists fs (multipart_dir st b u)" "b \<noteq> ''legacy''"
    using assms(1,2) upload_path(1) by (auto simp: upload_open_def path_exists_def upload_name_def)
  obtain fs1 where f: "write_at (part_loc st b u n) (concat (fr_chunks r)) fs = Some fs1"
    using part_writable [OF assms(2)] by blast
  then have "s3_upload_part md5 st b u n r fs = (fs1, \<lparr>rp_status = 200, rp_headers = [(''etag'', ''\"'' @ md5 (concat (fr_chunks r)) @ ''\"'')], rp_body = []\<rparr>)"
    using w assms(3) by (simp add: s3_upload_part_def upload_path [OF assms(1)])
  with f assms(4) show "write_at (part_loc st b u n) (concat (fr_chunks r)) fs = Some fs'" "rp_status rep = 200"
    "map_of (rp_headers rep) ''etag'' = Some (''\"'' @ md5 (concat (fr_chunks r)) @ ''\"'')" by auto
qed

lemma write_dirs: "write_at q d fs = Some fs' \<Longrightarrow> is_dir fs' = is_dir fs"
  by (auto simp: write_at_def is_dir_def fun_eq_iff split: if_splits)

lemma write_keeps_open:
  assumes "upload_open st b u fs" "write_at q d fs = Some fs'" shows "upload_open st b u fs'"
  using assms files.valid_store write_dirs [OF assms(2)] by (simp add: upload_open_def) blast

text \<open>The parts are sent one after the other.\<close>

definition upload_parts :: "(string \<Rightarrow> string) \<Rightarrow> app_state \<Rightarrow> string \<Rightarrow> string \<Rightarrow> (nat \<times> fs_request) list \<Rightarrow> fsys \<Rightarrow> fsys" where
  "upload_parts md5 st b u ups fs = fold (\<lambda>(n, r) fs. fst (s3_upload_part md5 st b u n r fs)) ups fs"

lemma upload_parts_stores:
  assumes "upload_name st b u" "upload_open st b u fs" "\<forall>(n, r)\<in>set ups. \<not> fr_broken r"
  shows "store_all write_at (map (\<lambda>(n, r). (part_loc st b u n, concat (fr_chunks r))) ups) fs = Some (upload_parts md5 st b u ups fs) \<and>
    upload_open st b u (upload_parts md5 st b u ups fs) \<and> is_dir (upload_parts md5 st b u ups fs) = is_dir fs"
  using assms(2,3)
proof (induction ups arbitrary: fs)
  case (Cons x ups)
  obtain n r fs1 rep where x: "x = (n, r)" "s3_upload_part md5 st b u n r fs = (fs1, rep)" by (metis surj_pair)
  have w: "write_at (part_loc st b u n) (concat (fr_chunks r)) fs = Some fs1"
    using upload_outcome(1) [OF assms(1) Cons.prems(1) _ x(2)] Cons.prems(2) x(1) by simp
  have "store_all write_at (map (\<lambda>(n, r). (part_loc st b u n, concat (fr_chunks r))) ups) fs1 = Some (upload_parts md5 st b u ups fs1) \<and>
      upload_open st b u (upload_parts md5 st b u ups fs1) \<and> is_dir (upload_parts md5 st b u ups fs1) = is_dir fs1"
    by (rule Cons.IH [OF write_keeps_open [OF Cons.prems(1) w]]) (use Cons.prems(2) in simp)
  then show ?case using w x write_dirs [OF w] by (simp add: upload_parts_def)
qed (simp_all add: upload_parts_def)

lemma map_of_parts:
  "map_of (rev (map (\<lambda>(n, r). (part_loc st b u n, f r)) ups)) (part_loc st b u m) = map_option f (map_of (rev ups) m)"
proof -
  have "map_of (map (\<lambda>(n, r). (part_loc st b u n, f r)) vs) (part_loc st b u m) = map_option f (map_of vs m)" for vs
    by (induction vs) (auto simp: part_loc_def)
  from this [of "rev ups"] show ?thesis by (simp add: rev_map)
qed

lemma map_of_parts_other:
  "(\<And>n. q \<noteq> part_loc st b u n) \<Longrightarrow> map_of (rev (map (\<lambda>(n, r). (part_loc st b u n, f r)) ups)) q = None"
  by (fastforce simp: map_of_eq_None_iff)

lemma upload_parts_files:
  assumes "upload_name st b u" "upload_open st b u fs" "\<forall>(n, r)\<in>set ups. \<not> fr_broken r"
  shows "map_of (rev ups) n = Some r \<Longrightarrow> read_at (upload_parts md5 st b u ups fs) (part_loc st b u n) = Some (concat (fr_chunks r))"
    "objects st (upload_parts md5 st b u ups fs) = objects st fs"
    "object_name b k \<Longrightarrow> blocked (upload_parts md5 st b u ups fs) (object_loc st b k) = blocked fs (object_loc st b k)"
proof -
  note s = files.fetch_store_all [OF upload_parts_stores [OF assms, THEN conjunct1, of md5]]
  show "map_of (rev ups) n = Some r \<Longrightarrow> read_at (upload_parts md5 st b u ups fs) (part_loc st b u n) = Some (concat (fr_chunks r))"
    by (simp add: s map_of_parts)
  show "objects st (upload_parts md5 st b u ups fs) = objects st fs"
    by (rule objects_cong) (simp add: s map_of_parts_other object_not_part)
  assume o: "object_name b k"
  have "take m (object_loc st b k) \<noteq> part_loc st b u n" for m n
    using below_take [of "multipart_loc st b u" m "object_loc st b k"] object_apart [OF o] part_below by metis
  then show "blocked (upload_parts md5 st b u ups fs) (object_loc st b k) = blocked fs (object_loc st b k)"
    using upload_parts_stores [OF assms, of md5] by (simp add: blocked_def s map_of_parts_other)
qed

section \<open>Opening and completing an upload\<close>

lemma no_dir_below: "fs_wf fs \<Longrightarrow> \<not> is_dir fs d \<Longrightarrow> below d q \<Longrightarrow> \<not> is_dir fs q"
  using dir_prefix [of fs q "length d"] by (auto simp: below_def)

lemma object_not_above: "object_name b' k \<Longrightarrow> object_loc st b' k \<noteq> take n (multipart_loc st b u)"
proof
  assume o: "object_name b' k" and e: "object_loc st b' k = take n (multipart_loc st b u)"
  obtain c cs where k: "key_steps k = c # cs" by (cases "key_steps k") (auto simp: key_steps_def)
  then have "c \<noteq> ''.veloce_multipart''" using o by (simp add: object_name_def)
  moreover have "object_loc st b' k ! length (bucket_loc st b') = c" using k by (simp add: object_loc_def nth_append)
  moreover have "length (bucket_loc st b') = length (bucket_loc st b)" by (simp add: bucket_loc_def)
  moreover have "length (bucket_loc st b') < length (object_loc st b' k)" using k by (simp add: object_loc_def)
  ultimately show False using e by (simp add: multipart_loc_def nth_append)
qed

lemma initiate_outcome:
  assumes "fs_wf fs" "upload_name st b u" "\<not> is_dir fs (multipart_loc st b u)"
    and "s3_initiate_multipart xml u st b k fs = (fs', rep)" "rp_status rep = 200"
  shows "upload_open st b u fs'" "objects st fs' = objects st fs"
    "object_name b k \<Longrightarrow> blocked fs' (object_loc st b k) = blocked fs (object_loc st b k)"
proof -
  obtain fs1 ok where c: "create_dir_all (multipart_loc st b u) fs = (fs1, ok)" by fastforce
  note d = create_dir_all_plain [OF part_plain(1) [OF assms(2)] assms(1) c]
  have ok: "ok" "fs' = fs1" using assms(2,4,5) c
    by (auto simp: s3_initiate_multipart_def part_steps upload_name_def answer_def split: if_splits option.splits)
  have "\<not> is_dir fs1 (part_loc st b u n)" for n
  proof
    assume "is_dir fs1 (part_loc st b u n)"
    moreover have "part_loc st b u n \<noteq> take m (multipart_loc st b u)" for m by (auto simp: part_loc_def dest: arg_cong [of _ _ length])
    ultimately show False using d(4) no_dir_below [OF assms(1,3) part_below] by blast
  qed
  then show "upload_open st b u fs'" using d(1,6) ok by (simp add: upload_open_def)
  show "objects st fs' = objects st fs" using objects_files [OF d(2)] ok by simp
  assume o: "object_name b k"
  have "is_dir fs1 (object_loc st b k) = is_dir fs (object_loc st b k)"
    using d(3) [of "object_loc st b k"] d(4) [of "object_loc st b k"] object_not_above [OF o] by blast
  then show "blocked fs' (object_loc st b k) = blocked fs (object_loc st b k)" using d(2) ok by (simp add: blocked_def read_at_def)
qed

definition part_data :: "app_state \<Rightarrow> string \<Rightarrow> string \<Rightarrow> fsys \<Rightarrow> nat \<times> string \<Rightarrow> string" where
  "part_data st b u fs = (\<lambda>(n, _). case read_at fs (part_loc st b u n) of Some d \<Rightarrow> d | None \<Rightarrow> [])"

definition part_ok :: "(string \<Rightarrow> string) \<Rightarrow> app_state \<Rightarrow> string \<Rightarrow> string \<Rightarrow> fsys \<Rightarrow> nat \<times> string \<Rightarrow> bool" where
  "part_ok md5 st b u fs = (\<lambda>(n, e). case read_at fs (part_loc st b u n) of Some d \<Rightarrow> md5 d = trim_quotes e | None \<Rightarrow> False)"

lemma copy_parts_ok:
  assumes "upload_name st b u" "fs_wf fs" "object_name b k" "list_all (part_ok md5 st b u fs) parts"
  shows "copy_parts md5 (multipart_dir st b u) (get_s3_file_path (as_staging_dir st) b k) parts fs acc =
    Copied (acc @ concat (map (part_data st b u fs) parts))"
  using assms(4)
proof (induction parts arbitrary: acc)
  case (Cons x parts)
  obtain n e where x: "x = (n, e)" by (cases x)
  then obtain d where d: "read_at fs (part_loc st b u n) = Some d" "md5 d = trim_quotes e"
    using Cons.prems by (auto simp: part_ok_def split: option.splits)
  have "resolve fs (part_path (multipart_dir st b u) n) = Some (part_loc st b u n)"
    using assms(1,2) part_plain(2) [OF assms(1)] fs_wf_file(2) [OF assms(2) d(1)] by (simp add: resolve_plain part_steps)
  moreover have "resolve fs (get_s3_file_path (as_staging_dir st) b k) \<noteq> Some (part_loc st b u n)"
    using assms(1,2) object_loc_plain(1) [OF _ assms(3)] object_not_part [OF assms(3)]
    by (auto simp: resolve_plain object_path_steps [OF assms(3)] upload_name_def)
  ultimately show ?case using Cons d x upload_path(2) [OF assms(1,2)] by (simp add: part_data_def)
qed simp

lemma hm_get_filter: "hm_get (filter (\<lambda>(q, _). P q) m) q = (if P q then hm_get m q else None)"
  by (induction m) (auto simp: hm_get_def)

lemma below_butlast:
  assumes "below d (butlast q)" shows "below d q"
proof (cases q rule: rev_cases)
  case (snoc q' x)
  then have "q' = d @ drop (length d) q'" using assms by (metis append_take_drop_id below_def butlast_snoc)
  then obtain t where "q' = d @ t" by blast
  then show ?thesis using snoc by (simp add: below_def)
qed (use assms in simp)

lemma remove_dir_all_plain:
  assumes "fs_wf fs" "plain_steps (path_steps p)" "is_dir fs (path_steps p)" "path_steps p \<noteq> []"
  obtains fs' where "remove_dir_all p fs = Some fs'" "fs_wf fs'"
    "\<And>q. read_at fs' q = (if below (path_steps p) q then None else read_at fs q)"
    "\<And>q. is_dir fs' q = (is_dir fs q \<and> \<not> below (path_steps p) q)"
proof -
  let ?d = "path_steps p"
  have "is_dir fs (butlast ?d)" using dir_prefix [OF assms(1,3), of "length ?d - 1"] by (simp add: butlast_conv_take)
  then have r: "resolve fs p = Some ?d" using assms by (simp add: resolve_plain)
  define fs' where "fs' = \<lparr>fs_dirs = filter (\<lambda>q. \<not> below ?d q) (fs_dirs fs), fs_files = filter (\<lambda>(q, _). \<not> below ?d q) (fs_files fs)\<rparr>"
  have rd: "read_at fs' q = (if below ?d q then None else read_at fs q)" for q
    by (simp add: fs'_def read_at_def hm_get_filter)
  have dir: "is_dir fs' q = (is_dir fs q \<and> \<not> below ?d q)" for q
    using assms(4) by (auto simp: fs'_def is_dir_def below_def)
  have "below ?d (butlast q) \<Longrightarrow> below ?d q" for q by (rule below_butlast)
  then have "fs_wf fs'" using assms(1) unfolding fs_wf_def dir rd by (auto simp: fs'_def)
  with r rd dir assms(3) that [of fs'] show ?thesis by (simp add: remove_dir_all_def fs'_def)
qed

text \<open>Completing an open upload whose parts are there.\<close>

definition completed :: "(string \<Rightarrow> string) \<Rightarrow> (string \<Rightarrow> string \<Rightarrow> string \<Rightarrow> string option) \<Rightarrow> string \<Rightarrow> string \<Rightarrow> nat \<Rightarrow> string \<Rightarrow> reply" where
  "completed md5 xml b k n data = (case xml b k (''\"'' @ md5 data @ ''-'' @ show_nat n @ ''\"'') of None \<Rightarrow> answer 500 [] | Some x \<Rightarrow> xml_reply x)"

lemma truncate_object:
  assumes "upload_name st b u" "upload_open st b u fs" "object_name b k" "\<not> blocked fs (object_loc st b k)"
  obtains fs1 fs2 where "create_parent (get_s3_file_path (as_staging_dir st) b k) fs = fs1"
    "create_file (get_s3_file_path (as_staging_dir st) b k) [] fs1 = Some fs2" "fs_wf fs2"
    "objects st fs2 = (objects st fs)((b, k) \<mapsto> [])" "\<And>n. read_at fs2 (part_loc st b u n) = read_at fs (part_loc st b u n)"
    "\<And>d. write_at (object_loc st b k) d fs2 \<noteq> None" "\<And>q. is_dir fs q \<Longrightarrow> is_dir fs2 q"
proof -
  let ?q = "object_loc st b k"
  have wf: "fs_wf fs" and st: "staging_plain st" using assms(1,2) by (auto simp: upload_open_def upload_name_def)
  note pl = object_loc_plain(1) [OF st assms(3)]
  have q: "?q \<noteq> []" by (simp add: object_loc_def bucket_loc_def)
  obtain fs1 ok where c: "create_dir_all (butlast ?q) fs = (fs1, ok)" by fastforce
  note d = create_dir_all_plain [OF plain_butlast [OF pl] wf c]
  have w: "write_at ?q x fs1 \<noteq> None" for x using write_after_parent [OF pl wf q c] assms(4) by simp
  obtain fs2 where f2: "write_at ?q [] fs1 = Some fs2" using w by blast
  have part: "read_at fs2 (part_loc st b u n) = read_at fs (part_loc st b u n)" for n
    using files.fetch_store [OF f2] object_not_part [OF assms(3), THEN not_sym] d(2) by (simp add: read_at_def)
  have "write_at ?q x fs2 \<noteq> None" for x using w [of x] write_dirs [OF f2] by (auto simp: write_at_def split: if_splits)
  then show ?thesis
    using f2 d(1,3) pl part objects_write [OF assms(3) f2] objects_files [OF d(2)] files.valid_store [OF d(1) f2] write_dirs [OF f2]
    by (intro that [of fs1 fs2]) (simp_all add: create_parent_def create_file_plain object_path_steps [OF assms(3)] c)
qed

lemma complete_outcome:
  assumes "upload_name st b u" "upload_open st b u fs" "object_name b k" "\<not> blocked fs (object_loc st b k)" "\<not> fr_broken r"
    and "from_xml (concat (fr_chunks r)) = Some parts" "list_all (part_ok md5 st b u fs) parts"
  obtains fs' rep where "s3_complete_multipart md5 from_xml xml st b k u r fs = Some (fs', rep)" "fs_wf fs'"
    "objects st fs' = (objects st fs)((b, k) \<mapsto> concat (map (part_data st b u fs) parts))" "\<not> is_dir fs' (multipart_loc st b u)"
    "\<forall>n. read_at fs' (part_loc st b u n) = None" "rep = completed md5 xml b k (length parts) (concat (map (part_data st b u fs) parts))"
proof -
  let ?p = "get_s3_file_path (as_staging_dir st) b k" and ?q = "object_loc st b k" and ?t = "multipart_dir st b u"
  let ?data = "concat (map (part_data st b u fs) parts)"
  have wf: "fs_wf fs" and dir: "is_dir fs (multipart_loc st b u)" using assms(2) by (auto simp: upload_open_def)
  have pl: "plain_steps ?q" "b \<noteq> ''legacy''" using object_loc_plain(1) assms(1,3) by (auto simp: upload_name_def)
  obtain fs1 fs2 where t: "create_parent ?p fs = fs1" "create_file ?p [] fs1 = Some fs2" "fs_wf fs2" "objects st fs2 = (objects st fs)((b, k) \<mapsto> [])"
      "\<And>n. read_at fs2 (part_loc st b u n) = read_at fs (part_loc st b u n)" "write_at ?q ?data fs2 \<noteq> None" "\<And>q. is_dir fs q \<Longrightarrow> is_dir fs2 q"
    using truncate_object [OF assms(1-4)] by metis
  from t(5) have "list_all (part_ok md5 st b u fs2) parts" "part_data st b u fs2 = part_data st b u fs"
    using assms(7) by (simp_all add: part_ok_def part_data_def fun_eq_iff)
  then have cp2: "copy_parts md5 ?t ?p parts fs2 [] = Copied ?data"
    using copy_parts_ok [OF assms(1) t(3) assms(3)] by simp
  obtain fs3 where f3: "write_at ?q ?data fs2 = Some fs3" using t(6) by blast
  have w3: "fs_wf fs3" by (rule files.valid_store [OF t(3) f3])
  have "is_dir fs3 (path_steps ?t)" using write_dirs [OF f3] t(7) dir by (simp add: part_steps [OF assms(1)])
  from remove_dir_all_plain [OF w3 _ this] part_plain(1) [OF assms(1)] obtain fs4 where f4: "remove_dir_all ?t fs3 = Some fs4" "fs_wf fs4"
      "\<And>q. read_at fs4 q = (if below (multipart_loc st b u) q then None else read_at fs3 q)"
      "\<And>q. is_dir fs4 q = (is_dir fs3 q \<and> \<not> below (multipart_loc st b u) q)"
    by (auto simp: part_steps [OF assms(1)] multipart_loc_def)
  have "objects st fs4 = objects st fs3" by (rule objects_cong) (simp add: f4(3) object_apart)
  then have o: "objects st fs4 = (objects st fs)((b, k) \<mapsto> ?data)"
    using objects_write [OF assms(3) f3] t(4) by simp
  have "path_exists fs ?t" using dir upload_path(1) [OF assms(1) wf] by (simp add: path_exists_def)
  then have "s3_complete_multipart md5 from_xml xml st b k u r fs =
      Some (fs4, completed md5 xml b k (length parts) ?data)"
    using assms(5,6) f3 f4(1) t(1-3) cp2 pl
    by (simp add: s3_complete_multipart_def Let_def create_file_plain object_path_steps [OF assms(3)] ignoring_def completed_def)
  then show ?thesis
    by (rule that) (auto simp: f4 o below_def part_below [unfolded below_def])
qed

lemma trim_quotes_quoted:
  assumes "CHR 0x22 \<notin> set s" shows "trim_quotes (''\"'' @ s @ ''\"'') = s"
proof -
  have q: "''\"'' \<noteq> []" by simp
  have "trim_end_matches CHR 0x22 (s @ ''\"'') = s"
    using assms by (cases s rule: rev_cases) (auto simp: trim_end_matches_def)
  moreover have "trim_start_matches ''\"'' (s @ ''\"'') = (if s = [] then [] else s @ ''\"'')"
    using assms trim_start_matches_prefix [OF q, of "[]"]
    by (cases s) (auto simp: starts_with_def intro!: trim_start_matches_id intro: trim_start_matches_id [THEN trans])
  ultimately show ?thesis unfolding trim_quotes_def trim_start_matches_prefix [OF q] by (simp add: trim_end_matches_def)
qed

text \<open>
  C40: an upload in parts that was opened under a fresh id, whose parts were all received and are listed with
  the ETags the server answered, assembles the object: it becomes the contents of the listed parts in the
  order of the list, each as it was last sent; no other object changes, and the parts are gone.
\<close>

theorem multipart_assembles:
  assumes "fs_wf fs" "upload_name st b u" "object_name b k" "\<not> is_dir fs (multipart_loc st b u)" "\<not> blocked fs (object_loc st b k)"
    and "s3_initiate_multipart initiate_xml u st b k fs = (fs1, rep1)" "rp_status rep1 = 200"
    and "\<forall>(n, r)\<in>set ups. \<not> fr_broken r" "\<And>s. CHR 0x22 \<notin> set (md5 s)"
    and "\<forall>(n, e)\<in>set parts. \<exists>r. map_of (rev ups) n = Some r \<and> e = ''\"'' @ md5 (concat (fr_chunks r)) @ ''\"''"
    and "from_xml (concat (fr_chunks r)) = Some parts" "\<not> fr_broken r"
  shows "\<exists>fs2 rep2. s3_complete_multipart md5 from_xml complete_xml st b k u r (upload_parts md5 st b u ups fs1) = Some (fs2, rep2) \<and>
    fs_wf fs2 \<and> objects st fs2 = (objects st fs)((b, k) \<mapsto> concat (map (\<lambda>(n, _). concat (fr_chunks (the (map_of (rev ups) n)))) parts)) \<and>
    \<not> is_dir fs2 (multipart_loc st b u) \<and> (\<forall>n. read_at fs2 (part_loc st b u n) = None) \<and>
    ((\<exists>xml. rep2 = xml_reply xml) \<or> rep2 = answer 500 [])"
proof -
  note i = initiate_outcome [OF assms(1,2,4,6,7)]
  let ?fs = "upload_parts md5 st b u ups fs1"
  note f = upload_parts_files [OF assms(2) i(1) assms(8)]
  have p: "part_ok md5 st b u ?fs x \<and> part_data st b u ?fs x = concat (fr_chunks (the (map_of (rev ups) (fst x))))" if "x \<in> set parts" for x
    using that assms(10) f(1) trim_quotes_quoted [OF assms(9)] by (fastforce simp: part_ok_def part_data_def)
  then have ok: "list_all (part_ok md5 st b u ?fs) parts" by (simp add: list_all_iff)
  have data: "map (part_data st b u ?fs) parts = map (\<lambda>(n, _). concat (fr_chunks (the (map_of (rev ups) n)))) parts"
    using p by (auto simp: case_prod_beta)
  have opened: "upload_open st b u ?fs" using upload_parts_stores [OF assms(2) i(1) assms(8)] by simp
  have free: "\<not> blocked ?fs (object_loc st b k)" using assms(3,5) f(3) [of k md5] i(3) by simp
  obtain fs2 rep2 where "s3_complete_multipart md5 from_xml complete_xml st b k u r ?fs = Some (fs2, rep2)" "fs_wf fs2"
      "objects st fs2 = (objects st ?fs)((b, k) \<mapsto> concat (map (part_data st b u ?fs) parts))" "\<not> is_dir fs2 (multipart_loc st b u)"
      "\<forall>n. read_at fs2 (part_loc st b u n) = None" "rep2 = completed md5 complete_xml b k (length parts) (concat (map (part_data st b u ?fs) parts))"
    using complete_outcome [where from_xml = from_xml and xml = complete_xml, OF assms(2) opened assms(3) free assms(12,11) ok] by blast
  then show ?thesis unfolding data f(2) i(2) by (auto simp: completed_def split: option.split)
qed

theorem multipart_assembles_witness:
  "\<exists>fs2 rep2. s3_complete_multipart (\<lambda>_. ''d'') (\<lambda>_. Some [(2, ''\"d\"''), (1, ''\"d\"'')]) (\<lambda>_ _ _. Some []) sample_store ''b'' ''x/y'' ''u'' (sample_body [''z''])
      (upload_parts (\<lambda>_. ''d'') sample_store ''b'' ''u'' [(1, sample_body [''p'', ''q'']), (2, sample_body [''r''])]
        (fst (s3_initiate_multipart (\<lambda>_ _ _. Some []) ''u'' sample_store ''b'' ''x/y'' no_files))) = Some (fs2, rep2) \<and>
    objects sample_store fs2 (''b'', ''x/y'') = Some ''rpq''"
proof -
  let ?ups = "[(1, sample_body [''p'', ''q'']), (2, sample_body [''r''])]"
  obtain fs1 rep1 where i: "s3_initiate_multipart (\<lambda>_ _ _. Some []) ''u'' sample_store ''b'' ''x/y'' no_files = (fs1, rep1)" by fastforce
  have n: "upload_name sample_store ''b'' ''u''" "object_name ''b'' ''x/y''" by code_simp+
  have e: "\<not> is_dir no_files (multipart_loc sample_store ''b'' ''u'')" "\<not> blocked no_files (object_loc sample_store ''b'' ''x/y'')"
    by (simp_all add: no_files_def blocked_def is_dir_def read_at_def multipart_loc_def object_loc_def bucket_loc_def hm_get_def)
  have "rp_status (snd (s3_initiate_multipart (\<lambda>_ _ _. Some []) ''u'' sample_store ''b'' ''x/y'' no_files)) = 200" by code_simp
  then have s: "rp_status rep1 = 200" using i by simp
  note m = multipart_assembles [where ?md5.0 = "\<lambda>_. ''d''" and ups = ?ups and parts = "[(2, ''\"d\"''), (1, ''\"d\"'')]" and complete_xml = "\<lambda>_ _ _. Some []" and
        from_xml = "\<lambda>_. Some [(2, ''\"d\"''), (1, ''\"d\"'')]" and r = "sample_body [''z'']", OF no_files_wf n e i s]
  show ?thesis using m by (auto simp: i sample_body_def)
qed

section \<open>What the path of a key allows\<close>

text \<open>
  C1: a key with \<open>..\<close> leaves the directory of the server: with the staging directory \<open>/s\<close>, a PUT to the key
  \<open>../../../etc/x\<close> answers 200 and writes the file \<open>/etc/x\<close>, whatever is stored.
\<close>

theorem s3_key_escapes:
  assumes "\<not> hm_contains (fs_files fs) [''s'']" "\<not> hm_contains (fs_files fs) [''s'', ''s3'']" "\<not> hm_contains (fs_files fs) [''s'', ''s3'', ''b'']"
    and "is_dir fs [''etc'']" "\<not> is_dir fs [''etc'', ''x'']" "\<not> hm_contains (fs_files fs) [''etc'']" "meta_headers r = []" "\<not> fr_broken r"
  shows "rp_status (snd (s3_put_object to_json sample_store ''b'' ''../../../etc/x'' r fs)) = 200 \<and>
    read_at (fst (s3_put_object to_json sample_store ''b'' ''../../../etc/x'' r fs)) [''etc'', ''x''] = Some (concat (fr_chunks r))"
proof -
  have p: "path_steps (get_s3_bucket_dir (as_staging_dir sample_store) ''b'') = [''s'', ''s3'', ''b'']"
      "path_steps (get_s3_file_path (as_staging_dir sample_store) ''b'' ''../../../etc/x'') = [''s'', ''s3'', ''b'', ''..'', ''..'', ''..'', ''etc'', ''x'']"
    by code_simp+
  show ?thesis using assms
    by (simp add: s3_put_object_def Let_def p create_parent_def write_meta_def create_file_def resolve_def
        create_dir_all_def add_dir_def step_to_def is_dir_def hm_contains_def write_at_def read_at_def answer_def)
qed

text \<open>
  completing an upload truncates the object before it looks at the parts: one wrong ETag answers 400 and
  the object that was there before is gone.
\<close>

theorem wrong_etag_destroys:
  assumes "upload_name st b u" "upload_open st b u fs" "object_name b k" "\<not> blocked fs (object_loc st b k)" "\<not> fr_broken r"
    and "from_xml (concat (fr_chunks r)) = Some ((n, e) # parts)" "read_at fs (part_loc st b u n) = Some d" "md5 d \<noteq> trim_quotes e"
  shows "\<exists>fs'. s3_complete_multipart md5 from_xml xml st b k u r fs = Some (fs', answer 400 (''ETag mismatch for part '' @ show_nat n)) \<and>
    objects st fs' = (objects st fs)((b, k) := None)"
proof -
  let ?p = "get_s3_file_path (as_staging_dir st) b k" and ?q = "object_loc st b k" and ?t = "multipart_dir st b u"
  have wf: "fs_wf fs" and dir: "is_dir fs (multipart_loc st b u)" using assms(2) by (auto simp: upload_open_def)
  obtain fs1 fs2 where t: "create_parent ?p fs = fs1" "create_file ?p [] fs1 = Some fs2" "fs_wf fs2"
      "objects st fs2 = (objects st fs)((b, k) \<mapsto> [])" "\<And>n. read_at fs2 (part_loc st b u n) = read_at fs (part_loc st b u n)"
    using truncate_object [OF assms(1-4)] by metis
  have pl: "plain_steps ?q" using object_loc_plain(1) assms(1,3) by (simp add: upload_name_def)
  have "read_at fs2 ?q = Some []" using fun_cong [OF t(4), of "(b, k)"] assms(3) by (simp add: objects_def)
  then obtain fs3 where f3: "delete_at ?q fs2 = Some fs3" using files.delete_iff [of ?q fs2] by auto
  have "copy_parts md5 ?t ?p ((n, e) # parts) fs2 [] = WrongETag n"
    using assms(7,8) t(5) upload_path(2) [OF assms(1) t(3)] by simp
  moreover have "path_exists fs ?t" using dir upload_path(1) [OF assms(1) wf] by (simp add: path_exists_def)
  ultimately have "s3_complete_multipart md5 from_xml xml st b k u r fs = Some (fs3, answer 400 (''ETag mismatch for part '' @ show_nat n))"
    using assms(1,5,6) t(1-3) f3 pl
    by (simp add: s3_complete_multipart_def Let_def upload_name_def remove_file_plain object_path_steps [OF assms(3)] ignoring_def del: copy_parts.simps)
  then show ?thesis using objects_delete [OF assms(3) f3] t(4) by simp
qed

theorem s3_key_escapes_witness:
  "rp_status (snd (s3_put_object (\<lambda>_. None) sample_store ''b'' ''../../../etc/x'' (sample_body [''z'']) \<lparr>fs_dirs = [[''etc'']], fs_files = []\<rparr>)) = 200"
  using s3_key_escapes [of "\<lparr>fs_dirs = [[''etc'']], fs_files = []\<rparr>" "sample_body [''z'']" "\<lambda>_. None"]
  by (simp add: is_dir_def hm_contains_def hm_get_def sample_body_def meta_headers_def)

text \<open>A bucket with an object \<open>x\<close>, and an upload with one part.\<close>

definition sample_upload :: fsys where
  "sample_upload = \<lparr>fs_dirs = [[''s''], [''s'', ''s3''], [''s'', ''s3'', ''b''], [''s'', ''s3'', ''b'', ''.veloce_multipart''], [''s'', ''s3'', ''b'', ''.veloce_multipart'', ''u'']],
     fs_files = [([''s'', ''s3'', ''b'', ''x''], ''old''), ([''s'', ''s3'', ''b'', ''.veloce_multipart'', ''u'', ''1''], ''new'')]\<rparr>"

theorem wrong_etag_destroys_witness:
  "objects sample_store sample_upload (''b'', ''x'') = Some ''old'' \<and>
   (\<exists>fs'. s3_complete_multipart (\<lambda>_. ''d'') (\<lambda>_. Some [(1, ''e'')]) (\<lambda>_ _ _. None) sample_store ''b'' ''x'' ''u'' (sample_body []) sample_upload =
      Some (fs', answer 400 (''ETag mismatch for part '' @ show_nat 1)) \<and> objects sample_store fs' (''b'', ''x'') = None)"
proof -
  have loc: "bucket_loc sample_store ''b'' = [''s'', ''s3'', ''b'']" "object_loc sample_store ''b'' ''x'' = [''s'', ''s3'', ''b'', ''x'']" by code_simp+
  have n: "upload_name sample_store ''b'' ''u''" "object_name ''b'' ''x''" by code_simp+
  have wf: "fs_wf sample_upload" by (auto simp: fs_wf_def sample_upload_def is_dir_def read_at_def hm_get_def split: if_splits)
  have "\<not> is_dir sample_upload (part_loc sample_store ''b'' ''u'' m)" for m
    by (simp add: sample_upload_def is_dir_def part_loc_def multipart_loc_def loc)
  then have o: "upload_open sample_store ''b'' ''u'' sample_upload" using wf
    by (simp add: upload_open_def multipart_loc_def loc) (simp add: sample_upload_def is_dir_def)
  have f: "\<not> blocked sample_upload (object_loc sample_store ''b'' ''x'')" by code_simp
  have p: "read_at sample_upload (part_loc sample_store ''b'' ''u'' 1) = Some ''new''" by code_simp
  have "objects sample_store sample_upload (''b'', ''x'') = Some ''old''" using n(2) by (simp add: objects_def loc) code_simp
  with wrong_etag_destroys [where ?md5.0 = "\<lambda>_. ''d''" and from_xml = "\<lambda>_. Some [(1, ''e'')]" and r = "sample_body []" and xml = "\<lambda>_ _ _. None" and e = "''e''" and parts = "[]",
      OF n(1) o n(2) f _ _ p]
  show ?thesis by (auto simp: sample_body_def trim_quotes_def trim_start_matches_id starts_with_def trim_end_matches_def)
qed

end
